(* ===== verification/Prelude.thy ===== *)
theory Prelude imports Complex_Main "HOL-Library.Word" "HOL-Library.AList" "HOL-Library.Product_Lexorder" begin

section \<open>Prelude: shared vocabulary of the development\<close>

text \<open>
  What the component theories share and what is not specific to one of them:
  \<^item> the collections of facts the proofs draw on;
  \<^item> the iterator functions of the Rust standard library that the program uses on vectors
    (the first match updated in place, the first minimum by a key, the last maximum by a key);
  \<^item> the standard library's hash map, whose iteration order is unspecified, with the
    interface \<open>kv_store\<close> its clients rely on;
  \<^item> runs of a stateful component and the interfaces \<open>machine\<close> (an invariant every operation
    keeps) and \<open>refines\<close> (an abstract acceptor that follows every operation).
\<close>

named_theorems hm_simps \<open>equations of the hash map operations\<close>
named_theorems frame_simps \<open>fields an operation does not write\<close>
named_theorems step_intros \<open>operations that keep the invariant and follow the acceptor\<close>

type_synonym byte = "8 word"
type_synonym u32 = "32 word"
type_synonym u64 = "64 word"

subsection \<open>Vectors\<close>

text \<open>\<open>iter_mut().find(p)\<close> followed by a write through the reference: the first match changes.\<close>

fun update_first :: "('a \<Rightarrow> bool) \<Rightarrow> ('a \<Rightarrow> 'a) \<Rightarrow> 'a list \<Rightarrow> 'a list" where
  "update_first p f [] = []"
| "update_first p f (x # xs) = (if p x then f x # xs else x # update_first p f xs)"

text \<open>\<open>Iterator::min_by_key\<close> returns the first of several minima, \<open>max_by_key\<close> the last maximum.\<close>

fun min_by_key :: "('a \<Rightarrow> 'k::linorder) \<Rightarrow> 'a list \<Rightarrow> 'a option" where
  "min_by_key k [] = None"
| "min_by_key k (x # xs) =
     (case min_by_key k xs of None \<Rightarrow> Some x | Some y \<Rightarrow> if k x \<le> k y then Some x else Some y)"

fun max_by_key :: "('a \<Rightarrow> 'k::linorder) \<Rightarrow> 'a list \<Rightarrow> 'a option" where
  "max_by_key k [] = None"
| "max_by_key k (x # xs) =
     (case max_by_key k xs of None \<Rightarrow> Some x | Some y \<Rightarrow> if k y < k x then Some x else Some y)"

lemma length_update_first [simp]: "length (update_first p f xs) = length xs"
  by (induction xs) auto

lemma update_first_nil_iff [simp]: "update_first p f xs = [] \<longleftrightarrow> xs = []"
  by (cases xs) auto

lemma map_update_first [simp]: "(\<And>x. g (f x) = g x) \<Longrightarrow> map g (update_first p f xs) = map g xs"
  by (induction xs) auto

lemma update_first_none: "\<forall>x \<in> set xs. \<not> p x \<Longrightarrow> update_first p f xs = xs"
  by (induction xs) auto

lemma set_update_first: "y \<in> set (update_first p f xs) \<Longrightarrow> y \<in> set xs \<or> (\<exists>x \<in> set xs. p x \<and> y = f x)"
  by (induction xs) (auto split: if_splits)

lemma list_all_update_first:
  "list_all q xs \<Longrightarrow> (\<And>x. x \<in> set xs \<Longrightarrow> p x \<Longrightarrow> q x \<Longrightarrow> q (f x)) \<Longrightarrow> list_all q (update_first p f xs)"
  by (auto simp: list_all_iff dest!: set_update_first)

lemma find_update_first:
  "(\<And>x. p (f x) = p x) \<Longrightarrow> find p (update_first p f xs) = map_option f (find p xs)"
  by (induction xs) auto

lemma find_update_first_other:
  "(\<And>x. p x \<Longrightarrow> \<not> q x) \<Longrightarrow> (\<And>x. p x \<Longrightarrow> \<not> q (f x)) \<Longrightarrow> find q (update_first p f xs) = find q xs"
  by (induction xs) auto

lemma min_by_key_None [simp]: "min_by_key k xs = None \<longleftrightarrow> xs = []"
  by (cases xs) (auto split: option.splits)

lemma min_by_key_in: "min_by_key k xs = Some y \<Longrightarrow> y \<in> set xs"
  by (induction xs arbitrary: y) (auto split: option.splits if_splits)

lemma min_by_key_le: "min_by_key k xs = Some y \<Longrightarrow> x \<in> set xs \<Longrightarrow> k y \<le> k x"
  by (induction xs arbitrary: y x) (auto split: option.splits if_splits, force+)

lemma max_by_key_None [simp]: "max_by_key k xs = None \<longleftrightarrow> xs = []"
  by (cases xs) (auto split: option.splits)

lemma max_by_key_in: "max_by_key k xs = Some y \<Longrightarrow> y \<in> set xs"
  by (induction xs arbitrary: y) (auto split: option.splits if_splits)

lemma max_by_key_ge: "max_by_key k xs = Some y \<Longrightarrow> x \<in> set xs \<Longrightarrow> k x \<le> k y"
  by (induction xs arbitrary: y x) (auto split: option.splits if_splits, force+)

lemma find_Some_in: "find p xs = Some x \<Longrightarrow> x \<in> set xs \<and> p x"
  by (induction xs) (auto split: if_splits)

lemma find_append: "find p (xs @ ys) = (case find p xs of Some y \<Rightarrow> Some y | None \<Rightarrow> find p ys)"
  by (induction xs) auto

lemma find_distinct_key:
  "distinct (map g xs) \<Longrightarrow> x \<in> set xs \<Longrightarrow> find (\<lambda>y. g y = g x) xs = Some x"
  by (induction xs) (auto simp: image_iff)

subsection \<open>The hash map of the standard library\<close>

text \<open>
  The entries in insertion order, and the order in which an iteration visits them: a hash map
  visits its keys in an order the caller cannot know, so the model keeps an arbitrary ranking of
  the keys, which may depend on the whole list of keys, and visits them sorted by it. Every
  statement about a map holds for every ranking.
\<close>

record ('k, 'v) hash_map =
  hm_entries :: "('k \<times> 'v) list"
  hm_rank :: "'k list \<Rightarrow> 'k \<Rightarrow> nat"

definition hm_empty :: "('k list \<Rightarrow> 'k \<Rightarrow> nat) \<Rightarrow> ('k, 'v) hash_map" where
  "hm_empty r = \<lparr>hm_entries = [], hm_rank = r\<rparr>"

definition hm_get :: "('k, 'v) hash_map \<Rightarrow> 'k \<Rightarrow> 'v option" where
  "hm_get m k = map_of (hm_entries m) k"

definition hm_insert :: "'k \<Rightarrow> 'v \<Rightarrow> ('k, 'v) hash_map \<Rightarrow> ('k, 'v) hash_map" where
  "hm_insert k v m = m\<lparr>hm_entries := AList.update k v (hm_entries m)\<rparr>"

definition hm_remove :: "'k \<Rightarrow> ('k, 'v) hash_map \<Rightarrow> ('k, 'v) hash_map" where
  "hm_remove k m = m\<lparr>hm_entries := AList.delete k (hm_entries m)\<rparr>"

text \<open>\<open>iter()\<close>: the entries in the order of the ranking; \<open>iter_mut()\<close>: a new value for each.\<close>

definition hm_iter :: "('k, 'v) hash_map \<Rightarrow> ('k \<times> 'v) list" where
  "hm_iter m = sort_key (\<lambda>e. hm_rank m (map fst (hm_entries m)) (fst e)) (hm_entries m)"

definition hm_map :: "('v \<Rightarrow> 'v) \<Rightarrow> ('k, 'v) hash_map \<Rightarrow> ('k, 'v) hash_map" where
  "hm_map f m = m\<lparr>hm_entries := map (\<lambda>(k, v). (k, f v)) (hm_entries m)\<rparr>"

definition hm_wf :: "('k, 'v) hash_map \<Rightarrow> bool" where
  "hm_wf m \<longleftrightarrow> distinct (map fst (hm_entries m))"

lemma hm_get_empty [hm_simps]: "hm_get (hm_empty r) k = None"
  by (simp add: hm_get_def hm_empty_def)

lemma hm_get_insert [hm_simps]: "hm_get (hm_insert k v m) k' = (if k' = k then Some v else hm_get m k')"
  by (simp add: hm_get_def hm_insert_def update_conv')

lemma hm_get_remove [hm_simps]: "hm_get (hm_remove k m) k' = (if k' = k then None else hm_get m k')"
  by (simp add: hm_get_def hm_remove_def delete_conv')

lemma hm_get_map [hm_simps]: "hm_get (hm_map f m) k = map_option f (hm_get m k)"
  by (simp add: hm_get_def hm_map_def map_of_map)

lemma hm_wf_empty [hm_simps]: "hm_wf (hm_empty r)"
  by (simp add: hm_wf_def hm_empty_def)

lemma hm_wf_insert [hm_simps]: "hm_wf m \<Longrightarrow> hm_wf (hm_insert k v m)"
  by (simp add: hm_wf_def hm_insert_def distinct_update)

lemma hm_wf_remove [hm_simps]: "hm_wf m \<Longrightarrow> hm_wf (hm_remove k m)"
  by (simp add: hm_wf_def hm_remove_def distinct_delete)

lemma hm_wf_map [hm_simps]: "hm_wf (hm_map f m) = hm_wf m"
  by (simp add: hm_wf_def hm_map_def comp_def case_prod_unfold)

lemma set_hm_iter: "set (hm_iter m) = set (hm_entries m)"
  by (simp add: hm_iter_def)

lemma hm_iter_get: "hm_wf m \<Longrightarrow> (k, v) \<in> set (hm_iter m) \<longleftrightarrow> hm_get m k = Some v"
  by (simp add: set_hm_iter hm_get_def hm_wf_def)

lemma distinct_hm_iter: "hm_wf m \<Longrightarrow> distinct (map fst (hm_iter m))"
proof -
  assume "hm_wf m"
  then have "distinct (hm_entries m)" and inj: "inj_on fst (set (hm_entries m))"
    by (simp_all add: hm_wf_def distinct_map)
  then have "distinct (hm_iter m)" by (simp add: hm_iter_def)
  with inj show ?thesis by (simp add: distinct_map set_hm_iter)
qed

text \<open>
  What the clients of a key-value store rely on: a lookup after an update, and an iteration that
  visits every binding exactly once, in some order.
\<close>

locale kv_store =
  fixes get :: "'m \<Rightarrow> 'k \<Rightarrow> 'v option"
    and ins :: "'k \<Rightarrow> 'v \<Rightarrow> 'm \<Rightarrow> 'm"
    and del :: "'k \<Rightarrow> 'm \<Rightarrow> 'm"
    and iter :: "'m \<Rightarrow> ('k \<times> 'v) list"
    and ok :: "'m \<Rightarrow> bool"
  assumes get_ins: "get (ins k v m) k' = (if k' = k then Some v else get m k')"
    and get_del: "get (del k m) k' = (if k' = k then None else get m k')"
    and iter_get: "ok m \<Longrightarrow> (k, v) \<in> set (iter m) \<longleftrightarrow> get m k = Some v"
    and iter_keys: "ok m \<Longrightarrow> distinct (map fst (iter m))"
    and ok_ins: "ok m \<Longrightarrow> ok (ins k v m)"
    and ok_del: "ok m \<Longrightarrow> ok (del k m)"
begin

lemma kv_any: "ok m \<Longrightarrow> (\<exists>e \<in> set (iter m). q (snd e)) \<longleftrightarrow> (\<exists>k v. get m k = Some v \<and> q v)"
proof -
  assume m: "ok m"
  show ?thesis
  proof
    assume "\<exists>e \<in> set (iter m). q (snd e)"
    then obtain k v where "(k, v) \<in> set (iter m)" and "q v" by auto
    with iter_get [OF m] show "\<exists>k v. get m k = Some v \<and> q v" by blast
  next
    assume "\<exists>k v. get m k = Some v \<and> q v"
    then obtain k v where "get m k = Some v" and "q v" by auto
    with iter_get [OF m] have "(k, v) \<in> set (iter m)" by blast
    with \<open>q v\<close> show "\<exists>e \<in> set (iter m). q (snd e)" by force
  qed
qed

lemma kv_none: "ok m \<Longrightarrow> iter m = [] \<longleftrightarrow> (\<forall>k. get m k = None)"
proof -
  assume m: "ok m"
  show ?thesis
  proof
    assume "iter m = []"
    then show "\<forall>k. get m k = None" using iter_get [OF m] by (metis empty_iff list.set(1) option.exhaust)
  next
    assume n: "\<forall>k. get m k = None"
    then have "\<And>e. e \<notin> set (iter m)" using iter_get [OF m] by (metis option.distinct(1) surj_pair)
    then show "iter m = []" by (cases "iter m") auto
  qed
qed

lemma kv_del_all: "ok m \<Longrightarrow> ok (fold del ks m)"
  by (induction ks arbitrary: m) (auto intro: ok_del)

lemma kv_get_del_all: "get (fold del ks m) k = (if k \<in> set ks then None else get m k)"
  by (induction ks arbitrary: m) (auto simp: get_del)

end

interpretation hm: kv_store hm_get hm_insert hm_remove hm_iter hm_wf
  by unfold_locales (auto simp: hm_simps hm_iter_get distinct_hm_iter)

subsection \<open>Runs of a stateful component\<close>

text \<open>A component's operation on its state returns the new state and what it emits.\<close>

fun run :: "('s \<Rightarrow> 'i \<Rightarrow> 's \<times> 'o list) \<Rightarrow> 's \<Rightarrow> 'i list \<Rightarrow> 's \<times> 'o list" where
  "run step s [] = (s, [])"
| "run step s (i # is) =
     (case step s i of (s', os) \<Rightarrow> (case run step s' is of (s'', os') \<Rightarrow> (s'', os @ os')))"

lemma run_append:
  "run step s (is @ js) =
     (case run step s is of (s', os) \<Rightarrow> (case run step s' js of (s'', os') \<Rightarrow> (s'', os @ os')))"
  by (induction "is" arbitrary: s) (auto split: prod.splits)

text \<open>Operations that emit nothing: the run is a fold.\<close>

lemma run_silent: "fst (run (\<lambda>s i. (f i s, [])) s is) = fold f is s"
  by (induction "is" arbitrary: s) (auto simp: case_prod_unfold)

text \<open>An acceptor reads what a component emits, one event at a time, and refuses with \<open>None\<close>.\<close>

fun accepts :: "('p \<Rightarrow> 'o \<Rightarrow> 'p option) \<Rightarrow> 'p \<Rightarrow> 'o list \<Rightarrow> 'p option" where
  "accepts acc p [] = Some p"
| "accepts acc p (e # es) = (case acc p e of None \<Rightarrow> None | Some p' \<Rightarrow> accepts acc p' es)"

lemma accepts_append:
  "accepts acc p (es @ fs) = (case accepts acc p es of None \<Rightarrow> None | Some p' \<Rightarrow> accepts acc p' fs)"
  by (induction es arbitrary: p) (auto split: option.splits)

text \<open>The interface of a component with an invariant: every operation keeps it.\<close>

locale machine =
  fixes step :: "'s \<Rightarrow> 'i \<Rightarrow> 's \<times> 'o list"
    and inv :: "'s \<Rightarrow> bool"
  assumes step_inv: "inv s \<Longrightarrow> inv (fst (step s i))"
begin

lemma run_inv: "inv s \<Longrightarrow> inv (fst (run step s is))"
proof (induction "is" arbitrary: s)
  case Nil
  then show ?case by simp
next
  case (Cons i "is")
  from Cons.IH [OF step_inv [OF Cons.prems, of i]] show ?case
    by (auto split: prod.splits)
qed

end

text \<open>
  The interface of a component that implements an abstract protocol: the acceptor's state is a
  function of the component's state, and the acceptor follows every operation.
\<close>

locale refines = machine step inv
  for step :: "'s \<Rightarrow> 'i \<Rightarrow> 's \<times> 'o list" and inv :: "'s \<Rightarrow> bool" +
  fixes acc :: "'p \<Rightarrow> 'o \<Rightarrow> 'p option"
    and abs :: "'s \<Rightarrow> 'p"
  assumes step_follows: "inv s \<Longrightarrow> accepts acc (abs s) (snd (step s i)) = Some (abs (fst (step s i)))"
begin

lemma run_follows: "inv s \<Longrightarrow> accepts acc (abs s) (snd (run step s is)) = Some (abs (fst (run step s is)))"
proof (induction "is" arbitrary: s)
  case Nil
  then show ?case by simp
next
  case (Cons i "is")
  from Cons.IH [OF step_inv [OF Cons.prems, of i]] step_follows [OF Cons.prems, of i]
  show ?case by (auto simp: accepts_append split: prod.splits)
qed

end

end
