(* ===== verification/Text.thy ===== *)
theory Text imports Prelude begin

section \<open>Text: Rust strings as UTF-8 byte sequences\<close>

text \<open>
  A Rust \<open>String\<close> or \<open>&str\<close> is a sequence of UTF-8 bytes and every offset the program
  computes (\<open>find\<close>, \<open>len\<close>, slices) is a byte offset, so a string of the model is a list of
  bytes, written as HOL's \<open>string\<close> (a \<open>char\<close> is a byte). This theory holds the functions of
  \<open>str\<close> and \<open>char\<close> that the program calls: searching and slicing, UTF-8 decoding (strict, and
  lossy as \<open>String::from_utf8_lossy\<close>), trimming of Unicode white space, and the case mappings.

  Slicing at an offset that is not a character boundary panics in Rust. The last section shows
  that the offsets \<open>find\<close> returns for an ASCII pattern are character boundaries of valid UTF-8,
  so the slices the program takes with \<open>take\<close> and \<open>drop\<close> here do not hide a panic.
\<close>

subsection \<open>Searching\<close>

fun starts_with :: "string \<Rightarrow> string \<Rightarrow> bool" where
  "starts_with s [] = True"
| "starts_with [] (p # ps) = False"
| "starts_with (c # cs) (p # ps) = (c = p \<and> starts_with cs ps)"

definition ends_with :: "string \<Rightarrow> string \<Rightarrow> bool" where
  "ends_with s p = starts_with (rev s) (rev p)"

text \<open>\<open>s.find(p)\<close>: the offset of the first occurrence.\<close>

fun find_sub :: "string \<Rightarrow> string \<Rightarrow> nat option" where
  "find_sub [] p = (if p = [] then Some 0 else None)"
| "find_sub (c # cs) p = (if starts_with (c # cs) p then Some 0 else map_option Suc (find_sub cs p))"

text \<open>\<open>parts.join(sep)\<close>\<close>

fun join_strings :: "string \<Rightarrow> string list \<Rightarrow> string" where
  "join_strings sep [] = []"
| "join_strings sep [s] = s"
| "join_strings sep (s # t # r) = s @ sep @ join_strings sep (t # r)"

definition contains :: "string \<Rightarrow> string \<Rightarrow> bool" where
  "contains s p = (find_sub s p \<noteq> None)"

lemma starts_with_iff: "starts_with s p \<longleftrightarrow> (\<exists>t. s = p @ t)"
  by (induction s p rule: starts_with.induct) auto

lemma starts_with_take: "starts_with s p \<longleftrightarrow> take (length p) s = p"
  by (auto simp: starts_with_iff) (metis append_take_drop_id)

lemma starts_with_length: "starts_with s p \<Longrightarrow> length p \<le> length s"
  by (auto simp: starts_with_iff)

lemma find_sub_Some:
  "find_sub s p = Some i \<Longrightarrow> starts_with (drop i s) p \<and> i + length p \<le> length s"
  by (induction s arbitrary: i) (auto split: if_splits dest: starts_with_length)

lemma find_sub_first: "find_sub s p = Some i \<Longrightarrow> j < i \<Longrightarrow> \<not> starts_with (drop j s) p"
proof (induction s arbitrary: i j)
  case Nil
  then show ?case by (auto split: if_splits)
next
  case (Cons c cs)
  show ?case
  proof (cases j)
    case 0
    with Cons.prems show ?thesis by (auto split: if_splits)
  next
    case (Suc j')
    with Cons show ?thesis by (auto split: if_splits)
  qed
qed

lemma find_sub_None: "find_sub s p = None \<Longrightarrow> p \<noteq> [] \<Longrightarrow> \<not> starts_with (drop i s) p"
proof (induction s arbitrary: i)
  case Nil
  then show ?case by (cases p) auto
next
  case (Cons c cs)
  then show ?case by (cases i) (auto split: if_splits)
qed

lemma find_sub_length: "find_sub s p = Some i \<Longrightarrow> p \<noteq> [] \<Longrightarrow> i < length s"
  by (drule find_sub_Some) (cases p, auto)

lemma find_sub_cong_nonempty: "p \<noteq> [] \<Longrightarrow> find_sub [] p = None"
  by simp

text \<open>
  A pattern whose first character does not occur again in it cannot overlap itself, so its first
  occurrence in a text that appends it to a prefix without it is where it was appended.
\<close>

lemma find_sub_append:
  assumes "find_sub pre (c # q) = None" and c: "c \<notin> set q"
  shows "find_sub (pre @ (c # q) @ post) (c # q) = Some (length pre)"
  using assms(1)
proof (induction pre)
  case Nil
  have "starts_with ((c # q) @ post) (c # q)" by (auto simp: starts_with_iff)
  then show ?case by simp
next
  case (Cons a pre)
  from Cons.prems have n: "\<not> starts_with (a # pre) (c # q)" and pre: "find_sub pre (c # q) = None"
    by (auto split: if_splits)
  have "\<not> starts_with (a # pre @ (c # q) @ post) (c # q)"
  proof
    assume "starts_with (a # pre @ (c # q) @ post) (c # q)"
    then obtain t where t: "(a # pre) @ (c # q) @ post = (c # q) @ t" by (auto simp: starts_with_iff)
    show False
    proof (cases "length q < length (a # pre)")
      case True
      from t have "take (length (c # q)) ((a # pre) @ (c # q) @ post) = c # q" by simp
      with True have "take (length (c # q)) (a # pre) = c # q" by simp
      then have "starts_with (a # pre) (c # q)" by (simp only: starts_with_take)
      with n show False by simp
    next
      case False
      then have "length pre < length q" by simp
      moreover from t have "pre @ c # q @ post = q @ t" by simp
      then have "(q @ t) ! length pre = c" by (metis nth_append_length)
      ultimately have "q ! length pre = c" by (simp add: nth_append)
      with c \<open>length pre < length q\<close> show False by (metis nth_mem)
    qed
  qed
  with pre Cons.IH show ?case by simp
qed

lemma find_sub_single: "c \<notin> set s \<Longrightarrow> find_sub (s @ c # post) [c] = Some (length s)"
  using find_sub_append [of s c "[]" post] by (induction s) auto

lemma find_sub_absent: "c \<notin> set s \<Longrightarrow> find_sub s (c # q) = None"
  by (induction s) auto

subsection \<open>UTF-8\<close>

definition byte_of :: "char \<Rightarrow> nat" where
  "byte_of c = of_char c"

definition is_cont :: "nat \<Rightarrow> bool" where
  "is_cont b \<longleftrightarrow> 128 \<le> b \<and> b \<le> 191"

text \<open>
  The first character: its code point and its width in bytes, or, for an ill-formed sequence,
  \<open>None\<close> and the number of bytes that the decoder replaces by one U+FFFD.
\<close>

definition second_ok :: "nat \<Rightarrow> nat \<Rightarrow> bool" where
  "second_ok b0 b1 \<longleftrightarrow>
     (if b0 = 224 then 160 \<le> b1 \<and> b1 \<le> 191
      else if b0 = 237 then 128 \<le> b1 \<and> b1 \<le> 159
      else if b0 = 240 then 144 \<le> b1 \<and> b1 \<le> 191
      else if b0 = 244 then 128 \<le> b1 \<and> b1 \<le> 143
      else is_cont b1)"

fun utf8_step :: "string \<Rightarrow> nat option \<times> nat" where
  "utf8_step [] = (None, 0)"
| "utf8_step (c0 # r) =
    (let b0 = byte_of c0 in
     if b0 < 128 then (Some b0, 1)
     else if 194 \<le> b0 \<and> b0 \<le> 223 then
       (case r of
          c1 # _ \<Rightarrow> let b1 = byte_of c1 in
            if is_cont b1 then (Some ((b0 - 192) * 64 + (b1 - 128)), 2) else (None, 1)
        | [] \<Rightarrow> (None, 1))
     else if 224 \<le> b0 \<and> b0 \<le> 239 then
       (case r of
          c1 # r1 \<Rightarrow> let b1 = byte_of c1 in
            if second_ok b0 b1 then
              (case r1 of
                 c2 # _ \<Rightarrow> let b2 = byte_of c2 in
                   if is_cont b2 then (Some ((b0 - 224) * 4096 + (b1 - 128) * 64 + (b2 - 128)), 3)
                   else (None, 2)
               | [] \<Rightarrow> (None, 2))
            else (None, 1)
        | [] \<Rightarrow> (None, 1))
     else if 240 \<le> b0 \<and> b0 \<le> 244 then
       (case r of
          c1 # r1 \<Rightarrow> let b1 = byte_of c1 in
            if second_ok b0 b1 then
              (case r1 of
                 c2 # r2 \<Rightarrow> let b2 = byte_of c2 in
                   if is_cont b2 then
                     (case r2 of
                        c3 # _ \<Rightarrow> let b3 = byte_of c3 in
                          if is_cont b3 then
                            (Some ((b0 - 240) * 262144 + (b1 - 128) * 4096 + (b2 - 128) * 64 + (b3 - 128)), 4)
                          else (None, 3)
                      | [] \<Rightarrow> (None, 3))
                   else (None, 2)
               | [] \<Rightarrow> (None, 2))
            else (None, 1)
        | [] \<Rightarrow> (None, 1))
     else (None, 1))"

declare utf8_step.simps(2) [simp del]

lemma utf8_step_width: "s \<noteq> [] \<Longrightarrow> 0 < snd (utf8_step s)"
  by (cases s) (auto simp: utf8_step.simps Let_def split: list.splits if_splits)

lemma utf8_step_le: "snd (utf8_step s) \<le> length s"
  by (cases s) (auto simp: utf8_step.simps Let_def split: list.splits if_splits)

function utf8_chars :: "string \<Rightarrow> nat list" where
  "utf8_chars s =
     (if s = [] then []
      else (case fst (utf8_step s) of Some cp \<Rightarrow> cp | None \<Rightarrow> 65533)
             # utf8_chars (drop (snd (utf8_step s)) s))"
  by pat_completeness auto
termination
  by (relation "measure length") (auto simp: utf8_step_width)

function utf8_valid :: "string \<Rightarrow> bool" where
  "utf8_valid s =
     (if s = [] then True
      else if fst (utf8_step s) = None then False
      else utf8_valid (drop (snd (utf8_step s)) s))"
  by pat_completeness auto
termination
  by (relation "measure length") (auto simp: utf8_step_width)

text \<open>\<open>String::from_utf8_lossy\<close>: U+FFFD (bytes EF BF BD) for every ill-formed sequence.\<close>

function from_utf8_lossy :: "string \<Rightarrow> string" where
  "from_utf8_lossy s =
     (if s = [] then []
      else (case fst (utf8_step s) of
              Some cp \<Rightarrow> take (snd (utf8_step s)) s
            | None \<Rightarrow> [CHR 0xEF, CHR 0xBF, CHR 0xBD])
             @ from_utf8_lossy (drop (snd (utf8_step s)) s))"
  by pat_completeness auto
termination
  by (relation "measure length") (auto simp: utf8_step_width)

declare utf8_chars.simps [simp del] utf8_valid.simps [simp del] from_utf8_lossy.simps [simp del]

text \<open>\<open>s.chars().take(n)\<close>\<close>

fun take_chars :: "nat \<Rightarrow> string \<Rightarrow> string" where
  "take_chars 0 s = []"
| "take_chars (Suc n) s =
     (if s = [] then [] else take (snd (utf8_step s)) s @ take_chars n (drop (snd (utf8_step s)) s))"

lemma utf8_chars_nil [simp]: "utf8_chars [] = []"
  by (simp add: utf8_chars.simps)

lemma utf8_valid_nil [simp]: "utf8_valid []"
  by (simp add: utf8_valid.simps)

lemma from_utf8_lossy_nil [simp]: "from_utf8_lossy [] = []"
  by (simp add: from_utf8_lossy.simps)

lemma utf8_valid_step:
  assumes "utf8_valid s" and "s \<noteq> []"
  obtains cp n where "utf8_step s = (Some cp, n)" and "utf8_valid (drop n s)"
  using assms by (cases "utf8_step s") (auto simp: utf8_valid.simps [of s] split: if_splits)

lemma from_utf8_lossy_valid: "utf8_valid s \<Longrightarrow> from_utf8_lossy s = s"
proof (induction s rule: utf8_valid.induct)
  case (1 s)
  show ?case
  proof (cases "s = []")
    case False
    with 1 obtain cp n where st: "utf8_step s = (Some cp, n)" and v: "utf8_valid (drop n s)"
      by (auto elim: utf8_valid_step)
    with 1 False have "from_utf8_lossy (drop n s) = drop n s" by simp
    with False st show ?thesis by (subst from_utf8_lossy.simps) simp
  qed simp
qed

definition is_char_boundary :: "string \<Rightarrow> nat \<Rightarrow> bool" where
  "is_char_boundary s i \<longleftrightarrow> i = 0 \<or> i = length s \<or> (i < length s \<and> \<not> is_cont (byte_of (s ! i)))"

subsection \<open>White space and case\<close>

text \<open>\<open>char::is_whitespace\<close>: the Unicode property White\_Space.\<close>

definition is_whitespace :: "nat \<Rightarrow> bool" where
  "is_whitespace cp \<longleftrightarrow>
     (9 \<le> cp \<and> cp \<le> 13) \<or> cp = 32 \<or> cp = 133 \<or> cp = 160 \<or> cp = 5760 \<or>
     (8192 \<le> cp \<and> cp \<le> 8202) \<or> cp = 8232 \<or> cp = 8233 \<or> cp = 8239 \<or> cp = 8287 \<or> cp = 12288"

definition starts_with_whitespace :: "string \<Rightarrow> bool" where
  "starts_with_whitespace s = (case fst (utf8_step s) of Some cp \<Rightarrow> is_whitespace cp | None \<Rightarrow> False)"

function trim_start :: "string \<Rightarrow> string" where
  "trim_start s =
     (if s \<noteq> [] \<and> starts_with_whitespace s then trim_start (drop (snd (utf8_step s)) s) else s)"
  by pat_completeness auto
termination
  by (relation "measure length") (auto simp: utf8_step_width)

text \<open>The width of the last character, when it is white space.\<close>

definition last_ws :: "string \<Rightarrow> nat option" where
  "last_ws s = find (\<lambda>n. n \<le> length s \<and>
     (case utf8_step (drop (length s - n) s) of
        (Some cp, m) \<Rightarrow> m = n \<and> is_whitespace cp | (None, m) \<Rightarrow> False)) [1, 2, 3]"

lemma last_ws_pos: "last_ws s = Some n \<Longrightarrow> 0 < n \<and> n \<le> length s"
  by (auto simp: last_ws_def split: if_splits)

function trim_end :: "string \<Rightarrow> string" where
  "trim_end s = (case last_ws s of None \<Rightarrow> s | Some n \<Rightarrow> trim_end (take (length s - n) s))"
  by pat_completeness auto
termination
  by (relation "measure length") (auto dest: last_ws_pos)

declare trim_start.simps [simp del] trim_end.simps [simp del]

definition trim :: "string \<Rightarrow> string" where
  "trim s = trim_end (trim_start s)"

text \<open>\<open>s.trim().is_empty()\<close>\<close>

abbreviation is_blank :: "string \<Rightarrow> bool" where
  "is_blank s \<equiv> trim s = []"

lemma trim_start_nil [simp]: "trim_start [] = []"
  by (simp add: trim_start.simps)

lemma trim_end_nil [simp]: "trim_end [] = []"
  by (subst trim_end.simps) (simp add: last_ws_def)

lemma trim_nil [simp]: "trim [] = []"
  by (simp add: trim_def)

lemma trim_start_suffix: "\<exists>t. s = t @ trim_start s"
proof (induction s rule: trim_start.induct)
  case (1 s)
  show ?case
  proof (cases "s \<noteq> [] \<and> starts_with_whitespace s")
    case True
    with 1 obtain t where "drop (snd (utf8_step s)) s = t @ trim_start (drop (snd (utf8_step s)) s)" by blast
    then have "s = (take (snd (utf8_step s)) s @ t) @ trim_start (drop (snd (utf8_step s)) s)"
      by (metis append.assoc append_take_drop_id)
    moreover from True have "trim_start s = trim_start (drop (snd (utf8_step s)) s)"
      by (simp add: trim_start.simps [of s])
    ultimately show ?thesis by metis
  next
    case False
    then have "trim_start s = s" by (subst trim_start.simps) auto
    then show ?thesis by simp
  qed
qed

definition ascii_lower :: "char \<Rightarrow> char" where
  "ascii_lower c = (if 65 \<le> byte_of c \<and> byte_of c \<le> 90 then char_of (byte_of c + 32) else c)"

definition ascii_upper :: "char \<Rightarrow> char" where
  "ascii_upper c = (if 97 \<le> byte_of c \<and> byte_of c \<le> 122 then char_of (byte_of c - 32) else c)"

definition eq_ignore_ascii_case :: "string \<Rightarrow> string \<Rightarrow> bool" where
  "eq_ignore_ascii_case s t \<longleftrightarrow> map ascii_lower s = map ascii_lower t"

text \<open>
  \<open>to_lowercase\<close> and \<open>to_uppercase\<close> are only used to look for ASCII words afterwards, so the
  mappings of the model are the ASCII ones and those of the characters beyond ASCII whose image
  holds an ASCII letter of such a word: U+0130 and the Kelvin sign U+212A for the lower case,
  U+00DF, the dotless U+0131, the long U+017F and the Latin ligatures U+FB00 to U+FB06 for the upper case.
\<close>

fun to_lowercase :: "string \<Rightarrow> string" where
  "to_lowercase [] = []"
| "to_lowercase (a # s) =
     (if a = CHR 0xC4 \<and> starts_with s [CHR 0xB0]
      then CHR ''i'' # CHR 0xCC # CHR 0x87 # to_lowercase (tl s)
      else if a = CHR 0xE2 \<and> starts_with s [CHR 0x84, CHR 0xAA]
      then CHR ''k'' # to_lowercase (tl (tl s))
      else ascii_lower a # to_lowercase s)"

fun to_uppercase :: "string \<Rightarrow> string" where
  "to_uppercase [] = []"
| "to_uppercase (a # s) =
     (if a = CHR 0xEF \<and> starts_with s [CHR 0xAC, CHR 0x80] then ''FF'' @ to_uppercase (tl (tl s))
      else if a = CHR 0xEF \<and> starts_with s [CHR 0xAC, CHR 0x81] then ''FI'' @ to_uppercase (tl (tl s))
      else if a = CHR 0xEF \<and> starts_with s [CHR 0xAC, CHR 0x82] then ''FL'' @ to_uppercase (tl (tl s))
      else if a = CHR 0xEF \<and> starts_with s [CHR 0xAC, CHR 0x83] then ''FFI'' @ to_uppercase (tl (tl s))
      else if a = CHR 0xEF \<and> starts_with s [CHR 0xAC, CHR 0x84] then ''FFL'' @ to_uppercase (tl (tl s))
      else if a = CHR 0xEF \<and> (starts_with s [CHR 0xAC, CHR 0x85] \<or> starts_with s [CHR 0xAC, CHR 0x86])
      then ''ST'' @ to_uppercase (tl (tl s))
      else if a = CHR 0xC3 \<and> starts_with s [CHR 0x9F] then ''SS'' @ to_uppercase (tl s)
      else if a = CHR 0xC4 \<and> starts_with s [CHR 0xB1] then ''I'' @ to_uppercase (tl s)
      else if a = CHR 0xC5 \<and> starts_with s [CHR 0xBF] then ''S'' @ to_uppercase (tl s)
      else ascii_upper a # to_uppercase s)"

subsection \<open>Decimal numbers\<close>

fun nat_to_string :: "nat \<Rightarrow> string" where
  "nat_to_string n =
     (if n < 10 then [char_of (48 + n)] else nat_to_string (n div 10) @ [char_of (48 + n mod 10)])"

declare nat_to_string.simps [simp del]

subsection \<open>Character boundaries\<close>

definition is_ascii :: "string \<Rightarrow> bool" where
  "is_ascii s = list_all (\<lambda>c. byte_of c < 128) s"

lemma boundary_drop_lead:
  assumes "utf8_valid s" and "s \<noteq> []"
  shows "\<not> is_cont (byte_of (hd s))"
proof -
  from assms have "fst (utf8_step s) \<noteq> None"
    by (auto elim: utf8_valid_step)
  with assms(2) show ?thesis
    by (cases s) (auto simp: utf8_step.simps Let_def is_cont_def split: if_splits)
qed

lemma utf8_valid_ascii_head:
  "utf8_valid (c # s) \<Longrightarrow> byte_of c < 128 \<Longrightarrow> utf8_valid s"
  by (simp add: utf8_valid.simps [of "c # s"] utf8_step.simps Let_def)

text \<open>Dropping bytes up to an ASCII byte leaves valid UTF-8: multi-byte characters hold none.\<close>

lemma utf8_step_wide:
  assumes "utf8_step s = (Some cp, n)" and "0 < j" and "j < n"
  shows "is_cont (byte_of (s ! j))"
proof (cases s)
  case Nil
  with assms show ?thesis by simp
next
  case (Cons c r)
  have so: "\<And>a b. second_ok a b \<Longrightarrow> is_cont b"
    by (auto simp: second_ok_def is_cont_def split: if_splits)
  from assms(2,3) have "n = 2 \<and> j = 1 \<or> n = 3 \<and> (j = 1 \<or> j = 2) \<or> n = 4 \<and> (j = 1 \<or> j = 2 \<or> j = 3) \<or> 4 < n"
    by linarith
  with assms(1) Cons show ?thesis
    by (auto simp: utf8_step.simps Let_def nth_Cons' so split: list.splits if_splits)
qed

lemma utf8_valid_drop_ascii:
  "utf8_valid s \<Longrightarrow> i < length s \<Longrightarrow> byte_of (s ! i) < 128 \<Longrightarrow> utf8_valid (drop i s)"
proof (induction s arbitrary: i rule: utf8_valid.induct)
  case (1 s)
  then have "s \<noteq> []" by auto
  with 1 obtain cp n where st: "utf8_step s = (Some cp, n)" and v: "utf8_valid (drop n s)"
    by (auto elim: utf8_valid_step)
  show ?case
  proof (cases "i = 0")
    case True
    with 1 show ?thesis by simp
  next
    case False
    have "n \<le> i"
    proof (rule ccontr)
      assume "\<not> n \<le> i"
      with False st have "is_cont (byte_of (s ! i))" by (intro utf8_step_wide) auto
      with 1(4) show False by (simp add: is_cont_def)
    qed
    with 1(3,4) have "i - n < length (drop n s)" and "byte_of (drop n s ! (i - n)) < 128"
      by auto
    with "1.IH" [of "i - n"] \<open>s \<noteq> []\<close> st v have "utf8_valid (drop (i - n) (drop n s))"
      by simp
    with \<open>n \<le> i\<close> show ?thesis by simp
  qed
qed

lemma utf8_valid_drop_prefix:
  "utf8_valid (p @ s) \<Longrightarrow> is_ascii p \<Longrightarrow> utf8_valid s"
  by (induction p) (auto simp: is_ascii_def dest: utf8_valid_ascii_head)

lemma char_boundary_of_valid: "utf8_valid (drop i s) \<Longrightarrow> i \<le> length s \<Longrightarrow> is_char_boundary s i"
  using boundary_drop_lead [of "drop i s"]
  by (cases "i = length s") (auto simp: is_char_boundary_def hd_drop_conv_nth)

text \<open>The start and the end of a match of an ASCII pattern are boundaries, and what follows is valid.\<close>

lemma find_sub_valid:
  assumes s: "utf8_valid s" and p: "is_ascii p" "p \<noteq> []" and m: "find_sub s p = Some i"
  shows "utf8_valid (drop i s) \<and> utf8_valid (drop (i + length p) s)"
proof -
  from m have sw: "starts_with (drop i s) p" and le: "i + length p \<le> length s"
    by (auto dest: find_sub_Some)
  then obtain t where t: "drop i s = p @ t" by (auto simp: starts_with_iff)
  from p(2) obtain q qs where q: "p = q # qs" by (cases p) auto
  from le q have i: "i < length s" by simp
  then have "s ! i = q" using t q by (metis Cons_nth_drop_Suc append_Cons list.inject)
  with p q have "byte_of (s ! i) < 128" by (simp add: is_ascii_def)
  with s i have v: "utf8_valid (drop i s)" by (intro utf8_valid_drop_ascii)
  moreover from v t p(1) have "utf8_valid t" by (auto intro: utf8_valid_drop_prefix)
  moreover from t le have "t = drop (i + length p) s"
    by (metis add.commute append_eq_conv_conj drop_drop)
  ultimately show ?thesis by simp
qed

end
