(* ===== verification/Headers.thy ===== *)
theory Headers imports Text begin

section \<open>Event stream headers (src/src/kiro/parser/header.rs, error.rs)\<close>

text \<open>
  The headers of an AWS event stream message: the ten value types, the errors of the parser, the
  header block parser with its byte offsets, and an encoder of the documented wire format against
  which the parser is checked. Bytes are words of eight bits; the signed integer values are kept
  as words of their width (two's complement).
\<close>

subsection \<open>Parse errors\<close>

text \<open>
  The texts of the two header errors are named; the last error a stopped decoder reports is the
  error value itself, or the fixed text of a decoder that had stopped before.
\<close>

datatype header_failure = NameLengthZero | HeaderBeyondMessage

datatype parse_error =
    Incomplete nat nat                \<comment> \<open>needed, available\<close>
  | PreludeCrcMismatch u32 u32        \<comment> \<open>expected, actual\<close>
  | MessageCrcMismatch u32 u32
  | InvalidHeaderType byte
  | HeaderParseFailed header_failure
  | MessageTooLarge u32 u32           \<comment> \<open>length, max\<close>
  | MessageTooSmall u32 u32           \<comment> \<open>length, min\<close>
  | InvalidMessageType string
  | PayloadDeserialize string
  | Io string
  | TooManyErrors nat "parse_error option"  \<comment> \<open>count, last error; None: "decoder stopped"\<close>
  | BufferOverflow nat nat            \<comment> \<open>size, max\<close>

type_synonym 'a parse_result = "parse_error + 'a"

subsection \<open>Value types and values\<close>

datatype header_value_type =
    TBoolTrue | TBoolFalse | TByte | TShort | TInteger | TLong | TByteArray | TString | TTimestamp | TUuid

datatype header_value =
    VBool bool
  | VByte "8 word"
  | VShort "16 word"
  | VInteger "32 word"
  | VLong "64 word"
  | VByteArray "byte list"
  | VString string
  | VTimestamp "64 word"
  | VUuid "byte list"

definition header_value_type_try_from :: "byte \<Rightarrow> header_value_type parse_result" where
  "header_value_type_try_from b =
     (if b = 0 then Inr TBoolTrue
      else if b = 1 then Inr TBoolFalse
      else if b = 2 then Inr TByte
      else if b = 3 then Inr TShort
      else if b = 4 then Inr TInteger
      else if b = 5 then Inr TLong
      else if b = 6 then Inr TByteArray
      else if b = 7 then Inr TString
      else if b = 8 then Inr TTimestamp
      else if b = 9 then Inr TUuid
      else Inl (InvalidHeaderType b))"

fun header_value_as_str :: "header_value \<Rightarrow> string option" where
  "header_value_as_str (VString s) = Some s"
| "header_value_as_str _ = None"

text \<open>The header collection: a hash map that is only read by key.\<close>

type_synonym headers = "string \<rightharpoonup> header_value"

definition headers_new :: headers where
  "headers_new = Map.empty"

definition headers_insert :: "string \<Rightarrow> header_value \<Rightarrow> headers \<Rightarrow> headers" where
  "headers_insert name v hs = hs(name \<mapsto> v)"

definition headers_get_string :: "headers \<Rightarrow> string \<Rightarrow> string option" where
  "headers_get_string hs name = (case hs name of None \<Rightarrow> None | Some v \<Rightarrow> header_value_as_str v)"

definition headers_message_type :: "headers \<Rightarrow> string option" where
  "headers_message_type hs = headers_get_string hs '':message-type''"

definition headers_event_type :: "headers \<Rightarrow> string option" where
  "headers_event_type hs = headers_get_string hs '':event-type''"

definition headers_exception_type :: "headers \<Rightarrow> string option" where
  "headers_exception_type hs = headers_get_string hs '':exception-type''"

definition headers_error_code :: "headers \<Rightarrow> string option" where
  "headers_error_code hs = headers_get_string hs '':error-code''"

subsection \<open>Big endian integers\<close>

definition be_nat :: "byte list \<Rightarrow> nat" where
  "be_nat bs = foldl (\<lambda>a b. a * 256 + unat b) 0 bs"

definition from_be_bytes :: "byte list \<Rightarrow> 'a::len word" where
  "from_be_bytes bs = of_nat (be_nat bs)"

definition chars_of_bytes :: "byte list \<Rightarrow> string" where
  "chars_of_bytes bs = map (\<lambda>b. char_of (unat b)) bs"

definition bytes_of_chars :: "string \<Rightarrow> byte list" where
  "bytes_of_chars s = map (\<lambda>c. of_nat (byte_of c)) s"

definition lossy_string :: "byte list \<Rightarrow> string" where
  "lossy_string bs = from_utf8_lossy (chars_of_bytes bs)"

subsection \<open>The header block parser\<close>

definition ensure_bytes :: "byte list \<Rightarrow> nat \<Rightarrow> unit parse_result" where
  "ensure_bytes data needed =
     (if length data < needed then Inl (Incomplete needed (length data)) else Inr ())"

text \<open>The value and the number of bytes by which the caller's offset advances.\<close>

fun parse_header_value :: "byte list \<Rightarrow> header_value_type \<Rightarrow> (header_value \<times> nat) parse_result" where
  "parse_header_value data TBoolTrue = Inr (VBool True, 0)"
| "parse_header_value data TBoolFalse = Inr (VBool False, 0)"
| "parse_header_value data TByte =
     (case ensure_bytes data 1 of Inl e \<Rightarrow> Inl e
      | Inr _ \<Rightarrow> Inr (VByte (from_be_bytes (take 1 data)), 1))"
| "parse_header_value data TShort =
     (case ensure_bytes data 2 of Inl e \<Rightarrow> Inl e
      | Inr _ \<Rightarrow> Inr (VShort (from_be_bytes (take 2 data)), 2))"
| "parse_header_value data TInteger =
     (case ensure_bytes data 4 of Inl e \<Rightarrow> Inl e
      | Inr _ \<Rightarrow> Inr (VInteger (from_be_bytes (take 4 data)), 4))"
| "parse_header_value data TLong =
     (case ensure_bytes data 8 of Inl e \<Rightarrow> Inl e
      | Inr _ \<Rightarrow> Inr (VLong (from_be_bytes (take 8 data)), 8))"
| "parse_header_value data TTimestamp =
     (case ensure_bytes data 8 of Inl e \<Rightarrow> Inl e
      | Inr _ \<Rightarrow> Inr (VTimestamp (from_be_bytes (take 8 data)), 8))"
| "parse_header_value data TByteArray =
     (case ensure_bytes data 2 of Inl e \<Rightarrow> Inl e
      | Inr _ \<Rightarrow>
         let len = be_nat (take 2 data) in
         (case ensure_bytes data (2 + len) of Inl e \<Rightarrow> Inl e
          | Inr _ \<Rightarrow> Inr (VByteArray (take len (drop 2 data)), 2 + len)))"
| "parse_header_value data TString =
     (case ensure_bytes data 2 of Inl e \<Rightarrow> Inl e
      | Inr _ \<Rightarrow>
         let len = be_nat (take 2 data) in
         (case ensure_bytes data (2 + len) of Inl e \<Rightarrow> Inl e
          | Inr _ \<Rightarrow> Inr (VString (lossy_string (take len (drop 2 data))), 2 + len)))"
| "parse_header_value data TUuid =
     (case ensure_bytes data 16 of Inl e \<Rightarrow> Inl e
      | Inr _ \<Rightarrow> Inr (VUuid (take 16 data), 16))"

text \<open>The loop over the block: the offset and the headers found so far.\<close>

function parse_headers_loop :: "byte list \<Rightarrow> nat \<Rightarrow> nat \<Rightarrow> headers \<Rightarrow> headers parse_result" where
  "parse_headers_loop data header_length offset hs =
    (if \<not> offset < header_length then Inr hs
     else if length data \<le> offset then Inr hs
     else let name_len = unat (data ! offset); o1 = offset + 1 in
       if name_len = 0 then Inl (HeaderParseFailed NameLengthZero)
       else if length data < o1 + name_len then Inl (Incomplete name_len (length data - o1))
       else let name = lossy_string (take name_len (drop o1 data)); o2 = o1 + name_len in
         if length data \<le> o2 then Inl (Incomplete 1 0)
         else (case header_value_type_try_from (data ! o2) of
             Inl e \<Rightarrow> Inl e
           | Inr vt \<Rightarrow> (let o3 = o2 + 1 in
               (case parse_header_value (drop o3 data) vt of
                  Inl e \<Rightarrow> Inl e
                | Inr (v, used) \<Rightarrow>
                    parse_headers_loop data header_length (o3 + used) (headers_insert name v hs)))))"
  by pat_completeness auto
termination
  by (relation "measure (\<lambda>(data, header_length, offset, hs). header_length - offset)") auto

declare parse_headers_loop.simps [simp del]

definition parse_headers :: "byte list \<Rightarrow> nat \<Rightarrow> headers parse_result" where
  "parse_headers data header_length =
     (if length data < header_length then Inl (Incomplete header_length (length data))
      else parse_headers_loop data header_length 0 headers_new)"

subsection \<open>The wire format\<close>

text \<open>
  The encoding of a header the module's comments document: the name's length in one byte, the
  name, the type code, and the value (big endian; a length of two bytes before a byte array or
  a string).
\<close>

fun be_bytes :: "nat \<Rightarrow> nat \<Rightarrow> byte list" where
  "be_bytes 0 n = []"
| "be_bytes (Suc w) n = be_bytes w (n div 256) @ [of_nat (n mod 256)]"

fun encode_value :: "header_value \<Rightarrow> byte list" where
  "encode_value (VBool b) = [if b then 0 else 1]"
| "encode_value (VByte w) = 2 # be_bytes 1 (unat w)"
| "encode_value (VShort w) = 3 # be_bytes 2 (unat w)"
| "encode_value (VInteger w) = 4 # be_bytes 4 (unat w)"
| "encode_value (VLong w) = 5 # be_bytes 8 (unat w)"
| "encode_value (VByteArray bs) = 6 # be_bytes 2 (length bs) @ bs"
| "encode_value (VString s) = 7 # be_bytes 2 (length s) @ bytes_of_chars s"
| "encode_value (VTimestamp w) = 8 # be_bytes 8 (unat w)"
| "encode_value (VUuid bs) = 9 # bs"

fun value_ok :: "header_value \<Rightarrow> bool" where
  "value_ok (VByteArray bs) = (length bs < 65536)"
| "value_ok (VString s) = (length s < 65536 \<and> utf8_valid s)"
| "value_ok (VUuid bs) = (length bs = 16)"
| "value_ok _ = True"

definition header_ok :: "string \<times> header_value \<Rightarrow> bool" where
  "header_ok h \<longleftrightarrow> fst h \<noteq> [] \<and> length (fst h) < 256 \<and> utf8_valid (fst h) \<and> value_ok (snd h)"

definition encode_header :: "string \<times> header_value \<Rightarrow> byte list" where
  "encode_header h = of_nat (length (fst h)) # bytes_of_chars (fst h) @ encode_value (snd h)"

definition encode_headers :: "(string \<times> header_value) list \<Rightarrow> byte list" where
  "encode_headers hs = concat (map encode_header hs)"

definition headers_of :: "(string \<times> header_value) list \<Rightarrow> headers" where
  "headers_of hs = fold (\<lambda>(n, v). headers_insert n v) hs headers_new"

lemma length_be_bytes [simp]: "length (be_bytes w n) = w"
  by (induction w arbitrary: n) auto

lemma be_nat_snoc [simp]: "be_nat (bs @ [b]) = be_nat bs * 256 + unat b"
  by (simp add: be_nat_def)

lemma be_nat_nil [simp]: "be_nat [] = 0"
  by (simp add: be_nat_def)

lemma be_nat_be_bytes: "n < 256 ^ w \<Longrightarrow> be_nat (be_bytes w n) = n"
proof (induction w arbitrary: n)
  case 0
  then show ?case by simp
next
  case (Suc w)
  then have "n div 256 < 256 ^ w" by (simp add: less_mult_imp_div_less mult.commute)
  with Suc.IH show ?case by (simp add: unat_of_nat)
qed

lemma be_nat_less: "be_nat bs < 256 ^ length bs"
proof (induction bs rule: rev_induct)
  case Nil
  then show ?case by simp
next
  case (snoc b bs)
  have "unat b < 256" using unsigned_less [of b, where ?'a = nat] by simp
  with snoc show ?case by simp
qed

lemma from_be_bytes_be_bytes:
  "256 ^ k = (2::nat) ^ LENGTH('a::len) \<Longrightarrow> from_be_bytes (be_bytes k (unat (w :: 'a word))) = w"
  using unsigned_less [of w, where ?'a = nat] by (simp add: from_be_bytes_def be_nat_be_bytes)

lemma unat_from_be_bytes:
  "256 ^ length bs = (2::nat) ^ LENGTH('a::len) \<Longrightarrow> unat (from_be_bytes bs :: 'a word) = be_nat bs"
  using be_nat_less [of bs] by (simp add: from_be_bytes_def unat_of_nat)

lemma length_bytes_of_chars [simp]: "length (bytes_of_chars s) = length s"
  by (simp add: bytes_of_chars_def)

lemma byte_of_less: "byte_of c < 256"
  by (simp add: byte_of_def)

lemma chars_of_bytes_of_chars [simp]: "chars_of_bytes (bytes_of_chars s) = s"
proof -
  have "char_of (unat (of_nat (byte_of c) :: byte)) = c" for c
    using byte_of_less [of c] by (simp add: unat_of_nat byte_of_def)
  then show ?thesis by (simp add: chars_of_bytes_def bytes_of_chars_def comp_def)
qed

lemma lossy_string_bytes_of_chars: "utf8_valid s \<Longrightarrow> lossy_string (bytes_of_chars s) = s"
  by (simp add: lossy_string_def from_utf8_lossy_valid)

text \<open>A value is read back, and the offset advances by exactly the bytes it takes.\<close>

definition type_code :: "header_value \<Rightarrow> byte" where
  "type_code v = hd (encode_value v)"

fun value_type :: "header_value \<Rightarrow> header_value_type" where
  "value_type (VBool b) = (if b then TBoolTrue else TBoolFalse)"
| "value_type (VByte _) = TByte"
| "value_type (VShort _) = TShort"
| "value_type (VInteger _) = TInteger"
| "value_type (VLong _) = TLong"
| "value_type (VByteArray _) = TByteArray"
| "value_type (VString _) = TString"
| "value_type (VTimestamp _) = TTimestamp"
| "value_type (VUuid _) = TUuid"

lemma encode_value_split: "encode_value v = type_code v # tl (encode_value v)"
  by (cases v) (auto simp: type_code_def)

lemma try_from_type_code: "header_value_type_try_from (type_code v) = Inr (value_type v)"
  by (cases v) (auto simp: type_code_def header_value_type_try_from_def)

lemma parse_value_encode:
  assumes "value_ok v"
  shows "parse_header_value (tl (encode_value v) @ rest) (value_type v) =
    Inr (v, length (tl (encode_value v)))"
  using assms
  by (cases v)
     (auto simp: ensure_bytes_def from_be_bytes_be_bytes be_nat_be_bytes
        lossy_string_bytes_of_chars Let_def simp del: be_bytes.simps)

lemma nth_append_at: "(xs @ y # ys) ! length xs = y"
  by simp

lemma parse_headers_loop_step:
  assumes "off < hl" and "off < length data" and "unat (data ! off) = k" and "k \<noteq> 0"
    and "off + 1 + k < length data"
    and "lossy_string (take k (drop (off + 1) data)) = n"
    and "header_value_type_try_from (data ! (off + 1 + k)) = Inr vt"
    and "parse_header_value (drop (off + 1 + k + 1) data) vt = Inr (v, u)"
  shows "parse_headers_loop data hl off acc =
    parse_headers_loop data hl (off + 1 + k + 1 + u) (headers_insert n v acc)"
  using assms by (subst parse_headers_loop.simps) (simp add: Let_def)

lemma length_encode_header:
  "length (encode_header (n, v)) = 1 + length n + 1 + length (tl (encode_value v))"
  by (cases v) (simp_all add: encode_header_def)

lemma parse_headers_loop_encode:
  assumes "list_all header_ok hs"
  shows "parse_headers_loop (pre @ encode_headers hs) (length pre + length (encode_headers hs)) (length pre) acc
    = Inr (fold (\<lambda>(n, v). headers_insert n v) hs acc)"
  using assms
proof (induction hs arbitrary: pre acc)
  case Nil
  then show ?case by (subst parse_headers_loop.simps) (simp add: encode_headers_def)
next
  case (Cons h hs)
  obtain n v where h: "h = (n, v)" by (cases h)
  from Cons.prems h have n: "n \<noteq> []" "length n < 256" "utf8_valid n" and v: "value_ok v"
    by (simp_all add: header_ok_def)
  define nb vb rest len where "nb = bytes_of_chars n" and "vb = tl (encode_value v)"
    and "rest = encode_headers hs" and "len = (of_nat (length n) :: byte)"
  define data where "data = pre @ len # nb @ type_code v # vb @ rest"
  have all: "pre @ encode_headers (h # hs) = data"
    unfolding data_def nb_def vb_def rest_def len_def
    by (simp add: h encode_headers_def encode_header_def encode_value_split [symmetric])
  have lnb: "length nb = length n" by (simp add: nb_def)
  have tot: "length data = length pre + 1 + length n + 1 + length vb + length rest"
    by (simp add: data_def lnb)
  have pre': "data = (pre @ encode_header h) @ rest"
    unfolding data_def nb_def vb_def rest_def len_def
    by (simp add: h encode_header_def encode_value_split [symmetric])
  have "parse_headers_loop data (length data) (length pre) acc =
      parse_headers_loop data (length data) (length pre + 1 + length n + 1 + length vb) (headers_insert n v acc)"
  proof (rule parse_headers_loop_step)
    show "unat (data ! length pre) = length n"
      using n(2) by (simp add: data_def len_def unat_of_nat)
    show "lossy_string (take (length n) (drop (length pre + 1) data)) = n"
      by (simp add: data_def lnb) (simp add: nb_def lossy_string_bytes_of_chars n(3))
    have "data ! (length pre + 1 + length n) = (pre @ len # nb @ type_code v # vb @ rest) ! length (pre @ len # nb)"
      by (simp add: data_def lnb)
    also have "\<dots> = type_code v" using nth_append_at [of "pre @ len # nb" "type_code v" "vb @ rest"] by simp
    finally show "header_value_type_try_from (data ! (length pre + 1 + length n)) = Inr (value_type v)"
      by (simp add: try_from_type_code)
    have "drop (length pre + 1 + length n + 1) data = drop (length (pre @ len # nb @ [type_code v])) ((pre @ len # nb @ [type_code v]) @ vb @ rest)"
      by (simp add: data_def lnb)
    also have "\<dots> = vb @ rest" by (rule append_eq_conv_conj [THEN iffD1, THEN conjunct2, symmetric]) simp
    finally show "parse_header_value (drop (length pre + 1 + length n + 1) data) (value_type v) = Inr (v, length vb)"
      using parse_value_encode [OF v] by (simp add: vb_def)
  qed (use n tot in auto)
  also have "length pre + 1 + length n + 1 + length vb = length (pre @ encode_header h)"
    using length_encode_header [of n v] h by (simp add: vb_def)
  also have "parse_headers_loop data (length data) (length (pre @ encode_header h)) (headers_insert n v acc) =
      Inr (fold (\<lambda>(n, v). headers_insert n v) hs (headers_insert n v acc))"
    using Cons.IH [of "pre @ encode_header h" "headers_insert n v acc"] Cons.prems
    by (simp add: pre' rest_def add.assoc)
  finally show ?case using h all by simp (metis length_append)
qed

text \<open>The header block of any list of well-formed headers is read back.\<close>

lemma parse_headers_encode:
  "list_all header_ok hs \<Longrightarrow>
   parse_headers (encode_headers hs) (length (encode_headers hs)) = Inr (headers_of hs)"
  using parse_headers_loop_encode [of hs "[]" headers_new]
  by (simp add: parse_headers_def headers_of_def)

text \<open>The value parser fails only for missing bytes and never takes more than there are.\<close>

lemma parse_header_value_errors:
  "parse_header_value data vt = Inl e \<Longrightarrow> \<exists>needed. e = Incomplete needed (length data) \<and> length data < needed"
  by (cases vt) (auto simp: ensure_bytes_def Let_def split: if_splits sum.splits)

lemma parse_header_value_used:
  "parse_header_value data vt = Inr (v, used) \<Longrightarrow> used \<le> length data"
  by (cases vt) (auto simp: ensure_bytes_def Let_def Suc_le_eq split: if_splits sum.splits)

end
