(* ===== verification/Frames.thy ===== *)
theory Frames imports Headers begin

section \<open>Message frames (src/src/kiro/parser/frame.rs)\<close>

text \<open>
  One message frame: total length, header length and their checksum (twelve bytes), the headers,
  the payload and the checksum of everything before it. The checksum is the \<open>crc\<close> crate's
  CRC-32, which is not part of the repository: \<open>crc\<close> is a parameter of the model and every
  theorem holds for any function.
\<close>

definition PRELUDE_SIZE :: nat where "PRELUDE_SIZE = 12"

definition MIN_MESSAGE_SIZE :: nat where "MIN_MESSAGE_SIZE = PRELUDE_SIZE + 4"

definition MAX_MESSAGE_SIZE :: u32 where "MAX_MESSAGE_SIZE = 16 * 1024 * 1024"

record frame =
  frame_headers :: headers
  frame_payload :: "byte list"

definition frame_message_type :: "frame \<Rightarrow> string option" where
  "frame_message_type f = headers_message_type (frame_headers f)"

definition frame_event_type :: "frame \<Rightarrow> string option" where
  "frame_event_type f = headers_event_type (frame_headers f)"

definition payload_as_str :: "frame \<Rightarrow> string" where
  "payload_as_str f = lossy_string (frame_payload f)"

text \<open>\<open>&buffer[a..b]\<close>\<close>

definition slice :: "'a list \<Rightarrow> nat \<Rightarrow> nat \<Rightarrow> 'a list" where
  "slice xs a b = take (b - a) (drop a xs)"

definition parse_frame :: "(byte list \<Rightarrow> u32) \<Rightarrow> byte list \<Rightarrow> (frame \<times> nat) option parse_result" where
  "parse_frame crc buffer =
    (if length buffer < PRELUDE_SIZE then Inr None
     else
       let total_length = (from_be_bytes (slice buffer 0 4) :: u32);
           header_length = (from_be_bytes (slice buffer 4 8) :: u32);
           prelude_crc = (from_be_bytes (slice buffer 8 12) :: u32)
       in
       if total_length < of_nat MIN_MESSAGE_SIZE
       then Inl (MessageTooSmall total_length (of_nat MIN_MESSAGE_SIZE))
       else if MAX_MESSAGE_SIZE < total_length
       then Inl (MessageTooLarge total_length MAX_MESSAGE_SIZE)
       else
         let total = unat total_length; hlen = unat header_length in
         if length buffer < total then Inr None
         else
           let actual_prelude_crc = crc (take 8 buffer) in
           if actual_prelude_crc \<noteq> prelude_crc
           then Inl (PreludeCrcMismatch prelude_crc actual_prelude_crc)
           else
             let message_crc = (from_be_bytes (slice buffer (total - 4) total) :: u32);
                 actual_message_crc = crc (take (total - 4) buffer)
             in
             if actual_message_crc \<noteq> message_crc
             then Inl (MessageCrcMismatch message_crc actual_message_crc)
             else
               let headers_start = PRELUDE_SIZE; headers_end = headers_start + hlen in
               if total - 4 < headers_end then Inl (HeaderParseFailed HeaderBeyondMessage)
               else
                 (case parse_headers (slice buffer headers_start headers_end) hlen of
                    Inl e \<Rightarrow> Inl e
                  | Inr hs \<Rightarrow>
                      Inr (Some (\<lparr>frame_headers = hs, frame_payload = slice buffer headers_end (total - 4)\<rparr>,
                                 total))))"

subsection \<open>What a parsed frame guarantees\<close>

lemmas frame_consts = PRELUDE_SIZE_def MIN_MESSAGE_SIZE_def MAX_MESSAGE_SIZE_def

lemma length_slice [simp]: "length (slice xs a b) = min (b - a) (length xs - a)"
  by (simp add: slice_def min.commute)

text \<open>A frame that is returned lies inside the buffer and is between 16 bytes and 16 MiB long.\<close>

lemma parse_frame_consumed:
  assumes "parse_frame crc buffer = Inr (Some (f, n))"
  shows "MIN_MESSAGE_SIZE \<le> n \<and> n \<le> 16777216 \<and> n \<le> length buffer"
proof -
  let ?t = "from_be_bytes (slice buffer 0 4) :: u32"
  from assms have "\<not> ?t < of_nat MIN_MESSAGE_SIZE" "\<not> MAX_MESSAGE_SIZE < ?t" and n: "n = unat ?t"
      and "\<not> length buffer < n"
    by (auto simp: parse_frame_def Let_def split: if_splits sum.splits)
  then show ?thesis by (auto simp: frame_consts word_less_nat_alt n not_less)
qed

text \<open>It was checked against both checksums.\<close>

lemma parse_frame_checked:
  assumes "parse_frame crc buffer = Inr (Some (f, n))"
  shows "crc (take 8 buffer) = from_be_bytes (slice buffer 8 12)
       \<and> crc (take (n - 4) buffer) = from_be_bytes (slice buffer (n - 4) n)"
  using assms by (auto simp: parse_frame_def Let_def split: if_splits sum.splits)

text \<open>Its payload and headers are the bytes between the prelude and the last checksum.\<close>

lemma parse_frame_layout:
  assumes "parse_frame crc buffer = Inr (Some (f, n))"
  shows "\<exists>h. PRELUDE_SIZE + h \<le> n - 4
       \<and> h = be_nat (slice buffer 4 8)
       \<and> parse_headers (slice buffer PRELUDE_SIZE (PRELUDE_SIZE + h)) h = Inr (frame_headers f)
       \<and> frame_payload f = slice buffer (PRELUDE_SIZE + h) (n - 4)"
proof -
  from assms have "12 \<le> length buffer"
    by (auto simp: parse_frame_def frame_consts split: if_splits)
  then have "unat (from_be_bytes (slice buffer 4 8) :: u32) = be_nat (slice buffer 4 8)"
    by (intro unat_from_be_bytes) simp
  with assms show ?thesis
    by (intro exI [of _ "be_nat (slice buffer 4 8)"])
       (auto simp: parse_frame_def Let_def split: if_splits sum.splits)
qed

text \<open>Waiting for more data depends on the length field only.\<close>

lemma parse_frame_waits:
  assumes "length buffer < PRELUDE_SIZE \<or>
    (of_nat MIN_MESSAGE_SIZE \<le> (from_be_bytes (take 4 buffer) :: u32) \<and>
     (from_be_bytes (take 4 buffer) :: u32) \<le> MAX_MESSAGE_SIZE \<and>
     length buffer < unat (from_be_bytes (take 4 buffer) :: u32))"
  shows "parse_frame crc buffer = Inr None"
  using assms by (auto simp: parse_frame_def Let_def slice_def not_less)

subsection \<open>The documented wire format\<close>

definition prelude_bytes :: "(string \<times> header_value) list \<Rightarrow> byte list \<Rightarrow> byte list" where
  "prelude_bytes hs payload =
     be_bytes 4 (MIN_MESSAGE_SIZE + length (encode_headers hs) + length payload)
       @ be_bytes 4 (length (encode_headers hs))"

definition frame_body :: "(byte list \<Rightarrow> u32) \<Rightarrow> (string \<times> header_value) list \<Rightarrow> byte list \<Rightarrow> byte list" where
  "frame_body crc hs payload =
     prelude_bytes hs payload @ be_bytes 4 (unat (crc (prelude_bytes hs payload)))
       @ encode_headers hs @ payload"

definition encode_frame :: "(byte list \<Rightarrow> u32) \<Rightarrow> (string \<times> header_value) list \<times> byte list \<Rightarrow> byte list" where
  "encode_frame crc m =
     frame_body crc (fst m) (snd m) @ be_bytes 4 (unat (crc (frame_body crc (fst m) (snd m))))"

definition frame_ok :: "(string \<times> header_value) list \<times> byte list \<Rightarrow> bool" where
  "frame_ok m \<longleftrightarrow> list_all header_ok (fst m) \<and>
     MIN_MESSAGE_SIZE + length (encode_headers (fst m)) + length (snd m) \<le> 16777216"

definition frame_of :: "(string \<times> header_value) list \<times> byte list \<Rightarrow> frame" where
  "frame_of m = \<lparr>frame_headers = headers_of (fst m), frame_payload = snd m\<rparr>"

lemma length_prelude_bytes [simp]: "length (prelude_bytes hs p) = 8"
  by (simp add: prelude_bytes_def)

lemma length_frame_body [simp]:
  "length (frame_body crc hs p) = PRELUDE_SIZE + length (encode_headers hs) + length p"
  by (simp add: frame_body_def frame_consts)

lemma length_encode_frame:
  "length (encode_frame crc m) = MIN_MESSAGE_SIZE + length (encode_headers (fst m)) + length (snd m)"
  by (simp add: encode_frame_def frame_consts)

lemma take4_encode_frame:
  "4 \<le> k \<Longrightarrow> take 4 (take k (encode_frame crc m)) = be_bytes 4 (length (encode_frame crc m))"
  by (simp add: encode_frame_def frame_body_def prelude_bytes_def min_def frame_consts add.assoc)

lemma from_be_bytes_u32: "n < 4294967296 \<Longrightarrow> unat (from_be_bytes (be_bytes 4 n) :: u32) = n"
  by (subst unat_from_be_bytes) (simp_all add: be_nat_be_bytes)

lemma slice_append_mid: "length xs = a \<Longrightarrow> length ys = b - a \<Longrightarrow> slice (xs @ ys @ zs) a b = ys"
  by (simp add: slice_def)

text \<open>Any well-formed message is parsed back, whatever follows it in the buffer.\<close>

lemma parse_frame_encode:
  assumes ok: "frame_ok m"
  shows "parse_frame crc (encode_frame crc m @ rest) = Inr (Some (frame_of m, length (encode_frame crc m)))"
proof -
  obtain hs p where m: "m = (hs, p)" by (cases m)
  define H where "H = encode_headers hs"
  define t where "t = MIN_MESSAGE_SIZE + length H + length p"
  define pre where "pre = prelude_bytes hs p"
  define body where "body = frame_body crc hs p"
  define buf where "buf = encode_frame crc m @ rest"
  have t: "t \<le> 16777216" "16 \<le> t" "length H < 4294967296"
    using ok by (simp_all add: m frame_ok_def t_def H_def frame_consts)
  have len: "length (encode_frame crc m) = t" by (simp add: length_encode_frame m t_def H_def)
  have b1: "buf = body @ be_bytes 4 (unat (crc body)) @ rest"
    by (simp add: buf_def m encode_frame_def body_def)
  have lb: "length body = t - 4" by (simp add: body_def t_def H_def frame_consts)
  have b2: "buf = pre @ be_bytes 4 (unat (crc pre)) @ H @ p @ be_bytes 4 (unat (crc body)) @ rest"
    by (simp add: b1 body_def frame_body_def pre_def H_def)
  have b3: "buf = be_bytes 4 t @ be_bytes 4 (length H) @ be_bytes 4 (unat (crc pre)) @ H @ p @ be_bytes 4 (unat (crc body)) @ rest"
    by (simp add: b2 pre_def prelude_bytes_def t_def H_def)
  have lp: "length pre = 8" by (simp add: pre_def)
  have s1: "slice buf 0 4 = be_bytes 4 t" and s2: "slice buf 4 8 = be_bytes 4 (length H)"
    by (simp_all add: b3 slice_def)
  have s3: "slice buf 8 12 = be_bytes 4 (unat (crc pre))" by (simp add: b2 slice_def lp)
  have s4: "take 8 buf = pre" by (simp add: b2 lp)
  have s5: "take (t - 4) buf = body" by (simp add: b1 lb)
  have s6: "slice buf (t - 4) t = be_bytes 4 (unat (crc body))"
    using lb t(2) unfolding b1 by (intro slice_append_mid) auto
  have s7: "slice buf 12 (12 + length H) = H"
    unfolding b2 by (simp add: slice_def lp)
  have s8: "slice buf (12 + length H) (t - 4) = p"
    unfolding b2 by (simp add: slice_def lp t_def frame_consts)
  have tot: "unat (from_be_bytes (slice buf 0 4) :: u32) = t"
    and hl: "unat (from_be_bytes (slice buf 4 8) :: u32) = length H"
    using t by (simp_all add: s1 s2 from_be_bytes_u32)
  have crcs: "(from_be_bytes (be_bytes 4 (unat w)) :: u32) = w" for w
    by (rule from_be_bytes_be_bytes) simp
  have hs: "parse_headers H (length H) = Inr (headers_of hs)"
    using ok by (simp add: m frame_ok_def H_def parse_headers_encode)
  have lbuf: "t \<le> length buf" by (simp add: buf_def len)
  have "parse_frame crc buf = Inr (Some (\<lparr>frame_headers = headers_of hs, frame_payload = p\<rparr>, t))"
    using t lbuf
    by (simp add: parse_frame_def Let_def tot hl s3 s4 s5 s6 s7 s8 crcs hs frame_consts word_less_nat_alt)
       (simp add: t_def frame_consts)
  then show ?thesis by (simp add: buf_def frame_of_def m len [symmetric])
qed

text \<open>And every proper prefix of a message asks for more data.\<close>

lemma parse_frame_prefix:
  assumes ok: "frame_ok m" and k: "k < length (encode_frame crc m)"
  shows "parse_frame crc (take k (encode_frame crc m)) = Inr None"
proof (rule parse_frame_waits)
  let ?b = "take k (encode_frame crc m)"
  have l: "length (encode_frame crc m) \<le> 16777216" "16 \<le> length (encode_frame crc m)"
    using ok by (simp_all add: length_encode_frame frame_ok_def frame_consts)
  show "length ?b < PRELUDE_SIZE \<or>
    (of_nat MIN_MESSAGE_SIZE \<le> (from_be_bytes (take 4 ?b) :: u32) \<and>
     (from_be_bytes (take 4 ?b) :: u32) \<le> MAX_MESSAGE_SIZE \<and>
     length ?b < unat (from_be_bytes (take 4 ?b) :: u32))"
  proof (cases "k < 12")
    case True
    then show ?thesis by (auto simp: frame_consts)
  next
    case False
    then have "unat (from_be_bytes (take 4 ?b) :: u32) = length (encode_frame crc m)"
      using l by (simp only: take4_encode_frame) (simp add: from_be_bytes_u32)
    with l k show ?thesis by (simp add: frame_consts word_le_nat_alt)
  qed
qed

end
