(* ===== verification/Decoder.thy ===== *)
theory Decoder imports Frames begin

section \<open>The stream decoder (src/src/kiro/parser/decoder.rs)\<close>

text \<open>
  The decoder's four states, its buffer and counters, and its operations: \<open>feed\<close> appends bytes,
  \<open>decode\<close> tries one frame and recovers from errors, and the iterator repeats \<open>decode\<close> until it
  has to wait, has failed or has stopped. The lemmas show the decoder's invariant, that every
  call of the iterator ends, and that a stream of well-formed messages is decoded to exactly
  those messages however it is cut into chunks.
\<close>

definition DEFAULT_MAX_BUFFER_SIZE :: nat where "DEFAULT_MAX_BUFFER_SIZE = 16 * 1024 * 1024"

definition DEFAULT_MAX_ERRORS :: nat where "DEFAULT_MAX_ERRORS = 5"

datatype decoder_state = Ready | Parsing | Recovering | Stopped

record decoder =
  dec_buffer :: "byte list"
  dec_state :: decoder_state
  frames_decoded :: nat
  error_count :: nat
  max_errors :: nat
  max_buffer_size :: nat
  bytes_skipped :: nat

text \<open>\<open>new\<close> and \<open>with_capacity\<close>: the capacity is only an allocation hint.\<close>

definition decoder_new :: decoder where
  "decoder_new = \<lparr>dec_buffer = [], dec_state = Ready, frames_decoded = 0, error_count = 0,
     max_errors = DEFAULT_MAX_ERRORS, max_buffer_size = DEFAULT_MAX_BUFFER_SIZE, bytes_skipped = 0\<rparr>"

definition feed :: "decoder \<Rightarrow> byte list \<Rightarrow> decoder \<times> unit parse_result" where
  "feed d bytes =
    (let new_size = length (dec_buffer d) + length bytes in
     if max_buffer_size d < new_size then (d, Inl (BufferOverflow new_size (max_buffer_size d)))
     else (let d1 = d\<lparr>dec_buffer := dec_buffer d @ bytes\<rparr> in
           (if dec_state d1 = Recovering then d1\<lparr>dec_state := Ready\<rparr> else d1, Inr ())))"

text \<open>\<open>self.buffer.advance(n); self.bytes_skipped += n\<close>\<close>

definition skip_bytes :: "nat \<Rightarrow> decoder \<Rightarrow> decoder" where
  "skip_bytes n d = d\<lparr>dec_buffer := drop n (dec_buffer d), bytes_skipped := bytes_skipped d + n\<rparr>"

definition try_recover :: "parse_error \<Rightarrow> decoder \<Rightarrow> decoder" where
  "try_recover e d =
    (if dec_buffer d = [] then d
     else (case e of
         PreludeCrcMismatch _ _ \<Rightarrow> skip_bytes 1 d
       | MessageTooSmall _ _ \<Rightarrow> skip_bytes 1 d
       | MessageTooLarge _ _ \<Rightarrow> skip_bytes 1 d
       | MessageCrcMismatch _ _ \<Rightarrow>
           (let total_length = unat (from_be_bytes (slice (dec_buffer d) 0 4) :: u32) in
            if PRELUDE_SIZE \<le> length (dec_buffer d) \<and> 16 \<le> total_length \<and> total_length \<le> length (dec_buffer d)
            then skip_bytes total_length d else skip_bytes 1 d)
       | HeaderParseFailed _ \<Rightarrow>
           (let total_length = unat (from_be_bytes (slice (dec_buffer d) 0 4) :: u32) in
            if PRELUDE_SIZE \<le> length (dec_buffer d) \<and> 16 \<le> total_length \<and> total_length \<le> length (dec_buffer d)
            then skip_bytes total_length d else skip_bytes 1 d)
       | _ \<Rightarrow> skip_bytes 1 d))"

definition decode :: "(byte list \<Rightarrow> u32) \<Rightarrow> decoder \<Rightarrow> decoder \<times> frame option parse_result" where
  "decode crc d =
    (if dec_state d = Stopped then (d, Inl (TooManyErrors (error_count d) None))
     else if dec_buffer d = [] then (d\<lparr>dec_state := Ready\<rparr>, Inr None)
     else let d1 = d\<lparr>dec_state := Parsing\<rparr> in
       (case parse_frame crc (dec_buffer d1) of
          Inr (Some (f, consumed)) \<Rightarrow>
            (d1\<lparr>dec_buffer := drop consumed (dec_buffer d1), dec_state := Ready,
                frames_decoded := frames_decoded d1 + 1, error_count := 0\<rparr>, Inr (Some f))
        | Inr None \<Rightarrow> (d1\<lparr>dec_state := Ready\<rparr>, Inr None)
        | Inl e \<Rightarrow>
            (let d2 = d1\<lparr>error_count := error_count d1 + 1\<rparr> in
             if max_errors d2 \<le> error_count d2
             then (d2\<lparr>dec_state := Stopped\<rparr>, Inl (TooManyErrors (error_count d2) (Some e)))
             else ((try_recover e d2)\<lparr>dec_state := Recovering\<rparr>, Inl e))))"

text \<open>\<open>DecodeIter::next\<close>: \<open>None\<close> ends the iteration.\<close>

definition iter_next :: "(byte list \<Rightarrow> u32) \<Rightarrow> decoder \<Rightarrow> decoder \<times> frame parse_result option" where
  "iter_next crc d =
    (case dec_state d of
       Stopped \<Rightarrow> (d, None)
     | Recovering \<Rightarrow> (d, None)
     | _ \<Rightarrow> (case decode crc d of
         (d', Inr (Some f)) \<Rightarrow> (d', Some (Inr f))
       | (d', Inr None) \<Rightarrow> (d', None)
       | (d', Inl e) \<Rightarrow> (d', Some (Inl e))))"

subsection \<open>Each call makes progress\<close>

lemma try_recover_fields [simp]:
  "max_errors (try_recover e d) = max_errors d"
  "max_buffer_size (try_recover e d) = max_buffer_size d"
  "error_count (try_recover e d) = error_count d"
  "frames_decoded (try_recover e d) = frames_decoded d"
  by (auto simp: try_recover_def skip_bytes_def Let_def split: parse_error.splits)

lemma try_recover_drops:
  "dec_buffer d \<noteq> [] \<Longrightarrow> \<exists>n. 0 < n \<and> dec_buffer (try_recover e d) = drop n (dec_buffer d)"
  by (auto simp: try_recover_def skip_bytes_def Let_def split: parse_error.splits)
     (metis less_nat_zero_code not_gr_zero not_numeral_le_zero zero_less_one)+

lemma decode_frame:
  assumes "decode crc d = (d', Inr (Some f))"
  obtains n where "parse_frame crc (dec_buffer d) = Inr (Some (f, n))" and "dec_buffer d \<noteq> []"
    and "d' = d\<lparr>dec_buffer := drop n (dec_buffer d), dec_state := Ready,
                frames_decoded := frames_decoded d + 1, error_count := 0\<rparr>"
  using assms by (auto simp: decode_def Let_def split: if_splits sum.splits option.splits)

lemma decode_frame_shrinks:
  assumes "decode crc d = (d', Inr (Some f))"
  shows "length (dec_buffer d') + MIN_MESSAGE_SIZE \<le> length (dec_buffer d)"
  using assms by (rule decode_frame) (auto dest!: parse_frame_consumed)

lemma decode_error_state:
  "decode crc d = (d', Inl e) \<Longrightarrow> dec_state d' = Stopped \<or> dec_state d' = Recovering"
  by (auto simp: decode_def Let_def split: if_splits sum.splits option.splits)

lemma decode_none_buffer: "decode crc d = (d', Inr None) \<Longrightarrow> dec_buffer d' = dec_buffer d \<and> dec_state d' = Ready"
  by (auto simp: decode_def Let_def split: if_splits sum.splits option.splits)

lemma decode_buffer_suffix: "\<exists>n. dec_buffer (fst (decode crc d)) = drop n (dec_buffer d)"
proof (cases "dec_state d = Stopped \<or> dec_buffer d = []")
  case True
  then show ?thesis by (intro exI [of _ 0]) (auto simp: decode_def)
next
  case False
  show ?thesis
  proof (cases "parse_frame crc (dec_buffer d)")
    case (Inl e)
    let ?d2 = "d\<lparr>dec_state := Parsing, error_count := error_count d + 1\<rparr>"
    from False obtain n where "dec_buffer (try_recover e ?d2) = drop n (dec_buffer d)"
      using try_recover_drops [of ?d2 e] by auto
    moreover have "drop 0 (dec_buffer d) = dec_buffer d" by simp
    ultimately show ?thesis using False Inl
      by (cases "max_errors d \<le> error_count d + 1") (auto simp: decode_def Let_def intro: exI [of _ 0])
  next
    case (Inr r)
    with False show ?thesis
      by (cases r) (auto simp: decode_def Let_def intro: exI [of _ 0])
  qed
qed

text \<open>A frame or an error of the iterator: the buffer is shorter, or the iteration has ended.\<close>

definition iter_measure :: "decoder \<Rightarrow> nat" where
  "iter_measure d =
     (case dec_state d of Stopped \<Rightarrow> 0 | Recovering \<Rightarrow> 0 | _ \<Rightarrow> Suc (length (dec_buffer d)))"

lemma iter_next_decreases: "iter_next crc d = (d', Some r) \<Longrightarrow> iter_measure d' < iter_measure d"
proof -
  assume n: "iter_next crc d = (d', Some r)"
  then have run: "dec_state d \<noteq> Stopped" "dec_state d \<noteq> Recovering"
    by (auto simp: iter_next_def)
  from n run consider f where "decode crc d = (d', Inr (Some f))" | e where "decode crc d = (d', Inl e)"
    by (auto simp: iter_next_def split: decoder_state.splits prod.splits sum.splits option.splits)
  then show ?thesis
  proof cases
    case (1 f)
    then have "length (dec_buffer d') < length (dec_buffer d)"
      using decode_frame_shrinks [OF 1] by (simp add: frame_consts)
    with run show ?thesis by (auto simp: iter_measure_def split: decoder_state.splits)
  next
    case (2 e)
    with decode_error_state [OF 2] run show ?thesis
      by (auto simp: iter_measure_def split: decoder_state.splits)
  qed
qed

text \<open>\<open>for r in decoder.decode_iter()\<close>: all the items of one iteration.\<close>

function decode_all :: "(byte list \<Rightarrow> u32) \<Rightarrow> decoder \<Rightarrow> decoder \<times> frame parse_result list" where
  "decode_all crc d =
    (case iter_next crc d of
       (d', None) \<Rightarrow> (d', [])
     | (d', Some r) \<Rightarrow> (case decode_all crc d' of (d'', rs) \<Rightarrow> (d'', r # rs)))"
  by pat_completeness auto
termination
  by (relation "measure (\<lambda>(crc, d). iter_measure d)") (auto dest: iter_next_decreases [OF sym])

declare decode_all.simps [simp del]

text \<open>
  What the clients do with one chunk: feed it, note an error, and take every item of the iterator in any case
  (\<open>anthropic/handlers.rs\<close>, \<open>anthropic/websearch_loop.rs\<close>).
\<close>

definition on_chunk :: "(byte list \<Rightarrow> u32) \<Rightarrow> decoder \<Rightarrow> byte list \<Rightarrow> decoder \<times> frame parse_result list" where
  "on_chunk crc d bytes =
    (case feed d bytes of
       (d', r) \<Rightarrow>
         (case decode_all crc d' of
            (d', items) \<Rightarrow> (d', (case r of Inl e \<Rightarrow> Inl e # items | Inr _ \<Rightarrow> items))))"

subsection \<open>The invariant\<close>

definition decoder_inv :: "decoder \<Rightarrow> bool" where
  "decoder_inv d \<longleftrightarrow> length (dec_buffer d) \<le> max_buffer_size d
     \<and> 0 < max_errors d
     \<and> (if dec_state d = Stopped then error_count d = max_errors d else error_count d < max_errors d)
     \<and> dec_state d \<noteq> Parsing"

lemma decoder_inv_new [step_intros]: "decoder_inv decoder_new"
  by (simp add: decoder_inv_def decoder_new_def DEFAULT_MAX_ERRORS_def)

lemma decoder_inv_feed [step_intros]: "decoder_inv d \<Longrightarrow> decoder_inv (fst (feed d bs))"
  by (auto simp: decoder_inv_def feed_def Let_def)

lemma decoder_inv_decode [step_intros]:
  assumes "decoder_inv d"
  shows "decoder_inv (fst (decode crc d))"
proof -
  obtain n where n: "dec_buffer (fst (decode crc d)) = drop n (dec_buffer d)"
    using decode_buffer_suffix by blast
  have "max_buffer_size (fst (decode crc d)) = max_buffer_size d"
    by (auto simp: decode_def Let_def split: sum.splits option.splits)
  with n assms have "length (dec_buffer (fst (decode crc d))) \<le> max_buffer_size (fst (decode crc d))"
    by (auto simp: decoder_inv_def)
  with assms show ?thesis
    by (auto simp: decoder_inv_def decode_def Let_def split: sum.splits option.splits)
qed

lemma decoder_inv_iter_next [step_intros]: "decoder_inv d \<Longrightarrow> decoder_inv (fst (iter_next crc d))"
  using decoder_inv_decode [of d crc]
  by (auto simp: iter_next_def split: decoder_state.splits prod.splits sum.splits option.splits)

lemma decoder_inv_decode_all [step_intros]: "decoder_inv d \<Longrightarrow> decoder_inv (fst (decode_all crc d))"
proof (induction crc d rule: decode_all.induct)
  case (1 crc d)
  then show ?case using decoder_inv_iter_next [OF "1.prems", of crc]
    by (subst decode_all.simps) (auto split: prod.splits option.splits)
qed

lemma decoder_inv_on_chunk [step_intros]: "decoder_inv d \<Longrightarrow> decoder_inv (fst (on_chunk crc d bs))"
  using decoder_inv_decode_all [OF decoder_inv_feed, of d crc bs]
  by (auto simp: on_chunk_def split: prod.splits)

interpretation dec: machine "on_chunk crc" decoder_inv for crc
  by unfold_locales (rule decoder_inv_on_chunk)

text \<open>In every state the decoder can reach, the buffer holds at most the maximal size and
  fewer than five consecutive errors have been counted, unless the decoder has stopped at the fifth.
  It holds over any sequence of chunks, with valid or damaged content.\<close>

theorem decoder_reachable_inv:
  "decoder_inv (fst (run (on_chunk crc) decoder_new chunks))"
  by (rule dec.run_inv) (rule decoder_inv_new)

subsection \<open>Chunking\<close>

lemma decode_all_stop:
  "iter_next crc d = (d', None) \<Longrightarrow> decode_all crc d = (d', [])"
  by (subst decode_all.simps) simp

lemma decode_all_step:
  "iter_next crc d = (d', Some r) \<Longrightarrow> decode_all crc d = (fst (decode_all crc d'), r # snd (decode_all crc d'))"
  by (subst decode_all.simps) (simp split: prod.splits)

text \<open>
  A state between two chunks of a well-formed stream: what is buffered is a proper prefix of the
  next message (or nothing), no error has been counted, and the rest of the stream is to come.
\<close>

definition enc :: "(byte list \<Rightarrow> u32) \<Rightarrow> ((string \<times> header_value) list \<times> byte list) list \<Rightarrow> byte list" where
  "enc crc ms = concat (map (encode_frame crc) ms)"

lemma decode_all_empty:
  "dec_state d = Ready \<Longrightarrow> dec_buffer d = [] \<Longrightarrow> decode_all crc d = (d, [])"
  by (rule decode_all_stop) (simp add: iter_next_def decode_def)

lemma decode_all_waits:
  assumes "dec_state d = Ready" and "parse_frame crc (dec_buffer d) = Inr None"
  shows "decode_all crc d = (d, [])"
  using assms by (intro decode_all_stop) (simp add: iter_next_def decode_def Let_def)

lemma decode_all_frame:
  assumes "dec_state d = Ready" and "frame_ok m" and "dec_buffer d = encode_frame crc m @ rest"
  shows "decode_all crc d =
    (let d' = d\<lparr>dec_buffer := rest, frames_decoded := frames_decoded d + 1, error_count := 0\<rparr> in
     (fst (decode_all crc d'), Inr (frame_of m) # snd (decode_all crc d')))"
proof -
  have "encode_frame crc m \<noteq> []" using length_encode_frame [of crc m] by (auto simp: frame_consts)
  with assms have "iter_next crc d =
      (d\<lparr>dec_buffer := rest, frames_decoded := frames_decoded d + 1, error_count := 0\<rparr>, Some (Inr (frame_of m)))"
    by (simp add: iter_next_def decode_def Let_def parse_frame_encode)
  then show ?thesis by (simp add: Let_def decode_all_step)
qed

text \<open>The messages whose last byte is among the first \<open>k\<close> bytes of the stream.\<close>

fun complete :: "(byte list \<Rightarrow> u32) \<Rightarrow> ((string \<times> header_value) list \<times> byte list) list \<Rightarrow> nat
    \<Rightarrow> ((string \<times> header_value) list \<times> byte list) list" where
  "complete crc [] k = []"
| "complete crc (m # ms) k =
     (if length (encode_frame crc m) \<le> k
      then m # complete crc ms (k - length (encode_frame crc m)) else [])"

lemma complete_prefix: "\<exists>rest. ms = complete crc ms k @ rest"
  by (induction ms arbitrary: k) auto

lemma complete_all: "length (enc crc ms) \<le> k \<Longrightarrow> complete crc ms k = ms"
  by (induction ms arbitrary: k) (auto simp: enc_def)

lemma decode_all_stream:
  assumes "dec_state d = Ready" and "list_all frame_ok ms" and "dec_buffer d = take k (enc crc ms)"
  shows "\<exists>rest. ms = complete crc ms k @ rest \<and>
    snd (decode_all crc d) = map (Inr \<circ> frame_of) (complete crc ms k) \<and>
    dec_buffer (fst (decode_all crc d)) = take (k - length (enc crc (complete crc ms k))) (enc crc rest) \<and>
    dec_state (fst (decode_all crc d)) = Ready \<and>
    max_buffer_size (fst (decode_all crc d)) = max_buffer_size d"
  using assms
proof (induction ms arbitrary: d k)
  case Nil
  then show ?case by (simp add: enc_def decode_all_empty)
next
  case (Cons m ms)
  let ?e = "encode_frame crc m"
  from Cons.prems have m: "frame_ok m" and ms: "list_all frame_ok ms" by simp_all
  show ?case
  proof (cases "length ?e \<le> k")
    case True
    let ?d = "d\<lparr>dec_buffer := take (k - length ?e) (enc crc ms), frames_decoded := frames_decoded d + 1, error_count := 0\<rparr>"
    from True Cons.prems(3) have buf: "dec_buffer d = ?e @ take (k - length ?e) (enc crc ms)"
      by (simp add: enc_def)
    have st: "dec_state ?d = Ready" and bd: "dec_buffer ?d = take (k - length ?e) (enc crc ms)"
      using Cons.prems(1) by simp_all
    from Cons.IH [OF st ms bd] decode_all_frame [OF Cons.prems(1) m buf] True
    show ?thesis by (auto simp: Let_def enc_def)
  next
    case False
    then have "dec_buffer d = take k ?e" using Cons.prems(3) by (simp add: enc_def)
    with False have "parse_frame crc (dec_buffer d) = Inr None" using parse_frame_prefix [OF m] by simp
    with Cons.prems False show ?thesis by (simp add: decode_all_waits enc_def)
  qed
qed

lemma on_chunk_stream:
  assumes "dec_state d = Ready" and "list_all frame_ok ms"
    and "dec_buffer d @ c = take k (enc crc ms)" and "length (dec_buffer d @ c) \<le> max_buffer_size d"
  shows "\<exists>rest. ms = complete crc ms k @ rest \<and>
    snd (on_chunk crc d c) = map (Inr \<circ> frame_of) (complete crc ms k) \<and>
    dec_buffer (fst (on_chunk crc d c)) = take (k - length (enc crc (complete crc ms k))) (enc crc rest) \<and>
    dec_state (fst (on_chunk crc d c)) = Ready \<and>
    max_buffer_size (fst (on_chunk crc d c)) = max_buffer_size d"
proof -
  let ?d = "d\<lparr>dec_buffer := dec_buffer d @ c\<rparr>"
  have "on_chunk crc d c = decode_all crc ?d"
    using assms(1,4) by (simp add: on_chunk_def feed_def Let_def)
  with decode_all_stream [of ?d ms k crc] assms show ?thesis by simp
qed

lemma complete_rest:
  "ms = complete crc ms k @ rest \<Longrightarrow> complete crc rest (k - length (enc crc (complete crc ms k))) = []"
proof (induction ms arbitrary: k)
  case Nil
  then show ?case by simp
next
  case (Cons m ms)
  show ?case
  proof (cases "length (encode_frame crc m) \<le> k")
    case True
    with Cons.prems Cons.IH [of "k - length (encode_frame crc m)"] show ?thesis by (simp add: enc_def)
  next
    case False
    with Cons.prems show ?thesis by (auto simp: enc_def)
  qed
qed

lemma complete_less_nil: "complete crc ms k = [] \<Longrightarrow> j \<le> k \<Longrightarrow> complete crc ms j = []"
  by (cases ms) (auto split: if_splits)

lemma complete_enc_le: "length (enc crc (complete crc ms k)) \<le> k"
proof (induction ms arbitrary: k)
  case Nil
  then show ?case by (simp add: enc_def)
next
  case (Cons m ms)
  from Cons.IH [of "k - length (encode_frame crc m)"] show ?case by (auto simp: enc_def)
qed

lemma enc_append: "enc crc (ms @ ns) = enc crc ms @ enc crc ns"
  by (simp add: enc_def)

text \<open>The buffer fits every chunk on top of an incomplete message.\<close>

definition fits :: "(byte list \<Rightarrow> u32) \<Rightarrow> nat \<Rightarrow> ((string \<times> header_value) list \<times> byte list) list \<Rightarrow> byte list list \<Rightarrow> bool" where
  "fits crc cap ms cs \<longleftrightarrow> (\<forall>m \<in> set ms. \<forall>c \<in> set cs. length (encode_frame crc m) + length c \<le> cap)"

lemma run_stream:
  assumes "dec_state d = Ready" and "list_all frame_ok ms"
    and "complete crc ms (length (dec_buffer d)) = []"
    and "dec_buffer d @ concat cs = enc crc ms" and "fits crc (max_buffer_size d) ms cs"
  shows "snd (run (on_chunk crc) d cs) = map (Inr \<circ> frame_of) ms"
  using assms
proof (induction cs arbitrary: d ms)
  case Nil
  then have "ms = []" using complete_all [of crc ms "length (dec_buffer d)"] by simp
  then show ?case by simp
next
  case (Cons c cs)
  define k where "k = length (dec_buffer d @ c)"
  have tk: "dec_buffer d @ c = take k (enc crc ms)" and dk: "concat cs = drop k (enc crc ms)"
    using Cons.prems(4) by (simp_all add: k_def flip: Cons.prems(4))
  have "length (dec_buffer d @ c) \<le> max_buffer_size d"
  proof (cases ms)
    case Nil
    with tk show ?thesis by (simp add: enc_def)
  next
    case (Cons m ms')
    with Cons.prems(3,5) show ?thesis by (auto simp: fits_def split: if_splits)
  qed
  from on_chunk_stream [OF Cons.prems(1,2) tk this] obtain rest where
    ms: "ms = complete crc ms k @ rest"
    and out: "snd (on_chunk crc d c) = map (Inr \<circ> frame_of) (complete crc ms k)"
    and buf: "dec_buffer (fst (on_chunk crc d c)) = take (k - length (enc crc (complete crc ms k))) (enc crc rest)"
    and st: "dec_state (fst (on_chunk crc d c)) = Ready"
    and cap: "max_buffer_size (fst (on_chunk crc d c)) = max_buffer_size d" by blast
  have "concat cs = drop (k - length (enc crc (complete crc ms k))) (enc crc rest)"
    using dk complete_enc_le [of crc ms k] by (subst (asm) ms) (simp add: enc_append)
  then have join: "dec_buffer (fst (on_chunk crc d c)) @ concat cs = enc crc rest" by (simp add: buf)
  have nil: "complete crc rest (length (dec_buffer (fst (on_chunk crc d c)))) = []"
    using complete_rest [OF ms] by (rule complete_less_nil) (simp add: buf)
  have sub: "set rest \<subseteq> set ms" by (metis ms Un_upper2 set_append)
  have ok: "list_all frame_ok rest" using Cons.prems(2) sub by (auto simp: list_all_iff)
  have fit: "fits crc (max_buffer_size (fst (on_chunk crc d c))) rest cs"
    using Cons.prems(5) sub by (auto simp: fits_def cap)
  have "snd (run (on_chunk crc) d (c # cs)) =
      snd (on_chunk crc d c) @ snd (run (on_chunk crc) (fst (on_chunk crc d c)) cs)"
    by (simp split: prod.splits)
  also have "\<dots> = map (Inr \<circ> frame_of) (complete crc ms k @ rest)"
    using Cons.IH [OF st ok nil join fit] out by simp
  finally show ?case by (simp only: ms [symmetric])
qed

text \<open>C1: A stream of well-formed messages is decoded to exactly those messages, in order and without
  an error, however the transport cuts it into chunks, and whatever its total length: it is enough
  that one chunk on top of one message fits the buffer.\<close>

theorem decoder_chunking:
  assumes "list_all frame_ok ms" and "concat chunks = enc crc ms"
    and "fits crc DEFAULT_MAX_BUFFER_SIZE ms chunks"
  shows "snd (run (on_chunk crc) decoder_new chunks) = map (Inr \<circ> frame_of) ms"
proof (rule run_stream)
  show "complete crc ms (length (dec_buffer decoder_new)) = []"
    using length_encode_frame by (cases ms) (auto simp: decoder_new_def frame_consts)
qed (use assms in \<open>simp_all add: decoder_new_def\<close>)

text \<open>A message of one header, cut inside its prelude, with a checksum that is constantly zero.\<close>

definition sample_message :: "(string \<times> header_value) list \<times> byte list" where
  "sample_message = ([(''x'', VString ''ab'')], [1, 2, 3])"

definition sample_chunks :: "byte list list" where
  "sample_chunks = [take 5 (encode_frame (\<lambda>_. 0) sample_message), drop 5 (encode_frame (\<lambda>_. 0) sample_message)]"

lemma sample_ok: "frame_ok sample_message"
proof -
  have "utf8_valid ''x''" and "utf8_valid ''ab''" by code_simp+
  then show ?thesis
    by (simp add: frame_ok_def sample_message_def header_ok_def encode_headers_def encode_header_def frame_consts)
qed

theorem decoder_chunking_witness:
  "snd (run (on_chunk (\<lambda>_. 0)) decoder_new sample_chunks) = [Inr (frame_of sample_message)]"
proof -
  have l: "length (encode_frame (\<lambda>_. 0) sample_message) = 26"
    by (simp add: length_encode_frame sample_message_def encode_headers_def encode_header_def frame_consts)
  have "snd (run (on_chunk (\<lambda>_. 0)) decoder_new sample_chunks) = map (Inr \<circ> frame_of) [sample_message]"
    by (rule decoder_chunking)
       (simp_all add: sample_ok sample_chunks_def enc_def fits_def l DEFAULT_MAX_BUFFER_SIZE_def)
  then show ?thesis by simp
qed

subsection \<open>Errors and recovery\<close>

text \<open>Every failed decode either stops the decoder for good, at the limit of consecutive errors, or
  drops at least one byte of the buffer and never reads it again: the decoder cannot loop on damaged
  input.\<close>

theorem decode_error_progress:
  assumes "decode crc d = (d', Inl e)" and "dec_state d \<noteq> Stopped"
  shows "(dec_state d' = Stopped \<and> max_errors d \<le> error_count d' \<and> dec_buffer d' = dec_buffer d)
    \<or> (dec_state d' = Recovering \<and> error_count d' = error_count d + 1
        \<and> (\<exists>n. 0 < n \<and> dec_buffer d' = drop n (dec_buffer d))
        \<and> length (dec_buffer d') < length (dec_buffer d))"
proof -
  from assms have ne: "dec_buffer d \<noteq> []" and pf: "\<exists>e'. parse_frame crc (dec_buffer d) = Inl e'"
    by (auto simp: decode_def Let_def split: if_splits sum.splits option.splits)
  then obtain e' where e': "parse_frame crc (dec_buffer d) = Inl e'" by blast
  let ?d2 = "d\<lparr>dec_state := Parsing, error_count := error_count d + 1\<rparr>"
  from ne obtain n where n: "0 < n" "dec_buffer (try_recover e' ?d2) = drop n (dec_buffer d)"
    using try_recover_drops [of ?d2 e'] by auto
  have dr: "length (drop n (dec_buffer d)) < length (dec_buffer d)" using n(1) ne by (cases "dec_buffer d") auto
  from assms ne e' have "d' = (if max_errors d \<le> error_count d + 1 then ?d2\<lparr>dec_state := Stopped\<rparr>
      else (try_recover e' ?d2)\<lparr>dec_state := Recovering\<rparr>)"
    by (auto simp: decode_def Let_def split: if_splits)
  then show ?thesis
  proof (cases "max_errors d \<le> error_count d + 1")
    case True
    with \<open>d' = _\<close> show ?thesis by simp
  next
    case False
    with \<open>d' = _\<close> n dr show ?thesis by auto
  qed
qed

theorem decode_error_progress_witness:
  "dec_state (fst (decode (\<lambda>_. 0) (decoder_new\<lparr>dec_buffer := replicate 12 0\<rparr>))) = Recovering"
proof -
  let ?d = "decoder_new\<lparr>dec_buffer := replicate 12 (0 :: byte)\<rparr>"
  have z: "(from_be_bytes (replicate 4 0) :: u32) = 0"
    by (simp add: from_be_bytes_def be_nat_def numeral_eq_Suc)
  then have pf: "parse_frame (\<lambda>_. 0) (replicate 12 0) = Inl (MessageTooSmall 0 16)"
    by (simp add: parse_frame_def Let_def frame_consts slice_def)
  then have "decode (\<lambda>_. 0) ?d = (fst (decode (\<lambda>_. 0) ?d), Inl (MessageTooSmall 0 16))"
    by (simp add: decode_def Let_def decoder_new_def DEFAULT_MAX_ERRORS_def)
  from decode_error_progress [OF this] show ?thesis
    by (auto simp: decoder_new_def DEFAULT_MAX_ERRORS_def decode_def Let_def pf)
qed

text \<open>C35: A message whose checksum fails is skipped as a whole and the decoder is in step again: the
  next message is the first thing it decodes. It is decoded only when another chunk arrives: the
  iteration that reports the error ends with it, although the next message is already buffered.\<close>

theorem decoder_resync:
  assumes "dec_state d = Ready" and "error_count d + 1 < max_errors d"
    and "dec_buffer d = bad @ encode_frame crc m @ rest" and "frame_ok m"
    and "parse_frame crc (dec_buffer d) = Inl (MessageCrcMismatch x y)"
    and "length bad = unat (from_be_bytes (take 4 (dec_buffer d)) :: u32)"
    and "length (encode_frame crc m @ rest @ c) \<le> max_buffer_size d"
  shows "snd (decode_all crc d) = [Inl (MessageCrcMismatch x y)]
    \<and> dec_buffer (fst (decode_all crc d)) = encode_frame crc m @ rest
    \<and> hd (snd (on_chunk crc (fst (decode_all crc d)) c)) = Inr (frame_of m)"
proof -
  let ?t = "from_be_bytes (take 4 (dec_buffer d)) :: u32"
  from assms(5) have "12 \<le> length (dec_buffer d)" and "16 \<le> unat ?t" and "unat ?t \<le> length (dec_buffer d)"
    by (auto simp: parse_frame_def Let_def frame_consts slice_def word_less_nat_alt split: if_splits sum.splits)
  moreover from this have "dec_buffer d \<noteq> []" by auto
  moreover have "drop (unat ?t) (dec_buffer d) = encode_frame crc m @ rest"
    using assms(3) assms(6) [symmetric] by simp
  ultimately have dec: "decode crc d = (d\<lparr>dec_buffer := encode_frame crc m @ rest, dec_state := Recovering,
      error_count := error_count d + 1, bytes_skipped := bytes_skipped d + unat ?t\<rparr>, Inl (MessageCrcMismatch x y))"
    (is "_ = (?d', _)")
    using assms(1,2,5)
    by (simp add: decode_def Let_def try_recover_def skip_bytes_def slice_def frame_consts)
  then have it: "iter_next crc d = (?d', Some (Inl (MessageCrcMismatch x y)))"
    using assms(1) by (simp add: iter_next_def)
  have all: "decode_all crc d = (?d', [Inl (MessageCrcMismatch x y)])"
    using decode_all_step [OF it] decode_all_stop [of crc ?d' ?d'] by (simp add: iter_next_def)
  let ?d2 = "?d'\<lparr>dec_buffer := encode_frame crc m @ rest @ c, dec_state := Ready\<rparr>"
  have "on_chunk crc ?d' c = decode_all crc ?d2"
    using assms(7) by (simp add: on_chunk_def feed_def Let_def)
  with decode_all_frame [of ?d2 m crc "rest @ c"] assms(4) all show ?thesis by (simp add: Let_def)
qed

text \<open>A sixteen byte message whose last checksum is wrong, followed by a good one.\<close>

definition sample_crc :: "byte list \<Rightarrow> u32" where
  "sample_crc bs = of_nat (length bs)"

definition damaged :: "byte list" where
  "damaged = be_bytes 4 16 @ be_bytes 4 0 @ be_bytes 4 8 @ be_bytes 4 0"

lemma parse_damaged: "parse_frame sample_crc (damaged @ rest) = Inl (MessageCrcMismatch 0 12)"
proof -
  have b: "(from_be_bytes (be_bytes 4 n) :: u32) = of_nat n" if "n < 4294967296" for n
    using that by (simp add: from_be_bytes_def be_nat_be_bytes)
  define buf where "buf = damaged @ rest"
  have s: "slice buf 0 4 = be_bytes 4 16" "slice buf 4 8 = be_bytes 4 0" "slice buf 8 12 = be_bytes 4 8"
      "slice buf 12 16 = be_bytes 4 0"
    by (simp_all add: damaged_def slice_def buf_def)
  have t: "sample_crc (take 8 buf) = 8" "sample_crc (take 12 buf) = 12" "16 \<le> length buf"
    by (simp_all add: damaged_def sample_crc_def buf_def)
  have "parse_frame sample_crc buf = Inl (MessageCrcMismatch 0 12)"
    using t(3) by (simp add: parse_frame_def Let_def frame_consts s b t(1,2))
  then show ?thesis by (simp add: buf_def)
qed

theorem decoder_resync_witness:
  "hd (snd (on_chunk sample_crc (fst (decode_all sample_crc
       (decoder_new\<lparr>dec_buffer := damaged @ encode_frame sample_crc sample_message\<rparr>))) [])) =
   Inr (frame_of sample_message)"
proof -
  let ?d = "decoder_new\<lparr>dec_buffer := damaged @ encode_frame sample_crc sample_message\<rparr>"
  have l: "length (encode_frame sample_crc sample_message) = 26"
    by (simp add: length_encode_frame sample_message_def encode_headers_def encode_header_def frame_consts)
  have "take 4 (dec_buffer ?d) = be_bytes 4 16" and d: "length damaged = 16"
    by (simp_all add: damaged_def)
  then have t: "length damaged = unat (from_be_bytes (take 4 (dec_buffer ?d)) :: u32)"
    by (simp only: from_be_bytes_u32)
  have "dec_state ?d = Ready" "error_count ?d + 1 < max_errors ?d"
      "dec_buffer ?d = damaged @ encode_frame sample_crc sample_message @ []"
      "length (encode_frame sample_crc sample_message @ [] @ []) \<le> max_buffer_size ?d"
    by (simp_all add: decoder_new_def DEFAULT_MAX_ERRORS_def DEFAULT_MAX_BUFFER_SIZE_def l)
  moreover have "parse_frame sample_crc (dec_buffer ?d) = Inl (MessageCrcMismatch 0 12)"
    by (simp add: parse_damaged)
  ultimately show ?thesis using decoder_resync [OF _ _ _ sample_ok _ t] by blast
qed

end
