(* ===== verification/Json.thy ===== *)
theory Json imports Text begin

section \<open>JSON values\<close>

text \<open>
  The values of the \<open>serde_json\<close> crate that the program inspects and builds. The crate itself is
  not part of the repository: parsing and printing are a parameter \<open>serde\<close> of the model. An object
  is an association list; lookups and insertions are those of the crate's map, whose key order the
  program never reads.
\<close>

datatype json =
    JNull
  | JBool bool
  | JInt int            \<comment> \<open>integers, from \<open>i64::MIN\<close> to \<open>u64::MAX\<close>\<close>
  | JFloat rat
  | JStr string
  | JArr "json list"
  | JObj "(string \<times> json) list"

record serde =
  from_str :: "string \<Rightarrow> string + json"   \<comment> \<open>\<open>Inl\<close>: the error message\<close>
  to_str :: "json \<Rightarrow> string"

fun json_get :: "json \<Rightarrow> string \<Rightarrow> json option" where
  "json_get (JObj kvs) k = map_of kvs k"
| "json_get _ k = None"

fun json_as_str :: "json \<Rightarrow> string option" where
  "json_as_str (JStr s) = Some s"
| "json_as_str _ = None"

fun json_is_null :: "json \<Rightarrow> bool" where
  "json_is_null JNull = True"
| "json_is_null _ = False"

fun json_as_int :: "json \<Rightarrow> int option" where
  "json_as_int (JInt i) = Some i"
| "json_as_int _ = None"

text \<open>\<open>as_i64\<close> and \<open>as_u64\<close>: \<open>None\<close> outside the range of the type.\<close>

definition json_as_i64 :: "json \<Rightarrow> int option" where
  "json_as_i64 j = (case json_as_int j of
     Some i \<Rightarrow> if - (2 ^ 63) \<le> i \<and> i < 2 ^ 63 then Some i else None | None \<Rightarrow> None)"

definition json_as_u64 :: "json \<Rightarrow> int option" where
  "json_as_u64 j = (case json_as_int j of
     Some i \<Rightarrow> if 0 \<le> i \<and> i < 2 ^ 64 then Some i else None | None \<Rightarrow> None)"

text \<open>Reading a 64 bit pattern as signed: \<open>v as i64\<close>, and the wrap-around of \<open>i64\<close> arithmetic.\<close>

definition wrap_i64 :: "int \<Rightarrow> int" where
  "wrap_i64 i = (i + 2 ^ 63) mod 2 ^ 64 - 2 ^ 63"

lemma wrap_i64_id: "- (2 ^ 63) \<le> i \<Longrightarrow> i < 2 ^ 63 \<Longrightarrow> wrap_i64 i = i"
  by (simp add: wrap_i64_def)

type_synonym json_map = "(string \<times> json) list"

definition map_insert :: "string \<Rightarrow> json \<Rightarrow> json_map \<Rightarrow> json_map" where
  "map_insert k v m = AList.update k v m"

lemma map_of_map_insert [simp]: "map_of (map_insert k v m) = (map_of m)(k \<mapsto> v)"
  by (simp add: map_insert_def update_conv' fun_eq_iff)

end
