(* ===== verification/Events.thy ===== *)
theory Events imports Frames Json begin

section \<open>Upstream events (src/src/kiro/model/events)\<close>

text \<open>
  The events the upstream sends in the frames: the event type strings, the payload structs with
  their defaults, the dispatch on the message type, and the removal of leaked tool markup from an
  assistant message. The JSON parser is the parameter \<open>from_slice\<close>; a struct is read from the
  parsed value by the rules its attributes name (a required field that is missing or ill-typed
  and a field that occurs twice are errors, whose texts are not modelled beyond the field's name).
  Binary floating point numbers are modelled as rationals.
\<close>

datatype event_type =
    AssistantResponseType | CodeType | ToolUseType | MeteringType | ContextUsageType
  | ReasoningContentType | UnknownType

definition event_type_from_str :: "string \<Rightarrow> event_type" where
  "event_type_from_str s =
     (if s = ''assistantResponseEvent'' then AssistantResponseType
      else if s = ''codeEvent'' then CodeType
      else if s = ''toolUseEvent'' then ToolUseType
      else if s = ''meteringEvent'' then MeteringType
      else if s = ''contextUsageEvent'' then ContextUsageType
      else if s = ''reasoningContentEvent'' then ReasoningContentType
      else UnknownType)"

fun event_type_as_str :: "event_type \<Rightarrow> string" where
  "event_type_as_str AssistantResponseType = ''assistantResponseEvent''"
| "event_type_as_str CodeType = ''codeEvent''"
| "event_type_as_str ToolUseType = ''toolUseEvent''"
| "event_type_as_str MeteringType = ''meteringEvent''"
| "event_type_as_str ContextUsageType = ''contextUsageEvent''"
| "event_type_as_str ReasoningContentType = ''reasoningContentEvent''"
| "event_type_as_str UnknownType = ''unknown''"

lemma event_type_roundtrip: "event_type_from_str (event_type_as_str t) = t"
  by (cases t) (simp_all add: event_type_from_str_def)

record tool_use_event =
  tu_name :: string
  tool_use_id :: string
  tu_input :: string
  tu_stop :: bool

record reasoning_content_event =
  reasoning_text :: string
  reasoning_signature :: "string option"
  redacted_content :: "string option"

datatype event =
    AssistantResponse string
  | Code string
  | ToolUse tool_use_event
  | Metering rat
  | ContextUsage rat
  | ReasoningContent reasoning_content_event
  | UnknownEvent
  | ErrorEvent string string        \<comment> \<open>code, message\<close>
  | ExceptionEvent string string    \<comment> \<open>type, message\<close>

subsection \<open>Leaked tool markup\<close>

text \<open>\<open>tag_head.get(9..).is_some_and(|s| s.is_empty() || s.starts_with(char::is_whitespace))\<close>\<close>

definition is_tool_use_tag_head :: "string \<Rightarrow> bool" where
  "is_tool_use_tag_head tag_head =
     (length ''<tool_use'' \<le> length tag_head \<and>
      (let suffix = drop (length ''<tool_use'') tag_head in suffix = [] \<or> starts_with_whitespace suffix))"

function strip_tool_use_loop :: "string \<Rightarrow> string \<Rightarrow> string" where
  "strip_tool_use_loop rest out =
    (case find_sub rest ''<tool_use'' of
       None \<Rightarrow> out @ rest
     | Some start \<Rightarrow>
         let out1 = out @ take start rest; after_start = drop start rest in
         (case find_sub after_start ''>'' of
            None \<Rightarrow> out1
          | Some open_end \<Rightarrow>
              let tag_head = take open_end after_start in
              if \<not> is_tool_use_tag_head tag_head
              then strip_tool_use_loop (drop (length ''<tool_use'') after_start)
                     (out1 @ take (length ''<tool_use'') after_start)
              else let after_open = drop (open_end + 1) after_start in
                (case find_sub after_open ''</tool_use>'' of
                   None \<Rightarrow> out1
                 | Some close_start \<Rightarrow>
                     strip_tool_use_loop (drop (close_start + length ''</tool_use>'') after_open) out1)))"
  by pat_completeness auto
termination
proof (relation "measure (\<lambda>(rest, out). length rest)", goal_cases)
  case 1
  show ?case by simp
next
  case (2 rest out start out1 after_start open_end tag_head)
  then show ?case by (auto dest!: find_sub_Some)
next
  case (3 rest out start out1 after_start open_end tag_head after_open close_start)
  then show ?case by (auto dest!: find_sub_Some)
qed

declare strip_tool_use_loop.simps [simp del]

definition strip_tool_use_xml_leaks :: "string \<Rightarrow> string" where
  "strip_tool_use_xml_leaks content = trim (strip_tool_use_loop content [])"

lemma strip_no_tag: "find_sub s ''<tool_use'' = None \<Longrightarrow> strip_tool_use_xml_leaks s = trim s"
  by (simp add: strip_tool_use_xml_leaks_def strip_tool_use_loop.simps)

subsection \<open>Payload structs\<close>

text \<open>A field of a struct: all values an object gives for the key.\<close>

definition field_values :: "json \<Rightarrow> string \<Rightarrow> json list" where
  "field_values j k = (case j of JObj kvs \<Rightarrow> map snd (filter (\<lambda>e. fst e = k) kvs) | _ \<Rightarrow> [])"

definition field :: "(json \<Rightarrow> 'a option) \<Rightarrow> 'a option \<Rightarrow> json \<Rightarrow> string \<Rightarrow> 'a parse_result" where
  "field conv dflt j k =
    (case field_values j k of
       [] \<Rightarrow> (case dflt of Some d \<Rightarrow> Inr d | None \<Rightarrow> Inl (PayloadDeserialize k))
     | [v] \<Rightarrow> (case conv v of Some x \<Rightarrow> Inr x | None \<Rightarrow> Inl (PayloadDeserialize k))
     | _ \<Rightarrow> Inl (PayloadDeserialize k))"

fun json_as_bool :: "json \<Rightarrow> bool option" where
  "json_as_bool (JBool b) = Some b"
| "json_as_bool _ = None"

fun json_as_f64 :: "json \<Rightarrow> rat option" where
  "json_as_f64 (JInt i) = Some (of_int i)"
| "json_as_f64 (JFloat r) = Some r"
| "json_as_f64 _ = None"

fun json_opt_str :: "json \<Rightarrow> string option option" where
  "json_opt_str JNull = Some None"
| "json_opt_str (JStr s) = Some (Some s)"
| "json_opt_str _ = None"

definition is_object :: "json \<Rightarrow> bool" where
  "is_object j = (case j of JObj _ \<Rightarrow> True | _ \<Rightarrow> False)"

definition payload_as_json :: "(byte list \<Rightarrow> string + json) \<Rightarrow> frame \<Rightarrow> json parse_result" where
  "payload_as_json from_slice f =
    (case from_slice (frame_payload f) of
       Inl e \<Rightarrow> Inl (PayloadDeserialize e)
     | Inr j \<Rightarrow> if is_object j then Inr j else Inl (PayloadDeserialize ''invalid type''))"

definition assistant_response_from_frame :: "(byte list \<Rightarrow> string + json) \<Rightarrow> frame \<Rightarrow> string parse_result" where
  "assistant_response_from_frame from_slice f =
    (case payload_as_json from_slice f of
       Inl e \<Rightarrow> Inl e
     | Inr j \<Rightarrow> (case field json_as_str (Some []) j ''content'' of
         Inl e \<Rightarrow> Inl e
       | Inr content \<Rightarrow>
           Inr (if contains content ''<tool_use'' then strip_tool_use_xml_leaks content else content)))"

definition tool_use_from_frame :: "(byte list \<Rightarrow> string + json) \<Rightarrow> frame \<Rightarrow> tool_use_event parse_result" where
  "tool_use_from_frame from_slice f =
    (case payload_as_json from_slice f of
       Inl e \<Rightarrow> Inl e
     | Inr j \<Rightarrow> (case field json_as_str None j ''name'' of
         Inl e \<Rightarrow> Inl e
       | Inr n \<Rightarrow> (case field json_as_str None j ''toolUseId'' of
           Inl e \<Rightarrow> Inl e
         | Inr i \<Rightarrow> (case field json_as_str (Some []) j ''input'' of
             Inl e \<Rightarrow> Inl e
           | Inr inp \<Rightarrow> (case field json_as_bool (Some False) j ''stop'' of
               Inl e \<Rightarrow> Inl e
             | Inr st \<Rightarrow> Inr \<lparr>tu_name = n, tool_use_id = i, tu_input = inp, tu_stop = st\<rparr>)))))"

definition metering_from_frame :: "(byte list \<Rightarrow> string + json) \<Rightarrow> frame \<Rightarrow> rat parse_result" where
  "metering_from_frame from_slice f =
    (case payload_as_json from_slice f of
       Inl e \<Rightarrow> Inl e | Inr j \<Rightarrow> field json_as_f64 (Some 0) j ''usage'')"

definition context_usage_from_frame :: "(byte list \<Rightarrow> string + json) \<Rightarrow> frame \<Rightarrow> rat parse_result" where
  "context_usage_from_frame from_slice f =
    (case payload_as_json from_slice f of
       Inl e \<Rightarrow> Inl e | Inr j \<Rightarrow> field json_as_f64 (Some 0) j ''contextUsagePercentage'')"

definition reasoning_from_frame :: "(byte list \<Rightarrow> string + json) \<Rightarrow> frame \<Rightarrow> reasoning_content_event parse_result" where
  "reasoning_from_frame from_slice f =
    (case payload_as_json from_slice f of
       Inl e \<Rightarrow> Inl e
     | Inr j \<Rightarrow> (case field json_as_str (Some []) j ''text'' of
         Inl e \<Rightarrow> Inl e
       | Inr t \<Rightarrow> (case field json_opt_str (Some None) j ''signature'' of
           Inl e \<Rightarrow> Inl e
         | Inr s \<Rightarrow> (case field json_opt_str (Some None) j ''redactedContent'' of
             Inl e \<Rightarrow> Inl e
           | Inr r \<Rightarrow> Inr \<lparr>reasoning_text = t, reasoning_signature = s, redacted_content = r\<rparr>))))"

subsection \<open>Dispatch\<close>

definition map_result :: "('a \<Rightarrow> 'b) \<Rightarrow> 'a parse_result \<Rightarrow> 'b parse_result" where
  "map_result f r = (case r of Inl e \<Rightarrow> Inl e | Inr x \<Rightarrow> Inr (f x))"

definition parse_event :: "(byte list \<Rightarrow> string + json) \<Rightarrow> frame \<Rightarrow> event parse_result" where
  "parse_event from_slice f =
    (let event_type_str = (case frame_event_type f of Some s \<Rightarrow> s | None \<Rightarrow> ''unknown'') in
     case event_type_from_str event_type_str of
       AssistantResponseType \<Rightarrow> map_result AssistantResponse (assistant_response_from_frame from_slice f)
     | CodeType \<Rightarrow> map_result Code (assistant_response_from_frame from_slice f)
     | ToolUseType \<Rightarrow> map_result ToolUse (tool_use_from_frame from_slice f)
     | MeteringType \<Rightarrow> map_result Metering (metering_from_frame from_slice f)
     | ContextUsageType \<Rightarrow> map_result ContextUsage (context_usage_from_frame from_slice f)
     | ReasoningContentType \<Rightarrow> map_result ReasoningContent (reasoning_from_frame from_slice f)
     | UnknownType \<Rightarrow> Inr UnknownEvent)"

definition parse_error_event :: "frame \<Rightarrow> event parse_result" where
  "parse_error_event f =
     Inr (ErrorEvent (case headers_error_code (frame_headers f) of Some c \<Rightarrow> c | None \<Rightarrow> ''UnknownError'')
            (payload_as_str f))"

definition parse_exception_event :: "frame \<Rightarrow> event parse_result" where
  "parse_exception_event f =
     Inr (ExceptionEvent (case headers_exception_type (frame_headers f) of Some t \<Rightarrow> t | None \<Rightarrow> ''UnknownException'')
            (payload_as_str f))"

definition event_from_frame :: "(byte list \<Rightarrow> string + json) \<Rightarrow> frame \<Rightarrow> event parse_result" where
  "event_from_frame from_slice f =
    (let message_type = (case frame_message_type f of Some s \<Rightarrow> s | None \<Rightarrow> ''event'') in
     if message_type = ''event'' then parse_event from_slice f
     else if message_type = ''error'' then parse_error_event f
     else if message_type = ''exception'' then parse_exception_event f
     else Inl (InvalidMessageType message_type))"

lemma field_error: "field conv dflt j k = Inl e \<Longrightarrow> \<exists>m. e = PayloadDeserialize m"
  by (auto simp: field_def split: list.splits option.splits)

lemma payload_error: "payload_as_json from_slice f = Inl e \<Longrightarrow> \<exists>m. e = PayloadDeserialize m"
  by (auto simp: payload_as_json_def split: sum.splits if_splits)

lemmas from_frame_defs = assistant_response_from_frame_def tool_use_from_frame_def metering_from_frame_def
  context_usage_from_frame_def reasoning_from_frame_def

lemma from_frame_errors:
  "assistant_response_from_frame from_slice f = Inl e \<Longrightarrow> \<exists>m. e = PayloadDeserialize m"
  "tool_use_from_frame from_slice f = Inl e \<Longrightarrow> \<exists>m. e = PayloadDeserialize m"
  "metering_from_frame from_slice f = Inl e \<Longrightarrow> \<exists>m. e = PayloadDeserialize m"
  "context_usage_from_frame from_slice f = Inl e \<Longrightarrow> \<exists>m. e = PayloadDeserialize m"
  "reasoning_from_frame from_slice f = Inl e \<Longrightarrow> \<exists>m. e = PayloadDeserialize m"
  by (auto simp: from_frame_defs dest: field_error payload_error split: sum.splits)

lemma parse_event_error: "parse_event from_slice f = Inl e \<Longrightarrow> \<exists>m. e = PayloadDeserialize m"
  by (auto simp: parse_event_def Let_def map_result_def dest: from_frame_errors
      split: event_type.splits sum.splits)

text \<open>A frame is refused as having an invalid message type exactly when it names a message type
  other than event, error and exception; a frame without a message type counts as an event, and no
  payload, whatever its bytes, is reported that way.\<close>

theorem event_dispatch:
  "event_from_frame from_slice f = Inl (InvalidMessageType t)
     \<longleftrightarrow> frame_message_type f = Some t \<and> t \<notin> {''event'', ''error'', ''exception''}"
proof (cases "frame_message_type f")
  case None
  then show ?thesis by (auto simp: event_from_frame_def dest: parse_event_error)
next
  case (Some s)
  then show ?thesis
    by (auto simp: event_from_frame_def parse_error_event_def parse_exception_event_def
        dest: parse_event_error split: if_splits)
qed

text \<open>A leaked tool markup element is removed from an assistant message, the text around it kept:
  an opening tag with or without attributes, a body without a closing tag and the closing tag
  disappear, and the surrounding text, itself without an opening tag, is joined and trimmed.\<close>

theorem strip_leaked_element:
  assumes pre: "find_sub pre ''<tool_use'' = None" and post: "find_sub post ''<tool_use'' = None"
    and attrs: "attrs = [] \<or> starts_with_whitespace attrs" "CHR ''>'' \<notin> set attrs"
    and body: "find_sub body ''</tool_use>'' = None"
  shows "strip_tool_use_xml_leaks (pre @ ''<tool_use'' @ attrs @ ''>'' @ body @ ''</tool_use>'' @ post)
    = trim (pre @ post)"
proof -
  let ?tail = "attrs @ ''>'' @ body @ ''</tool_use>'' @ post"
  let ?close = "body @ ''</tool_use>'' @ post"
  have s: "find_sub (pre @ ''<tool_use'' @ ?tail) ''<tool_use'' = Some (length pre)"
    by (rule find_sub_append [OF pre]) simp
  have o: "find_sub (''<tool_use'' @ ?tail) ''>'' = Some (9 + length attrs)"
    using find_sub_single [of "CHR ''>''" "''<tool_use'' @ attrs" ?close] attrs(2) by simp
  have h: "is_tool_use_tag_head (''<tool_use'' @ attrs)"
    using attrs(1) by (auto simp: is_tool_use_tag_head_def)
  have c: "find_sub ?close ''</tool_use>'' = Some (length body)"
    by (rule find_sub_append [OF body]) simp
  have e: "strip_tool_use_loop post pre = pre @ post"
    using post by (subst strip_tool_use_loop.simps) simp
  have "strip_tool_use_loop (pre @ ''<tool_use'' @ ?tail) [] = strip_tool_use_loop post pre"
    using s o h c by (subst strip_tool_use_loop.simps) (simp add: Let_def)
  with e show ?thesis by (simp add: strip_tool_use_xml_leaks_def)
qed

theorem strip_leaked_element_witness:
  "strip_tool_use_xml_leaks (''ok '' @ ''<tool_use'' @ '' id=1'' @ ''>'' @ ''{}'' @ ''</tool_use>'' @ ''done'')
    = trim (''ok '' @ ''done'')"
  by (rule strip_leaked_element) (simp_all add: starts_with_whitespace_def utf8_step.simps byte_of_def is_whitespace_def)

end
