(* ===== verification/Tool_Pairing.thy ===== *)
theory Tool_Pairing imports Json begin

section \<open>Pairing of tool uses and tool results (src/src/anthropic/converter.rs)\<close>

text \<open>
  The last steps of a request's conversion: the upstream refuses a conversation in which a tool use
  has no result, a result has no tool use, or a tool used in the history is not defined. The messages
  of the history (src/src/kiro/model/requests), \<open>validate_tool_pairing\<close>,
  \<open>remove_orphaned_tool_uses\<close>, \<open>collect_history_tool_names\<close> and the placeholder definitions. The
  lower-case mapping of the standard library is a parameter \<open>lower\<close>: names are only compared by it.
\<close>

record tool_use_entry =
  tu_entry_id :: string
  tu_entry_name :: string
  tu_entry_input :: json

record tool_result =
  tr_tool_use_id :: string
  tr_content :: "json_map list"
  tr_status :: "string option"
  tr_is_error :: bool

record tool_definition =
  td_name :: string
  td_description :: string
  td_schema :: json

record user_message =
  um_content :: string
  um_model_id :: string
  um_origin :: "string option"
  um_images :: "(string \<times> string) list"
  um_tool_results :: "tool_result list"
  um_tools :: "tool_definition list"

record assistant_message =
  am_content :: string
  am_tool_uses :: "tool_use_entry list option"

datatype message = User user_message | Assistant assistant_message

subsection \<open>Validation\<close>

definition opt_list :: "'a list option \<Rightarrow> 'a list" where
  "opt_list x = (case x of Some xs \<Rightarrow> xs | None \<Rightarrow> [])"

fun message_tool_uses :: "message \<Rightarrow> tool_use_entry list" where
  "message_tool_uses (Assistant m) = opt_list (am_tool_uses m)"
| "message_tool_uses (User m) = []"

fun message_tool_results :: "message \<Rightarrow> tool_result list" where
  "message_tool_results (User m) = um_tool_results m"
| "message_tool_results (Assistant m) = []"

text \<open>The loop over the current message's results, with the ids still unpaired.\<close>

fun filter_results :: "tool_result list \<Rightarrow> string set \<Rightarrow> tool_result list \<times> string set" where
  "filter_results [] unpaired = ([], unpaired)"
| "filter_results (r # rs) unpaired =
     (if tr_tool_use_id r \<in> unpaired
      then (case filter_results rs (unpaired - {tr_tool_use_id r}) of (kept, left) \<Rightarrow> (r # kept, left))
      else filter_results rs unpaired)"

definition all_tool_use_ids :: "message list \<Rightarrow> string set" where
  "all_tool_use_ids history = set (map tu_entry_id (concat (map message_tool_uses history)))"

definition history_tool_result_ids :: "message list \<Rightarrow> string set" where
  "history_tool_result_ids history = set (map tr_tool_use_id (concat (map message_tool_results history)))"

definition validate_tool_pairing :: "message list \<Rightarrow> tool_result list \<Rightarrow> tool_result list \<times> string set" where
  "validate_tool_pairing history tool_results =
     filter_results tool_results (all_tool_use_ids history - history_tool_result_ids history)"

subsection \<open>Removal\<close>

definition retain_tool_uses :: "string set \<Rightarrow> assistant_message \<Rightarrow> assistant_message" where
  "retain_tool_uses orphaned m =
    (case am_tool_uses m of
       None \<Rightarrow> m
     | Some tool_uses \<Rightarrow>
         let kept = filter (\<lambda>tu. tu_entry_id tu \<notin> orphaned) tool_uses
         in m\<lparr>am_tool_uses := if kept = [] then None else Some kept\<rparr>)"

definition remove_orphaned_tool_uses :: "message list \<Rightarrow> string set \<Rightarrow> message list" where
  "remove_orphaned_tool_uses history orphaned =
    (if orphaned = {} then history
     else map (\<lambda>msg. case msg of Assistant m \<Rightarrow> Assistant (retain_tool_uses orphaned m) | User m \<Rightarrow> User m) history)"

subsection \<open>Placeholder definitions\<close>

fun push_new :: "string list \<Rightarrow> string list \<Rightarrow> string list" where
  "push_new names [] = names"
| "push_new names (n # ns) = push_new (if n \<in> set names then names else names @ [n]) ns"

definition collect_history_tool_names :: "message list \<Rightarrow> string list" where
  "collect_history_tool_names history = push_new [] (map tu_entry_name (concat (map message_tool_uses history)))"

definition placeholder_schema :: json where
  "placeholder_schema = JObj [(''$schema'', JStr ''http://json-schema.org/draft-07/schema#''),
     (''type'', JStr ''object''), (''properties'', JObj []), (''required'', JArr []),
     (''additionalProperties'', JBool True)]"

definition create_placeholder_tool :: "string \<Rightarrow> tool_definition" where
  "create_placeholder_tool name =
     \<lparr>td_name = name, td_description = ''Tool used in conversation history'', td_schema = placeholder_schema\<rparr>"

definition add_placeholder_tools ::
  "(string \<Rightarrow> string) \<Rightarrow> message list \<Rightarrow> tool_definition list \<Rightarrow> tool_definition list" where
  "add_placeholder_tools lower history tools =
    (let existing_tool_names = set (map (\<lambda>t. lower (td_name t)) tools)
     in tools @ map create_placeholder_tool
          (filter (\<lambda>n. lower n \<notin> existing_tool_names) (collect_history_tool_names history)))"

text \<open>Steps 8 to 10 of \<open>convert_request_with_mode\<close>.\<close>

definition pair_tools :: "(string \<Rightarrow> string) \<Rightarrow> message list \<Rightarrow> tool_result list \<Rightarrow> tool_definition list
    \<Rightarrow> message list \<times> tool_result list \<times> tool_definition list" where
  "pair_tools lower history tool_results tools =
    (case validate_tool_pairing history tool_results of (validated, orphaned) \<Rightarrow>
       let history = remove_orphaned_tool_uses history orphaned
       in (history, validated, add_placeholder_tools lower history tools))"

subsection \<open>What the steps guarantee\<close>

lemma filter_results_left: "snd (filter_results rs u) = u - set (map tr_tool_use_id rs)"
  by (induction rs u rule: filter_results.induct) (auto simp: case_prod_unfold)

lemma filter_results_ids:
  "set (map tr_tool_use_id (fst (filter_results rs u))) = u \<inter> set (map tr_tool_use_id rs)"
  by (induction rs u rule: filter_results.induct) (auto simp: case_prod_unfold)

lemma filter_results_distinct: "distinct (map tr_tool_use_id (fst (filter_results rs u)))"
proof (induction rs u rule: filter_results.induct)
  case (2 r rs u)
  have "tr_tool_use_id r \<notin> set (map tr_tool_use_id (fst (filter_results rs (u - {tr_tool_use_id r}))))"
    by (simp only: filter_results_ids) blast
  with 2 show ?case by (auto simp: case_prod_unfold)
qed simp

lemma filter_results_subset: "set (fst (filter_results rs u)) \<subseteq> set rs"
  by (induction rs u rule: filter_results.induct) (auto simp: case_prod_unfold)

lemma all_tool_use_ids_removed:
  "all_tool_use_ids (remove_orphaned_tool_uses history orphaned) = all_tool_use_ids history - orphaned"
proof -
  have u: "set (message_tool_uses (case msg of Assistant m \<Rightarrow> Assistant (retain_tool_uses orphaned m) | User m \<Rightarrow> User m))
      = {tu \<in> set (message_tool_uses msg). tu_entry_id tu \<notin> orphaned}" for msg
    by (auto simp: retain_tool_uses_def opt_list_def Let_def filter_empty_conv split: message.splits option.splits)
  show ?thesis
    by (auto simp: all_tool_use_ids_def remove_orphaned_tool_uses_def u)
qed

lemma history_results_removed:
  "history_tool_result_ids (remove_orphaned_tool_uses history orphaned) = history_tool_result_ids history"
proof -
  have "message_tool_results (case msg of Assistant m \<Rightarrow> Assistant (retain_tool_uses orphaned m) | User m \<Rightarrow> User m)
      = message_tool_results msg" for msg
    by (auto split: message.splits)
  then show ?thesis
    by (simp add: history_tool_result_ids_def remove_orphaned_tool_uses_def comp_def)
qed

lemma push_new_set: "set (push_new names ns) = set names \<union> set ns"
  by (induction names ns rule: push_new.induct) auto

lemma push_new_distinct: "distinct names \<Longrightarrow> distinct (push_new names ns)"
  by (induction names ns rule: push_new.induct) auto

text \<open>After the conversion every tool use left in the history has a result, in the history or in the
  current message; every result sent in the current message answers a tool use left in the history
  that the history does not answer; no tool use is answered twice by the current message; every
  result sent was among those the client gave; and what the history's user messages hold is kept.\<close>

theorem tools_paired:
  assumes "pair_tools lower history results tools = (history', results', tools')"
  shows "all_tool_use_ids history' \<subseteq> history_tool_result_ids history' \<union> set (map tr_tool_use_id results')
    \<and> set (map tr_tool_use_id results') \<subseteq> all_tool_use_ids history' - history_tool_result_ids history'
    \<and> distinct (map tr_tool_use_id results') \<and> set results' \<subseteq> set results
    \<and> history_tool_result_ids history' = history_tool_result_ids history"
proof -
  obtain orphaned where v: "validate_tool_pairing history results = (results', orphaned)"
    and h: "history' = remove_orphaned_tool_uses history orphaned"
    using assms by (auto simp: pair_tools_def Let_def split: prod.splits)
  let ?u = "all_tool_use_ids history - history_tool_result_ids history"
  from v have res: "results' = fst (filter_results results ?u)" and orph: "orphaned = snd (filter_results results ?u)"
    by (simp_all add: validate_tool_pairing_def)
  have u: "all_tool_use_ids history' = all_tool_use_ids history - orphaned"
    and r: "history_tool_result_ids history' = history_tool_result_ids history"
    by (simp_all only: h all_tool_use_ids_removed history_results_removed)
  have ids: "set (map tr_tool_use_id results') = ?u \<inter> set (map tr_tool_use_id results)"
    and left: "orphaned = ?u - set (map tr_tool_use_id results)"
    by (simp_all only: res orph filter_results_ids filter_results_left)
  have d: "distinct (map tr_tool_use_id results')" and sub: "set results' \<subseteq> set results"
    by (simp_all only: res filter_results_distinct filter_results_subset)
  show ?thesis unfolding u r ids left using d sub by blast
qed

definition sample_history :: "message list" where
  "sample_history =
    [Assistant \<lparr>am_content = ''hi'', am_tool_uses = Some
       [\<lparr>tu_entry_id = ''a'', tu_entry_name = ''f'', tu_entry_input = JObj []\<rparr>,
        \<lparr>tu_entry_id = ''b'', tu_entry_name = ''g'', tu_entry_input = JObj []\<rparr>]\<rparr>]"

definition sample_result :: "string \<Rightarrow> tool_result" where
  "sample_result i = \<lparr>tr_tool_use_id = i, tr_content = [], tr_status = None, tr_is_error = False\<rparr>"

theorem tools_paired_witness:
  "set (map tr_tool_use_id [sample_result ''a'']) \<subseteq>
     all_tool_use_ids (fst (pair_tools id sample_history [sample_result ''a'', sample_result ''c''] []))"
proof -
  let ?rs = "[sample_result ''a'', sample_result ''c'']"
  have r: "fst (snd (pair_tools id sample_history ?rs [])) = [sample_result ''a'']"
    by (simp add: pair_tools_def validate_tool_pairing_def all_tool_use_ids_def history_tool_result_ids_def
      sample_history_def sample_result_def opt_list_def Let_def)
  obtain h r t where p: "pair_tools id sample_history ?rs [] = (h, r, t)"
    by (cases "pair_tools id sample_history ?rs []") auto
  from tools_paired [OF p] p r show ?thesis by auto
qed

lemma placeholder_covers:
  assumes "n \<in> set (collect_history_tool_names history)"
  shows "\<exists>t \<in> set (add_placeholder_tools lower history tools). lower (td_name t) = lower n"
proof (cases "lower n \<in> set (map (\<lambda>t. lower (td_name t)) tools)")
  case True
  then obtain t where "t \<in> set tools" and "lower (td_name t) = lower n" by auto
  then show ?thesis by (auto simp: add_placeholder_tools_def)
next
  case False
  with assms have "create_placeholder_tool n \<in> set (add_placeholder_tools lower history tools)"
    by (simp add: add_placeholder_tools_def)
  then show ?thesis by (rule bexI [rotated]) (simp add: create_placeholder_tool_def)
qed

text \<open>After the conversion every tool the history still uses is defined in the current message, up to
  letter case, the definitions the client gave are kept as they are and in front, and each added
  definition is a placeholder for a tool of the history that the client did not define.\<close>

theorem history_tools_defined:
  assumes "pair_tools lower history results tools = (history', results', tools')"
  shows "(\<forall>msg \<in> set history'. \<forall>tu \<in> set (message_tool_uses msg). \<exists>t \<in> set tools'. lower (td_name t) = lower (tu_entry_name tu))
    \<and> (\<exists>names. tools' = tools @ map create_placeholder_tool names \<and> distinct names
          \<and> (\<forall>n \<in> set names. n \<in> tu_entry_name ` (\<Union>msg \<in> set history'. set (message_tool_uses msg))
               \<and> (\<forall>t \<in> set tools. lower (td_name t) \<noteq> lower n)))"
proof -
  have t: "tools' = add_placeholder_tools lower history' tools"
    using assms by (auto simp: pair_tools_def Let_def split: prod.splits)
  have c: "set (collect_history_tool_names history') = tu_entry_name ` (\<Union>msg \<in> set history'. set (message_tool_uses msg))"
    by (auto simp: collect_history_tool_names_def push_new_set)
  have d: "distinct (collect_history_tool_names history')"
    by (simp add: collect_history_tool_names_def push_new_distinct)
  have A: "\<exists>t \<in> set tools'. lower (td_name t) = lower n" if "n \<in> set (collect_history_tool_names history')" for n
    unfolding t by (rule placeholder_covers [OF that])
  have B: "tools' = tools @ map create_placeholder_tool
      (filter (\<lambda>n. lower n \<notin> set (map (\<lambda>t. lower (td_name t)) tools)) (collect_history_tool_names history'))"
    by (simp add: t add_placeholder_tools_def)
  show ?thesis (is "?A \<and> ?B")
  proof
    show ?A
    proof (intro ballI)
      fix msg tu
      assume "msg \<in> set history'" and "tu \<in> set (message_tool_uses msg)"
      then have "tu_entry_name tu \<in> set (collect_history_tool_names history')" unfolding c by blast
      then show "\<exists>t \<in> set tools'. lower (td_name t) = lower (tu_entry_name tu)" by (rule A)
    qed
    show ?B
      by (rule exI, rule conjI, rule B) (use c d in \<open>auto simp: image_iff\<close>)
  qed
qed

theorem history_tools_defined_witness:
  "\<exists>h r t. pair_tools id sample_history [sample_result ''a''] [] = (h, r, t) \<and>
     (\<forall>msg \<in> set h. \<forall>tu \<in> set (message_tool_uses msg). \<exists>d \<in> set t. td_name d = tu_entry_name tu)"
proof -
  obtain h r t where p: "pair_tools id sample_history [sample_result ''a''] [] = (h, r, t)"
    by (cases "pair_tools id sample_history [sample_result ''a''] []") auto
  from history_tools_defined [OF p] p show ?thesis by auto
qed

text \<open>
  Two tools of the history whose names differ by letter case only both get a placeholder: the set of
  the existing names is computed before the loop that adds the placeholders.
\<close>

lemma placeholder_duplicates:
  assumes "lower ''F'' = lower ''f''" and "collect_history_tool_names h = [''F'', ''f'']"
  shows "map td_name (add_placeholder_tools lower h []) = [''F'', ''f'']"
  using assms by (simp add: add_placeholder_tools_def create_placeholder_tool_def)

end
