(* ===== verification/Sse_State.thy ===== *)
theory Sse_State imports Json begin

section \<open>The state machine of the client's event stream (src/src/anthropic/stream.rs, SseStateManager)\<close>

text \<open>
  The server-sent events the proxy writes and the manager that keeps their order: which content blocks
  have been started and stopped, the next block index, the reason to stop. The hash map of the active
  blocks is visited in an unspecified order. The last part states the protocol the module's comment
  promises as an acceptor over the events and relates it to the manager, one lemma per operation.
\<close>

record sse_event =
  se_event :: string
  se_data :: json

record block_state =
  bs_type :: string
  bs_started :: bool
  bs_stopped :: bool

record sse_manager =
  message_started :: bool
  message_delta_sent :: bool
  active_blocks :: "(int, block_state) hash_map"
  message_ended :: bool
  next_index :: int
  stop_reason :: "string option"
  has_tool_use :: bool

definition sse_new :: "string \<Rightarrow> json \<Rightarrow> sse_event" where
  "sse_new event data = \<lparr>se_event = event, se_data = data\<rparr>"

definition to_sse_string :: "serde \<Rightarrow> sse_event \<Rightarrow> string" where
  "to_sse_string sd e =
     ''event: '' @ se_event e @ [CHR 0x0A] @ ''data: '' @ to_str sd (se_data e) @ [CHR 0x0A, CHR 0x0A]"

definition block_state_new :: "string \<Rightarrow> block_state" where
  "block_state_new block_type = \<lparr>bs_type = block_type, bs_started = False, bs_stopped = False\<rparr>"

definition sse_manager_new :: "(int list \<Rightarrow> int \<Rightarrow> nat) \<Rightarrow> sse_manager" where
  "sse_manager_new rank =
     \<lparr>message_started = False, message_delta_sent = False, active_blocks = hm_empty rank,
      message_ended = False, next_index = 0, stop_reason = None, has_tool_use = False\<rparr>"

definition is_open :: "block_state \<Rightarrow> bool" where
  "is_open b = (bs_started b \<and> \<not> bs_stopped b)"

definition is_block_open_of_type :: "sse_manager \<Rightarrow> int \<Rightarrow> string \<Rightarrow> bool" where
  "is_block_open_of_type m index expected_type =
    (case hm_get (active_blocks m) index of
       Some b \<Rightarrow> is_open b \<and> bs_type b = expected_type | None \<Rightarrow> False)"

definition next_block_index :: "sse_manager \<Rightarrow> sse_manager \<times> int" where
  "next_block_index m = (m\<lparr>next_index := next_index m + 1\<rparr>, next_index m)"

definition set_has_tool_use :: "bool \<Rightarrow> sse_manager \<Rightarrow> sse_manager" where
  "set_has_tool_use has m = m\<lparr>has_tool_use := has\<rparr>"

definition set_stop_reason :: "string \<Rightarrow> sse_manager \<Rightarrow> sse_manager" where
  "set_stop_reason reason m = m\<lparr>stop_reason := Some reason\<rparr>"

definition has_non_thinking_blocks :: "sse_manager \<Rightarrow> bool" where
  "has_non_thinking_blocks m = list_ex (\<lambda>e. bs_type (snd e) \<noteq> ''thinking'') (hm_iter (active_blocks m))"

definition get_stop_reason :: "sse_manager \<Rightarrow> string" where
  "get_stop_reason m =
    (case stop_reason m of Some reason \<Rightarrow> reason
     | None \<Rightarrow> if has_tool_use m then ''tool_use'' else ''end_turn'')"

definition stop_event :: "int \<Rightarrow> sse_event" where
  "stop_event index =
     sse_new ''content_block_stop'' (JObj [(''type'', JStr ''content_block_stop''), (''index'', JInt index)])"

definition handle_message_start :: "json \<Rightarrow> sse_manager \<Rightarrow> sse_manager \<times> sse_event list" where
  "handle_message_start event m =
    (if message_started m then (m, [])
     else (m\<lparr>message_started := True\<rparr>, [sse_new ''message_start'' event]))"

definition stop_where :: "(block_state \<Rightarrow> bool) \<Rightarrow> sse_manager \<Rightarrow> sse_manager \<times> sse_event list" where
  "stop_where c m =
    (m\<lparr>active_blocks := hm_map (\<lambda>b. if c b then b\<lparr>bs_stopped := True\<rparr> else b) (active_blocks m)\<rparr>,
     map (\<lambda>e. stop_event (fst e)) (filter (\<lambda>e. c (snd e)) (hm_iter (active_blocks m))))"

definition handle_content_block_start ::
  "int \<Rightarrow> string \<Rightarrow> json \<Rightarrow> sse_manager \<Rightarrow> sse_manager \<times> sse_event list" where
  "handle_content_block_start index block_type data m =
    (case (if block_type = ''tool_use''
           then stop_where (\<lambda>b. bs_type b = ''text'' \<and> is_open b) (m\<lparr>has_tool_use := True\<rparr>)
           else (m, [])) of
       (m, events) \<Rightarrow>
         (case hm_get (active_blocks m) index of
            Some block \<Rightarrow>
              if bs_started block then (m, events)
              else (m\<lparr>active_blocks := hm_insert index (block\<lparr>bs_started := True\<rparr>) (active_blocks m)\<rparr>,
                    events @ [sse_new ''content_block_start'' data])
          | None \<Rightarrow>
              (m\<lparr>active_blocks := hm_insert index ((block_state_new block_type)\<lparr>bs_started := True\<rparr>) (active_blocks m)\<rparr>,
               events @ [sse_new ''content_block_start'' data])))"

definition handle_content_block_delta :: "int \<Rightarrow> json \<Rightarrow> sse_manager \<Rightarrow> sse_event list" where
  "handle_content_block_delta index data m =
    (case hm_get (active_blocks m) index of
       Some block \<Rightarrow> if \<not> bs_started block \<or> bs_stopped block then [] else [sse_new ''content_block_delta'' data]
     | None \<Rightarrow> [])"

definition handle_content_block_stop :: "int \<Rightarrow> sse_manager \<Rightarrow> sse_manager \<times> sse_event list" where
  "handle_content_block_stop index m =
    (case hm_get (active_blocks m) index of
       Some block \<Rightarrow>
         if bs_stopped block then (m, [])
         else (m\<lparr>active_blocks := hm_insert index (block\<lparr>bs_stopped := True\<rparr>) (active_blocks m)\<rparr>, [stop_event index])
     | None \<Rightarrow> (m, []))"

definition usage_json :: "int \<Rightarrow> int \<Rightarrow> int \<Rightarrow> int \<Rightarrow> json" where
  "usage_json input_tokens output_tokens cache_creation cache_read = JObj
     [(''input_tokens'', JInt input_tokens), (''output_tokens'', JInt output_tokens),
      (''cache_creation_input_tokens'', JInt cache_creation), (''cache_read_input_tokens'', JInt cache_read)]"

definition sse_generate_final_events ::
  "int \<Rightarrow> int \<Rightarrow> int \<Rightarrow> int \<Rightarrow> sse_manager \<Rightarrow> sse_manager \<times> sse_event list" where
  "sse_generate_final_events input_tokens output_tokens cache_creation cache_read m =
    (case stop_where is_open m of (m1, stops) \<Rightarrow>
     (case (if \<not> message_delta_sent m1 then
              (m1\<lparr>message_delta_sent := True\<rparr>,
               [sse_new ''message_delta'' (JObj
                  [(''type'', JStr ''message_delta''),
                   (''delta'', JObj [(''stop_reason'', JStr (get_stop_reason m1)), (''stop_sequence'', JNull)]),
                   (''usage'', usage_json input_tokens output_tokens cache_creation cache_read)])])
            else (m1, [])) of (m2, delta) \<Rightarrow>
     (case (if \<not> message_ended m2 then
              (m2\<lparr>message_ended := True\<rparr>,
               [sse_new ''message_stop'' (JObj [(''type'', JStr ''message_stop'')])])
            else (m2, [])) of (m3, stop) \<Rightarrow> (m3, stops @ delta @ stop))))"

text \<open>The data of a block's start and of a delta, as the stream's handlers build them.\<close>

definition block_start_data :: "int \<Rightarrow> json_map \<Rightarrow> json" where
  "block_start_data index content_block = JObj
     [(''type'', JStr ''content_block_start''), (''index'', JInt index), (''content_block'', JObj content_block)]"

definition block_delta_data :: "int \<Rightarrow> json_map \<Rightarrow> json" where
  "block_delta_data index delta = JObj
     [(''type'', JStr ''content_block_delta''), (''index'', JInt index), (''delta'', JObj delta)]"

subsection \<open>The protocol\<close>

text \<open>What the protocol reads of an event: its kind, the block's index, the type of the block or of the delta.\<close>

datatype sse_view =
    VMessageStart
  | VBlockStart int string
  | VBlockDelta int string
  | VBlockStop int
  | VMessageDelta
  | VMessageStop
  | VError
  | VMalformed

definition get_index :: "json \<Rightarrow> int option" where
  "get_index j = Option.bind (json_get j ''index'') json_as_int"

definition get_type_of :: "string \<Rightarrow> json \<Rightarrow> string option" where
  "get_type_of key j = Option.bind (json_get j key) (\<lambda>v. Option.bind (json_get v ''type'') json_as_str)"

definition sse_view :: "sse_event \<Rightarrow> sse_view" where
  "sse_view e =
    (if se_event e = ''message_start'' then VMessageStart
     else if se_event e = ''content_block_start'' then
       (case (get_index (se_data e), get_type_of ''content_block'' (se_data e)) of
          (Some i, Some t) \<Rightarrow> VBlockStart i t | _ \<Rightarrow> VMalformed)
     else if se_event e = ''content_block_delta'' then
       (case (get_index (se_data e), get_type_of ''delta'' (se_data e)) of
          (Some i, Some t) \<Rightarrow> VBlockDelta i t | _ \<Rightarrow> VMalformed)
     else if se_event e = ''content_block_stop'' then
       (case get_index (se_data e) of Some i \<Rightarrow> VBlockStop i | None \<Rightarrow> VMalformed)
     else if se_event e = ''message_delta'' then VMessageDelta
     else if se_event e = ''message_stop'' then VMessageStop
     else if se_event e = ''error'' then VError
     else VMalformed)"

text \<open>
  The protocol of a message: one \<open>message_start\<close> first; a block starts once, then takes deltas of its
  type, then stops; \<open>message_delta\<close> comes once and when every block has stopped; \<open>message_stop\<close>
  follows it; only an \<open>error\<close> may come after \<open>message_stop\<close>.
\<close>

record protocol =
  pr_started :: bool
  pr_seen :: "int set"
  pr_open :: "(int \<times> string) set"
  pr_delta_sent :: bool
  pr_ended :: bool

definition delta_block_type :: "string \<Rightarrow> string" where
  "delta_block_type t =
    (if t = ''text_delta'' then ''text''
     else if t = ''thinking_delta'' \<or> t = ''signature_delta'' then ''thinking''
     else if t = ''input_json_delta'' then ''tool_use''
     else [])"

fun protocol_view :: "protocol \<Rightarrow> sse_view \<Rightarrow> protocol option" where
  "protocol_view p VMessageStart = (if pr_started p then None else Some (p\<lparr>pr_started := True\<rparr>))"
| "protocol_view p (VBlockStart i t) =
     (if pr_started p \<and> \<not> pr_delta_sent p \<and> \<not> pr_ended p \<and> i \<notin> pr_seen p
      then Some (p\<lparr>pr_seen := insert i (pr_seen p), pr_open := insert (i, t) (pr_open p)\<rparr>) else None)"
| "protocol_view p (VBlockDelta i t) =
     (if \<not> pr_delta_sent p \<and> \<not> pr_ended p \<and> (i, delta_block_type t) \<in> pr_open p then Some p else None)"
| "protocol_view p (VBlockStop i) =
     (if \<not> pr_delta_sent p \<and> \<not> pr_ended p \<and> i \<in> fst ` pr_open p
      then Some (p\<lparr>pr_open := Set.filter (\<lambda>e. fst e \<noteq> i) (pr_open p)\<rparr>) else None)"
| "protocol_view p VMessageDelta =
     (if pr_started p \<and> \<not> pr_delta_sent p \<and> \<not> pr_ended p \<and> pr_open p = {} then Some (p\<lparr>pr_delta_sent := True\<rparr>) else None)"
| "protocol_view p VMessageStop =
     (if pr_delta_sent p \<and> \<not> pr_ended p then Some (p\<lparr>pr_ended := True\<rparr>) else None)"
| "protocol_view p VError = (if pr_ended p then Some p else None)"
| "protocol_view p VMalformed = None"

definition protocol_step :: "protocol \<Rightarrow> sse_event \<Rightarrow> protocol option" where
  "protocol_step p e = protocol_view p (sse_view e)"

definition protocol_start :: protocol where
  "protocol_start = \<lparr>pr_started = False, pr_seen = {}, pr_open = {}, pr_delta_sent = False, pr_ended = False\<rparr>"

subsection \<open>The manager and the protocol\<close>

definition manager_abs :: "sse_manager \<Rightarrow> protocol" where
  "manager_abs m =
    \<lparr>pr_started = message_started m,
     pr_seen = {i. hm_get (active_blocks m) i \<noteq> None},
     pr_open = {(i, t). is_block_open_of_type m i t},
     pr_delta_sent = message_delta_sent m, pr_ended = message_ended m\<rparr>"

text \<open>The invariant between the first and the final events.\<close>

definition manager_inv :: "sse_manager \<Rightarrow> bool" where
  "manager_inv m \<longleftrightarrow> message_started m \<and> \<not> message_delta_sent m \<and> \<not> message_ended m
     \<and> hm_wf (active_blocks m)
     \<and> (\<forall>i b. hm_get (active_blocks m) i = Some b \<longrightarrow> bs_started b \<and> i < next_index m)"

text \<open>Events that the protocol accepts and that take it along with the manager.\<close>

definition mleads :: "sse_manager \<Rightarrow> sse_event list \<Rightarrow> sse_manager \<Rightarrow> bool" where
  "mleads m es m' \<longleftrightarrow> manager_inv m' \<and> accepts protocol_step (manager_abs m) es = Some (manager_abs m')"

lemma mleads_refl: "manager_inv m \<Longrightarrow> mleads m [] m"
  by (simp add: mleads_def)

lemma mleads_trans: "mleads m es m' \<Longrightarrow> mleads m' es' m'' \<Longrightarrow> mleads m (es @ es') m''"
  by (simp add: mleads_def accepts_append)

lemma mleads_inv: "mleads m es m' \<Longrightarrow> manager_inv m'"
  by (simp add: mleads_def)

lemma view_events [simp]:
  "sse_view (stop_event i) = VBlockStop i"
  "sse_view (sse_new ''message_start'' j) = VMessageStart"
  "sse_view (sse_new ''message_delta'' j) = VMessageDelta"
  "sse_view (sse_new ''message_stop'' j) = VMessageStop"
  "sse_view (sse_new ''error'' j) = VError"
  "sse_view (sse_new ''content_block_start'' (block_start_data i ((''type'', JStr t) # cb))) = VBlockStart i t"
  "sse_view (sse_new ''content_block_delta'' (block_delta_data i ((''type'', JStr t) # d))) = VBlockDelta i t"
  by (simp_all add: sse_view_def sse_new_def stop_event_def get_index_def get_type_of_def
      block_start_data_def block_delta_data_def)

lemma accepts_stops:
  assumes "\<not> pr_delta_sent p" "\<not> pr_ended p" "distinct is" "set is \<subseteq> fst ` pr_open p"
  shows "accepts protocol_step p (map stop_event is) = Some (p\<lparr>pr_open := {e \<in> pr_open p. fst e \<notin> set is}\<rparr>)"
  using assms
proof (induction "is" arbitrary: p)
  case (Cons i "is")
  let ?p = "p\<lparr>pr_open := Set.filter (\<lambda>e. fst e \<noteq> i) (pr_open p)\<rparr>"
  have "set is \<subseteq> fst ` pr_open ?p"
  proof
    fix x
    assume x: "x \<in> set is"
    with Cons.prems(4) obtain e where "e \<in> pr_open p" and "x = fst e" by auto
    moreover have "x \<noteq> i" using x Cons.prems(3) by auto
    ultimately show "x \<in> fst ` pr_open ?p" by (intro image_eqI [of _ _ e]) auto
  qed
  with Cons.IH [of ?p] Cons.prems(1-3)
  have "accepts protocol_step ?p (map stop_event is) = Some (?p\<lparr>pr_open := {e \<in> pr_open ?p. fst e \<notin> set is}\<rparr>)"
    by simp
  moreover have "{e \<in> pr_open ?p. fst e \<notin> set is} = {e \<in> pr_open p. fst e \<notin> set (i # is)}" by auto
  ultimately show ?case using Cons.prems by (simp add: protocol_step_def [of p])
qed simp

lemma open_index: "i \<in> fst ` pr_open (manager_abs m) \<longleftrightarrow> (\<exists>b. hm_get (active_blocks m) i = Some b \<and> is_open b)"
  by (auto simp: manager_abs_def is_block_open_of_type_def image_iff split: option.splits)

lemma manager_abs_fields [simp]:
  "pr_started (manager_abs m) = message_started m"
  "pr_delta_sent (manager_abs m) = message_delta_sent m"
  "pr_ended (manager_abs m) = message_ended m"
  by (simp_all add: manager_abs_def)

lemma get_stop_where:
  "hm_get (active_blocks (fst (stop_where c m))) i =
     map_option (\<lambda>b. if c b then b\<lparr>bs_stopped := True\<rparr> else b) (hm_get (active_blocks m) i)"
  by (simp add: stop_where_def hm_simps)

lemma stop_where_leads:
  assumes inv: "manager_inv m" and c: "\<And>b. c b \<Longrightarrow> is_open b"
  shows "mleads m (snd (stop_where c m)) (fst (stop_where c m))"
proof -
  let ?es = "filter (\<lambda>e. c (snd e)) (hm_iter (active_blocks m))"
  let ?is = "map fst ?es"
  have wf: "hm_wf (active_blocks m)" using inv by (simp add: manager_inv_def)
  have at: "i \<in> set ?is \<longleftrightarrow> (\<exists>b. hm_get (active_blocks m) i = Some b \<and> c b)" for i
    using hm_iter_get [OF wf, of i] by force
  have d: "distinct ?is" using distinct_hm_iter [OF wf] by (simp add: distinct_map_filter)
  have sub: "set ?is \<subseteq> fst ` pr_open (manager_abs m)" using c unfolding subset_iff at open_index by blast
  have "accepts protocol_step (manager_abs m) (map stop_event ?is)
      = Some ((manager_abs m)\<lparr>pr_open := {e \<in> pr_open (manager_abs m). fst e \<notin> set ?is}\<rparr>)"
    using inv d sub by (intro accepts_stops) (simp_all add: manager_inv_def)
  moreover have "snd (stop_where c m) = map stop_event ?is" by (simp add: stop_where_def comp_def)
  moreover have "(manager_abs m)\<lparr>pr_open := {e \<in> pr_open (manager_abs m). fst e \<notin> set ?is}\<rparr>
      = manager_abs (fst (stop_where c m))"
    unfolding at
    by (auto simp: manager_abs_def is_block_open_of_type_def get_stop_where is_open_def stop_where_def hm_simps
        split: option.splits if_splits)
  moreover have "manager_inv (fst (stop_where c m))"
    using inv unfolding manager_inv_def get_stop_where
    by (auto simp: stop_where_def hm_simps split: if_splits)
  ultimately show ?thesis by (simp add: mleads_def)
qed

lemma block_start_leads:
  assumes inv: "manager_inv m" and i: "i < next_index m" and t: "t \<noteq> ''tool_use''"
    and fresh: "hm_get (active_blocks m) i = None"
  shows "mleads m (snd (handle_content_block_start i t (block_start_data i ((''type'', JStr t) # cb)) m))
      (fst (handle_content_block_start i t (block_start_data i ((''type'', JStr t) # cb)) m))"
  using assms
  by (auto simp: mleads_def handle_content_block_start_def manager_inv_def manager_abs_def hm_simps
      protocol_step_def block_state_new_def is_block_open_of_type_def is_open_def split: if_splits)

text \<open>
  What an operation leaves as it was: block indices grow, blocks keep their types, a block at an index
  given out before is a tool's, and (\<open>keeps_thinking\<close>) thinking blocks stay open.
\<close>

definition keeps :: "sse_manager \<Rightarrow> sse_manager \<Rightarrow> bool" where
  "keeps m m' \<longleftrightarrow> next_index m \<le> next_index m'
     \<and> (\<forall>i b. hm_get (active_blocks m) i = Some b \<longrightarrow>
          (\<exists>b'. hm_get (active_blocks m') i = Some b' \<and> bs_type b' = bs_type b))
     \<and> (\<forall>i b'. hm_get (active_blocks m) i = None \<and> hm_get (active_blocks m') i = Some b' \<longrightarrow>
          next_index m \<le> i \<or> bs_type b' = ''tool_use'')"

definition keeps_thinking :: "sse_manager \<Rightarrow> sse_manager \<Rightarrow> bool" where
  "keeps_thinking m m' \<longleftrightarrow>
     (\<forall>i. is_block_open_of_type m i ''thinking'' \<longrightarrow> is_block_open_of_type m' i ''thinking'')"

lemma keeps_refl [simp]: "keeps m m" "keeps_thinking m m"
  by (auto simp: keeps_def keeps_thinking_def)

lemma keeps_thinking_trans: "keeps_thinking m m' \<Longrightarrow> keeps_thinking m' m'' \<Longrightarrow> keeps_thinking m m''"
  by (simp add: keeps_thinking_def)

lemma keeps_trans:
  assumes a: "keeps m m'" and b: "keeps m' m''"
  shows "keeps m m''"
  unfolding keeps_def
proof (intro conjI allI impI)
  show "next_index m \<le> next_index m''" using a b by (auto simp: keeps_def)
next
  fix i b'
  assume "hm_get (active_blocks m) i = Some b'"
  then show "\<exists>b''. hm_get (active_blocks m'') i = Some b'' \<and> bs_type b'' = bs_type b'"
    using a b unfolding keeps_def by metis
next
  fix i b''
  assume h: "hm_get (active_blocks m) i = None \<and> hm_get (active_blocks m'') i = Some b''"
  show "next_index m \<le> i \<or> bs_type b'' = ''tool_use''"
  proof (cases "hm_get (active_blocks m') i")
    case None
    with h b have "next_index m' \<le> i \<or> bs_type b'' = ''tool_use''" unfolding keeps_def by blast
    with a show ?thesis unfolding keeps_def by linarith
  next
    case (Some b')
    with h a have "next_index m \<le> i \<or> bs_type b' = ''tool_use''" unfolding keeps_def by blast
    moreover from Some h b have "bs_type b'' = bs_type b'" unfolding keeps_def by (metis option.inject)
    ultimately show ?thesis by simp
  qed
qed

lemma fresh_index: "manager_inv m \<Longrightarrow> hm_get (active_blocks m) (next_index m) = None"
  by (cases "hm_get (active_blocks m) (next_index m)") (auto simp: manager_inv_def)

lemma next_block_index_leads:
  assumes "manager_inv m"
  shows "mleads m [] (fst (next_block_index m))" and "keeps m (fst (next_block_index m))"
    and "keeps_thinking m (fst (next_block_index m))"
  using assms
  by (fastforce simp: next_block_index_def mleads_def manager_inv_def manager_abs_def is_block_open_of_type_def
      keeps_def keeps_thinking_def)+

text \<open>A block at a new index.\<close>

definition new_block :: "string \<Rightarrow> json_map \<Rightarrow> sse_manager \<Rightarrow> sse_manager \<times> sse_event list" where
  "new_block t cb m =
     handle_content_block_start (next_index m) t (block_start_data (next_index m) ((''type'', JStr t) # cb))
       (fst (next_block_index m))"

lemma new_block_leads:
  assumes inv: "manager_inv m" and t: "t \<noteq> ''tool_use''"
  shows "mleads m (snd (new_block t cb m)) (fst (new_block t cb m))"
    and "keeps m (fst (new_block t cb m))" and "keeps_thinking m (fst (new_block t cb m))"
    and "is_block_open_of_type (fst (new_block t cb m)) (next_index m) t"
proof -
  let ?m = "fst (next_block_index m)"
  have f: "hm_get (active_blocks ?m) (next_index m) = None"
    using fresh_index [OF inv] by (simp add: next_block_index_def)
  have i: "next_index m < next_index ?m" by (simp add: next_block_index_def)
  have v: "manager_inv ?m" by (rule mleads_inv [OF next_block_index_leads(1) [OF inv]])
  show "mleads m (snd (new_block t cb m)) (fst (new_block t cb m))"
    using mleads_trans [OF next_block_index_leads(1) [OF inv] block_start_leads [OF v i t f, of cb]]
    by (simp add: new_block_def)
  show "keeps m (fst (new_block t cb m))"
    using f t by (auto simp: new_block_def handle_content_block_start_def next_block_index_def keeps_def hm_simps)
  show "keeps_thinking m (fst (new_block t cb m))"
    using f t by (auto simp: new_block_def handle_content_block_start_def next_block_index_def keeps_thinking_def
        is_block_open_of_type_def hm_simps split: if_splits)
  show "is_block_open_of_type (fst (new_block t cb m)) (next_index m) t"
    using f t by (simp add: new_block_def handle_content_block_start_def next_block_index_def
        is_block_open_of_type_def hm_simps block_state_new_def is_open_def)
qed

text \<open>A tool's block: the open text blocks stop first.\<close>

lemma set_has_tool_use_leads:
  assumes "manager_inv m"
  shows "mleads m [] (m\<lparr>has_tool_use := b\<rparr>)" and "keeps m (m\<lparr>has_tool_use := b\<rparr>)"
    and "keeps_thinking m (m\<lparr>has_tool_use := b\<rparr>)"
  using assms
  by (auto simp: mleads_def manager_inv_def manager_abs_def is_block_open_of_type_def keeps_def keeps_thinking_def)

lemma set_stop_reason_leads:
  assumes "manager_inv m"
  shows "mleads m [] (set_stop_reason r m)" and "keeps m (set_stop_reason r m)"
    and "keeps_thinking m (set_stop_reason r m)"
  using assms
  by (auto simp: set_stop_reason_def mleads_def manager_inv_def manager_abs_def is_block_open_of_type_def
      keeps_def keeps_thinking_def)

lemma tool_start_leads:
  fixes m :: sse_manager and i :: int and cb :: json_map
  assumes inv: "manager_inv m" and i: "i < next_index m"
    and ty: "\<And>b. hm_get (active_blocks m) i = Some b \<Longrightarrow> bs_type b = ''tool_use''"
  defines "r \<equiv> handle_content_block_start i ''tool_use'' (block_start_data i ((''type'', JStr ''tool_use'') # cb)) m"
  shows "mleads m (snd r) (fst r)" and "keeps m (fst r)" and "keeps_thinking m (fst r)"
proof -
  let ?c = "\<lambda>b. bs_type b = ''text'' \<and> is_open b"
  let ?m1 = "m\<lparr>has_tool_use := True\<rparr>"
  let ?m2 = "fst (stop_where ?c ?m1)"
  have v1: "manager_inv ?m1" using inv by (simp add: manager_inv_def)
  have l2: "mleads m (snd (stop_where ?c ?m1)) ?m2"
    using mleads_trans [OF set_has_tool_use_leads(1) [OF inv] stop_where_leads [OF v1, of ?c]] by simp
  have v2: "manager_inv ?m2" by (rule mleads_inv [OF l2])
  have g2: "hm_get (active_blocks ?m2) j =
      map_option (\<lambda>b. if ?c b then b\<lparr>bs_stopped := True\<rparr> else b) (hm_get (active_blocks m) j)" for j
    by (simp add: get_stop_where)
  have n2: "next_index ?m2 = next_index m" by (simp add: stop_where_def)
  have k2: "keeps m ?m2" "keeps_thinking m ?m2"
    unfolding keeps_def keeps_thinking_def is_block_open_of_type_def g2 n2
    by (auto split: option.splits)
  show "mleads m (snd r) (fst r)"
  proof (cases "hm_get (active_blocks m) i")
    case None
    then have f: "hm_get (active_blocks ?m2) i = None" by (simp add: g2)
    let ?m3 = "?m2\<lparr>active_blocks := hm_insert i (block_state_new ''tool_use''\<lparr>bs_started := True\<rparr>) (active_blocks ?m2)\<rparr>"
    let ?e = "sse_new ''content_block_start'' (block_start_data i ((''type'', JStr ''tool_use'') # cb))"
    have "mleads ?m2 [?e] ?m3"
      using v2 i f n2
      by (auto simp: mleads_def manager_inv_def manager_abs_def hm_simps protocol_step_def block_state_new_def
          is_block_open_of_type_def is_open_def split: if_splits)
    moreover have "r = (?m3, snd (stop_where ?c ?m1) @ [?e])"
      using f by (simp add: r_def handle_content_block_start_def case_prod_unfold)
    ultimately show ?thesis using mleads_trans [OF l2] by simp
  next
    case (Some b)
    with inv ty have "bs_started b" "\<not> ?c b" by (auto simp: manager_inv_def)
    with Some have "r = (?m2, snd (stop_where ?c ?m1))"
      by (simp add: r_def handle_content_block_start_def case_prod_unfold g2)
    with l2 show ?thesis by simp
  qed
  have g: "hm_get (active_blocks (fst r)) j =
      (if j = i \<and> hm_get (active_blocks m) i = None then Some (block_state_new ''tool_use''\<lparr>bs_started := True\<rparr>)
       else hm_get (active_blocks ?m2) j)" for j
    using inv ty by (auto simp: r_def handle_content_block_start_def case_prod_unfold g2 hm_simps manager_inv_def
        split: option.splits if_splits)
  have n: "next_index (fst r) = next_index m"
    by (simp add: r_def handle_content_block_start_def case_prod_unfold stop_where_def split: option.splits)
  show "keeps m (fst r)"
    using k2(1) unfolding keeps_def g n n2 by (auto simp: block_state_new_def g2)
  show "keeps_thinking m (fst r)"
    using k2(2) unfolding keeps_thinking_def is_block_open_of_type_def g by (auto simp: g2 split: option.splits)
qed

lemma delta_leads:
  assumes "manager_inv m" and "is_block_open_of_type m i (delta_block_type t)"
  shows "mleads m [sse_new ''content_block_delta'' (block_delta_data i ((''type'', JStr t) # d))] m"
  using assms by (simp add: mleads_def protocol_step_def manager_abs_def manager_inv_def)

lemma handle_delta_leads:
  assumes "manager_inv m" and "\<And>b. hm_get (active_blocks m) i = Some b \<Longrightarrow> bs_type b = delta_block_type t"
  shows "mleads m (handle_content_block_delta i (block_delta_data i ((''type'', JStr t) # d)) m) m"
  using assms delta_leads [of m i t d] mleads_refl [of m]
  by (auto simp: handle_content_block_delta_def is_block_open_of_type_def is_open_def split: option.split)

lemma stop_leads:
  fixes m :: sse_manager and i :: int
  assumes inv: "manager_inv m"
  defines "r \<equiv> handle_content_block_stop i m"
  shows "mleads m (snd r) (fst r)" and "keeps m (fst r)"
    and "is_block_open_of_type m j t \<Longrightarrow> j \<noteq> i \<Longrightarrow> is_block_open_of_type (fst r) j t"
    and "is_block_open_of_type m i ''text'' \<Longrightarrow> keeps_thinking m (fst r)"
    and "\<not> is_block_open_of_type (fst r) i t"
proof -
  have g: "hm_get (active_blocks (fst r)) k =
      (if k = i then map_option (\<lambda>b. b\<lparr>bs_stopped := True\<rparr>) (hm_get (active_blocks m) i)
       else hm_get (active_blocks m) k)" for k
    by (auto simp: r_def handle_content_block_stop_def hm_simps split: option.split)
  have n: "next_index (fst r) = next_index m"
    by (simp add: r_def handle_content_block_stop_def split: option.split)
  show "keeps m (fst r)" unfolding keeps_def g n by auto
  show "is_block_open_of_type m j t \<Longrightarrow> j \<noteq> i \<Longrightarrow> is_block_open_of_type (fst r) j t"
    unfolding is_block_open_of_type_def g by simp
  show "is_block_open_of_type m i ''text'' \<Longrightarrow> keeps_thinking m (fst r)"
    unfolding is_block_open_of_type_def keeps_thinking_def g by (auto split: option.splits)
  show "\<not> is_block_open_of_type (fst r) i t"
    unfolding is_block_open_of_type_def g by (auto simp: is_open_def split: option.splits)
  show "mleads m (snd r) (fst r)"
  proof (cases "\<exists>b. hm_get (active_blocks m) i = Some b \<and> is_open b")
    case True
    then obtain b where b: "hm_get (active_blocks m) i = Some b" "is_open b" by blast
    then have r: "r = (m\<lparr>active_blocks := hm_insert i (b\<lparr>bs_stopped := True\<rparr>) (active_blocks m)\<rparr>, [stop_event i])"
      by (simp add: r_def handle_content_block_stop_def is_open_def)
    have "i \<in> fst ` pr_open (manager_abs m)" using b by (auto simp: open_index)
    moreover have "(manager_abs m)\<lparr>pr_open := Set.filter (\<lambda>e. fst e \<noteq> i) (pr_open (manager_abs m))\<rparr> = manager_abs (fst r)"
      using b by (auto simp: r manager_abs_def is_block_open_of_type_def hm_simps is_open_def split: option.splits if_splits)
    ultimately show ?thesis
      using inv b by (auto simp: r mleads_def manager_inv_def protocol_step_def hm_simps split: if_splits)
  next
    case False
    with inv have "r = (m, [])"
      by (auto simp: r_def handle_content_block_stop_def manager_inv_def is_open_def split: option.split)
    with inv show ?thesis by (simp add: mleads_refl)
  qed
qed

text \<open>The final events: every block is stopped, then the message's delta and stop.\<close>

definition manager_done :: "sse_manager \<Rightarrow> bool" where
  "manager_done m \<longleftrightarrow> message_started m \<and> message_ended m \<and> pr_open (manager_abs m) = {}"

lemma final_leads:
  fixes m :: sse_manager and a b c d :: int
  assumes inv: "manager_inv m"
  defines "r \<equiv> sse_generate_final_events a b c d m"
  shows "accepts protocol_step (manager_abs m) (snd r) = Some (manager_abs (fst r))" and "manager_done (fst r)"
proof -
  let ?m1 = "fst (stop_where is_open m)"
  have l: "mleads m (snd (stop_where is_open m)) ?m1" by (rule stop_where_leads [OF inv])
  then have v: "manager_inv ?m1" and a1: "accepts protocol_step (manager_abs m) (snd (stop_where is_open m)) = Some (manager_abs ?m1)"
    by (simp_all add: mleads_def)
  have none: "\<not> is_block_open_of_type ?m1 i t" for i t
    unfolding is_block_open_of_type_def get_stop_where by (auto simp: is_open_def split: option.splits)
  have f: "fst r = ?m1\<lparr>message_delta_sent := True, message_ended := True\<rparr>"
    using v by (simp add: r_def sse_generate_final_events_def case_prod_unfold manager_inv_def)
  have e: "\<exists>j k. snd r = snd (stop_where is_open m) @ [sse_new ''message_delta'' j, sse_new ''message_stop'' k]"
    using v by (auto simp: r_def sse_generate_final_events_def case_prod_unfold manager_inv_def)
  have p: "pr_open (manager_abs ?m1) = {}" using none by (auto simp: manager_abs_def)
  from e obtain j k where e: "snd r = snd (stop_where is_open m) @ [sse_new ''message_delta'' j, sse_new ''message_stop'' k]"
    by blast
  have "accepts protocol_step (manager_abs ?m1) [sse_new ''message_delta'' j, sse_new ''message_stop'' k]
      = Some ((manager_abs ?m1)\<lparr>pr_delta_sent := True, pr_ended := True\<rparr>)"
    using v p by (simp add: protocol_step_def manager_inv_def)
  moreover have "(manager_abs ?m1)\<lparr>pr_delta_sent := True, pr_ended := True\<rparr> = manager_abs (fst r)"
    by (simp add: f manager_abs_def is_block_open_of_type_def)
  ultimately show "accepts protocol_step (manager_abs m) (snd r) = Some (manager_abs (fst r))"
    by (simp add: e accepts_append a1)
  show "manager_done (fst r)"
    using p v by (simp add: manager_done_def f manager_abs_def is_block_open_of_type_def manager_inv_def)
qed

end
