(* ===== verification/Tool_Mapping.thy ===== *)
theory Tool_Mapping imports Json begin

section \<open>Model and tool names, tool inputs (src/src/anthropic/converter.rs)\<close>

text \<open>
  The model names the proxy accepts and their context windows; the mapping of the names and the
  inputs of the client's built-in tools to the upstream's tools (\<open>map_client_tool_name_to_kiro\<close>,
  \<open>map_tool_input_to_kiro\<close>) and back (\<open>map_tool_input_from_kiro\<close>, \<open>restore_tool_use_for_client\<close>);
  the shortening of long names, whose hash (\<open>sha2\<close>) is a parameter \<open>sha256_hex\<close>; the session id of
  the metadata. \<open>i64\<close> arithmetic wraps, as in the release profile.
\<close>

subsection \<open>Models\<close>

definition has_version :: "string \<Rightarrow> string \<Rightarrow> string \<Rightarrow> bool" where
  "has_version m dashed dotted = (contains m dashed \<or> contains m dotted)"

definition map_model :: "string \<Rightarrow> string option" where
  "map_model model =
    (let model_lower = to_lowercase model in
     if contains model_lower ''sonnet'' then
       (if has_version model_lower ''4-6'' ''4.6'' then Some ''claude-sonnet-4.6''
        else if has_version model_lower ''4-5'' ''4.5'' then Some ''claude-sonnet-4.5''
        else None)
     else if contains model_lower ''opus'' then
       (if has_version model_lower ''4-8'' ''4.8'' then Some ''claude-opus-4.8''
        else if has_version model_lower ''4-7'' ''4.7'' then Some ''claude-opus-4.7''
        else if has_version model_lower ''4-5'' ''4.5'' then Some ''claude-opus-4.5''
        else if has_version model_lower ''4-6'' ''4.6'' then Some ''claude-opus-4.6''
        else None)
     else if contains model_lower ''haiku'' then Some ''claude-haiku-4.5''
     else None)"

definition get_context_window_size :: "string \<Rightarrow> int" where
  "get_context_window_size model =
    (case map_model model of
       Some mapped \<Rightarrow>
         if mapped = ''claude-sonnet-4.6'' \<or> mapped = ''claude-opus-4.6'' \<or>
            mapped = ''claude-opus-4.7'' \<or> mapped = ''claude-opus-4.8''
         then 1000000 else 200000
     | None \<Rightarrow> 200000)"

definition supported_models :: "string list" where
  "supported_models = [''claude-sonnet-4.6'', ''claude-sonnet-4.5'', ''claude-opus-4.8'',
     ''claude-opus-4.7'', ''claude-opus-4.5'', ''claude-opus-4.6'', ''claude-haiku-4.5'']"

lemma map_model_range: "map_model m = Some r \<Longrightarrow> r \<in> set supported_models"
  by (auto simp: map_model_def supported_models_def Let_def split: if_splits)

lemma to_lowercase_ascii: "is_ascii s \<Longrightarrow> to_lowercase s = map ascii_lower s"
  by (induction s) (auto simp: is_ascii_def byte_of_def)

lemma map_model_fixed: "list_all (\<lambda>m. map_model m = Some m) supported_models"
  by code_simp

text \<open>Model names: whatever name a client sends, the mapped name is one of the seven supported models,
  and mapping a mapped name again changes nothing, so the model name survives a second conversion and
  the context window computed from either name is the same.\<close>

theorem map_model_idempotent:
  assumes "map_model m = Some r"
  shows "r \<in> set supported_models \<and> map_model r = Some r \<and> get_context_window_size r = get_context_window_size m"
  using map_model_range [OF assms] map_model_fixed assms
  by (auto simp: list_all_iff get_context_window_size_def)

theorem map_model_idempotent_witness:
  "map_model ''Claude-Opus-4-6'' = Some ''claude-opus-4.6'' \<and> get_context_window_size ''Claude-Opus-4-6'' = 1000000"
proof -
  have m: "map_model ''Claude-Opus-4-6'' = Some ''claude-opus-4.6''"
    by code_simp
  from map_model_idempotent [OF m] have "get_context_window_size ''Claude-Opus-4-6'' = get_context_window_size ''claude-opus-4.6''"
    and "map_model ''claude-opus-4.6'' = Some ''claude-opus-4.6''"
    by simp_all
  with m show ?thesis by (simp add: get_context_window_size_def)
qed

subsection \<open>Session id\<close>

definition is_valid_uuid :: "string \<Rightarrow> bool" where
  "is_valid_uuid s \<longleftrightarrow> length s = 36 \<and> length (filter (\<lambda>c. c = 45) (utf8_chars s)) = 4"

text \<open>\<open>session_part[..36]\<close> panics inside a character: the result \<open>Panicked\<close>.\<close>

datatype session_result = Panicked | Session "string option"

definition session_from_text :: "string \<Rightarrow> session_result" where
  "session_from_text user_id =
    (case find_sub user_id ''session_'' of
       None \<Rightarrow> Session None
     | Some pos \<Rightarrow>
         let session_part = drop (pos + 8) user_id in
         if 36 \<le> length session_part then
           (if \<not> is_char_boundary session_part 36 then Panicked
            else let uuid_str = take 36 session_part in
              Session (if is_valid_uuid uuid_str then Some uuid_str else None))
         else Session None)"

definition extract_session_id :: "serde \<Rightarrow> string \<Rightarrow> session_result" where
  "extract_session_id sd user_id =
    (case from_str sd user_id of
       Inr json \<Rightarrow>
         (case Option.bind (json_get json ''session_id'') json_as_str of
            Some session_id \<Rightarrow>
              if is_valid_uuid session_id then Session (Some session_id) else session_from_text user_id
          | None \<Rightarrow> session_from_text user_id)
     | Inl e \<Rightarrow> session_from_text user_id)"

lemma extract_session_id_valid: "extract_session_id sd u = Session (Some s) \<Longrightarrow> is_valid_uuid s"
  by (auto simp: extract_session_id_def session_from_text_def Let_def
      split: sum.splits option.splits if_splits)

text \<open>
  A user id with a character across byte 36 after \<open>session_\<close> makes the slice panic: the text is valid
  UTF-8, one that any client can send.
\<close>

definition split_user_id :: string where
  "split_user_id = ''session_'' @ replicate 35 (CHR ''a'') @ [CHR 0xC3, CHR 0xA9]"

lemma extract_session_id_panics:
  assumes "from_str sd split_user_id = Inl e"
  shows "utf8_valid split_user_id \<and> extract_session_id sd split_user_id = Panicked"
proof -
  have v: "utf8_valid split_user_id" by code_simp
  have f: "find_sub split_user_id ''session_'' = Some 0" by code_simp
  have b: "36 \<le> length (drop 8 split_user_id) \<and> \<not> is_char_boundary (drop 8 split_user_id) 36" by code_simp
  from f b have "session_from_text split_user_id = Panicked"
    by (simp add: session_from_text_def Let_def)
  with v assms show ?thesis by (simp add: extract_session_id_def)
qed

subsection \<open>Tool names\<close>

datatype tool_compatibility_mode = ClaudeCode | Raw

definition TOOL_NAME_MAX_LEN :: nat where
  "TOOL_NAME_MAX_LEN = 63"

text \<open>\<open>s.char_indices().nth(n)\<close>: the offset of the character with number \<open>n\<close>.\<close>

fun char_offset :: "nat \<Rightarrow> string \<Rightarrow> nat option" where
  "char_offset n [] = None"
| "char_offset 0 s = Some 0"
| "char_offset (Suc n) s =
     map_option (\<lambda>i. i + snd (utf8_step s)) (char_offset n (drop (snd (utf8_step s)) s))"

definition shorten_tool_name :: "(string \<Rightarrow> string) \<Rightarrow> string \<Rightarrow> string" where
  "shorten_tool_name sha256_hex name =
    (let hash_suffix = take 8 (sha256_hex name);
         prefix_max = TOOL_NAME_MAX_LEN - 1 - 8;
         prefix = (case char_offset prefix_max name of Some idx \<Rightarrow> take idx name | None \<Rightarrow> name)
     in prefix @ ''_'' @ hash_suffix)"

type_synonym name_map = "(string, string) hash_map"

definition map_tool_name :: "(string \<Rightarrow> string) \<Rightarrow> string \<Rightarrow> name_map \<Rightarrow> string \<times> name_map" where
  "map_tool_name sha256_hex name tool_name_map =
    (if length name \<le> TOOL_NAME_MAX_LEN then (name, tool_name_map)
     else let short = shorten_tool_name sha256_hex name in (short, hm_insert short name tool_name_map))"

definition claude_code_tool_name_to_kiro :: "string \<Rightarrow> string option" where
  "claude_code_tool_name_to_kiro name =
    (if name = ''Write'' then Some ''fs_write''
     else if name = ''Edit'' then Some ''str_replace''
     else if name = ''Bash'' then Some ''execute_bash''
     else if name = ''Read'' then Some ''read_file''
     else if name = ''Glob'' then Some ''file_search''
     else if name = ''Grep'' then Some ''grep_search''
     else if name = ''LS'' then Some ''list_directory''
     else if name = ''WebSearch'' then Some ''web_search''
     else None)"

definition is_claude_code_mode :: "tool_compatibility_mode \<Rightarrow> bool" where
  "is_claude_code_mode mode = (mode = ClaudeCode)"

definition map_client_tool_name_to_kiro ::
  "(string \<Rightarrow> string) \<Rightarrow> string \<Rightarrow> name_map \<Rightarrow> tool_compatibility_mode \<Rightarrow> string \<times> name_map" where
  "map_client_tool_name_to_kiro sha256_hex name tool_name_map mode =
    (case (if is_claude_code_mode mode then claude_code_tool_name_to_kiro name else None) of
       Some kiro_name \<Rightarrow>
         (kiro_name,
          case hm_get tool_name_map kiro_name of
            Some _ \<Rightarrow> tool_name_map | None \<Rightarrow> hm_insert kiro_name name tool_name_map)
     | None \<Rightarrow> map_tool_name sha256_hex name tool_name_map)"

subsection \<open>Tool inputs\<close>

datatype tool_compatibility_error = UnsupportedToolMapping string

definition optional_number :: "json \<Rightarrow> int option" where
  "optional_number value =
    (case json_as_i64 value of
       Some i \<Rightarrow> Some i
     | None \<Rightarrow> map_option wrap_i64 (json_as_u64 value))"

definition take_first :: "json_map \<Rightarrow> string list \<Rightarrow> json option" where
  "take_first obj keys = (case filter (\<lambda>k. map_of obj k \<noteq> None) keys of [] \<Rightarrow> None | k # _ \<Rightarrow> map_of obj k)"

definition maybe_insert :: "string \<Rightarrow> json option \<Rightarrow> json_map \<Rightarrow> json_map" where
  "maybe_insert key value out =
    (case value of Some v \<Rightarrow> if json_is_null v then out else map_insert key v out | None \<Rightarrow> out)"

definition default_explanation :: "string \<Rightarrow> json" where
  "default_explanation tool_name = JStr (''Mapped from Claude Code '' @ tool_name @ '' tool.'')"

text \<open>\<open>out.entry(key).or_insert_with(..)\<close>\<close>

definition or_insert :: "string \<Rightarrow> json \<Rightarrow> json_map \<Rightarrow> json_map" where
  "or_insert key v out = (case map_of out key of Some _ \<Rightarrow> out | None \<Rightarrow> map_insert key v out)"

definition insert_number :: "string \<Rightarrow> int option \<Rightarrow> json_map \<Rightarrow> json_map" where
  "insert_number key n out = (case n of Some i \<Rightarrow> map_insert key (JInt i) out | None \<Rightarrow> out)"

definition read_to_kiro :: "string \<Rightarrow> json_map \<Rightarrow> json_map" where
  "read_to_kiro client_name obj =
    (let out = maybe_insert ''path'' (take_first obj [''file_path'', ''path'']) [];
         offset = Option.bind (map_of obj ''offset'') optional_number;
         limit = Option.bind (map_of obj ''limit'') optional_number;
         out = insert_number ''start_line'' offset out;
         out = (case limit of
                  Some l \<Rightarrow> map_insert ''end_line''
                    (JInt (case offset of Some start \<Rightarrow> wrap_i64 (wrap_i64 (start + l) - 1) | None \<Rightarrow> l)) out
                | None \<Rightarrow> out)
     in or_insert ''explanation'' (default_explanation client_name)
          (maybe_insert ''explanation'' (take_first obj [''explanation'']) out))"

definition glob_to_kiro :: "string \<Rightarrow> json_map \<Rightarrow> json_map" where
  "glob_to_kiro client_name obj =
    (let out = maybe_insert ''query'' (take_first obj [''pattern'', ''query'']) [];
         out = maybe_insert ''excludePattern'' (take_first obj [''excludePattern'', ''exclude'']) out;
         out = (case take_first obj [''includeIgnoredFiles'', ''include_ignored''] of
                  Some v \<Rightarrow> map_insert ''includeIgnoredFiles''
                    (case v of JBool b \<Rightarrow> JStr (if b then ''yes'' else ''no'') | _ \<Rightarrow> v) out
                | None \<Rightarrow> out)
     in or_insert ''explanation'' (default_explanation client_name)
          (maybe_insert ''explanation'' (take_first obj [''explanation'']) out))"

definition map_tool_input_to_kiro ::
  "string \<Rightarrow> json \<Rightarrow> tool_compatibility_mode \<Rightarrow> tool_compatibility_error + json" where
  "map_tool_input_to_kiro client_name input mode =
    (if \<not> is_claude_code_mode mode then Inr input
     else case claude_code_tool_name_to_kiro client_name of None \<Rightarrow> Inr input | Some _ \<Rightarrow>
     (case input of
        JObj obj \<Rightarrow>
          if client_name = ''Write'' then
            Inr (JObj (maybe_insert ''text'' (take_first obj [''content'', ''text''])
              (maybe_insert ''path'' (take_first obj [''file_path'', ''path'']) [])))
          else if client_name = ''Edit'' then
            Inr (JObj (maybe_insert ''newStr'' (take_first obj [''new_string'', ''newStr''])
              (maybe_insert ''oldStr'' (take_first obj [''old_string'', ''oldStr''])
                (maybe_insert ''path'' (take_first obj [''file_path'', ''path'']) []))))
          else if client_name = ''Bash'' then
            Inr (JObj (maybe_insert ''timeout'' (take_first obj [''timeout''])
              (maybe_insert ''command'' (take_first obj [''command'']) [])))
          else if client_name = ''Read'' then
            (if (case map_of obj ''pages'' of Some v \<Rightarrow> \<not> json_is_null v | None \<Rightarrow> False)
             then Inl (UnsupportedToolMapping client_name)
             else Inr (JObj (read_to_kiro client_name obj)))
          else if client_name = ''Glob'' then Inr (JObj (glob_to_kiro client_name obj))
          else if client_name = ''Grep'' then
            Inr (JObj (maybe_insert ''explanation'' (take_first obj [''explanation''])
              (maybe_insert ''caseSensitive'' (take_first obj [''caseSensitive'', ''case_sensitive''])
                (maybe_insert ''excludePattern'' (take_first obj [''excludePattern'', ''exclude''])
                  (maybe_insert ''includePattern'' (take_first obj [''glob'', ''includePattern''])
                    (maybe_insert ''query'' (take_first obj [''pattern'', ''query'']) []))))))
          else if client_name = ''LS'' then
            Inr (JObj (or_insert ''explanation'' (default_explanation client_name)
              (maybe_insert ''explanation'' (take_first obj [''explanation''])
                (maybe_insert ''depth'' (take_first obj [''depth''])
                  (maybe_insert ''path'' (take_first obj [''path'']) [])))))
          else if client_name = ''WebSearch'' then
            Inr (JObj (maybe_insert ''query'' (take_first obj [''query'']) []))
          else Inr (JObj obj)
      | _ \<Rightarrow> Inr input))"

definition read_from_kiro :: "json_map \<Rightarrow> json_map" where
  "read_from_kiro obj =
    (let out = maybe_insert ''file_path'' (take_first obj [''path'', ''file_path'']) [];
         start = Option.bind (map_of obj ''start_line'') optional_number;
         end = Option.bind (map_of obj ''end_line'') optional_number;
         out = insert_number ''offset'' start out
     in case end of
          Some e \<Rightarrow>
            let limit = (case start of Some s \<Rightarrow> wrap_i64 (wrap_i64 (e - s) + 1) | None \<Rightarrow> e) in
            if 0 < limit then map_insert ''limit'' (JInt limit) out else out
        | None \<Rightarrow> out)"

definition map_tool_input_from_kiro :: "string \<Rightarrow> json \<Rightarrow> json" where
  "map_tool_input_from_kiro client_name input =
    (case claude_code_tool_name_to_kiro client_name of None \<Rightarrow> input | Some _ \<Rightarrow>
     (case input of
        JObj obj \<Rightarrow>
          if client_name = ''Write'' then
            JObj (maybe_insert ''content'' (take_first obj [''text'', ''content''])
              (maybe_insert ''file_path'' (take_first obj [''path'', ''file_path'']) []))
          else if client_name = ''Edit'' then
            JObj (maybe_insert ''new_string'' (take_first obj [''newStr'', ''new_string''])
              (maybe_insert ''old_string'' (take_first obj [''oldStr'', ''old_string''])
                (maybe_insert ''file_path'' (take_first obj [''path'', ''file_path'']) [])))
          else if client_name = ''Bash'' then
            JObj (maybe_insert ''timeout'' (take_first obj [''timeout''])
              (maybe_insert ''command'' (take_first obj [''command'']) []))
          else if client_name = ''Read'' then JObj (read_from_kiro obj)
          else if client_name = ''Glob'' then
            JObj (maybe_insert ''pattern'' (take_first obj [''query'', ''pattern'']) [])
          else if client_name = ''Grep'' then
            JObj (maybe_insert ''case_sensitive'' (take_first obj [''caseSensitive'', ''case_sensitive''])
              (maybe_insert ''glob'' (take_first obj [''includePattern'', ''glob''])
                (maybe_insert ''pattern'' (take_first obj [''query'', ''pattern'']) [])))
          else if client_name = ''LS'' then
            JObj (maybe_insert ''path'' (take_first obj [''path'']) [])
          else if client_name = ''WebSearch'' then
            JObj (maybe_insert ''query'' (take_first obj [''query'']) [])
          else JObj obj
      | _ \<Rightarrow> input))"

definition restore_tool_use_for_client :: "string \<Rightarrow> json \<Rightarrow> name_map \<Rightarrow> string \<times> json" where
  "restore_tool_use_for_client kiro_name input tool_name_map =
    (let client_name = (case hm_get tool_name_map kiro_name of Some n \<Rightarrow> n | None \<Rightarrow> kiro_name)
     in (client_name, map_tool_input_from_kiro client_name input))"

subsection \<open>Names: bounds and restoration\<close>

lemma char_offset_ascii:
  "is_ascii s \<Longrightarrow> char_offset n s = (if n < length s then Some n else None)"
proof (induction n s rule: char_offset.induct)
  case (3 n c s)
  have w: "snd (utf8_step (c # s)) = 1" using 3(2) by (simp add: is_ascii_def utf8_step.simps Let_def)
  from 3(2) have "is_ascii s" by (simp add: is_ascii_def)
  with 3(1) w show ?case by simp
qed auto

text \<open>A tool name longer than the upstream's limit is replaced by one of at most 63 bytes, for an ASCII
  name, and the original is restored from the map the request keeps: no other name mapped before it
  is disturbed, unless the two short names collide.\<close>

theorem long_tool_name_shortened:
  assumes "is_ascii name" and "TOOL_NAME_MAX_LEN < length name"
    and "8 \<le> length (sha256_hex name)"
  shows "length (fst (map_tool_name sha256_hex name m)) = TOOL_NAME_MAX_LEN
    \<and> fst (restore_tool_use_for_client (fst (map_tool_name sha256_hex name m)) input
            (snd (map_tool_name sha256_hex name m))) = name
    \<and> (\<forall>k. k \<noteq> fst (map_tool_name sha256_hex name m) \<longrightarrow>
            hm_get (snd (map_tool_name sha256_hex name m)) k = hm_get m k)"
  using assms
  by (simp add: map_tool_name_def shorten_tool_name_def Let_def char_offset_ascii TOOL_NAME_MAX_LEN_def
      restore_tool_use_for_client_def hm_simps)

theorem long_tool_name_shortened_witness:
  "length (fst (map_tool_name (\<lambda>_. ''0123456789abcdef'') (replicate 70 (CHR ''x'')) (hm_empty (\<lambda>_ _. 0)))) = TOOL_NAME_MAX_LEN"
  using long_tool_name_shortened [of "replicate 70 (CHR ''x'')" "\<lambda>_. ''0123456789abcdef''" "hm_empty (\<lambda>_ _. 0)" JNull]
  by (simp add: is_ascii_def TOOL_NAME_MAX_LEN_def list_all_iff byte_of_def)

text \<open>A tool name that the map does not yet hold under its upstream name is restored to exactly the
  client's name after the round trip: in both modes, whether it is a built-in tool of the client, a
  name of ordinary length or one that had to be shortened.\<close>

theorem tool_name_roundtrip:
  assumes "hm_get m (fst (map_client_tool_name_to_kiro sha256_hex name m mode)) = None"
  shows "fst (restore_tool_use_for_client (fst (map_client_tool_name_to_kiro sha256_hex name m mode)) input
           (snd (map_client_tool_name_to_kiro sha256_hex name m mode))) = name"
  using assms
  by (auto simp: map_client_tool_name_to_kiro_def map_tool_name_def restore_tool_use_for_client_def hm_simps
      Let_def split: option.splits if_splits)

theorem tool_name_roundtrip_witness:
  "fst (restore_tool_use_for_client ''fs_write'' JNull
     (snd (map_client_tool_name_to_kiro (\<lambda>_. []) ''Write'' (hm_empty (\<lambda>_ _. 0)) ClaudeCode))) = ''Write''"
  using tool_name_roundtrip [of "hm_empty (\<lambda>_ _. 0)" "\<lambda>_. []" "''Write''" ClaudeCode JNull]
  by (simp add: map_client_tool_name_to_kiro_def is_claude_code_mode_def claude_code_tool_name_to_kiro_def hm_simps)

subsection \<open>Inputs: the round trip through the upstream's schema\<close>

lemma map_of_maybe_insert:
  "map_of (maybe_insert k v m) = (case v of Some x \<Rightarrow> if x = JNull then map_of m else (map_of m)(k \<mapsto> x) | None \<Rightarrow> map_of m)"
  by (cases v) (auto simp: maybe_insert_def elim!: json_is_null.elims)

lemma map_of_insert_number:
  "map_of (insert_number k n m) = (case n of Some i \<Rightarrow> (map_of m)(k \<mapsto> JInt i) | None \<Rightarrow> map_of m)"
  by (cases n) (auto simp: insert_number_def)

lemma map_of_or_insert:
  "map_of (or_insert k v m) = (case map_of m k of Some _ \<Rightarrow> map_of m | None \<Rightarrow> (map_of m)(k \<mapsto> v))"
  by (simp add: or_insert_def split: option.splits)

lemma take_first_nil: "take_first obj [] = None"
  by (simp add: take_first_def)

lemma take_first_cons:
  "take_first obj (k # ks) = (case map_of obj k of Some v \<Rightarrow> Some v | None \<Rightarrow> take_first obj ks)"
  by (auto simp: take_first_def split: option.splits list.splits)

lemma optional_number_int: "- (2 ^ 63) \<le> i \<Longrightarrow> i < 2 ^ 63 \<Longrightarrow> optional_number (JInt i) = Some i"
  by (simp add: optional_number_def json_as_i64_def)

lemmas map_of_inputs = map_of_maybe_insert map_of_insert_number map_of_or_insert take_first_cons take_first_nil

text \<open>The keys of a client's built-in tool that have a counterpart in the upstream's schema.\<close>

definition client_keys :: "string \<Rightarrow> string list" where
  "client_keys name =
    (if name = ''Write'' then [''file_path'', ''content'']
     else if name = ''Edit'' then [''file_path'', ''old_string'', ''new_string'']
     else if name = ''Bash'' then [''command'', ''timeout'']
     else if name = ''Read'' then [''file_path'', ''offset'', ''limit'']
     else if name = ''Glob'' then [''pattern'']
     else if name = ''Grep'' then [''pattern'', ''glob'', ''case_sensitive'']
     else if name = ''LS'' then [''path'']
     else if name = ''WebSearch'' then [''query'']
     else [])"

definition line_range :: "json option \<Rightarrow> int \<Rightarrow> bool" where
  "line_range v low = (case v of None \<Rightarrow> True | Some (JInt i) \<Rightarrow> low \<le> i \<and> i < 2 ^ 62 | Some _ \<Rightarrow> False)"

definition plain_input :: "string \<Rightarrow> json_map \<Rightarrow> bool" where
  "plain_input name kvs \<longleftrightarrow> list_all (\<lambda>(k, v). k \<in> set (client_keys name) \<and> v \<noteq> JNull) kvs
     \<and> (name = ''Read'' \<longrightarrow> line_range (map_of kvs ''offset'') 0 \<and> line_range (map_of kvs ''limit'') 1)"

lemma plain_other: "plain_input name kvs \<Longrightarrow> k \<notin> set (client_keys name) \<Longrightarrow> map_of kvs k = None"
  by (auto simp: plain_input_def list_all_iff map_of_eq_None_iff)

lemma plain_not_null: "plain_input name kvs \<Longrightarrow> map_of kvs k \<noteq> Some JNull"
  by (auto simp: plain_input_def list_all_iff dest!: map_of_SomeD)

lemma plain_keys:
  assumes "plain_input name kvs" and "set (client_keys name) \<subseteq> set ks"
    and "\<And>k. k \<in> set ks \<Longrightarrow> f k = map_of kvs k" and "\<And>k. k \<notin> set ks \<Longrightarrow> f k = None"
  shows "f = map_of kvs"
  using assms plain_other by fastforce

lemma line_range_cases:
  assumes "line_range v low"
  obtains "v = None" | i where "v = Some (JInt i)" and "low \<le> i" and "i < 2 ^ 62"
  using assms by (auto simp: line_range_def split: option.splits json.splits)

definition offset_limit :: "json option \<Rightarrow> json option \<Rightarrow> json option" where
  "offset_limit off lmt =
    (case lmt of None \<Rightarrow> None | Some l \<Rightarrow>
       (case json_as_int l of None \<Rightarrow> None | Some b \<Rightarrow>
         (case Option.bind off json_as_int of None \<Rightarrow> Some (JInt b) | Some a \<Rightarrow> Some (JInt (a + b - 1)))))"

lemma read_kiro_keys:
  assumes p: "plain_input ''Read'' kvs"
  shows "map_of (read_to_kiro name kvs) ''path'' = map_of kvs ''file_path''"
    and "map_of (read_to_kiro name kvs) ''file_path'' = None"
    and "map_of (read_to_kiro name kvs) ''start_line'' = map_of kvs ''offset''"
    and "map_of (read_to_kiro name kvs) ''end_line'' = offset_limit (map_of kvs ''offset'') (map_of kvs ''limit'')"
proof -
  have n: "map_of kvs ''path'' = None" "map_of kvs ''explanation'' = None"
    using plain_other [OF p] by (simp_all add: client_keys_def)
  have fp: "map_of kvs ''file_path'' \<noteq> Some JNull" by (rule plain_not_null [OF p])
  from p have o: "line_range (map_of kvs ''offset'') 0" and l: "line_range (map_of kvs ''limit'') 1"
    by (simp_all add: plain_input_def)
  show "map_of (read_to_kiro name kvs) ''path'' = map_of kvs ''file_path''"
    using n fp by (simp add: read_to_kiro_def Let_def map_of_inputs split: option.split)
  show "map_of (read_to_kiro name kvs) ''file_path'' = None"
    using n by (simp add: read_to_kiro_def Let_def map_of_inputs split: option.split)
  show "map_of (read_to_kiro name kvs) ''start_line'' = map_of kvs ''offset''"
    by (rule line_range_cases [OF o])
      (use n in \<open>simp_all add: read_to_kiro_def Let_def map_of_inputs optional_number_int split: option.split\<close>)
  show "map_of (read_to_kiro name kvs) ''end_line'' = offset_limit (map_of kvs ''offset'') (map_of kvs ''limit'')"
    by (rule line_range_cases [OF o]; rule line_range_cases [OF l])
      (use n in \<open>simp_all add: read_to_kiro_def Let_def map_of_inputs optional_number_int wrap_i64_id
        offset_limit_def split: option.split\<close>)
qed

lemma read_roundtrip:
  assumes p: "plain_input ''Read'' kvs"
  shows "map_of (read_from_kiro (read_to_kiro name kvs)) = map_of kvs"
proof (rule plain_keys [OF p, of "[''file_path'', ''offset'', ''limit'']"])
  let ?out = "read_from_kiro (read_to_kiro name kvs)"
  have fp: "map_of kvs ''file_path'' \<noteq> Some JNull" by (rule plain_not_null [OF p])
  from p have o: "line_range (map_of kvs ''offset'') 0" and l: "line_range (map_of kvs ''limit'') 1"
    by (simp_all add: plain_input_def)
  note keys = read_kiro_keys [OF p, of name]
  show "set (client_keys ''Read'') \<subseteq> set [''file_path'', ''offset'', ''limit'']"
    by (simp add: client_keys_def)
  have "map_of ?out ''file_path'' = map_of kvs ''file_path''"
    using keys(1,2) fp by (simp add: read_from_kiro_def Let_def map_of_inputs split: option.split)
  moreover have "map_of ?out ''offset'' = map_of kvs ''offset''"
    by (rule line_range_cases [OF o])
      (use keys in \<open>simp_all add: read_from_kiro_def Let_def map_of_inputs optional_number_int split: option.split\<close>)
  moreover have "map_of ?out ''limit'' = map_of kvs ''limit''"
    by (rule line_range_cases [OF o]; rule line_range_cases [OF l])
      (use keys in \<open>simp_all add: read_from_kiro_def Let_def map_of_inputs optional_number_int wrap_i64_id
        offset_limit_def split: option.split\<close>)
  ultimately show "map_of ?out k = map_of kvs k" if "k \<in> set [''file_path'', ''offset'', ''limit'']" for k
    using that by auto
  show "map_of ?out k = None" if "k \<notin> set [''file_path'', ''offset'', ''limit'']" for k
  proof -
    from that have k: "k \<noteq> ''file_path''" "k \<noteq> ''offset''" "k \<noteq> ''limit''" by simp_all
    show ?thesis
      by (simp add: read_from_kiro_def Let_def map_of_inputs k split: option.split)
  qed
qed

lemmas input_defs = map_tool_input_to_kiro_def map_tool_input_from_kiro_def is_claude_code_mode_def
  claude_code_tool_name_to_kiro_def

definition client_tools :: "string list" where
  "client_tools = [''Write'', ''Edit'', ''Bash'', ''Read'', ''Glob'', ''Grep'', ''LS'', ''WebSearch'']"

text \<open>The object that comes back after the input went to the upstream's schema.\<close>

definition there_and_back :: "string \<Rightarrow> json_map \<Rightarrow> json option" where
  "there_and_back name kvs =
    (case map_tool_input_to_kiro name (JObj kvs) ClaudeCode of
       Inr j \<Rightarrow> Some (map_tool_input_from_kiro name j) | Inl _ \<Rightarrow> None)"

lemma client_tools_iff:
  "name \<in> set client_tools \<longleftrightarrow> name = ''Write'' \<or> name = ''Edit'' \<or> name = ''Bash'' \<or> name = ''Read'' \<or>
     name = ''Glob'' \<or> name = ''Grep'' \<or> name = ''LS'' \<or> name = ''WebSearch''"
  by (simp only: client_tools_def list.set insert_iff empty_iff simp_thms)

lemma get_inputs:
  "map_of m k = None \<Longrightarrow> v \<noteq> Some JNull \<Longrightarrow> map_of (maybe_insert k v m) k = v"
  "k' \<noteq> k \<Longrightarrow> map_of (maybe_insert k v m) k' = map_of m k'"
  "take_first obj [k] = map_of obj k"
  "map_of obj k' = None \<Longrightarrow> take_first obj [k, k'] = map_of obj k"
  "map_of obj k = None \<Longrightarrow> take_first obj [k, k'] = map_of obj k'"
  "k' \<noteq> k \<Longrightarrow> map_of (or_insert k w m) k' = map_of m k'"
  by (auto simp: map_of_inputs split: option.splits)

text \<open>The claim of one tool: nothing is lost or added on the way there and back.\<close>

definition survives :: "string \<Rightarrow> json_map \<Rightarrow> bool" where
  "survives name kvs \<longleftrightarrow> (case there_and_back name kvs of
     Some (JObj out) \<Rightarrow> map_of out = map_of kvs | _ \<Rightarrow> False)"

lemma survivesI:
  assumes p: "plain_input name kvs" and out: "there_and_back name kvs = Some (JObj out)"
    and keys: "list_all (\<lambda>k. map_of out k = map_of kvs k) (client_keys name)"
    and other: "\<And>k. k \<notin> set (client_keys name) \<Longrightarrow> map_of out k = None"
  shows "survives name kvs"
proof -
  have "map_of out k = map_of kvs k" for k
    using keys other [of k] plain_other [OF p, of k] by (cases "k \<in> set (client_keys name)") (auto simp: list_all_iff)
  with out show ?thesis by (auto simp: survives_def)
qed

lemmas back_simps = there_and_back_def input_defs

lemma survives_Write:
  assumes p: "plain_input ''Write'' kvs"
  shows "survives ''Write'' kvs"
  by (rule survivesI [OF p], simp add: back_simps, simp_all add: client_keys_def get_inputs
      plain_not_null [OF p] plain_other [OF p, unfolded client_keys_def, simplified])

lemma survives_Edit:
  assumes p: "plain_input ''Edit'' kvs"
  shows "survives ''Edit'' kvs"
  by (rule survivesI [OF p], simp add: back_simps, simp_all add: client_keys_def get_inputs
      plain_not_null [OF p] plain_other [OF p, unfolded client_keys_def, simplified])

lemma survives_Bash:
  assumes p: "plain_input ''Bash'' kvs"
  shows "survives ''Bash'' kvs"
  by (rule survivesI [OF p], simp add: back_simps, simp_all add: client_keys_def get_inputs
      plain_not_null [OF p] plain_other [OF p, unfolded client_keys_def, simplified])

lemma survives_Glob:
  assumes p: "plain_input ''Glob'' kvs"
  shows "survives ''Glob'' kvs"
  by (rule survivesI [OF p], simp add: back_simps, simp_all add: client_keys_def get_inputs glob_to_kiro_def Let_def
      plain_not_null [OF p] plain_other [OF p, unfolded client_keys_def, simplified] split: option.split)

lemma survives_Grep:
  assumes p: "plain_input ''Grep'' kvs"
  shows "survives ''Grep'' kvs"
  by (rule survivesI [OF p], simp add: back_simps, simp_all add: client_keys_def get_inputs
      plain_not_null [OF p] plain_other [OF p, unfolded client_keys_def, simplified])

lemma survives_LS:
  assumes p: "plain_input ''LS'' kvs"
  shows "survives ''LS'' kvs"
  by (rule survivesI [OF p], simp add: back_simps, simp_all add: client_keys_def get_inputs
      plain_not_null [OF p] plain_other [OF p, unfolded client_keys_def, simplified] split: option.split)

lemma survives_WebSearch:
  assumes p: "plain_input ''WebSearch'' kvs"
  shows "survives ''WebSearch'' kvs"
  by (rule survivesI [OF p], simp add: back_simps, simp_all add: client_keys_def get_inputs
      plain_not_null [OF p] plain_other [OF p, unfolded client_keys_def, simplified])

lemma survives_Read: "plain_input ''Read'' kvs \<Longrightarrow> survives ''Read'' kvs"
  using plain_other [of "''Read''" kvs "''pages''"] read_roundtrip [of kvs "''Read''"]
  by (simp add: survives_def there_and_back_def input_defs client_keys_def)



text \<open>The conversion refuses exactly one thing: in Claude Code mode a Read call that asks for pages of a
  document, which has no counterpart in the upstream's tool.\<close>

theorem tool_input_refused:
  "map_tool_input_to_kiro name input mode = Inl e \<longleftrightarrow>
     mode = ClaudeCode \<and> name = ''Read'' \<and> e = UnsupportedToolMapping name \<and>
     (\<exists>obj v. input = JObj obj \<and> map_of obj ''pages'' = Some v \<and> v \<noteq> JNull)"
proof (cases "mode = ClaudeCode \<and> name = ''Read''")
  case True
  then have n: "mode = ClaudeCode" "name = ''Read''" by simp_all
  have null: "\<And>v. json_is_null v \<longleftrightarrow> v = JNull" by (auto elim: json_is_null.elims)
  show ?thesis
    unfolding n by (cases input) (auto simp: input_defs null split: option.splits)
next
  case False
  then show ?thesis by (cases input) (auto simp: map_tool_input_to_kiro_def is_claude_code_mode_def
      split: option.splits)
qed

text \<open>In raw mode, where the upstream is given the client's own tools and inputs, a call that comes back is
  still rewritten as if it had been mapped: a Read of a line range loses its offset and its limit,
  although nothing was mapped on the way out.\<close>

theorem raw_mode_input_rewritten:
  assumes "hm_get m ''Read'' = None" and "map_of kvs ''start_line'' = None" and "map_of kvs ''end_line'' = None"
    and "restore_tool_use_for_client ''Read'' (JObj kvs) m = (client_name, input)"
  shows "map_tool_input_to_kiro ''Read'' (JObj kvs) Raw = Inr (JObj kvs) \<and> client_name = ''Read''
    \<and> json_get input ''offset'' = None \<and> json_get input ''limit'' = None"
  using assms
  by (auto simp: restore_tool_use_for_client_def input_defs read_from_kiro_def insert_number_def
      maybe_insert_def split: option.splits)

theorem raw_mode_input_rewritten_witness:
  "json_get (snd (restore_tool_use_for_client ''Read''
     (JObj [(''file_path'', JStr ''/a''), (''offset'', JInt 5)]) (hm_empty (\<lambda>_ _. 0)))) ''offset'' = None"
  using raw_mode_input_rewritten [of "hm_empty (\<lambda>_ _. 0)" "[(''file_path'', JStr ''/a''), (''offset'', JInt 5)]"
      "fst (restore_tool_use_for_client ''Read'' (JObj [(''file_path'', JStr ''/a''), (''offset'', JInt 5)]) (hm_empty (\<lambda>_ _. 0)))"
      "snd (restore_tool_use_for_client ''Read'' (JObj [(''file_path'', JStr ''/a''), (''offset'', JInt 5)]) (hm_empty (\<lambda>_ _. 0)))"]
  by (simp add: hm_simps)

end
