(* ===== verification/Tool_Accumulator.thy ===== *)
theory Tool_Accumulator imports Events Tool_Mapping begin

section \<open>Fragments of tool inputs (src/src/anthropic/stream.rs, ToolJsonAccumulator)\<close>

text \<open>
  The upstream sends the JSON input of a tool call in fragments, those of several calls mixed. The
  accumulator keeps one buffer per call id in a hash map, and turns a buffer into a completed call
  when the call's last fragment arrives, or, for an empty buffer, at the end of the stream.
\<close>

record completed_tool_use =
  ct_id :: string
  ct_name :: string
  ct_input :: json

datatype tool_json_error =
    InvalidJson string string string      \<comment> \<open>tool use id, name, message\<close>
  | IncompleteJson string string nat      \<comment> \<open>tool use id, name, buffered bytes\<close>

type_synonym tool_buffers = "(string, string \<times> string) hash_map"

definition error_type :: "tool_json_error \<Rightarrow> string" where
  "error_type e = ''upstream_tool_json_error''"

fun error_message :: "tool_json_error \<Rightarrow> string" where
  "error_message (InvalidJson i n m) =
     ''Upstream returned invalid JSON for tool_use '' @ i @ '' ('' @ n @ ''): '' @ m"
| "error_message (IncompleteJson i n bytes) =
     ''Upstream ended before completing tool_use '' @ i @ '' ('' @ n @ '') JSON input; buffered ''
     @ nat_to_string bytes @ '' bytes. The tool call was not forwarded to the client.''"

text \<open>The buffer of a call with one more fragment in it.\<close>

definition add_fragment :: "tool_use_event \<Rightarrow> tool_buffers \<Rightarrow> tool_buffers" where
  "add_fragment e buffers =
    (let (name, input) = (case hm_get buffers (tool_use_id e) of Some b \<Rightarrow> b | None \<Rightarrow> (tu_name e, []));
         name = (if name = [] then tu_name e else name)
     in hm_insert (tool_use_id e) (name, input @ tu_input e) buffers)"

definition parse_input :: "serde \<Rightarrow> string \<Rightarrow> string \<Rightarrow> string \<Rightarrow> tool_json_error + json" where
  "parse_input sd i kiro_name input_json =
    (if is_blank input_json then Inr (JObj [])
     else case from_str sd input_json of
       Inr v \<Rightarrow> Inr v | Inl msg \<Rightarrow> Inl (InvalidJson i kiro_name msg))"

definition accumulator_push :: "serde \<Rightarrow> tool_use_event \<Rightarrow> name_map \<Rightarrow> tool_buffers
    \<Rightarrow> tool_buffers \<times> (tool_json_error + completed_tool_use option)" where
  "accumulator_push sd e tool_name_map buffers =
    (let buffers1 = add_fragment e buffers in
     if \<not> tu_stop e then (buffers1, Inr None)
     else
       let (kiro_name, input_json) =
             (case hm_get buffers1 (tool_use_id e) of Some b \<Rightarrow> b | None \<Rightarrow> (tu_name e, tu_input e));
           buffers2 = hm_remove (tool_use_id e) buffers1 in
       (buffers2,
        case parse_input sd (tool_use_id e) kiro_name input_json of
          Inl err \<Rightarrow> Inl err
        | Inr input \<Rightarrow>
            (case restore_tool_use_for_client kiro_name input tool_name_map of
               (n, inp) \<Rightarrow> Inr (Some \<lparr>ct_id = tool_use_id e, ct_name = n, ct_input = inp\<rparr>))))"

text \<open>\<open>finish\<close>: the calls with an empty buffer, in the order of the map's iteration, or an error.\<close>

definition empty_call :: "name_map \<Rightarrow> string \<times> string \<times> string \<Rightarrow> completed_tool_use" where
  "empty_call tool_name_map e =
    (case restore_tool_use_for_client (fst (snd e)) (JObj []) tool_name_map of
       (n, inp) \<Rightarrow> \<lparr>ct_id = fst e, ct_name = n, ct_input = inp\<rparr>)"

definition accumulator_finish :: "name_map \<Rightarrow> tool_buffers
    \<Rightarrow> tool_buffers \<times> (tool_json_error + completed_tool_use list)" where
  "accumulator_finish tool_name_map buffers =
    (let empty_bufs = filter (\<lambda>e. is_blank (snd (snd e))) (hm_iter buffers);
         buffers1 = fold hm_remove (map fst empty_bufs) buffers in
     case max_by_key (\<lambda>e. length (snd (snd e))) (hm_iter buffers1) of
       Some (i, n, input) \<Rightarrow> (hm_remove i buffers1, Inl (IncompleteJson i n (length input)))
     | None \<Rightarrow> (buffers1, Inr (map (empty_call tool_name_map) empty_bufs)))"

subsection \<open>Interleaving\<close>

text \<open>What the fragments of one call amount to: the first name that is not empty and the joined input.\<close>

fun first_name :: "string \<Rightarrow> tool_use_event list \<Rightarrow> string" where
  "first_name n [] = n"
| "first_name n (e # es) = (if n = [] then first_name (tu_name e) es else n)"

definition fragments :: "string \<Rightarrow> tool_use_event list \<Rightarrow> tool_use_event list" where
  "fragments i es = filter (\<lambda>e. tool_use_id e = i) es"

definition push_fragments :: "serde \<Rightarrow> name_map \<Rightarrow> tool_use_event list \<Rightarrow> tool_buffers \<Rightarrow> tool_buffers" where
  "push_fragments sd m es buffers = fold (\<lambda>e b. fst (accumulator_push sd e m b)) es buffers"

lemma get_add_fragment:
  "hm_get (add_fragment e buffers) i =
    (if i = tool_use_id e then
       (case hm_get buffers i of
          None \<Rightarrow> Some (tu_name e, tu_input e)
        | Some (n, inp) \<Rightarrow> Some (if n = [] then tu_name e else n, inp @ tu_input e))
     else hm_get buffers i)"
  by (auto simp: add_fragment_def hm_simps Let_def split: option.splits prod.splits)

lemma get_push:
  "hm_get (fst (accumulator_push sd e m buffers)) i =
    (if i = tool_use_id e \<and> tu_stop e then None else hm_get (add_fragment e buffers) i)"
  by (auto simp: accumulator_push_def Let_def hm_simps split: prod.splits)

lemma first_name_cons: "n \<noteq> [] \<Longrightarrow> first_name n es = n"
  by (cases es) auto

lemma push_fragments_other:
  "tool_use_id e \<noteq> i \<Longrightarrow> hm_get (fst (accumulator_push sd e m buffers)) i = hm_get buffers i"
  by (auto simp: get_push get_add_fragment)

lemma push_fragments_get:
  assumes "\<forall>e \<in> set es. tool_use_id e = i \<longrightarrow> \<not> tu_stop e"
  shows "hm_get (push_fragments sd m es buffers) i =
    (case (hm_get buffers i, fragments i es) of
       (None, []) \<Rightarrow> None
     | (None, f # fs) \<Rightarrow> Some (first_name (tu_name f) fs, concat (map tu_input (f # fs)))
     | (Some (n, inp), fs) \<Rightarrow> Some (first_name n fs, inp @ concat (map tu_input fs)))"
  using assms
proof (induction es arbitrary: buffers)
  case Nil
  then show ?case by (auto simp: push_fragments_def fragments_def split: option.splits)
next
  case (Cons e es)
  let ?b = "fst (accumulator_push sd e m buffers)"
  have IH: "hm_get (push_fragments sd m (e # es) buffers) i =
    (case (hm_get ?b i, fragments i es) of
       (None, []) \<Rightarrow> None
     | (None, f # fs) \<Rightarrow> Some (first_name (tu_name f) fs, concat (map tu_input (f # fs)))
     | (Some (n, inp), fs) \<Rightarrow> Some (first_name n fs, inp @ concat (map tu_input fs)))"
    using Cons.IH [of ?b] Cons.prems by (simp add: push_fragments_def)
  show ?case
  proof (cases "tool_use_id e = i")
    case False
    then show ?thesis using IH push_fragments_other [OF False] by (simp add: fragments_def)
  next
    case True
    with Cons.prems have "\<not> tu_stop e" by simp
    with True have "hm_get ?b i = hm_get (add_fragment e buffers) i" by (simp add: get_push)
    then show ?thesis unfolding IH using True
      by (auto simp: fragments_def get_add_fragment first_name_cons split: option.splits)
  qed
qed

text \<open>C37: The input a completed tool call carries is the parse of the concatenation of exactly its own
  fragments in the order of arrival, whatever fragments of other calls, finished ones included, came
  between them; a call whose joined input is blank gets the empty object; a parse error names the
  call; and after it the call's buffer is gone and the other buffers are as they were.\<close>

theorem tool_call_reassembled:
  assumes others: "\<forall>f \<in> set es. tool_use_id f = tool_use_id e \<longrightarrow> \<not> tu_stop f"
    and last: "tu_stop e" and fresh: "hm_get buffers (tool_use_id e) = None"
    and acc: "accumulator_push sd e m (push_fragments sd m es buffers) = (buffers', r)"
  defines "fs \<equiv> fragments (tool_use_id e) es @ [e]"
  shows "r = (case parse_input sd (tool_use_id e) (first_name [] fs) (concat (map tu_input fs)) of
      Inl err \<Rightarrow> Inl err
    | Inr input \<Rightarrow> Inr (Some \<lparr>ct_id = tool_use_id e,
        ct_name = fst (restore_tool_use_for_client (first_name [] fs) input m),
        ct_input = snd (restore_tool_use_for_client (first_name [] fs) input m)\<rparr>))
    \<and> hm_get buffers' (tool_use_id e) = None
    \<and> (\<forall>i. i \<noteq> tool_use_id e \<longrightarrow> hm_get buffers' i = hm_get (push_fragments sd m es buffers) i)"
proof -
  let ?i = "tool_use_id e"
  let ?b = "push_fragments sd m es buffers"
  have fn: "first_name n (xs @ [e]) = (if first_name n xs = [] then tu_name e else first_name n xs)" for n xs
    by (induction xs arbitrary: n) auto
  have g: "hm_get ?b ?i = (case fragments ?i es of [] \<Rightarrow> None
      | f # fs \<Rightarrow> Some (first_name (tu_name f) fs, concat (map tu_input (f # fs))))"
    using push_fragments_get [OF others, of sd m buffers] fresh by (simp split: list.split)
  have "hm_get (add_fragment e ?b) ?i = Some (first_name [] fs, concat (map tu_input fs))"
    by (auto simp: get_add_fragment g fs_def fn split: list.split)
  then have r: "(buffers', r) = (hm_remove ?i (add_fragment e ?b),
      case parse_input sd ?i (first_name [] fs) (concat (map tu_input fs)) of
        Inl err \<Rightarrow> Inl err
      | Inr input \<Rightarrow> Inr (Some \<lparr>ct_id = ?i,
          ct_name = fst (restore_tool_use_for_client (first_name [] fs) input m),
          ct_input = snd (restore_tool_use_for_client (first_name [] fs) input m)\<rparr>))"
    using acc last by (auto simp: accumulator_push_def case_prod_unfold split: sum.splits)
  then show ?thesis by (simp add: hm_simps get_add_fragment)
qed

definition fragment :: "string \<Rightarrow> string \<Rightarrow> bool \<Rightarrow> tool_use_event" where
  "fragment i inp st = \<lparr>tu_name = ''Bash'', tool_use_id = i, tu_input = inp, tu_stop = st\<rparr>"

theorem tool_call_reassembled_witness:
  "\<exists>b. accumulator_push \<lparr>from_str = (\<lambda>s. Inr (JStr s)), to_str = (\<lambda>_. [])\<rparr> (fragment ''a'' ''2}'' True) (hm_empty (\<lambda>_ _. 0))
      (push_fragments \<lparr>from_str = (\<lambda>s. Inr (JStr s)), to_str = (\<lambda>_. [])\<rparr> (hm_empty (\<lambda>_ _. 0))
         [fragment ''a'' ''{1'' False, fragment ''b'' ''x'' True] (hm_empty (\<lambda>_ _. 0)))
    = (b, Inr (Some \<lparr>ct_id = ''a'', ct_name = ''Bash'', ct_input = JStr ''{12}''\<rparr>))"
proof -
  let ?sd = "\<lparr>from_str = (\<lambda>s. Inr (JStr s)), to_str = (\<lambda>_. [])\<rparr>"
  let ?es = "[fragment ''a'' ''{1'' False, fragment ''b'' ''x'' True]"
  let ?e = "fragment ''a'' ''2}'' True"
  obtain b x where bx: "accumulator_push ?sd ?e (hm_empty (\<lambda>_ _. 0)) (push_fragments ?sd (hm_empty (\<lambda>_ _. 0)) ?es (hm_empty (\<lambda>_ _. 0))) = (b, x)"
    by (cases "accumulator_push ?sd ?e (hm_empty (\<lambda>_ _. 0)) (push_fragments ?sd (hm_empty (\<lambda>_ _. 0)) ?es (hm_empty (\<lambda>_ _. 0)))") auto
  have nb: "\<not> is_blank ''{12}''" by code_simp
  have "x = Inr (Some \<lparr>ct_id = ''a'', ct_name = ''Bash'', ct_input = JStr ''{12}''\<rparr>)"
    using tool_call_reassembled [OF _ _ _ bx] nb
    by (simp add: fragment_def hm_simps fragments_def parse_input_def restore_tool_use_for_client_def
        map_tool_input_from_kiro_def claude_code_tool_name_to_kiro_def)
  with bx show ?thesis by blast
qed

subsection \<open>The end of the stream\<close>

lemma blank_keys:
  assumes "hm_wf buffers"
  shows "i \<in> set (map fst (filter (\<lambda>e. is_blank (snd (snd e))) (hm_iter buffers)))
    \<longleftrightarrow> (\<exists>b. hm_get buffers i = Some b \<and> is_blank (snd b))"
proof -
  have "i \<in> set (map fst (filter (\<lambda>e. is_blank (snd (snd e))) (hm_iter buffers)))
      \<longleftrightarrow> (\<exists>b. (i, b) \<in> set (hm_iter buffers) \<and> is_blank (snd b))" by (auto simp only: set_map set_filter image_iff) auto
  then show ?thesis by (simp only: hm_iter_get [OF assms])
qed

definition drop_blank :: "tool_buffers \<Rightarrow> tool_buffers" where
  "drop_blank buffers = fold hm_remove (map fst (filter (\<lambda>e. is_blank (snd (snd e))) (hm_iter buffers))) buffers"

lemma wf_drop_blank: "hm_wf buffers \<Longrightarrow> hm_wf (drop_blank buffers)"
  unfolding drop_blank_def by (rule hm.kv_del_all)

lemma get_drop_blank:
  assumes wf: "hm_wf buffers"
  shows "hm_get (drop_blank buffers) i =
    (case hm_get buffers i of Some b \<Rightarrow> if is_blank (snd b) then None else Some b | None \<Rightarrow> None)"
  unfolding drop_blank_def hm.kv_get_del_all blank_keys [OF wf] by (cases "hm_get buffers i") simp_all

text \<open>The end of the stream: either every buffer is blank, and then each of them is completed as a call with
  an empty input, once, and no buffer is left; or one is not, and then the result is an error that
  names an unfinished call with the longest input.\<close>

theorem accumulator_finish_spec:
  assumes wf: "hm_wf buffers" and r: "accumulator_finish m buffers = (buffers', r)"
  shows "case r of
      Inr calls \<Rightarrow> (\<forall>i. hm_get buffers' i = None)
        \<and> (\<forall>i b. hm_get buffers i = Some b \<longrightarrow> is_blank (snd b))
        \<and> distinct (map ct_id calls) \<and> set (map ct_id calls) = {i. hm_get buffers i \<noteq> None}
    | Inl err \<Rightarrow> (\<exists>i n inp. err = IncompleteJson i n (length inp) \<and> hm_get buffers i = Some (n, inp) \<and> \<not> is_blank inp
        \<and> (\<forall>j b. hm_get buffers j = Some b \<and> \<not> is_blank (snd b) \<longrightarrow> length (snd b) \<le> length inp))"
proof -
  let ?E = "filter (\<lambda>e. is_blank (snd (snd e))) (hm_iter buffers)"
  let ?b1 = "drop_blank buffers"
  note wf1 = wf_drop_blank [OF wf] and get1 = get_drop_blank [OF wf]
  show ?thesis
  proof (cases "max_by_key (\<lambda>e. length (snd (snd e))) (hm_iter ?b1)")
    case None
    then have res: "buffers' = ?b1" "r = Inr (map (empty_call m) ?E)"
      using r by (simp_all add: accumulator_finish_def drop_blank_def Let_def)
    from None have none: "hm_get ?b1 i = None" for i using hm.kv_none [OF wf1] by simp
    then have blank: "hm_get buffers i = Some b \<Longrightarrow> is_blank (snd b)" for i b
      using get1 [of i] by (auto split: if_splits)
    have ids: "map ct_id (map (empty_call m) ?E) = map fst ?E"
      by (simp add: empty_call_def case_prod_unfold)
    have "set (map fst ?E) = {i. hm_get buffers i \<noteq> None}"
      using blank_keys [OF wf] blank by blast
    moreover have "distinct (map fst ?E)" using distinct_hm_iter [OF wf] by (simp add: distinct_map_filter)
    ultimately show ?thesis using none blank by (simp only: res ids sum.case) blast
  next
    case (Some e)
    obtain i n inp where e: "e = (i, n, inp)" by (cases e) auto
    have err: "r = Inl (IncompleteJson i n (length inp))"
      using r Some by (simp add: accumulator_finish_def drop_blank_def Let_def e)
    have "hm_get ?b1 i = Some (n, inp)"
      using max_by_key_in [OF Some] hm_iter_get [OF wf1] by (simp add: e)
    then have i: "hm_get buffers i = Some (n, inp)" "\<not> is_blank inp"
      using get1 [of i] by (auto split: option.splits if_splits)
    have "length (snd b) \<le> length inp" if "hm_get buffers j = Some b" "\<not> is_blank (snd b)" for j b
    proof -
      from that have "(j, b) \<in> set (hm_iter ?b1)" using hm_iter_get [OF wf1] get1 [of j] by simp
      from max_by_key_ge [OF Some this] show ?thesis by (simp add: e)
    qed
    with i show ?thesis by (auto simp: err)
  qed
qed

theorem accumulator_finish_spec_witness:
  "\<exists>b err. accumulator_finish (hm_empty (\<lambda>_ _. 0)) (hm_insert ''a'' (''Write'', ''{'') (hm_empty (\<lambda>_ _. 0))) = (b, Inl err)
     \<and> err = IncompleteJson ''a'' ''Write'' 1"
proof -
  let ?bs = "hm_insert ''a'' (''Write'', ''{'') (hm_empty (\<lambda>_ _. 0))"
  obtain b x where bx: "accumulator_finish (hm_empty (\<lambda>_ _. 0)) ?bs = (b, x)" by (cases "accumulator_finish (hm_empty (\<lambda>_ _. 0)) ?bs") auto
  have wf: "hm_wf ?bs" by (simp add: hm_simps)
  have nb: "\<not> is_blank ''{''" by code_simp
  have g: "hm_get ?bs i = Some v \<longleftrightarrow> i = ''a'' \<and> v = (''Write'', ''{'')" for i v by (auto simp: hm_simps)
  from accumulator_finish_spec [OF wf bx] nb have "x = Inl (IncompleteJson ''a'' ''Write'' 1)"
    by (cases x) (auto simp: g)
  with bx show ?thesis by blast
qed

end
