(* ===== verification/Tool_Xml_Filter.thy ===== *)
theory Tool_Xml_Filter imports Events begin

section \<open>Tool markup in a text stream (src/src/anthropic/stream.rs, ToolUseXmlLeakFilter)\<close>

text \<open>
  The filter that removes leaked \<open><tool_use ...>...</tool_use>\<close> elements from a stream of text
  chunks: its buffer holds back a suffix that may be the start of an opening tag, and \<open>stripping\<close>
  says that an element is open whose closing tag has not arrived. The loop of \<open>filter\<close> is a
  recursion on the rest of the text, which every iteration shortens.
\<close>

definition TOOL_USE_XML_PREFIX :: string where
  "TOOL_USE_XML_PREFIX = ''<tool_use''"

definition TOOL_USE_XML_CLOSE :: string where
  "TOOL_USE_XML_CLOSE = ''</tool_use>''"

record leak_filter =
  lf_buffer :: string
  lf_stripping :: bool

definition leak_filter_default :: leak_filter where
  "leak_filter_default = \<lparr>lf_buffer = [], lf_stripping = False\<rparr>"

definition is_potential_tool_use_tag_start :: "string \<Rightarrow> bool" where
  "is_potential_tool_use_tag_start s =
     (starts_with TOOL_USE_XML_PREFIX s \<or> is_tool_use_tag_head s)"

definition longest_tool_use_prefix_suffix :: "string \<Rightarrow> nat" where
  "longest_tool_use_prefix_suffix s =
    (let m = min (length s) (length TOOL_USE_XML_PREFIX - 1) in
     case find (\<lambda>len. is_char_boundary s (length s - len) \<and>
                  starts_with TOOL_USE_XML_PREFIX (drop (length s - len) s)) (rev [1..<Suc m]) of
       Some len \<Rightarrow> len | None \<Rightarrow> 0)"

function filter_loop :: "bool \<Rightarrow> string \<Rightarrow> string \<Rightarrow> leak_filter \<times> string" where
  "filter_loop stripping rest out =
    (if stripping then
       (case find_sub rest TOOL_USE_XML_CLOSE of
          Some close_start \<Rightarrow> filter_loop False (drop (close_start + length TOOL_USE_XML_CLOSE) rest) out
        | None \<Rightarrow> (\<lparr>lf_buffer = [], lf_stripping = True\<rparr>, out))
     else
       (case find_sub rest TOOL_USE_XML_PREFIX of
          None \<Rightarrow>
            let emit_len = length rest - longest_tool_use_prefix_suffix rest
            in (\<lparr>lf_buffer = drop emit_len rest, lf_stripping = False\<rparr>, out @ take emit_len rest)
        | Some start \<Rightarrow>
            let out1 = out @ take start rest; after_start = drop start rest;
                out2 = out1 @ take (length TOOL_USE_XML_PREFIX) after_start;
                past_prefix = drop (length TOOL_USE_XML_PREFIX) after_start in
            (case find_sub after_start ''>'' of
               None \<Rightarrow>
                 if is_potential_tool_use_tag_start after_start
                 then (\<lparr>lf_buffer = [], lf_stripping = True\<rparr>, out1)
                 else filter_loop False past_prefix out2
             | Some open_end \<Rightarrow>
                 let tag_head = take open_end after_start in
                 if \<not> is_tool_use_tag_head tag_head then filter_loop False past_prefix out2
                 else let after_open = drop (open_end + 1) after_start in
                   (case find_sub after_open TOOL_USE_XML_CLOSE of
                      Some close_start \<Rightarrow>
                        filter_loop False (drop (close_start + length TOOL_USE_XML_CLOSE) after_open) out1
                    | None \<Rightarrow> (\<lparr>lf_buffer = [], lf_stripping = True\<rparr>, out1)))))"
  by pat_completeness auto
termination
proof (relation "measure (\<lambda>(stripping, rest, out). length rest)", goal_cases)
  case 1
  show ?case by simp
qed (auto simp: TOOL_USE_XML_PREFIX_def TOOL_USE_XML_CLOSE_def dest!: find_sub_Some)

declare filter_loop.simps [simp del]

definition leak_filter_step :: "leak_filter \<Rightarrow> string \<Rightarrow> leak_filter \<times> string" where
  "leak_filter_step f content = filter_loop (lf_stripping f) (lf_buffer f @ content) []"

definition leak_filter_finish :: "leak_filter \<Rightarrow> leak_filter \<times> string" where
  "leak_filter_finish f =
    (\<lparr>lf_buffer = [], lf_stripping = False\<rparr>,
     if lf_buffer f = [] then [] else strip_tool_use_xml_leaks (lf_buffer f))"

text \<open>A whole stream: all chunks, then \<open>finish\<close>.\<close>

definition filter_stream :: "string list \<Rightarrow> string" where
  "filter_stream chunks =
    (case run leak_filter_step leak_filter_default chunks of
       (f, out) \<Rightarrow> out @ snd (leak_filter_finish f))"

subsection \<open>Text without an opening tag\<close>

lemma find_sub_None_iff: "p \<noteq> [] \<Longrightarrow> find_sub s p = None \<longleftrightarrow> \<not> (\<exists>a b. s = a @ p @ b)"
proof
  assume "p \<noteq> []" and "find_sub s p = None"
  then show "\<not> (\<exists>a b. s = a @ p @ b)"
    using find_sub_None [of s p] by (metis append_eq_conv_conj starts_with_iff)
next
  assume n: "\<not> (\<exists>a b. s = a @ p @ b)"
  show "find_sub s p = None"
  proof (rule ccontr)
    assume "find_sub s p \<noteq> None"
    then obtain i where "find_sub s p = Some i" by blast
    then have "starts_with (drop i s) p" by (auto dest: find_sub_Some)
    then obtain t where "drop i s = p @ t" by (auto simp: starts_with_iff)
    then have "s = take i s @ p @ t" by (metis append_take_drop_id)
    with n show False by blast
  qed
qed

lemma find_sub_None_infix: "find_sub (a @ s @ b) p = None \<Longrightarrow> p \<noteq> [] \<Longrightarrow> find_sub s p = None"
proof -
  assume n: "find_sub (a @ s @ b) p = None" and p: "p \<noteq> []"
  from n find_sub_None_iff [OF p, of "a @ s @ b"] have "\<nexists>x y. a @ s @ b = x @ p @ y" by blast
  then have "\<nexists>x y. s = x @ p @ y" by (metis append.assoc)
  with find_sub_None_iff [OF p, of s] show ?thesis by blast
qed

text \<open>What is held back is the end of the text and a proper prefix of the opening tag.\<close>

definition held_back :: "string \<Rightarrow> bool" where
  "held_back b \<longleftrightarrow> starts_with TOOL_USE_XML_PREFIX b \<and> length b < length TOOL_USE_XML_PREFIX"

lemma held_back_drop: "held_back (drop (length s - longest_tool_use_prefix_suffix s) s)"
proof (cases "longest_tool_use_prefix_suffix s = 0")
  case True
  then show ?thesis by (simp add: held_back_def TOOL_USE_XML_PREFIX_def)
next
  case False
  let ?n = "longest_tool_use_prefix_suffix s"
  from False have "?n \<in> set (rev [1..<Suc (min (length s) (length TOOL_USE_XML_PREFIX - 1))])"
    and "starts_with TOOL_USE_XML_PREFIX (drop (length s - ?n) s)"
    by (auto simp: longest_tool_use_prefix_suffix_def Let_def simp del: upt_Suc split: option.splits dest!: find_Some_in)
  then show ?thesis by (auto simp: held_back_def TOOL_USE_XML_PREFIX_def)
qed

lemma held_back_trim:
  assumes "held_back b"
  shows "strip_tool_use_xml_leaks b = b"
proof -
  have l: "length b \<le> 8" and b: "b = take (length b) ''<tool_use''"
    using assms starts_with_take [of "''<tool_use''" b] by (auto simp: held_back_def TOOL_USE_XML_PREFIX_def)
  from l have "length b = 0 \<or> length b = 1 \<or> length b = 2 \<or> length b = 3 \<or> length b = 4
      \<or> length b = 5 \<or> length b = 6 \<or> length b = 7 \<or> length b = 8" by linarith
  then have "b = [] \<or> b = ''<'' \<or> b = ''<t'' \<or> b = ''<to'' \<or> b = ''<too'' \<or> b = ''<tool''
      \<or> b = ''<tool_'' \<or> b = ''<tool_u'' \<or> b = ''<tool_us''"
    using b by (elim disjE) simp_all
  then have n: "find_sub b ''<tool_use'' = None" and w: "\<not> starts_with_whitespace b" and e: "last_ws b = None"
    by (elim disjE; simp add: starts_with_whitespace_def last_ws_def utf8_step.simps byte_of_def is_whitespace_def)+
  from w have "trim_start b = b" by (subst trim_start.simps) simp
  moreover from e have "trim_end b = b" by (subst trim_end.simps) simp
  ultimately show ?thesis using n by (simp add: strip_no_tag trim_def)
qed

lemma filter_step_clean:
  assumes "lf_stripping f = False" and "find_sub (lf_buffer f @ c) TOOL_USE_XML_PREFIX = None"
  obtains f' out where "leak_filter_step f c = (f', out)" and "lf_stripping f' = False"
    and "held_back (lf_buffer f')" and "lf_buffer f @ c = out @ lf_buffer f'"
proof (rule that)
  let ?s = "lf_buffer f @ c"
  let ?n = "length ?s - longest_tool_use_prefix_suffix ?s"
  show "leak_filter_step f c = (\<lparr>lf_buffer = drop ?n ?s, lf_stripping = False\<rparr>, take ?n ?s)"
    using assms by (simp add: leak_filter_step_def filter_loop.simps [of False ?s] Let_def)
  show "held_back (lf_buffer \<lparr>lf_buffer = drop ?n ?s, lf_stripping = False\<rparr>)"
    using held_back_drop [of ?s] by simp
  show "?s = take ?n ?s @ lf_buffer \<lparr>lf_buffer = drop ?n ?s, lf_stripping = False\<rparr>"
    by (simp only: leak_filter.simps append_take_drop_id)
qed simp

lemma run_filter_clean:
  assumes "lf_stripping f = False" and "held_back (lf_buffer f)"
    and "find_sub (lf_buffer f @ concat cs) TOOL_USE_XML_PREFIX = None"
  shows "\<exists>f' out. run leak_filter_step f cs = (f', out) \<and> held_back (lf_buffer f')
    \<and> lf_buffer f @ concat cs = out @ lf_buffer f'"
  using assms
proof (induction cs arbitrary: f)
  case (Cons c cs)
  have "find_sub (lf_buffer f @ c) TOOL_USE_XML_PREFIX = None"
    using find_sub_None_infix [of "[]" "lf_buffer f @ c" "concat cs"] Cons.prems(3)
    by (simp add: TOOL_USE_XML_PREFIX_def)
  then obtain f1 out1 where s: "leak_filter_step f c = (f1, out1)" and f1: "lf_stripping f1 = False"
    "held_back (lf_buffer f1)" and o: "lf_buffer f @ c = out1 @ lf_buffer f1"
    by (rule filter_step_clean [OF Cons.prems(1)])
  have e: "lf_buffer f @ concat (c # cs) = out1 @ (lf_buffer f1 @ concat cs)"
    using o by (metis append.assoc concat.simps(2))
  with Cons.prems(3) have "find_sub (lf_buffer f1 @ concat cs) TOOL_USE_XML_PREFIX = None"
    using find_sub_None_infix [of out1 "lf_buffer f1 @ concat cs" "[]"]
    by (simp only: e append_Nil2) (simp add: TOOL_USE_XML_PREFIX_def)
  from Cons.IH [OF f1 this] obtain f' out where "run leak_filter_step f1 cs = (f', out)"
    and "held_back (lf_buffer f')" and "lf_buffer f1 @ concat cs = out @ lf_buffer f'" by blast
  with s e show ?case by auto
qed (auto simp: held_back_def)

lemma filter_clean:
  assumes "find_sub (concat chunks) ''<tool_use'' = None"
  shows "filter_stream chunks = concat chunks"
proof -
  have "held_back []" by (simp add: held_back_def TOOL_USE_XML_PREFIX_def)
  with assms run_filter_clean [of leak_filter_default chunks]
  obtain f' out where "run leak_filter_step leak_filter_default chunks = (f', out)"
    and "held_back (lf_buffer f')" and "concat chunks = out @ lf_buffer f'"
    by (auto simp: leak_filter_default_def TOOL_USE_XML_PREFIX_def)
  then show ?thesis
    by (simp add: filter_stream_def leak_filter_finish_def held_back_trim)
qed

text \<open>A text that holds no opening tool tag reaches the client byte for byte, in order and completely,
  however the upstream cut it into chunks: nothing that was held back as a possible tag is lost.\<close>

theorem clean_text_unchanged:
  assumes "find_sub (concat chunks) ''<tool_use'' = None"
  shows "filter_stream chunks = concat chunks"
  using assms by (rule filter_clean)

theorem clean_text_unchanged_witness:
  "filter_stream [''a <too'', ''l> b <'', ''tool_us''] = ''a <tool> b <tool_us''"
  using clean_text_unchanged [of "[''a <too'', ''l> b <'', ''tool_us'']"] by simp

subsection \<open>Elements\<close>

lemma filter_loop_out:
  "filter_loop st rest (o1 @ out) = (case filter_loop st rest out of (f, out') \<Rightarrow> (f, o1 @ out'))"
proof (induction st rest out rule: filter_loop.induct)
  case (1 stripping rest out)
  show ?case
    by (subst (1 2) filter_loop.simps) (use 1 in \<open>auto simp: Let_def split: option.splits\<close>)
qed

text \<open>A leaked element that arrives whole in a chunk is removed and nothing else: the text in front of it
  is passed on and the text behind it is filtered as if it had come alone.\<close>

theorem leaked_element_removed:
  assumes pre: "find_sub pre ''<tool_use'' = None"
    and attrs: "attrs = [] \<or> starts_with_whitespace attrs" "CHR ''>'' \<notin> set attrs"
    and body: "find_sub body ''</tool_use>'' = None"
  shows "leak_filter_step leak_filter_default
      (pre @ ''<tool_use'' @ attrs @ ''>'' @ body @ ''</tool_use>'' @ post)
    = (fst (leak_filter_step leak_filter_default post), pre @ snd (leak_filter_step leak_filter_default post))"
proof -
  let ?tail = "attrs @ ''>'' @ body @ ''</tool_use>'' @ post"
  let ?close = "body @ ''</tool_use>'' @ post"
  have s: "find_sub (pre @ ''<tool_use'' @ ?tail) ''<tool_use'' = Some (length pre)"
    by (rule find_sub_append [OF pre]) simp
  have o: "find_sub (''<tool_use'' @ ?tail) ''>'' = Some (9 + length attrs)"
    using find_sub_single [of "CHR ''>''" "''<tool_use'' @ attrs" ?close] attrs(2) by simp
  have h: "is_tool_use_tag_head (''<tool_use'' @ attrs)"
    using attrs(1) by (auto simp: is_tool_use_tag_head_def)
  have c: "find_sub ?close ''</tool_use>'' = Some (length body)"
    by (rule find_sub_append [OF body]) simp
  have "filter_loop False (pre @ ''<tool_use'' @ ?tail) [] = filter_loop False post pre"
    using s o h c
    by (subst filter_loop.simps) (simp add: Let_def TOOL_USE_XML_PREFIX_def TOOL_USE_XML_CLOSE_def)
  then show ?thesis
    using filter_loop_out [of False post pre "[]"]
    by (simp add: leak_filter_step_def leak_filter_default_def case_prod_unfold)
qed

theorem leaked_element_removed_witness:
  "snd (leak_filter_step leak_filter_default
      (''a '' @ ''<tool_use'' @ '' n=1'' @ ''>'' @ ''{}'' @ ''</tool_use>'' @ '' b'')) = ''a  b''"
  by (subst leaked_element_removed)
    (simp_all add: starts_with_whitespace_def utf8_step.simps byte_of_def is_whitespace_def
      leak_filter_step_def leak_filter_default_def filter_loop.simps TOOL_USE_XML_PREFIX_def
      longest_tool_use_prefix_suffix_def is_char_boundary_def is_cont_def numeral_eq_Suc)

text \<open>Once an element is open across chunks, its end is only recognised in one piece: chunks none of
  which holds the whole closing tag are swallowed to the last byte, and nothing comes out at the end,
  even when their concatenation holds the closing tag and an answer behind it.\<close>

theorem open_element_swallows:
  assumes "lf_stripping f" and "lf_buffer f = []" and "\<forall>c \<in> set chunks. find_sub c ''</tool_use>'' = None"
  shows "run leak_filter_step f chunks = (\<lparr>lf_buffer = [], lf_stripping = True\<rparr>, [])
    \<and> snd (leak_filter_finish (fst (run leak_filter_step f chunks))) = []"
proof -
  have f: "f = \<lparr>lf_buffer = [], lf_stripping = True\<rparr>" using assms(1,2) by (cases f) simp
  have "run leak_filter_step f chunks = (\<lparr>lf_buffer = [], lf_stripping = True\<rparr>, [])"
    using assms(3) unfolding f
    by (induction chunks)
      (auto simp: leak_filter_step_def filter_loop.simps [of True] TOOL_USE_XML_CLOSE_def)
  then show ?thesis by (simp add: leak_filter_finish_def)
qed

theorem open_element_swallows_witness:
  "find_sub (concat [''</tool'', ''_use>the answer'']) ''</tool_use>'' = Some 0
   \<and> snd (run leak_filter_step \<lparr>lf_buffer = [], lf_stripping = True\<rparr> [''</tool'', ''_use>the answer'']) = []"
  using open_element_swallows [of "\<lparr>lf_buffer = [], lf_stripping = True\<rparr>" "[''</tool'', ''_use>the answer'']"] by simp

text \<open>
  A chunk that ends right behind \<open><tool_use\<close> opens an element although the tag goes on as another
  one: the text \<open><tool_use_id>\<close> passes in one chunk and is swallowed when it is cut there.
\<close>

lemma split_tag_name_swallowed:
  "filter_stream [''<tool_use_id> x''] = ''<tool_use_id> x''"
  "filter_stream [''<tool_use'', ''_id> x''] = []"
  by code_simp+

end
