(* ===== verification/Thinking_Tags.thy ===== *)
theory Thinking_Tags imports Text begin

section \<open>Thinking tags in text (src/src/anthropic/stream.rs)\<close>

text \<open>
  The search for the tags \<open><thinking>\<close> and \<open></thinking>\<close> that are not quoted, the character
  boundaries at which a stream's buffer is cut, and the extraction of the thinking part of a complete
  text. The three searches of the program differ in the tag and in what they ask of the text behind
  it; their loop is \<open>find_unquoted\<close> with both as arguments.
\<close>

fun find_char_boundary_down :: "string \<Rightarrow> nat \<Rightarrow> nat" where
  "find_char_boundary_down s 0 = 0"
| "find_char_boundary_down s (Suc pos) =
     (if is_char_boundary s (Suc pos) then Suc pos else find_char_boundary_down s pos)"

definition find_char_boundary :: "string \<Rightarrow> nat \<Rightarrow> nat" where
  "find_char_boundary s target =
     (if length s \<le> target then length s else if target = 0 then 0 else find_char_boundary_down s target)"

definition QUOTE_CHARS :: string where
  "QUOTE_CHARS = [CHR 0x60, CHR 0x22, CHR 0x27, CHR 0x5C, CHR ''#'', CHR ''!'', CHR ''@'', CHR ''$'',
     CHR ''%'', CHR ''^'', CHR ''&'', CHR ''*'', CHR ''('', CHR '')'', CHR ''-'', CHR ''_'', CHR ''='',
     CHR ''+'', CHR ''['', CHR '']'', CHR ''{'', CHR ''}'', CHR '';'', CHR '':'', CHR ''<'', CHR ''>'',
     CHR '','', CHR ''.'', CHR ''?'', CHR ''/'']"

definition is_quote_char :: "string \<Rightarrow> nat \<Rightarrow> bool" where
  "is_quote_char buffer pos = (if pos < length buffer then buffer ! pos \<in> set QUOTE_CHARS else False)"

subsection \<open>The search\<close>

definition thinking_tag :: "bool \<Rightarrow> string" where
  "thinking_tag closing = (if closing then ''</thinking>'' else ''<thinking>'')"

definition quoted_tag :: "bool \<Rightarrow> string \<Rightarrow> nat \<Rightarrow> bool" where
  "quoted_tag closing buffer pos =
     ((0 < pos \<and> is_quote_char buffer (pos - 1)) \<or> is_quote_char buffer (pos + length (thinking_tag closing)))"

function find_unquoted :: "bool \<Rightarrow> (string \<Rightarrow> bool) \<Rightarrow> string \<Rightarrow> nat \<Rightarrow> nat option" where
  "find_unquoted closing ok buffer search_start =
    (case find_sub (drop search_start buffer) (thinking_tag closing) of
       None \<Rightarrow> None
     | Some pos \<Rightarrow>
         let absolute_pos = search_start + pos;
             after_pos = absolute_pos + length (thinking_tag closing) in
         if quoted_tag closing buffer absolute_pos then find_unquoted closing ok buffer (absolute_pos + 1)
         else if ok (drop after_pos buffer) then Some absolute_pos
         else find_unquoted closing ok buffer (absolute_pos + 1))"
  by pat_completeness auto
termination
proof (relation "measure (\<lambda>(closing, ok, buffer, s). length buffer - s)", goal_cases)
  case 1
  show ?case by simp
qed (auto simp: thinking_tag_def split: if_splits dest!: find_sub_length)

declare find_unquoted.simps [simp del]

definition find_real_thinking_start_tag :: "string \<Rightarrow> nat option" where
  "find_real_thinking_start_tag buffer = find_unquoted False (\<lambda>_. True) buffer 0"

definition find_real_thinking_end_tag_at_buffer_end :: "string \<Rightarrow> nat option" where
  "find_real_thinking_end_tag_at_buffer_end buffer = find_unquoted True (\<lambda>after. is_blank after) buffer 0"

definition find_real_thinking_end_tag_with_boundary :: "string \<Rightarrow> (nat \<times> nat) option" where
  "find_real_thinking_end_tag_with_boundary buffer =
    map_option (\<lambda>absolute_pos.
      let after_pos = absolute_pos + length ''</thinking>''; after_content = drop after_pos buffer in
      if after_content = [] then (absolute_pos, after_pos)
      else if is_blank after_content then (absolute_pos, length buffer)
      else if starts_with after_content [CHR 0x0D, CHR 0x0A, CHR 0x0D, CHR 0x0A] then (absolute_pos, after_pos + 4)
      else if starts_with after_content [CHR 0x0A, CHR 0x0A] then (absolute_pos, after_pos + 2)
      else if starts_with after_content [CHR 0x0D, CHR 0x0A] then (absolute_pos, after_pos + 2)
      else if starts_with after_content [CHR 0x0A] then (absolute_pos, after_pos + 1)
      else (absolute_pos, after_pos))
    (find_unquoted True (\<lambda>_. True) buffer 0)"

definition strip_newline :: "string \<Rightarrow> string" where
  "strip_newline s = (if starts_with s [CHR 0x0A] then drop 1 s else s)"

definition extract_thinking_from_complete_text :: "string \<Rightarrow> string option \<times> string" where
  "extract_thinking_from_complete_text txt =
    (case find_real_thinking_start_tag txt of
       None \<Rightarrow> (None, txt)
     | Some start_pos \<Rightarrow>
         let before = take start_pos txt; after_open = drop (start_pos + length ''<thinking>'') txt in
         (case (case find_real_thinking_end_tag_with_boundary after_open of
                  Some (end_pos, after_tag) \<Rightarrow> Some (take end_pos after_open, drop after_tag after_open)
                | None \<Rightarrow>
                    (case find_real_thinking_end_tag_at_buffer_end after_open of
                       Some end_pos \<Rightarrow> Some (take end_pos after_open,
                         trim_start (drop (end_pos + length ''</thinking>'') after_open))
                     | None \<Rightarrow> None)) of
            None \<Rightarrow> (None, txt)
          | Some (thinking_raw, text_after) \<Rightarrow>
              let thinking_content = strip_newline thinking_raw;
                  remaining = (if is_blank before then [] else before) @ text_after in
              (if thinking_content = [] then None else Some thinking_content, remaining)))"

subsection \<open>Character boundaries\<close>

lemma find_char_boundary_down:
  "find_char_boundary_down s n \<le> n \<and> is_char_boundary s (find_char_boundary_down s n)
   \<and> (\<forall>i \<le> n. is_char_boundary s i \<longrightarrow> i \<le> find_char_boundary_down s n)"
  by (induction n) (auto simp: is_char_boundary_def le_Suc_eq)

text \<open>The cut position computed for a target offset is a character boundary of the text, at most the
  target and the text's length, and the last such boundary; so cutting there never panics and holds
  back fewer bytes than a character has.\<close>

theorem find_char_boundary_spec:
  "is_char_boundary s (find_char_boundary s target) \<and> find_char_boundary s target \<le> min target (length s)
   \<and> {i. is_char_boundary s i \<and> i \<le> target} \<subseteq> {..find_char_boundary s target}"
  using find_char_boundary_down [of s target]
  by (auto simp: find_char_boundary_def is_char_boundary_def)

subsection \<open>What the search finds\<close>

definition real_tag :: "bool \<Rightarrow> (string \<Rightarrow> bool) \<Rightarrow> string \<Rightarrow> nat \<Rightarrow> bool" where
  "real_tag closing ok buffer p \<longleftrightarrow> starts_with (drop p buffer) (thinking_tag closing)
     \<and> \<not> quoted_tag closing buffer p \<and> ok (drop (p + length (thinking_tag closing)) buffer)"

lemma thinking_tag_nonempty [simp]: "thinking_tag closing \<noteq> []"
  by (simp add: thinking_tag_def)

lemma find_unquoted_spec:
  "case find_unquoted closing ok buffer s of
     Some p \<Rightarrow> s \<le> p \<and> real_tag closing ok buffer p \<and> (\<forall>q. s \<le> q \<and> q < p \<longrightarrow> \<not> real_tag closing ok buffer q)
   | None \<Rightarrow> \<forall>q \<ge> s. \<not> real_tag closing ok buffer q"
proof (induction closing ok buffer s rule: find_unquoted.induct)
  case (1 closing ok buffer s)
  let ?f = "find_sub (drop s buffer) (thinking_tag closing)"
  show ?case
  proof (cases ?f)
    case None
    have "\<not> starts_with (drop q buffer) (thinking_tag closing)" if "s \<le> q" for q
      using find_sub_None [OF None, of "q - s"] that by simp
    with None show ?thesis by (simp add: find_unquoted.simps [of closing ok buffer s] real_tag_def)
  next
    case (Some pos)
    let ?p = "s + pos"
    have at: "starts_with (drop ?p buffer) (thinking_tag closing)"
      using find_sub_Some [OF Some] by (simp add: add.commute)
    have before: "\<not> real_tag closing ok buffer q" if "s \<le> q" "q < ?p" for q
      using find_sub_first [OF Some, of "q - s"] that by (simp add: real_tag_def)
    show ?thesis
    proof (cases "real_tag closing ok buffer ?p")
      case True
      then have "find_unquoted closing ok buffer s = Some ?p"
        using Some by (simp add: find_unquoted.simps [of closing ok buffer s] real_tag_def Let_def add.commute)
      with True before show ?thesis by auto
    next
      case False
      then have e: "find_unquoted closing ok buffer s = find_unquoted closing ok buffer (?p + 1)"
        using Some at by (auto simp: find_unquoted.simps [of closing ok buffer s] real_tag_def Let_def add.commute)
      have IH: "case find_unquoted closing ok buffer (?p + 1) of
          Some p \<Rightarrow> ?p + 1 \<le> p \<and> real_tag closing ok buffer p \<and> (\<forall>q. ?p + 1 \<le> q \<and> q < p \<longrightarrow> \<not> real_tag closing ok buffer q)
        | None \<Rightarrow> \<forall>q \<ge> ?p + 1. \<not> real_tag closing ok buffer q"
        using "1.IH" [OF Some refl refl] False at by (auto simp: real_tag_def)
      have skip: "\<not> real_tag closing ok buffer q" if "s \<le> q" "q < ?p + 1" for q
        using before [OF that(1)] that False by (cases "q = ?p") auto
      show ?thesis
        unfolding e using IH skip by (auto split: option.splits) (meson not_less_eq_eq not_less)+
    qed
  qed
qed

text \<open>The start tag found is a tag that no quote character touches, it is the first such tag, and when
  none is found there is none; quoted tags in front of it, however many, do not stop the search.\<close>

theorem start_tag_found:
  "find_real_thinking_start_tag buffer = Some p \<longleftrightarrow>
     real_tag False (\<lambda>_. True) buffer p \<and> {q. q < p \<and> real_tag False (\<lambda>_. True) buffer q} = {}"
proof
  assume "find_real_thinking_start_tag buffer = Some p"
  then show "real_tag False (\<lambda>_. True) buffer p \<and> {q. q < p \<and> real_tag False (\<lambda>_. True) buffer q} = {}"
    using find_unquoted_spec [where closing = False and ok = "\<lambda>_. True" and buffer = buffer and s = 0] by (simp add: find_real_thinking_start_tag_def)
next
  assume p: "real_tag False (\<lambda>_. True) buffer p \<and> {q. q < p \<and> real_tag False (\<lambda>_. True) buffer q} = {}"
  show "find_real_thinking_start_tag buffer = Some p"
  proof (cases "find_unquoted False (\<lambda>_. True) buffer 0")
    case None
    with p find_unquoted_spec [where closing = False and ok = "\<lambda>_. True" and buffer = buffer and s = 0] show ?thesis by simp
  next
    case (Some q)
    with p find_unquoted_spec [where closing = False and ok = "\<lambda>_. True" and buffer = buffer and s = 0] have "q = p"
      by (auto, metis (no_types, lifting) linorder_cases)
    with Some show ?thesis by (simp add: find_real_thinking_start_tag_def)
  qed
qed

text \<open>
  The search for an end tag accepts any unquoted tag, so whenever it fails, the one that also asks
  for white space up to the end of the buffer fails, too.
\<close>

lemma end_tag_at_buffer_end_subsumed:
  assumes "find_real_thinking_end_tag_with_boundary buffer = None"
  shows "find_real_thinking_end_tag_at_buffer_end buffer = None"
proof -
  from assms have "find_unquoted True (\<lambda>_. True) buffer 0 = None"
    by (simp add: find_real_thinking_end_tag_with_boundary_def)
  with find_unquoted_spec [where closing = True and ok = "\<lambda>_. True" and buffer = buffer and s = 0] have "\<And>q. \<not> real_tag True (\<lambda>_. True) buffer q" by simp
  then have "\<And>q. \<not> real_tag True (\<lambda>after. is_blank after) buffer q" by (simp add: real_tag_def)
  then show ?thesis
    using find_unquoted_spec [where closing = True and ok = "\<lambda>after. is_blank after" and buffer = buffer and s = 0]
    by (auto simp: find_real_thinking_end_tag_at_buffer_end_def split: option.splits)
qed

subsection \<open>Extraction\<close>

abbreviation nl :: char where
  "nl \<equiv> CHR 0x0A"

text \<open>A complete text of the form the model writes, the thinking between its tags, each followed by a line
  break, and the answer behind an empty line, is split into exactly the thinking and the answer: the
  thinking keeps everything, quoted tags apart from the closing one included, and the line breaks that
  belong to the tags disappear.\<close>

theorem extract_thinking_split:
  assumes body: "find_sub body ''</thinking>'' = None" "body \<noteq> []" "last body \<notin> set QUOTE_CHARS"
    and rest: "\<not> is_blank ([nl, nl] @ rest)"
  shows "extract_thinking_from_complete_text (''<thinking>'' @ [nl] @ body @ ''</thinking>'' @ [nl, nl] @ rest)
    = (Some body, rest)"
proof -
  let ?open = "[nl] @ body @ ''</thinking>'' @ [nl, nl] @ rest"
  have s: "find_real_thinking_start_tag (''<thinking>'' @ ?open) = Some 0"
    by (simp add: find_real_thinking_start_tag_def find_unquoted.simps thinking_tag_def quoted_tag_def
        is_quote_char_def QUOTE_CHARS_def)
  have "find_sub ([nl] @ body) ''</thinking>'' = None" using body(1) by simp
  then have c: "find_sub (([nl] @ body) @ ''</thinking>'' @ [nl, nl] @ rest) ''</thinking>'' = Some (1 + length body)"
    using find_sub_append [of "[nl] @ body" "CHR ''<''" "''/thinking>''" "[nl, nl] @ rest"] by simp
  have l: "?open ! length body = last body"
    using body(2) by (auto simp: nth_Cons' last_conv_nth nth_append)
  have a: "?open ! (12 + length body) = nl" by (simp add: nth_append nth_Cons')
  have q: "\<not> quoted_tag True ?open (1 + length body)"
  proof -
    have n: "length (thinking_tag True) = 11" "nl \<notin> set QUOTE_CHARS"
      by (simp_all add: thinking_tag_def QUOTE_CHARS_def)
    have i: "1 + length body + 11 = 12 + length body" "1 + length body - 1 = length body" by simp_all
    show ?thesis unfolding quoted_tag_def is_quote_char_def n(1) i l a using n(2) body(3) by (simp del: append.simps)
  qed
  have f: "find_unquoted True (\<lambda>_. True) ?open 0 = Some (1 + length body)"
    using c q by (simp add: find_unquoted.simps thinking_tag_def Let_def)
  have e: "find_real_thinking_end_tag_with_boundary ?open = Some (1 + length body, 14 + length body)"
    unfolding find_real_thinking_end_tag_with_boundary_def f using rest by (simp add: Let_def)
  have "drop (14 + length body) ?open = drop 13 (drop (1 + length body) ?open)" by (simp only: drop_drop) simp
  then have "drop (14 + length body) ?open = rest" by simp
  moreover have "take (1 + length body) ?open = nl # body" by simp
  ultimately show ?thesis
    using s e body(2) by (simp add: extract_thinking_from_complete_text_def Let_def strip_newline_def)
qed

theorem extract_thinking_split_witness:
  "extract_thinking_from_complete_text (''<thinking>'' @ [nl] @ ''why'' @ ''</thinking>'' @ [nl, nl] @ ''42'')
    = (Some ''why'', ''42'')"
proof (rule extract_thinking_split)
  show "\<not> is_blank ([nl, nl] @ ''42'')" by code_simp
qed (simp_all add: QUOTE_CHARS_def)

end
