(* ===== verification/Cache_Usage.thy ===== *)
theory Cache_Usage imports Prelude begin

section \<open>Sharing out the prompt tokens (src/src/anthropic/cache_metering.rs, CacheUsage)\<close>

text \<open>
  The estimate of how much of the prompt a cache covers, and \<open>split_against_total\<close>, which scales it
  to the real number of prompt tokens. \<open>f64\<close> values are modelled as rationals: the quotients and
  products are exact here and \<open>round\<close> rounds half away from zero. Tokens are \<open>i32\<close> values, which the
  final casts saturate to.
\<close>

record cache_usage =
  cu_read :: int
  cu_covered_est :: int
  cu_prompt_total_est :: int

definition cache_usage_default :: cache_usage where
  "cache_usage_default = \<lparr>cu_read = 0, cu_covered_est = 0, cu_prompt_total_est = 0\<rparr>"

definition round_away :: "rat \<Rightarrow> int" where
  "round_away r = (if 0 \<le> r then \<lfloor>r + 1 / 2\<rfloor> else - \<lfloor>- r + 1 / 2\<rfloor>)"

definition saturate_i32 :: "int \<Rightarrow> int" where
  "saturate_i32 i = max (- (2 ^ 31)) (min (2 ^ 31 - 1) i)"

definition split_against_total :: "cache_usage \<Rightarrow> int \<Rightarrow> int \<times> int \<times> int" where
  "split_against_total u total_real =
    (let total = max total_real 0 in
     if cu_covered_est u \<le> 0 \<or> cu_prompt_total_est u \<le> 0 then (total, 0, 0)
     else
       let ratio = max 0 (min 1 (of_int (cu_covered_est u) / of_int (cu_prompt_total_est u)));
           cache_total = min (saturate_i32 (round_away (of_int total * ratio))) total;
           read = (if 0 < cu_covered_est u
                   then saturate_i32 (round_away (of_int cache_total * (of_int (cu_read u) / of_int (cu_covered_est u))))
                   else 0);
           read = max 0 (min cache_total read);
           creation = cache_total - read;
           input = total - cache_total
       in (input, creation, read))"

lemma round_away_nonneg: "0 \<le> r \<Longrightarrow> 0 \<le> round_away r"
  by (simp add: round_away_def)

lemma round_away_int [simp]: "round_away (of_int i) = i"
proof -
  have h: "\<lfloor>of_int j + 1 / 2 :: rat\<rfloor> = j" for j :: int
    by (rule floor_unique) simp_all
  from h [of i] h [of "- i"] show ?thesis by (simp add: round_away_def)
qed

lemma saturate_nonneg: "0 \<le> i \<Longrightarrow> 0 \<le> saturate_i32 i"
  by (simp add: saturate_i32_def)

lemma shares:
  fixes a t r :: int
  assumes "0 \<le> min a t"
  shows "case (t - min a t, min a t - max 0 (min (min a t) r), max 0 (min (min a t) r)) of (input, creation, read) \<Rightarrow>
    input + creation + read = t \<and> 0 \<le> input \<and> 0 \<le> creation \<and> 0 \<le> read"
  using assms by auto

text \<open>The three shares reported to the client, tokens not cached, tokens written to and tokens read from
  the cache, are never negative and add up to the total, whatever the estimates are, and without a
  covered prefix everything counts as not cached.\<close>

theorem split_shares:
  "case split_against_total u total_real of (input, creation, read) \<Rightarrow>
     input + creation + read = max total_real 0 \<and> 0 \<le> input \<and> 0 \<le> creation \<and> 0 \<le> read"
proof (cases "cu_covered_est u \<le> 0 \<or> cu_prompt_total_est u \<le> 0")
  case True
  then show ?thesis by (auto simp: split_against_total_def)
next
  case False
  let ?ratio = "max 0 (min 1 (rat_of_int (cu_covered_est u) / of_int (cu_prompt_total_est u)))"
  let ?c = "min (saturate_i32 (round_away (of_int (max total_real 0) * ?ratio))) (max total_real 0)"
  have "0 \<le> rat_of_int (max total_real 0) * ?ratio" by (rule mult_nonneg_nonneg) auto
  then have "0 \<le> saturate_i32 (round_away (rat_of_int (max total_real 0) * ?ratio))"
    by (intro saturate_nonneg round_away_nonneg)
  then have "0 \<le> ?c" by linarith
  then show ?thesis
    unfolding split_against_total_def Let_def if_not_P [OF False] by (rule shares)
qed

text \<open>A prompt that the cache covers completely and that was read from it is reported as read tokens only.\<close>

theorem fully_cached:
  assumes "0 < cu_covered_est u" and "cu_prompt_total_est u = cu_covered_est u" and "cu_read u = cu_covered_est u"
    and "0 \<le> total_real" and "total_real < 2 ^ 31"
  shows "split_against_total u total_real = (0, 0, total_real)"
  using assms by (simp add: split_against_total_def Let_def saturate_i32_def)

theorem fully_cached_witness:
  "split_against_total \<lparr>cu_read = 7, cu_covered_est = 7, cu_prompt_total_est = 7\<rparr> 1000 = (0, 0, 1000)"
  by (rule fully_cached) simp_all

end
