(* ===== verification/Stream_Context.thy ===== *)
theory Stream_Context
  imports Sse_State Tool_Accumulator Tool_Xml_Filter Thinking_Tags Cache_Usage
begin

section \<open>From upstream events to the client's event stream (src/src/anthropic/stream.rs)\<close>

text \<open>
  \<open>StreamContext\<close>: the state of one streamed answer, the handlers of the upstream's events, and the
  first and the final events. A handler takes the context and returns it with the client events it
  writes; \<open>and_then\<close> composes two handlers as the code does with \<open>events.extend\<close>. The message id
  and the JSON library (\<open>serde\<close>) are parameters; token counts are integers (\<open>i32\<close> in the code),
  credits rationals (\<open>f64\<close>).
\<close>

record stream_context =
  state_manager :: sse_manager
  model :: string
  message_id :: string
  input_tokens :: int
  context_input_tokens :: "int option"
  output_tokens :: int
  tool_block_indices :: "(string, int) hash_map"
  tool_name_map :: name_map
  thinking_enabled :: bool
  thinking_buffer :: string
  in_thinking_block :: bool
  thinking_extracted :: bool
  thinking_block_index :: "int option"
  reasoning_block_open :: bool
  text_block_index :: "int option"
  strip_thinking_leading_newline :: bool
  strip_text_after_thinking_boundary :: bool
  cache_usage :: Cache_Usage.cache_usage
  credits :: rat
  tool_json_accumulator :: tool_buffers
  tool_json_error :: "Tool_Accumulator.tool_json_error option"
  tool_use_xml_filter :: leak_filter

type_synonym handler = "stream_context \<Rightarrow> stream_context \<times> sse_event list"

definition and_then :: "handler \<Rightarrow> handler \<Rightarrow> handler" where
  "and_then f g c = (case f c of (c1, e1) \<Rightarrow> (case g c1 of (c2, e2) \<Rightarrow> (c2, e1 @ e2)))"

definition nothing :: handler where
  "nothing c = (c, [])"

definition on_manager :: "(sse_manager \<Rightarrow> sse_manager \<times> sse_event list) \<Rightarrow> handler" where
  "on_manager f c = (case f (state_manager c) of (m, es) \<Rightarrow> (c\<lparr>state_manager := m\<rparr>, es))"

definition THINKING_SIGNATURE_PLACEHOLDER :: string where
  "THINKING_SIGNATURE_PLACEHOLDER = ''kiro-rs-thinking-signature''"

definition estimate_tokens :: "string \<Rightarrow> int" where
  "estimate_tokens txt =
    (let chars = utf8_chars txt;
         chinese_count = int (length (filter (\<lambda>c. 19968 \<le> c \<and> c \<le> 40959) chars));
         other_count = int (length chars) - chinese_count
     in max ((chinese_count * 2 + 2) div 3 + (other_count + 3) div 4) 1)"

definition resolved_usage :: "stream_context \<Rightarrow> int \<times> int \<times> int" where
  "resolved_usage c =
     split_against_total (cache_usage c)
       (case context_input_tokens c of Some t \<Rightarrow> t | None \<Rightarrow> input_tokens c)"

definition new_with_thinking ::
  "(int list \<Rightarrow> int \<Rightarrow> nat) \<Rightarrow> (string list \<Rightarrow> string \<Rightarrow> nat) \<Rightarrow> string \<Rightarrow> string \<Rightarrow> int \<Rightarrow> bool \<Rightarrow> name_map
     \<Rightarrow> stream_context" where
  "new_with_thinking rank_i rank_s new_message_id mdl tokens thinking names =
    \<lparr>state_manager = sse_manager_new rank_i, model = mdl, message_id = new_message_id, input_tokens = tokens,
     context_input_tokens = None, output_tokens = 0, tool_block_indices = hm_empty rank_s,
     tool_name_map = names, thinking_enabled = thinking, thinking_buffer = [], in_thinking_block = False,
     thinking_extracted = False, thinking_block_index = None, reasoning_block_open = False,
     text_block_index = None, strip_thinking_leading_newline = False,
     strip_text_after_thinking_boundary = False, cache_usage = cache_usage_default, credits = 0,
     tool_json_accumulator = hm_empty rank_s, tool_json_error = None, tool_use_xml_filter = leak_filter_default\<rparr>"

definition create_message_start_event :: "stream_context \<Rightarrow> json" where
  "create_message_start_event c =
    (case split_against_total (cache_usage c) (input_tokens c) of (inp, creation, read) \<Rightarrow> JObj
       [(''type'', JStr ''message_start''),
        (''message'', JObj
          [(''id'', JStr (message_id c)), (''type'', JStr ''message''), (''role'', JStr ''assistant''),
           (''content'', JArr []), (''model'', JStr (model c)), (''stop_reason'', JNull),
           (''stop_sequence'', JNull), (''usage'', usage_json inp 1 creation read)])])"

subsection \<open>Blocks and deltas\<close>

definition take_block_index :: "stream_context \<Rightarrow> stream_context \<times> int" where
  "take_block_index c = (case next_block_index (state_manager c) of (m, i) \<Rightarrow> (c\<lparr>state_manager := m\<rparr>, i))"

definition start_block :: "int \<Rightarrow> string \<Rightarrow> json_map \<Rightarrow> handler" where
  "start_block index t content_block =
     on_manager (handle_content_block_start index t (block_start_data index ((''type'', JStr t) # content_block)))"

definition stop_block :: "int \<Rightarrow> handler" where
  "stop_block index = on_manager (handle_content_block_stop index)"

definition text_delta_data :: "int \<Rightarrow> string \<Rightarrow> json" where
  "text_delta_data index txt = block_delta_data index [(''type'', JStr ''text_delta''), (''text'', JStr txt)]"

definition create_text_delta_events :: "string \<Rightarrow> handler" where
  "create_text_delta_events txt c =
    (let c = (case text_block_index c of
                Some idx \<Rightarrow>
                  if \<not> is_block_open_of_type (state_manager c) idx ''text'' then c\<lparr>text_block_index := None\<rparr> else c
              | None \<Rightarrow> c) in
     case (case text_block_index c of
             Some idx \<Rightarrow> (c, [], idx)
           | None \<Rightarrow>
               (case take_block_index c of (c, idx) \<Rightarrow>
                (case start_block idx ''text'' [(''text'', JStr [])] (c\<lparr>text_block_index := Some idx\<rparr>) of
                   (c, es) \<Rightarrow> (c, es, idx)))) of
       (c, start_events, idx) \<Rightarrow>
         (c, start_events @ handle_content_block_delta idx (text_delta_data idx txt) (state_manager c)))"

definition create_thinking_delta_event :: "int \<Rightarrow> string \<Rightarrow> sse_event" where
  "create_thinking_delta_event index thinking =
     sse_new ''content_block_delta''
       (block_delta_data index [(''type'', JStr ''thinking_delta''), (''thinking'', JStr thinking)])"

definition create_signature_delta_event :: "int \<Rightarrow> sse_event" where
  "create_signature_delta_event index =
     sse_new ''content_block_delta''
       (block_delta_data index [(''type'', JStr ''signature_delta''), (''signature'', JStr THINKING_SIGNATURE_PLACEHOLDER)])"

text \<open>\<open>if let Some(thinking_index) = self.thinking_block_index { events.push(delta) }\<close>\<close>

definition thinking_delta :: "string \<Rightarrow> handler" where
  "thinking_delta txt c =
     (c, case thinking_block_index c of Some i \<Rightarrow> [create_thinking_delta_event i txt] | None \<Rightarrow> [])"

text \<open>The empty delta, the signature and the stop that end a thinking block.\<close>

definition end_thinking_block :: handler where
  "end_thinking_block c =
    (case thinking_block_index c of
       Some i \<Rightarrow>
         (case stop_block i c of
            (c, es) \<Rightarrow> (c, [create_thinking_delta_event i [], create_signature_delta_event i] @ es))
     | None \<Rightarrow> (c, []))"

definition close_text_if_open :: handler where
  "close_text_if_open c =
    (case text_block_index c of
       None \<Rightarrow> (c, [])
     | Some i \<Rightarrow> if is_block_open_of_type (state_manager c) i ''text'' then stop_block i c else (c, []))"

definition close_reasoning_if_open :: handler where
  "close_reasoning_if_open c =
    (if \<not> reasoning_block_open c then (c, [])
     else (case end_thinking_block c of
             (c, es) \<Rightarrow> (c\<lparr>reasoning_block_open := False, thinking_extracted := True\<rparr>, es)))"

subsection \<open>The first events\<close>

definition generate_initial_events :: handler where
  "generate_initial_events c =
    (case on_manager (handle_message_start (create_message_start_event c)) c of (c, e1) \<Rightarrow>
     if thinking_enabled c then (c, e1)
     else
       (case take_block_index c of (c, i) \<Rightarrow>
        (case start_block i ''text'' [(''text'', JStr [])] (c\<lparr>text_block_index := Some i\<rparr>) of
           (c, e2) \<Rightarrow> (c, e1 @ e2))))"

subsection \<open>Text with a thinking part\<close>

text \<open>Nothing is open and no thinking part has been seen: look for the start tag.\<close>

definition seek_thinking :: "stream_context \<Rightarrow> (stream_context \<times> sse_event list) \<times> bool" where
  "seek_thinking c =
    (case find_real_thinking_start_tag (thinking_buffer c) of
       Some start_pos \<Rightarrow>
         let before_thinking = take start_pos (thinking_buffer c) in
         (and_then
            (if before_thinking \<noteq> [] \<and> \<not> is_blank before_thinking
             then create_text_delta_events before_thinking else nothing)
            (\<lambda>c.
              let c = c\<lparr>in_thinking_block := True, strip_thinking_leading_newline := True,
                        thinking_buffer := drop (start_pos + length ''<thinking>'') (thinking_buffer c)\<rparr> in
              (case take_block_index c of (c, i) \<Rightarrow>
                 start_block i ''thinking'' [(''thinking'', JStr [])] (c\<lparr>thinking_block_index := Some i\<rparr>))) c,
          True)
     | None \<Rightarrow>
         let target_len = length (thinking_buffer c) - length ''<thinking>'';
             safe_len = find_char_boundary (thinking_buffer c) target_len;
             safe_content = take safe_len (thinking_buffer c) in
         (if 0 < safe_len \<and> safe_content \<noteq> [] \<and> \<not> is_blank safe_content
          then and_then (create_text_delta_events safe_content)
                 (\<lambda>c. (c\<lparr>thinking_buffer := drop safe_len (thinking_buffer c)\<rparr>, [])) c
          else (c, []), False))"

definition strip_leading_newline :: "stream_context \<Rightarrow> stream_context" where
  "strip_leading_newline c =
    (if strip_thinking_leading_newline c then
       (if starts_with (thinking_buffer c) [CHR 0x0A]
        then c\<lparr>thinking_buffer := drop 1 (thinking_buffer c), strip_thinking_leading_newline := False\<rparr>
        else if thinking_buffer c \<noteq> [] then c\<lparr>strip_thinking_leading_newline := False\<rparr>
        else c)
     else c)"

text \<open>Inside the thinking block: pass the content on, up to the end tag.\<close>

definition inside_thinking :: "stream_context \<Rightarrow> (stream_context \<times> sse_event list) \<times> bool" where
  "inside_thinking c0 =
    (let c = strip_leading_newline c0 in
     case find_real_thinking_end_tag_with_boundary (thinking_buffer c) of
       Some (end_pos, after_tag) \<Rightarrow>
         let thinking_content = take end_pos (thinking_buffer c) in
         (and_then
            (if thinking_content \<noteq> [] then thinking_delta thinking_content else nothing)
            (and_then
              (\<lambda>c. end_thinking_block
                 (c\<lparr>in_thinking_block := False, thinking_extracted := True, strip_text_after_thinking_boundary := True\<rparr>))
              (\<lambda>c. (c\<lparr>thinking_buffer := drop after_tag (thinking_buffer c)\<rparr>, []))) c,
          True)
     | None \<Rightarrow>
         let target_len = length (thinking_buffer c) - length ''</thinking>'';
             safe_len = find_char_boundary (thinking_buffer c) target_len;
             safe_content = take safe_len (thinking_buffer c) in
         (if 0 < safe_len
          then and_then (if safe_content \<noteq> [] then thinking_delta safe_content else nothing)
                 (\<lambda>c. (c\<lparr>thinking_buffer := drop safe_len (thinking_buffer c)\<rparr>, [])) c
          else (c, []), False))"

text \<open>The text behind the thinking part, without the white space that separates them.\<close>

definition text_after_boundary :: "stream_context \<Rightarrow> stream_context \<times> string" where
  "text_after_boundary c =
    (if strip_text_after_thinking_boundary c then
       let trimmed = trim_start (thinking_buffer c) in
       (if trimmed \<noteq> [] then c\<lparr>strip_text_after_thinking_boundary := False\<rparr> else c, trimmed)
     else (c, thinking_buffer c))"

definition after_thinking :: "stream_context \<Rightarrow> (stream_context \<times> sse_event list) \<times> bool" where
  "after_thinking c =
    (if thinking_buffer c \<noteq> [] then
       (case text_after_boundary c of (c, remaining) \<Rightarrow>
          let c = c\<lparr>thinking_buffer := []\<rparr> in
          (if remaining \<noteq> [] then create_text_delta_events remaining c else (c, []), False))
     else ((c, []), False))"

text \<open>One iteration of the loop, and whether it goes on.\<close>

definition content_step :: "stream_context \<Rightarrow> (stream_context \<times> sse_event list) \<times> bool" where
  "content_step c =
    (if \<not> in_thinking_block c \<and> \<not> thinking_extracted c then seek_thinking c
     else if in_thinking_block c then inside_thinking c
     else after_thinking c)"

lemma create_text_delta_fields [simp]:
  "in_thinking_block (fst (create_text_delta_events t c)) = in_thinking_block c"
  "thinking_extracted (fst (create_text_delta_events t c)) = thinking_extracted c"
  "thinking_buffer (fst (create_text_delta_events t c)) = thinking_buffer c"
  "thinking_block_index (fst (create_text_delta_events t c)) = thinking_block_index c"
  "reasoning_block_open (fst (create_text_delta_events t c)) = reasoning_block_open c"
  "tool_block_indices (fst (create_text_delta_events t c)) = tool_block_indices c"
  "thinking_enabled (fst (create_text_delta_events t c)) = thinking_enabled c"
  by (auto simp: create_text_delta_events_def Let_def take_block_index_def start_block_def on_manager_def
      split: option.splits prod.splits if_splits)

lemma on_manager_fields [simp]:
  "in_thinking_block (fst (on_manager f c)) = in_thinking_block c"
  "thinking_extracted (fst (on_manager f c)) = thinking_extracted c"
  "thinking_buffer (fst (on_manager f c)) = thinking_buffer c"
  "thinking_block_index (fst (on_manager f c)) = thinking_block_index c"
  "reasoning_block_open (fst (on_manager f c)) = reasoning_block_open c"
  "tool_block_indices (fst (on_manager f c)) = tool_block_indices c"
  "text_block_index (fst (on_manager f c)) = text_block_index c"
  "thinking_enabled (fst (on_manager f c)) = thinking_enabled c"
  by (simp_all add: on_manager_def case_prod_unfold)

text \<open>The loop goes on at most twice: into the thinking block and out of it.\<close>

definition content_phase :: "stream_context \<Rightarrow> nat" where
  "content_phase c =
    (if \<not> in_thinking_block c \<and> \<not> thinking_extracted c then 2 else if in_thinking_block c then 1 else 0)"

lemma seek_thinking_phase: "snd (seek_thinking c) \<Longrightarrow> in_thinking_block (fst (fst (seek_thinking c)))"
  by (auto simp: seek_thinking_def and_then_def nothing_def Let_def take_block_index_def start_block_def
      on_manager_def split: option.splits prod.splits)

lemma end_thinking_block_flags [simp]:
  "in_thinking_block (fst (end_thinking_block c)) = in_thinking_block c"
  "thinking_extracted (fst (end_thinking_block c)) = thinking_extracted c"
  "thinking_buffer (fst (end_thinking_block c)) = thinking_buffer c"
  "thinking_block_index (fst (end_thinking_block c)) = thinking_block_index c"
  "reasoning_block_open (fst (end_thinking_block c)) = reasoning_block_open c"
  "tool_block_indices (fst (end_thinking_block c)) = tool_block_indices c"
  "thinking_enabled (fst (end_thinking_block c)) = thinking_enabled c"
  by (simp_all add: end_thinking_block_def stop_block_def case_prod_unfold split: option.split)

lemma inside_thinking_phase:
  "snd (inside_thinking c) \<Longrightarrow>
     \<not> in_thinking_block (fst (fst (inside_thinking c))) \<and> thinking_extracted (fst (fst (inside_thinking c)))"
  by (auto simp: inside_thinking_def and_then_def nothing_def thinking_delta_def Let_def case_prod_unfold
      split: option.splits)

lemma content_step_phase: "snd (content_step c) \<Longrightarrow> content_phase (fst (fst (content_step c))) < content_phase c"
  using seek_thinking_phase [of c] inside_thinking_phase [of c]
  by (auto simp: content_step_def content_phase_def after_thinking_def case_prod_unfold Let_def split: if_splits)

function content_loop :: "stream_context \<Rightarrow> stream_context \<times> sse_event list" where
  "content_loop c =
    (if snd (content_step c)
     then (case content_loop (fst (fst (content_step c))) of
             (c2, e2) \<Rightarrow> (c2, snd (fst (content_step c)) @ e2))
     else fst (content_step c))"
  by pat_completeness auto
termination
  by (relation "measure content_phase") (auto simp: content_step_phase)

declare content_loop.simps [simp del]

definition process_content_with_thinking :: "string \<Rightarrow> handler" where
  "process_content_with_thinking content c =
     content_loop (c\<lparr>thinking_buffer := thinking_buffer c @ content\<rparr>)"

subsection \<open>The handlers\<close>

definition process_assistant_response :: "string \<Rightarrow> handler" where
  "process_assistant_response raw c =
    (case leak_filter_step (tool_use_xml_filter c) raw of (f, content) \<Rightarrow>
     let c = c\<lparr>tool_use_xml_filter := f\<rparr> in
     if content = [] then (c, [])
     else
       let c = c\<lparr>output_tokens := output_tokens c + estimate_tokens content\<rparr> in
       if thinking_enabled c then process_content_with_thinking content c
       else create_text_delta_events content c)"

text \<open>\<open>redacted_content.as_deref().filter(|s| !s.is_empty())\<close>\<close>

definition redacted_text :: "reasoning_content_event \<Rightarrow> string option" where
  "redacted_text r =
    (case redacted_content r of Some s \<Rightarrow> if s = [] then None else Some s | None \<Rightarrow> None)"

definition open_reasoning :: handler where
  "open_reasoning =
    and_then close_text_if_open
      (\<lambda>c.
        case (case thinking_block_index c of
                Some i \<Rightarrow>
                  if is_block_open_of_type (state_manager c) i ''thinking'' then (c, i) else take_block_index c
              | None \<Rightarrow> take_block_index c) of
          (c, i) \<Rightarrow>
            start_block i ''thinking'' [(''thinking'', JStr [])]
              (c\<lparr>thinking_block_index := Some i, reasoning_block_open := True, in_thinking_block := False,
                 thinking_extracted := True\<rparr>))"

definition reasoning_delta :: "string \<Rightarrow> handler" where
  "reasoning_delta txt c =
    (if txt \<noteq> [] then thinking_delta txt (c\<lparr>output_tokens := output_tokens c + estimate_tokens txt\<rparr>)
     else (c, []))"

definition redacted_block :: "string \<Rightarrow> handler" where
  "redacted_block redacted c =
    (case take_block_index c of (c, i) \<Rightarrow>
       and_then (start_block i ''redacted_thinking'' [(''data'', JStr redacted)])
         (and_then (stop_block i) (\<lambda>c. (c\<lparr>thinking_extracted := True\<rparr>, []))) c)"

definition process_reasoning_content :: "reasoning_content_event \<Rightarrow> handler" where
  "process_reasoning_content r c =
    (if \<not> thinking_enabled c then (c, [])
     else case redacted_text r of
       Some redacted \<Rightarrow>
         and_then close_reasoning_if_open (and_then close_text_if_open (redacted_block redacted)) c
     | None \<Rightarrow>
         and_then (if \<not> reasoning_block_open c then open_reasoning else nothing)
           (reasoning_delta (reasoning_text r)) c)"

definition emit_completed_tool_use :: "serde \<Rightarrow> completed_tool_use \<Rightarrow> handler" where
  "emit_completed_tool_use sd completed c =
    (case (case hm_get (tool_block_indices c) (ct_id completed) of
             Some i \<Rightarrow> (c, i)
           | None \<Rightarrow>
               (case take_block_index c of
                  (c, i) \<Rightarrow> (c\<lparr>tool_block_indices := hm_insert (ct_id completed) i (tool_block_indices c)\<rparr>, i))) of
       (c, i) \<Rightarrow>
         and_then
           (start_block i ''tool_use''
              [(''id'', JStr (ct_id completed)), (''name'', JStr (ct_name completed)), (''input'', JObj [])])
           (and_then
             (\<lambda>c. (c\<lparr>output_tokens := output_tokens c + estimate_tokens (to_str sd (ct_input completed))\<rparr>,
                   handle_content_block_delta i
                     (block_delta_data i [(''type'', JStr ''input_json_delta''),
                                          (''partial_json'', JStr (to_str sd (ct_input completed)))])
                     (state_manager c)))
             (stop_block i)) c)"

text \<open>The end tag at the end of the buffer, when a tool call or the end of the stream cuts the thinking off.\<close>

definition flush_thinking_end :: "nat \<Rightarrow> handler" where
  "flush_thinking_end end_pos c =
    (let thinking_content = take end_pos (thinking_buffer c);
         remaining = trim_start (drop (end_pos + length ''</thinking>'') (thinking_buffer c)) in
     and_then (if thinking_content \<noteq> [] then thinking_delta thinking_content else nothing)
       (and_then
         (\<lambda>c. end_thinking_block
            (c\<lparr>in_thinking_block := False, thinking_extracted := True, strip_text_after_thinking_boundary := True\<rparr>))
         (\<lambda>c. (if remaining \<noteq> [] then create_text_delta_events remaining else nothing) (c\<lparr>thinking_buffer := []\<rparr>))) c)"

definition flush_before_tool :: handler where
  "flush_before_tool =
    and_then
      (\<lambda>c. if thinking_enabled c \<and> in_thinking_block c
           then (case find_real_thinking_end_tag_at_buffer_end (thinking_buffer c) of
                   Some end_pos \<Rightarrow> flush_thinking_end end_pos c | None \<Rightarrow> (c, []))
           else (c, []))
      (\<lambda>c. if thinking_enabled c \<and> \<not> in_thinking_block c \<and> \<not> thinking_extracted c \<and> thinking_buffer c \<noteq> []
           then create_text_delta_events (thinking_buffer c) (c\<lparr>thinking_buffer := []\<rparr>)
           else (c, []))"

definition process_tool_use :: "serde \<Rightarrow> tool_use_event \<Rightarrow> handler" where
  "process_tool_use sd tool_use =
    and_then (\<lambda>c. flush_before_tool (c\<lparr>state_manager := set_has_tool_use True (state_manager c)\<rparr>))
      (\<lambda>c.
        case accumulator_push sd tool_use (tool_name_map c) (tool_json_accumulator c) of
          (buffers, result) \<Rightarrow>
            let c = c\<lparr>tool_json_accumulator := buffers\<rparr> in
            (case result of
               Inr (Some completed) \<Rightarrow> emit_completed_tool_use sd completed c
             | Inr None \<Rightarrow> (c, [])
             | Inl e \<Rightarrow>
                 (c\<lparr>tool_json_error := Some e, state_manager := set_stop_reason ''error'' (state_manager c)\<rparr>, [])))"

text \<open>\<open>(percentage * window / 100.0) as i32\<close>: truncation towards zero, saturating.\<close>

definition truncate_rat :: "rat \<Rightarrow> int" where
  "truncate_rat r = (if 0 \<le> r then \<lfloor>r\<rfloor> else - \<lfloor>- r\<rfloor>)"

definition process_context_usage :: "rat \<Rightarrow> handler" where
  "process_context_usage percentage c =
    (let actual = saturate_i32 (truncate_rat (percentage * of_int (get_context_window_size (model c)) / 100));
         c = c\<lparr>context_input_tokens := Some actual\<rparr> in
     (if 100 \<le> percentage
      then c\<lparr>state_manager := set_stop_reason ''model_context_window_exceeded'' (state_manager c)\<rparr> else c, []))"

fun process_kiro_event :: "serde \<Rightarrow> event \<Rightarrow> handler" where
  "process_kiro_event sd (AssistantResponse content) =
     and_then close_reasoning_if_open (process_assistant_response content)"
| "process_kiro_event sd (Code content) =
     and_then close_reasoning_if_open (process_assistant_response content)"
| "process_kiro_event sd (ToolUse tool_use) = and_then close_reasoning_if_open (process_tool_use sd tool_use)"
| "process_kiro_event sd (ReasoningContent r) = process_reasoning_content r"
| "process_kiro_event sd (ContextUsage percentage) = process_context_usage percentage"
| "process_kiro_event sd (Metering usage) = (\<lambda>c. (c\<lparr>credits := credits c + usage\<rparr>, []))"
| "process_kiro_event sd (ErrorEvent code msg) = (\<lambda>c. (c, []))"
| "process_kiro_event sd (ExceptionEvent t msg) =
     (\<lambda>c. (if t = ''ContentLengthExceededException''
           then c\<lparr>state_manager := set_stop_reason ''max_tokens'' (state_manager c)\<rparr> else c, []))"
| "process_kiro_event sd UnknownEvent = (\<lambda>c. (c, []))"

subsection \<open>The final events\<close>

primrec emit_all :: "serde \<Rightarrow> completed_tool_use list \<Rightarrow> handler" where
  "emit_all sd [] = nothing"
| "emit_all sd (t # ts) = and_then (emit_completed_tool_use sd t) (emit_all sd ts)"

definition finish_tools :: "serde \<Rightarrow> handler" where
  "finish_tools sd c =
    (if tool_json_error c = None then
       (case accumulator_finish (tool_name_map c) (tool_json_accumulator c) of
          (buffers, result) \<Rightarrow>
            let c = c\<lparr>tool_json_accumulator := buffers\<rparr> in
            (case result of
               Inr pending \<Rightarrow> emit_all sd pending c
             | Inl e \<Rightarrow>
                 (c\<lparr>tool_json_error := Some e, state_manager := set_stop_reason ''error'' (state_manager c)\<rparr>, [])))
     else (c, []))"

definition finish_filter :: handler where
  "finish_filter c =
    (case leak_filter_finish (tool_use_xml_filter c) of (f, remaining) \<Rightarrow>
     let c = c\<lparr>tool_use_xml_filter := f\<rparr> in
     if remaining = [] then (c, [])
     else
       let c = c\<lparr>output_tokens := output_tokens c + estimate_tokens remaining\<rparr> in
       if thinking_enabled c then process_content_with_thinking remaining c
       else create_text_delta_events remaining c)"

definition manager_final :: handler where
  "manager_final c =
    (case resolved_usage c of (inp, creation, read) \<Rightarrow>
       on_manager (sse_generate_final_events inp (output_tokens c) creation read) c)"

definition error_event :: "tool_json_error \<Rightarrow> sse_event" where
  "error_event err = sse_new ''error'' (JObj [(''type'', JStr ''error''),
     (''error'', JObj [(''type'', JStr (error_type err)), (''message'', JStr (error_message err))])])"

definition flush_thinking_buffer :: handler where
  "flush_thinking_buffer c =
    (if thinking_enabled c \<and> thinking_buffer c \<noteq> [] then
       and_then
         (\<lambda>c. if in_thinking_block c then
                (case find_real_thinking_end_tag_at_buffer_end (thinking_buffer c) of
                   Some end_pos \<Rightarrow> flush_thinking_end end_pos c
                 | None \<Rightarrow> and_then (thinking_delta (thinking_buffer c)) end_thinking_block c)
              else
                (case text_after_boundary c of (c, buffer_content) \<Rightarrow>
                   if buffer_content \<noteq> [] then create_text_delta_events buffer_content c else (c, [])))
         (\<lambda>c. (c\<lparr>thinking_buffer := []\<rparr>, [])) c
     else (c, []))"

definition thinking_only :: handler where
  "thinking_only c =
    (if thinking_enabled c \<and> thinking_block_index c \<noteq> None \<and> \<not> has_non_thinking_blocks (state_manager c)
     then create_text_delta_events '' '' (c\<lparr>state_manager := set_stop_reason ''max_tokens'' (state_manager c)\<rparr>)
     else (c, []))"

definition finish_stream :: handler where
  "finish_stream c =
    (case tool_json_error c of
       Some err \<Rightarrow> and_then close_reasoning_if_open (and_then manager_final (\<lambda>c. (c, [error_event err]))) c
     | None \<Rightarrow>
         and_then close_reasoning_if_open
           (and_then flush_thinking_buffer (and_then thinking_only manager_final)) c)"

definition generate_final_events :: "serde \<Rightarrow> handler" where
  "generate_final_events sd = and_then (finish_tools sd) (and_then finish_filter finish_stream)"

text \<open>A whole stream: the first events, the upstream's events in order, the final events.\<close>

definition stream_events :: "serde \<Rightarrow> stream_context \<Rightarrow> event list \<Rightarrow> stream_context \<times> sse_event list" where
  "stream_events sd c es =
    and_then generate_initial_events
      (and_then (\<lambda>c. run (\<lambda>c e. process_kiro_event sd e c) c es) (generate_final_events sd)) c"

end
