(* ===== verification/Stream_Protocol.thy ===== *)
theory Stream_Protocol imports Stream_Context begin

section \<open>The client's event stream follows the protocol\<close>

text \<open>
  The invariant of a streamed answer between its first and its final events, one lemma per handler
  that it is kept and that the protocol of \<open>Sse_State\<close> accepts what the handler writes, and the
  theorem on whole streams. The handlers' refinement is stated once through the interface
  \<open>refines\<close> of the prelude, interpreted on \<open>process_kiro_event\<close>.
\<close>

definition thinking_ok :: "stream_context \<Rightarrow> bool" where
  "thinking_ok c \<longleftrightarrow>
     (reasoning_block_open c \<longrightarrow> \<not> in_thinking_block c \<and> thinking_extracted c)
     \<and> (in_thinking_block c \<or> reasoning_block_open c \<longrightarrow>
          (\<exists>i. thinking_block_index c = Some i \<and> is_block_open_of_type (state_manager c) i ''thinking''))"

definition tools_ok :: "stream_context \<Rightarrow> bool" where
  "tools_ok c \<longleftrightarrow> (\<forall>k i. hm_get (tool_block_indices c) k = Some i \<longrightarrow>
     i < next_index (state_manager c)
     \<and> (\<forall>b. hm_get (active_blocks (state_manager c)) i = Some b \<longrightarrow> bs_type b = ''tool_use''))"

definition ctx_inv :: "stream_context \<Rightarrow> bool" where
  "ctx_inv c \<longleftrightarrow> manager_inv (state_manager c) \<and> thinking_ok c \<and> tools_ok c"

text \<open>A handler at a context: it keeps the invariant and the protocol follows it.\<close>

definition ok :: "handler \<Rightarrow> stream_context \<Rightarrow> bool" where
  "ok f c \<longleftrightarrow> ctx_inv (fst (f c)) \<and> mleads (state_manager c) (snd (f c)) (state_manager (fst (f c)))"

lemma ok_and_then [step_intros]: "ok f c \<Longrightarrow> ok g (fst (f c)) \<Longrightarrow> ok (and_then f g) c"
  by (auto simp: ok_def and_then_def case_prod_unfold intro: mleads_trans)

lemma fst_and_then: "fst (and_then f g c) = fst (g (fst (f c)))"
  by (simp add: and_then_def case_prod_unfold)

lemma ok_inv: "ok f c \<Longrightarrow> ctx_inv (fst (f c))"
  by (simp add: ok_def)

lemma ok_nothing [step_intros]: "ctx_inv c \<Longrightarrow> ok nothing c"
  by (simp add: ok_def nothing_def mleads_refl ctx_inv_def)

lemma ok_silent [step_intros]: "ctx_inv c' \<Longrightarrow> state_manager c' = state_manager c \<Longrightarrow> ok (\<lambda>_. (c', [])) c"
  by (simp add: ok_def mleads_refl ctx_inv_def)

lemma ok_weaken: "ok f c' \<Longrightarrow> state_manager c' = state_manager c \<Longrightarrow> ok (\<lambda>_. f c') c"
  by (simp add: ok_def)

lemma ok_pre: "mleads (state_manager c) [] (state_manager c') \<Longrightarrow> ok f c' \<Longrightarrow> g c = f c' \<Longrightarrow> ok g c"
  using mleads_trans [of "state_manager c" "[]" "state_manager c'"] by (simp add: ok_def)

lemma ctx_inv_cong:
  assumes "ctx_inv c" and "state_manager c' = state_manager c" and "tool_block_indices c' = tool_block_indices c"
    and "thinking_block_index c' = thinking_block_index c" and "in_thinking_block c' = in_thinking_block c"
    and "reasoning_block_open c' = reasoning_block_open c" and "thinking_extracted c' = thinking_extracted c"
  shows "ctx_inv c'"
  using assms by (simp add: ctx_inv_def thinking_ok_def tools_ok_def)

lemma keeps_tool_type:
  assumes k: "keeps m m'" and i: "i < next_index m"
    and ty: "\<And>b. hm_get (active_blocks m) i = Some b \<Longrightarrow> bs_type b = ''tool_use''"
    and b: "hm_get (active_blocks m') i = Some b"
  shows "bs_type b = ''tool_use''"
proof (cases "hm_get (active_blocks m) i")
  case None
  with k b have "next_index m \<le> i \<or> bs_type b = ''tool_use''" unfolding keeps_def by blast
  with i show ?thesis by linarith
next
  case (Some b0)
  with k obtain b' where "hm_get (active_blocks m') i = Some b'" "bs_type b' = bs_type b0" unfolding keeps_def by blast
  with b ty [OF Some] show ?thesis by simp
qed

lemma tools_ok_keeps:
  assumes "tools_ok c" and k: "keeps (state_manager c) (state_manager c')"
    and "tool_block_indices c' = tool_block_indices c"
  shows "tools_ok c'"
  unfolding tools_ok_def assms(3)
proof (intro allI impI)
  fix t i
  assume "hm_get (tool_block_indices c) t = Some i"
  with assms(1) have i: "i < next_index (state_manager c)"
    and ty: "\<And>b. hm_get (active_blocks (state_manager c)) i = Some b \<Longrightarrow> bs_type b = ''tool_use''"
    by (auto simp: tools_ok_def)
  have "bs_type b = ''tool_use''" if "hm_get (active_blocks (state_manager c')) i = Some b" for b
    by (rule keeps_tool_type [OF k i ty that])
  with i k show "i < next_index (state_manager c') \<and>
      (\<forall>b. hm_get (active_blocks (state_manager c')) i = Some b \<longrightarrow> bs_type b = ''tool_use'')"
    by (auto simp: keeps_def)
qed

lemma ctx_inv_keeps:
  assumes "ctx_inv c" and "mleads (state_manager c) es (state_manager c')"
    and "keeps (state_manager c) (state_manager c')" and "keeps_thinking (state_manager c) (state_manager c')"
    and "tool_block_indices c' = tool_block_indices c"
    and "thinking_block_index c' = thinking_block_index c" and "in_thinking_block c' = in_thinking_block c"
    and "reasoning_block_open c' = reasoning_block_open c" and "thinking_extracted c' = thinking_extracted c"
  shows "ctx_inv c'"
proof -
  have "thinking_ok c'"
    using assms(1,4,6-9) by (auto simp: ctx_inv_def thinking_ok_def keeps_thinking_def)
  with assms tools_ok_keeps [of c c'] mleads_inv show ?thesis by (simp add: ctx_inv_def)
qed

subsection \<open>Blocks and deltas\<close>

lemma open_block_type:
  "is_block_open_of_type m i t \<Longrightarrow> hm_get (active_blocks m) i = Some b \<Longrightarrow> bs_type b = t"
  by (simp add: is_block_open_of_type_def)

definition text_delta :: "int \<Rightarrow> string \<Rightarrow> sse_event" where
  "text_delta i t = sse_new ''content_block_delta'' (text_delta_data i t)"

lemma handle_delta_open:
  "is_block_open_of_type m i t \<Longrightarrow> handle_content_block_delta i d m = [sse_new ''content_block_delta'' d]"
  by (auto simp: is_block_open_of_type_def is_open_def handle_content_block_delta_def split: option.splits)

lemma create_text_delta_eq:
  assumes "ctx_inv c"
  defines "m \<equiv> state_manager c"
  defines "nb \<equiv> new_block ''text'' [(''text'', JStr [])] m"
  shows "create_text_delta_events t c =
    (case text_block_index c of
       Some i \<Rightarrow>
         if is_block_open_of_type m i ''text'' then (c, [text_delta i t])
         else (c\<lparr>state_manager := fst nb, text_block_index := Some (next_index m)\<rparr>, snd nb @ [text_delta (next_index m) t])
     | None \<Rightarrow>
         (c\<lparr>state_manager := fst nb, text_block_index := Some (next_index m)\<rparr>, snd nb @ [text_delta (next_index m) t]))"
proof -
  have "is_block_open_of_type (fst nb) (next_index m) ''text''"
    unfolding nb_def by (rule new_block_leads(4)) (use assms(1) in \<open>simp_all add: ctx_inv_def m_def\<close>)
  then have d: "handle_content_block_delta (next_index m) (text_delta_data (next_index m) t) (fst nb)
      = [text_delta (next_index m) t]"
    by (simp add: handle_delta_open text_delta_def)
  show ?thesis
    using d handle_delta_open [of m _ "''text''"]
    by (auto simp: create_text_delta_events_def Let_def take_block_index_def start_block_def on_manager_def
        nb_def new_block_def m_def text_delta_def case_prod_unfold next_block_index_def split: option.split)
qed

lemma text_delta_leads:
  "manager_inv m \<Longrightarrow> is_block_open_of_type m i ''text'' \<Longrightarrow> mleads m [text_delta i t] m"
  using delta_leads [of m i "''text_delta''"] by (simp add: text_delta_def text_delta_data_def delta_block_type_def)

lemma ok_text_delta [step_intros]:
  assumes inv: "ctx_inv c"
  shows "ok (create_text_delta_events t) c"
proof -
  let ?m = "state_manager c"
  let ?nb = "new_block ''text'' [(''text'', JStr [])] ?m"
  have v: "manager_inv ?m" using inv by (simp add: ctx_inv_def)
  note nb = new_block_leads [OF v, of "''text''" "[(''text'', JStr [])]", simplified]
  let ?c = "c\<lparr>state_manager := fst ?nb, text_block_index := Some (next_index ?m)\<rparr>"
  have "mleads ?m (snd ?nb @ [text_delta (next_index ?m) t]) (fst ?nb)"
    by (rule mleads_trans [OF nb(1) text_delta_leads [OF mleads_inv [OF nb(1)] nb(4)]])
  moreover have "ctx_inv ?c" by (rule ctx_inv_keeps [OF inv, of "snd ?nb"]) (simp_all add: nb)
  ultimately show ?thesis
    using inv text_delta_leads [OF v]
    by (auto simp: ok_def create_text_delta_eq [OF inv] split: option.split)
qed

text \<open>Thinking deltas go to a block that is known to be open.\<close>

definition thinking_open :: "stream_context \<Rightarrow> bool" where
  "thinking_open c \<longleftrightarrow>
     (\<exists>i. thinking_block_index c = Some i \<and> is_block_open_of_type (state_manager c) i ''thinking'')"

lemma thinking_delta_leads:
  "manager_inv m \<Longrightarrow> is_block_open_of_type m i ''thinking'' \<Longrightarrow> mleads m [create_thinking_delta_event i t] m"
  using delta_leads [of m i "''thinking_delta''"]
  by (simp add: create_thinking_delta_event_def delta_block_type_def)

lemma signature_delta_leads:
  "manager_inv m \<Longrightarrow> is_block_open_of_type m i ''thinking'' \<Longrightarrow> mleads m [create_signature_delta_event i] m"
  using delta_leads [of m i "''signature_delta''"]
  by (simp add: create_signature_delta_event_def delta_block_type_def)

lemma ok_thinking_delta [step_intros]: "ctx_inv c \<Longrightarrow> thinking_open c \<Longrightarrow> ok (thinking_delta t) c"
  by (auto simp: ok_def thinking_delta_def thinking_open_def ctx_inv_def intro: thinking_delta_leads)

text \<open>
  Ending the thinking block is the one step after which the block is no longer open, so the flags that
  promise it must be down before or go down with it.
\<close>

lemma end_thinking_leads:
  assumes v: "manager_inv (state_manager c)" and t: "thinking_open c"
  shows "mleads (state_manager c) (snd (end_thinking_block c)) (state_manager (fst (end_thinking_block c)))"
    and "keeps (state_manager c) (state_manager (fst (end_thinking_block c)))"
proof -
  let ?m = "state_manager c"
  obtain i where i: "thinking_block_index c = Some i" "is_block_open_of_type ?m i ''thinking''"
    using t by (auto simp: thinking_open_def)
  let ?s = "handle_content_block_stop i ?m"
  have e: "fst (end_thinking_block c) = c\<lparr>state_manager := fst ?s\<rparr>"
    "snd (end_thinking_block c) = [create_thinking_delta_event i []] @ [create_signature_delta_event i] @ snd ?s"
    using i(1) by (simp_all add: end_thinking_block_def stop_block_def on_manager_def case_prod_unfold)
  show "mleads ?m (snd (end_thinking_block c)) (state_manager (fst (end_thinking_block c)))"
    unfolding e using mleads_trans [OF thinking_delta_leads [OF v i(2)]
      mleads_trans [OF signature_delta_leads [OF v i(2)] stop_leads(1) [OF v, of i]]] by simp
  show "keeps ?m (state_manager (fst (end_thinking_block c)))"
    unfolding e using stop_leads(2) [OF v, of i] by simp
qed

lemma ok_end_thinking [step_intros]:
  assumes inv: "ctx_inv c" and t: "thinking_open c" and f: "\<not> in_thinking_block c" "\<not> reasoning_block_open c"
  shows "ok end_thinking_block c"
proof -
  have v: "manager_inv (state_manager c)" using inv by (simp add: ctx_inv_def)
  note l = end_thinking_leads [OF v t]
  have "tools_ok (fst (end_thinking_block c))"
    by (rule tools_ok_keeps [OF _ l(2)]) (use inv in \<open>simp_all add: ctx_inv_def\<close>)
  with f l(1) show ?thesis by (simp add: ok_def ctx_inv_def thinking_ok_def mleads_inv)
qed

lemma ok_close_reasoning [step_intros]:
  assumes inv: "ctx_inv c"
  shows "ok close_reasoning_if_open c"
proof (cases "reasoning_block_open c")
  case False
  with inv show ?thesis by (simp add: ok_def close_reasoning_if_open_def mleads_refl ctx_inv_def)
next
  case True
  with inv have t: "thinking_open c" and f: "\<not> in_thinking_block c"
    by (auto simp: ctx_inv_def thinking_ok_def thinking_open_def)
  have v: "manager_inv (state_manager c)" using inv by (simp add: ctx_inv_def)
  note l = end_thinking_leads [OF v t]
  let ?c = "(fst (end_thinking_block c))\<lparr>reasoning_block_open := False, thinking_extracted := True\<rparr>"
  have "tools_ok ?c" by (rule tools_ok_keeps [of c]) (use inv l(2) in \<open>simp_all add: ctx_inv_def\<close>)
  with f l(1) have "ctx_inv ?c" by (simp add: ctx_inv_def thinking_ok_def mleads_inv)
  with True l(1) show ?thesis by (simp add: ok_def close_reasoning_if_open_def case_prod_unfold)
qed

lemma close_reasoning_closed [simp]: "\<not> reasoning_block_open (fst (close_reasoning_if_open c))"
  by (simp add: close_reasoning_if_open_def case_prod_unfold)

lemma ok_close_text [step_intros]:
  assumes inv: "ctx_inv c"
  shows "ok close_text_if_open c"
proof (cases "\<exists>i. text_block_index c = Some i \<and> is_block_open_of_type (state_manager c) i ''text''")
  case False
  then have "close_text_if_open c = (c, [])" by (auto simp: close_text_if_open_def split: option.split)
  with inv show ?thesis by (simp add: ok_def mleads_refl ctx_inv_def)
next
  case True
  then obtain i where i: "text_block_index c = Some i" "is_block_open_of_type (state_manager c) i ''text''" by blast
  have v: "manager_inv (state_manager c)" using inv by (simp add: ctx_inv_def)
  let ?s = "handle_content_block_stop i (state_manager c)"
  have e: "close_text_if_open c = (c\<lparr>state_manager := fst ?s\<rparr>, snd ?s)"
    using i by (simp add: close_text_if_open_def stop_block_def on_manager_def case_prod_unfold)
  have "ctx_inv (c\<lparr>state_manager := fst ?s\<rparr>)"
    by (rule ctx_inv_keeps [OF inv, of "snd ?s"])
      (use stop_leads(1,2) [OF v, of i] stop_leads(4) [OF v i(2)] in simp_all)
  with stop_leads(1) [OF v, of i] show ?thesis by (simp add: ok_def e)
qed

subsection \<open>Text with a thinking part\<close>

lemma nothing_fields [simp]: "fst (nothing c) = c"
  by (simp add: nothing_def)

lemma thinking_delta_ctx [simp]: "fst (thinking_delta t c) = c"
  by (simp add: thinking_delta_def)

lemma ok_if [step_intros]: "(b \<Longrightarrow> ok f c) \<Longrightarrow> (\<not> b \<Longrightarrow> ok g c) \<Longrightarrow> ok (if b then f else g) c"
  by simp

text \<open>A new thinking block, with the flags that promise it.\<close>

lemma ok_new_thinking:
  assumes inv: "ctx_inv c" and ext: "\<not> thinking_extracted c"
  shows "ok (\<lambda>c. let c = c\<lparr>in_thinking_block := True, strip_thinking_leading_newline := True, thinking_buffer := buf c\<rparr> in
      (case take_block_index c of (c, i) \<Rightarrow>
         start_block i ''thinking'' [(''thinking'', JStr [])] (c\<lparr>thinking_block_index := Some i\<rparr>))) c"
    (is "ok ?f c")
proof -
  let ?m = "state_manager c"
  let ?nb = "new_block ''thinking'' [(''thinking'', JStr [])] ?m"
  have v: "manager_inv ?m" using inv by (simp add: ctx_inv_def)
  note nb = new_block_leads [OF v, of "''thinking''" "[(''thinking'', JStr [])]", simplified]
  let ?c = "c\<lparr>in_thinking_block := True, strip_thinking_leading_newline := True, thinking_buffer := buf c,
      state_manager := fst ?nb, thinking_block_index := Some (next_index ?m)\<rparr>"
  have e: "?f c = (?c, snd ?nb)"
    by (simp add: take_block_index_def start_block_def on_manager_def case_prod_unfold new_block_def next_block_index_def)
  have "\<not> reasoning_block_open c" using inv ext by (auto simp: ctx_inv_def thinking_ok_def)
  moreover have "tools_ok ?c" by (rule tools_ok_keeps [of c]) (use inv nb(2) in \<open>simp_all add: ctx_inv_def\<close>)
  ultimately have "ctx_inv ?c" using nb mleads_inv [OF nb(1)] by (simp add: ctx_inv_def thinking_ok_def)
  with nb(1) show ?thesis unfolding ok_def e by simp
qed

lemma ok_buffer [step_intros]: "ctx_inv c \<Longrightarrow> ok (\<lambda>c. (c\<lparr>thinking_buffer := buf c\<rparr>, [])) c"
  using ctx_inv_cong [of c "c\<lparr>thinking_buffer := buf c\<rparr>"] by (simp add: ok_def mleads_refl ctx_inv_def)

lemma ok_seek:
  assumes inv: "ctx_inv c" and ext: "\<not> thinking_extracted c"
  shows "ok (\<lambda>c. fst (seek_thinking c)) c"
proof (cases "find_real_thinking_start_tag (thinking_buffer c)")
  case (Some p)
  let ?b = "take p (thinking_buffer c)"
  let ?f = "if ?b \<noteq> [] \<and> \<not> is_blank ?b then create_text_delta_events ?b else nothing"
  have f: "ok ?f c" by (intro step_intros inv)
  have e: "\<not> thinking_extracted (fst (?f c))" using ext by simp
  have "fst (seek_thinking c) = and_then ?f
     (\<lambda>c. let c = c\<lparr>in_thinking_block := True, strip_thinking_leading_newline := True,
            thinking_buffer := drop (p + length ''<thinking>'') (thinking_buffer c)\<rparr> in
       (case take_block_index c of (c, i) \<Rightarrow>
          start_block i ''thinking'' [(''thinking'', JStr [])] (c\<lparr>thinking_block_index := Some i\<rparr>))) c"
    using Some by (simp add: seek_thinking_def Let_def)
  then show ?thesis
    using ok_and_then [OF f ok_new_thinking [OF ok_inv [OF f] e, of "\<lambda>c. drop (p + length ''<thinking>'') (thinking_buffer c)"]]
    by (simp add: ok_def)
next
  case None
  let ?n = "find_char_boundary (thinking_buffer c) (length (thinking_buffer c) - length ''<thinking>'')"
  let ?t = "take ?n (thinking_buffer c)"
  have "ok (if 0 < ?n \<and> ?t \<noteq> [] \<and> \<not> is_blank ?t
       then and_then (create_text_delta_events ?t) (\<lambda>c. (c\<lparr>thinking_buffer := drop ?n (thinking_buffer c)\<rparr>, []))
       else nothing) c"
    by (intro step_intros inv ok_inv)
  moreover have "fst (seek_thinking c) = (if 0 < ?n \<and> ?t \<noteq> [] \<and> \<not> is_blank ?t
       then and_then (create_text_delta_events ?t) (\<lambda>c. (c\<lparr>thinking_buffer := drop ?n (thinking_buffer c)\<rparr>, []))
       else nothing) c"
    using None by (simp add: seek_thinking_def Let_def nothing_def)
  ultimately show ?thesis by (simp add: ok_def)
qed

lemma strip_leading_newline_fields [simp]:
  "state_manager (strip_leading_newline c) = state_manager c"
  "tool_block_indices (strip_leading_newline c) = tool_block_indices c"
  "thinking_block_index (strip_leading_newline c) = thinking_block_index c"
  "in_thinking_block (strip_leading_newline c) = in_thinking_block c"
  "reasoning_block_open (strip_leading_newline c) = reasoning_block_open c"
  "thinking_extracted (strip_leading_newline c) = thinking_extracted c"
  by (simp_all add: strip_leading_newline_def)

lemma in_thinking_open: "ctx_inv c \<Longrightarrow> in_thinking_block c \<Longrightarrow> thinking_open c \<and> \<not> reasoning_block_open c"
  by (auto simp: ctx_inv_def thinking_ok_def thinking_open_def)

text \<open>The flags go down, then the block ends.\<close>

lemma ok_leave_thinking [step_intros]:
  assumes inv: "ctx_inv c" and i: "in_thinking_block c"
  shows "ok (\<lambda>c. end_thinking_block
      (c\<lparr>in_thinking_block := False, thinking_extracted := True, strip_text_after_thinking_boundary := True\<rparr>)) c"
proof -
  let ?c = "c\<lparr>in_thinking_block := False, thinking_extracted := True, strip_text_after_thinking_boundary := True\<rparr>"
  have t: "thinking_open c" "\<not> reasoning_block_open c" using in_thinking_open [OF inv i] by auto
  then have "thinking_open ?c" by (simp add: thinking_open_def)
  moreover have "ctx_inv ?c" using inv t(2) by (simp add: ctx_inv_def thinking_ok_def tools_ok_def)
  ultimately have "ok end_thinking_block ?c" using t(2) by (intro ok_end_thinking) simp_all
  then show ?thesis by (simp add: ok_def)
qed

lemma ok_inside:
  assumes inv: "ctx_inv c" and i: "in_thinking_block c"
  shows "ok (\<lambda>c. fst (inside_thinking c)) c"
proof -
  let ?c = "strip_leading_newline c"
  have inv': "ctx_inv ?c" by (rule ctx_inv_cong [OF inv]) simp_all
  have i': "in_thinking_block ?c" using i by simp
  have t: "thinking_open ?c" using in_thinking_open [OF inv' i'] by simp
  have "ok (\<lambda>_. fst (inside_thinking c)) ?c"
  proof (cases "find_real_thinking_end_tag_with_boundary (thinking_buffer ?c)")
    case (Some pq)
    obtain p q where pq: "pq = (p, q)" by (cases pq) auto
    let ?t = "take p (thinking_buffer ?c)"
    have "ok (and_then (if ?t \<noteq> [] then thinking_delta ?t else nothing)
            (and_then
              (\<lambda>c. end_thinking_block
                 (c\<lparr>in_thinking_block := False, thinking_extracted := True, strip_text_after_thinking_boundary := True\<rparr>))
              (\<lambda>c. (c\<lparr>thinking_buffer := drop q (thinking_buffer c)\<rparr>, [])))) ?c"
      by (intro step_intros inv' t ok_inv) (use i' inv' in simp_all)
    with Some pq show ?thesis by (simp add: ok_def inside_thinking_def Let_def)
  next
    case None
    let ?n = "find_char_boundary (thinking_buffer ?c) (length (thinking_buffer ?c) - length ''</thinking>'')"
    let ?t = "take ?n (thinking_buffer ?c)"
    have "ok (if 0 < ?n
          then and_then (if ?t \<noteq> [] then thinking_delta ?t else nothing)
                 (\<lambda>c. (c\<lparr>thinking_buffer := drop ?n (thinking_buffer c)\<rparr>, []))
          else nothing) ?c"
      by (intro step_intros inv' t ok_inv)
    moreover have "fst (inside_thinking c) = (if 0 < ?n
          then and_then (if ?t \<noteq> [] then thinking_delta ?t else nothing)
                 (\<lambda>c. (c\<lparr>thinking_buffer := drop ?n (thinking_buffer c)\<rparr>, []))
          else nothing) ?c"
      using None by (simp add: inside_thinking_def Let_def nothing_def)
    ultimately show ?thesis by (simp add: ok_def)
  qed
  then show ?thesis by (simp add: ok_def)
qed

lemma text_after_boundary_fields [simp]:
  "state_manager (fst (text_after_boundary c)) = state_manager c"
  "tool_block_indices (fst (text_after_boundary c)) = tool_block_indices c"
  "thinking_block_index (fst (text_after_boundary c)) = thinking_block_index c"
  "in_thinking_block (fst (text_after_boundary c)) = in_thinking_block c"
  "reasoning_block_open (fst (text_after_boundary c)) = reasoning_block_open c"
  "thinking_extracted (fst (text_after_boundary c)) = thinking_extracted c"
  by (simp_all add: text_after_boundary_def Let_def)

lemma ok_after:
  assumes inv: "ctx_inv c"
  shows "ok (\<lambda>c. fst (after_thinking c)) c"
proof (cases "thinking_buffer c = []")
  case True
  with inv show ?thesis by (simp add: ok_def after_thinking_def mleads_refl ctx_inv_def)
next
  case False
  let ?r = "snd (text_after_boundary c)"
  let ?c = "(fst (text_after_boundary c))\<lparr>thinking_buffer := []\<rparr>"
  have "ctx_inv ?c" by (rule ctx_inv_cong [OF inv]) simp_all
  then have "ok (if ?r \<noteq> [] then create_text_delta_events ?r else nothing) ?c" by (intro step_intros)
  with False show ?thesis
    by (simp add: ok_def after_thinking_def case_prod_unfold Let_def nothing_def split: if_splits)
qed

lemma ok_content_step: "ctx_inv c \<Longrightarrow> ok (\<lambda>c. fst (content_step c)) c"
  using ok_seek [of c] ok_inside [of c] ok_after [of c] by (simp add: ok_def content_step_def)

lemma ok_content_loop [step_intros]: "ctx_inv c \<Longrightarrow> ok content_loop c"
proof (induction c rule: content_loop.induct)
  case (1 c)
  note s = ok_content_step [OF 1(2)]
  show ?case
  proof (cases "snd (content_step c)")
    case False
    with s show ?thesis by (simp add: ok_def content_loop.simps [of c])
  next
    case True
    with 1(1) ok_inv [OF s] have "ok content_loop (fst (fst (content_step c)))" by simp
    with s True show ?thesis
      by (auto simp: ok_def content_loop.simps [of c] case_prod_unfold intro: mleads_trans)
  qed
qed

lemma ok_process_content [step_intros]:
  assumes "ctx_inv c"
  shows "ok (process_content_with_thinking t) c"
proof -
  have "ctx_inv (c\<lparr>thinking_buffer := thinking_buffer c @ t\<rparr>)" by (rule ctx_inv_cong [OF assms]) simp_all
  from ok_content_loop [OF this] show ?thesis by (simp add: ok_def process_content_with_thinking_def)
qed

subsection \<open>The handlers\<close>

lemma ok_assistant [step_intros]:
  assumes inv: "ctx_inv c"
  shows "ok (process_assistant_response raw) c"
proof -
  let ?f = "fst (leak_filter_step (tool_use_xml_filter c) raw)"
  let ?t = "snd (leak_filter_step (tool_use_xml_filter c) raw)"
  let ?c1 = "c\<lparr>tool_use_xml_filter := ?f\<rparr>"
  let ?c2 = "?c1\<lparr>output_tokens := output_tokens c + estimate_tokens ?t\<rparr>"
  have i1: "ctx_inv ?c1" by (rule ctx_inv_cong [OF inv]) simp_all
  have i2: "ctx_inv ?c2" by (rule ctx_inv_cong [OF inv]) simp_all
  have e: "process_assistant_response raw c =
      (if ?t = [] then nothing ?c1
       else (if thinking_enabled c then process_content_with_thinking ?t else create_text_delta_events ?t) ?c2)"
    by (simp add: process_assistant_response_def case_prod_unfold Let_def nothing_def)
  have "ok nothing ?c1" and "ok (process_content_with_thinking ?t) ?c2" and "ok (create_text_delta_events ?t) ?c2"
    by (rule ok_nothing [OF i1], rule ok_process_content [OF i2], rule ok_text_delta [OF i2])
  then show ?thesis by (simp add: ok_def e)
qed

lemma take_block_index_eq: "take_block_index c = (c\<lparr>state_manager := fst (next_block_index (state_manager c))\<rparr>, next_index (state_manager c))"
  by (simp add: take_block_index_def next_block_index_def)

text \<open>The block of the upstream's reasoning: a new one, or the open thinking block taken over.\<close>

lemma ok_open_reasoning_block:
  assumes inv: "ctx_inv c"
  shows "ok (\<lambda>c. case (case thinking_block_index c of
                Some i \<Rightarrow>
                  if is_block_open_of_type (state_manager c) i ''thinking'' then (c, i) else take_block_index c
              | None \<Rightarrow> take_block_index c) of
          (c, i) \<Rightarrow>
            start_block i ''thinking'' [(''thinking'', JStr [])]
              (c\<lparr>thinking_block_index := Some i, reasoning_block_open := True, in_thinking_block := False,
                 thinking_extracted := True\<rparr>)) c"
    (is "ok ?f c")
proof (cases "thinking_open c")
  case True
  then obtain i where i: "thinking_block_index c = Some i" "is_block_open_of_type (state_manager c) i ''thinking''"
    by (auto simp: thinking_open_def)
  let ?c = "c\<lparr>thinking_block_index := Some i, reasoning_block_open := True, in_thinking_block := False,
      thinking_extracted := True\<rparr>"
  have "?f c = (?c, [])"
    using i by (auto simp: start_block_def on_manager_def handle_content_block_start_def is_block_open_of_type_def
        is_open_def split: option.splits)
  moreover have "ctx_inv ?c" using inv i by (simp add: ctx_inv_def thinking_ok_def tools_ok_def)
  ultimately show ?thesis unfolding ok_def using inv by (simp add: mleads_refl ctx_inv_def)
next
  case False
  let ?m = "state_manager c"
  let ?nb = "new_block ''thinking'' [(''thinking'', JStr [])] ?m"
  have v: "manager_inv ?m" using inv by (simp add: ctx_inv_def)
  note nb = new_block_leads [OF v, of "''thinking''" "[(''thinking'', JStr [])]", simplified]
  let ?c = "c\<lparr>state_manager := fst ?nb, thinking_block_index := Some (next_index ?m), reasoning_block_open := True,
      in_thinking_block := False, thinking_extracted := True\<rparr>"
  have e: "?f c = (?c, snd ?nb)"
    using False by (auto simp: thinking_open_def take_block_index_eq start_block_def on_manager_def case_prod_unfold
        new_block_def split: option.splits)
  have "tools_ok ?c" by (rule tools_ok_keeps [of c]) (use inv nb(2) in \<open>simp_all add: ctx_inv_def\<close>)
  then have "ctx_inv ?c" using nb mleads_inv [OF nb(1)] by (simp add: ctx_inv_def thinking_ok_def)
  with nb(1) show ?thesis unfolding ok_def e by simp
qed

lemma ok_open_reasoning [step_intros]: "ctx_inv c \<Longrightarrow> ok open_reasoning c"
  unfolding open_reasoning_def by (intro ok_and_then ok_close_text ok_open_reasoning_block ok_inv)

lemma open_reasoning_opens: "reasoning_block_open (fst (open_reasoning c))"
  by (auto simp: open_reasoning_def fst_and_then start_block_def split: prod.splits)

lemma ok_reasoning_delta:
  assumes inv: "ctx_inv c" and r: "reasoning_block_open c"
  shows "ok (reasoning_delta t) c"
proof -
  let ?c = "c\<lparr>output_tokens := output_tokens c + estimate_tokens t\<rparr>"
  have "ctx_inv ?c" by (rule ctx_inv_cong [OF inv]) simp_all
  moreover have "thinking_open ?c" using inv r by (auto simp: ctx_inv_def thinking_ok_def thinking_open_def)
  ultimately have "ok (thinking_delta t) ?c" by (intro step_intros)
  with ok_nothing [OF inv] show ?thesis by (simp add: ok_def reasoning_delta_def nothing_def)
qed

lemma ok_stop_other [step_intros]:
  assumes inv: "ctx_inv c" and o: "is_block_open_of_type (state_manager c) i t" "t \<noteq> ''thinking''"
  shows "ok (stop_block i) c"
proof -
  have v: "manager_inv (state_manager c)" using inv by (simp add: ctx_inv_def)
  let ?s = "handle_content_block_stop i (state_manager c)"
  have e: "stop_block i c = (c\<lparr>state_manager := fst ?s\<rparr>, snd ?s)"
    by (simp add: stop_block_def on_manager_def case_prod_unfold)
  have "keeps_thinking (state_manager c) (fst ?s)"
    unfolding keeps_thinking_def
  proof (intro allI impI)
    fix j
    assume j: "is_block_open_of_type (state_manager c) j ''thinking''"
    with o have "j \<noteq> i" by (auto simp: is_block_open_of_type_def split: option.splits)
    with j show "is_block_open_of_type (fst ?s) j ''thinking''" by (rule stop_leads(3) [OF v])
  qed
  then have "ctx_inv (c\<lparr>state_manager := fst ?s\<rparr>)"
    by (intro ctx_inv_keeps [OF inv, of "snd ?s"]) (use stop_leads(1,2) [OF v, of i] in simp_all)
  with stop_leads(1) [OF v, of i] show ?thesis by (simp add: ok_def e)
qed

lemma ok_redacted [step_intros]:
  assumes inv: "ctx_inv c"
  shows "ok (redacted_block r) c"
proof -
  let ?m = "state_manager c"
  let ?i = "next_index ?m"
  let ?nb = "new_block ''redacted_thinking'' [(''data'', JStr r)] ?m"
  have v: "manager_inv ?m" using inv by (simp add: ctx_inv_def)
  note nb = new_block_leads [OF v, of "''redacted_thinking''" "[(''data'', JStr r)]", simplified]
  let ?c1 = "c\<lparr>state_manager := fst ?nb\<rparr>"
  have i1: "ctx_inv ?c1" by (rule ctx_inv_keeps [OF inv, of "snd ?nb"]) (simp_all add: nb)
  have s: "ok (stop_block ?i) ?c1" by (rule ok_stop_other [OF i1, of _ "''redacted_thinking''"]) (use nb(4) in simp_all)
  let ?c2 = "fst (stop_block ?i ?c1)"
  have i3: "ctx_inv (?c2\<lparr>thinking_extracted := True\<rparr>)"
    using ok_inv [OF s] by (simp add: ctx_inv_def thinking_ok_def tools_ok_def)
  have "redacted_block r c = (?c2\<lparr>thinking_extracted := True\<rparr>, snd ?nb @ snd (stop_block ?i ?c1))"
    by (simp add: redacted_block_def take_block_index_eq and_then_def start_block_def on_manager_def new_block_def
        case_prod_unfold)
  moreover have "mleads ?m (snd ?nb @ snd (stop_block ?i ?c1)) (state_manager ?c2)"
    using nb(1) s by (auto simp: ok_def intro: mleads_trans)
  ultimately show ?thesis using i3 by (simp add: ok_def)
qed

lemma ok_reasoning [step_intros]:
  assumes inv: "ctx_inv c"
  shows "ok (process_reasoning_content r) c"
proof (cases "thinking_enabled c")
  case False
  with ok_nothing [OF inv] show ?thesis by (simp add: ok_def process_reasoning_content_def nothing_def)
next
  case True
  show ?thesis
  proof (cases "redacted_text r")
    case None
    let ?f = "if \<not> reasoning_block_open c then open_reasoning else nothing"
    have f: "ok ?f c" by (intro step_intros inv)
    have "reasoning_block_open (fst (?f c))" by (simp add: open_reasoning_opens)
    then have "ok (and_then ?f (reasoning_delta (reasoning_text r))) c"
      using f ok_inv [OF f] by (intro ok_and_then ok_reasoning_delta)
    with True None show ?thesis by (simp add: ok_def process_reasoning_content_def)
  next
    case (Some d)
    have "ok (and_then close_reasoning_if_open (and_then close_text_if_open (redacted_block d))) c"
      by (intro step_intros inv ok_inv)
    with True Some show ?thesis by (simp add: ok_def process_reasoning_content_def)
  qed
qed

lemma ok_tool_delta:
  assumes inv: "ctx_inv c" and ty: "\<And>b. hm_get (active_blocks (state_manager c)) i = Some b \<Longrightarrow> bs_type b = ''tool_use''"
  shows "ok (\<lambda>c. (c\<lparr>output_tokens := n c\<rparr>,
      handle_content_block_delta i (block_delta_data i ((''type'', JStr ''input_json_delta'') # d)) (state_manager c))) c"
proof -
  have "ctx_inv (c\<lparr>output_tokens := n c\<rparr>)" by (rule ctx_inv_cong [OF inv]) simp_all
  moreover have "mleads (state_manager c)
      (handle_content_block_delta i (block_delta_data i ((''type'', JStr ''input_json_delta'') # d)) (state_manager c))
      (state_manager c)"
    by (rule handle_delta_leads) (use inv ty in \<open>simp_all add: ctx_inv_def delta_block_type_def\<close>)
  ultimately show ?thesis by (simp add: ok_def)
qed

lemma ok_stop_tool:
  assumes inv: "ctx_inv c" and ty: "\<And>b. hm_get (active_blocks (state_manager c)) i = Some b \<Longrightarrow> bs_type b = ''tool_use''"
  shows "ok (stop_block i) c"
proof (cases "is_block_open_of_type (state_manager c) i ''tool_use''")
  case True
  then show ?thesis by (rule ok_stop_other [OF inv]) simp
next
  case False
  have "manager_inv (state_manager c)" using inv by (simp add: ctx_inv_def)
  with False ty have "handle_content_block_stop i (state_manager c) = (state_manager c, [])"
    by (auto simp: handle_content_block_stop_def is_block_open_of_type_def manager_inv_def is_open_def split: option.splits)
  with ok_nothing [OF inv] show ?thesis by (simp add: ok_def stop_block_def on_manager_def nothing_def)
qed

lemma ok_tool_block:
  assumes inv: "ctx_inv c" and i: "i < next_index (state_manager c)"
    and ty: "\<And>b. hm_get (active_blocks (state_manager c)) i = Some b \<Longrightarrow> bs_type b = ''tool_use''"
  shows "ok (and_then (start_block i ''tool_use'' cb)
           (and_then (\<lambda>c. (c\<lparr>output_tokens := n c\<rparr>,
              handle_content_block_delta i (block_delta_data i ((''type'', JStr ''input_json_delta'') # d)) (state_manager c)))
             (stop_block i))) c"
proof -
  have v: "manager_inv (state_manager c)" using inv by (simp add: ctx_inv_def)
  let ?r = "handle_content_block_start i ''tool_use'' (block_start_data i ((''type'', JStr ''tool_use'') # cb)) (state_manager c)"
  note r = tool_start_leads [OF v i ty, of cb]
  let ?c = "c\<lparr>state_manager := fst ?r\<rparr>"
  have e: "start_block i ''tool_use'' cb c = (?c, snd ?r)"
    by (simp add: start_block_def on_manager_def case_prod_unfold)
  have i1: "ctx_inv ?c" by (rule ctx_inv_keeps [OF inv, of "snd ?r"]) (simp_all add: r)
  have ty1: "bs_type b = ''tool_use''" if "hm_get (active_blocks (state_manager ?c)) i = Some b" for b
    by (rule keeps_tool_type [OF r(2) i ty]) (use that in simp_all)
  let ?d = "\<lambda>c. (c\<lparr>output_tokens := n c\<rparr>,
      handle_content_block_delta i (block_delta_data i ((''type'', JStr ''input_json_delta'') # d)) (state_manager c))"
  have d: "ok ?d ?c" by (rule ok_tool_delta [OF i1 ty1])
  have "ok (stop_block i) (fst (?d ?c))" by (rule ok_stop_tool [OF ok_inv [OF d]]) (use ty1 in simp)
  with d have "ok (and_then ?d (stop_block i)) ?c" by (rule ok_and_then)
  moreover have "ok (start_block i ''tool_use'' cb) c" unfolding ok_def e using i1 r(1) by simp
  ultimately show ?thesis
    by (intro ok_and_then [of "start_block i ''tool_use'' cb" c "and_then ?d (stop_block i)"]) (simp_all only: e fst_conv)
qed

lemma ok_emit_tool [step_intros]:
  assumes inv: "ctx_inv c"
  shows "ok (emit_completed_tool_use sd t) c"
proof (cases "hm_get (tool_block_indices c) (ct_id t)")
  case (Some i)
  with inv have i: "i < next_index (state_manager c)"
    and ty: "\<And>b. hm_get (active_blocks (state_manager c)) i = Some b \<Longrightarrow> bs_type b = ''tool_use''"
    by (auto simp: ctx_inv_def tools_ok_def)
  show ?thesis
    using ok_tool_block [OF inv i ty] Some by (simp add: ok_def emit_completed_tool_use_def)
next
  case None
  let ?i = "next_index (state_manager c)"
  let ?c = "c\<lparr>state_manager := fst (next_block_index (state_manager c)),
      tool_block_indices := hm_insert (ct_id t) ?i (tool_block_indices c)\<rparr>"
  have v: "manager_inv (state_manager c)" using inv by (simp add: ctx_inv_def)
  note n = next_block_index_leads [OF v]
  have f: "hm_get (active_blocks (state_manager ?c)) ?i = None"
    using fresh_index [OF v] by (simp add: next_block_index_def)
  have "ctx_inv (c\<lparr>state_manager := fst (next_block_index (state_manager c))\<rparr>)"
    by (rule ctx_inv_keeps [OF inv, of "[]"]) (simp_all add: n)
  then have i1: "ctx_inv ?c"
    using f by (auto simp: ctx_inv_def thinking_ok_def tools_ok_def hm_simps next_block_index_def)
  have i2: "?i < next_index (state_manager ?c)" by (simp add: next_block_index_def)
  have ty: "bs_type b = ''tool_use''" if "hm_get (active_blocks (state_manager ?c)) ?i = Some b" for b
    using that f by simp
  let ?h = "and_then (start_block ?i ''tool_use''
              [(''id'', JStr (ct_id t)), (''name'', JStr (ct_name t)), (''input'', JObj [])])
           (and_then (\<lambda>c. (c\<lparr>output_tokens := output_tokens c + estimate_tokens (to_str sd (ct_input t))\<rparr>,
                handle_content_block_delta ?i
                  (block_delta_data ?i [(''type'', JStr ''input_json_delta''), (''partial_json'', JStr (to_str sd (ct_input t)))])
                  (state_manager c)))
             (stop_block ?i))"
  show ?thesis
  proof (rule ok_pre [of c ?c ?h])
    show "mleads (state_manager c) [] (state_manager ?c)" using n(1) by simp
    show "ok ?h ?c" by (rule ok_tool_block [OF i1 i2]) (use f in simp)
    show "emit_completed_tool_use sd t c = ?h ?c"
      using None by (simp add: emit_completed_tool_use_def take_block_index_eq)
  qed
qed

lemma ok_flush_end [step_intros]:
  assumes inv: "ctx_inv c" and i: "in_thinking_block c"
  shows "ok (flush_thinking_end p) c"
proof -
  let ?t = "take p (thinking_buffer c)"
  let ?r = "trim_start (drop (p + length ''</thinking>'') (thinking_buffer c))"
  let ?f = "if ?t \<noteq> [] then thinking_delta ?t else nothing"
  have t: "thinking_open c" using in_thinking_open [OF inv i] by simp
  have f: "ok ?f c" by (intro step_intros inv t)
  have fc: "fst (?f c) = c" by simp
  let ?g = "\<lambda>c. end_thinking_block
      (c\<lparr>in_thinking_block := False, thinking_extracted := True, strip_text_after_thinking_boundary := True\<rparr>)"
  have g: "ok ?g c" by (rule ok_leave_thinking [OF inv i])
  have h: "ok (\<lambda>c. (if ?r \<noteq> [] then create_text_delta_events ?r else nothing) (c\<lparr>thinking_buffer := []\<rparr>)) c'"
    if "ctx_inv c'" for c'
  proof -
    have "ctx_inv (c'\<lparr>thinking_buffer := []\<rparr>)" by (rule ctx_inv_cong [OF that]) simp_all
    then have "ok (if ?r \<noteq> [] then create_text_delta_events ?r else nothing) (c'\<lparr>thinking_buffer := []\<rparr>)"
      by (intro step_intros)
    then show ?thesis by (simp add: ok_def)
  qed
  have "ok (and_then ?g (\<lambda>c. (if ?r \<noteq> [] then create_text_delta_events ?r else nothing) (c\<lparr>thinking_buffer := []\<rparr>))) c"
    by (rule ok_and_then [OF g h [OF ok_inv [OF g]]])
  then have "ok (and_then ?g (\<lambda>c. (if ?r \<noteq> [] then create_text_delta_events ?r else nothing) (c\<lparr>thinking_buffer := []\<rparr>))) (fst (?f c))"
    by (simp only: fc)
  with f have "ok (and_then ?f (and_then ?g
      (\<lambda>c. (if ?r \<noteq> [] then create_text_delta_events ?r else nothing) (c\<lparr>thinking_buffer := []\<rparr>)))) c"
    by (rule ok_and_then)
  then show ?thesis unfolding ok_def flush_thinking_end_def Let_def .
qed

lemma ok_flush_before_tool [step_intros]:
  assumes inv: "ctx_inv c"
  shows "ok flush_before_tool c"
  unfolding flush_before_tool_def
proof (rule ok_and_then)
  let ?f = "\<lambda>c. if thinking_enabled c \<and> in_thinking_block c
      then (case find_real_thinking_end_tag_at_buffer_end (thinking_buffer c) of
              Some p \<Rightarrow> flush_thinking_end p c | None \<Rightarrow> (c, []))
      else (c, [])"
  show f: "ok ?f c"
    using ok_flush_end [OF inv] ok_nothing [OF inv] by (auto simp: ok_def nothing_def split: option.split)
  let ?c = "fst (?f c)"
  have "ctx_inv (?c\<lparr>thinking_buffer := []\<rparr>)" by (rule ctx_inv_cong [OF ok_inv [OF f]]) simp_all
  from ok_text_delta [OF this, of "thinking_buffer ?c"] ok_nothing [OF ok_inv [OF f]]
  show "ok (\<lambda>c. if thinking_enabled c \<and> \<not> in_thinking_block c \<and> \<not> thinking_extracted c \<and> thinking_buffer c \<noteq> []
           then create_text_delta_events (thinking_buffer c) (c\<lparr>thinking_buffer := []\<rparr>)
           else (c, [])) ?c"
    unfolding ok_def nothing_def by simp
qed

text \<open>Changes of the manager that write nothing: the reason to stop and the tool flag.\<close>

lemma ctx_inv_manager:
  assumes "ctx_inv c" and "mleads (state_manager c) [] m" and "keeps (state_manager c) m"
    and "keeps_thinking (state_manager c) m"
  shows "ctx_inv (c\<lparr>state_manager := m\<rparr>)"
  by (rule ctx_inv_keeps [OF assms(1), of "[]"]) (simp_all add: assms)

lemma ok_stop_reason:
  assumes inv: "ctx_inv c"
  shows "ctx_inv (c\<lparr>state_manager := set_stop_reason r (state_manager c)\<rparr>)"
    and "mleads (state_manager c) [] (set_stop_reason r (state_manager c))"
proof -
  have v: "manager_inv (state_manager c)" using inv by (simp add: ctx_inv_def)
  show "mleads (state_manager c) [] (set_stop_reason r (state_manager c))" by (rule set_stop_reason_leads [OF v])
  then show "ctx_inv (c\<lparr>state_manager := set_stop_reason r (state_manager c)\<rparr>)"
    by (rule ctx_inv_manager [OF inv]) (rule set_stop_reason_leads [OF v])+
qed

text \<open>A tool error: recorded, with the reason to stop.\<close>

lemma ok_tool_error:
  assumes inv: "ctx_inv c"
  shows "ok (\<lambda>c. (c\<lparr>tool_json_error := Some e, state_manager := set_stop_reason ''error'' (state_manager c)\<rparr>, [])) c"
proof -
  note s = ok_stop_reason [OF inv, of "''error''"]
  have "ctx_inv (c\<lparr>tool_json_error := Some e, state_manager := set_stop_reason ''error'' (state_manager c)\<rparr>)"
    by (rule ctx_inv_cong [OF s(1)]) simp_all
  with s(2) show ?thesis by (simp add: ok_def)
qed

lemma ok_push_tool:
  assumes inv: "ctx_inv c"
  shows "ok (\<lambda>c. case accumulator_push sd t (tool_name_map c) (tool_json_accumulator c) of
          (buffers, result) \<Rightarrow>
            let c = c\<lparr>tool_json_accumulator := buffers\<rparr> in
            (case result of
               Inr (Some completed) \<Rightarrow> emit_completed_tool_use sd completed c
             | Inr None \<Rightarrow> (c, [])
             | Inl e \<Rightarrow>
                 (c\<lparr>tool_json_error := Some e, state_manager := set_stop_reason ''error'' (state_manager c)\<rparr>, []))) c"
proof -
  obtain bs r where p: "accumulator_push sd t (tool_name_map c) (tool_json_accumulator c) = (bs, r)" by fastforce
  let ?c = "c\<lparr>tool_json_accumulator := bs\<rparr>"
  have i: "ctx_inv ?c" by (rule ctx_inv_cong [OF inv]) simp_all
  have "ok (\<lambda>c. case r of
               Inr (Some completed) \<Rightarrow> emit_completed_tool_use sd completed c
             | Inr None \<Rightarrow> (c, [])
             | Inl e \<Rightarrow>
                 (c\<lparr>tool_json_error := Some e, state_manager := set_stop_reason ''error'' (state_manager c)\<rparr>, [])) ?c"
    using ok_tool_error [OF i] ok_emit_tool [OF i] ok_nothing [OF i]
    by (auto simp: ok_def nothing_def split: sum.split option.split)
  then show ?thesis by (simp add: ok_def p Let_def split: sum.splits option.splits)
qed

lemma ok_tool_use [step_intros]:
  assumes inv: "ctx_inv c"
  shows "ok (process_tool_use sd t) c"
proof -
  let ?c = "c\<lparr>state_manager := set_has_tool_use True (state_manager c)\<rparr>"
  have v: "manager_inv (state_manager c)" using inv by (simp add: ctx_inv_def)
  note h = set_has_tool_use_leads [OF v, of True, folded set_has_tool_use_def]
  have i: "ctx_inv ?c" by (rule ctx_inv_manager [OF inv h])
  have f: "ok (\<lambda>c. flush_before_tool (c\<lparr>state_manager := set_has_tool_use True (state_manager c)\<rparr>)) c"
    by (rule ok_pre [OF _ ok_flush_before_tool [OF i]]) (simp_all add: h)
  show ?thesis unfolding process_tool_use_def
    by (rule ok_and_then [OF f ok_push_tool [OF ok_inv [OF f]]])
qed

lemma ok_context_usage [step_intros]:
  assumes inv: "ctx_inv c"
  shows "ok (process_context_usage p) c"
proof -
  let ?c = "c\<lparr>context_input_tokens := Some (saturate_i32 (truncate_rat (p * of_int (get_context_window_size (model c)) / 100)))\<rparr>"
  have i: "ctx_inv ?c" by (rule ctx_inv_cong [OF inv]) simp_all
  from ok_stop_reason [OF i] ok_nothing [OF i] show ?thesis
    by (simp add: ok_def process_context_usage_def Let_def nothing_def)
qed

lemma ok_event: "ctx_inv c \<Longrightarrow> ok (process_kiro_event sd e) c"
proof (cases e)
  case (Metering u)
  assume "ctx_inv c"
  moreover have "ctx_inv (c\<lparr>credits := credits c + u\<rparr>)" by (rule ctx_inv_cong [OF \<open>ctx_inv c\<close>]) simp_all
  ultimately show ?thesis by (simp add: Metering ok_def mleads_refl ctx_inv_def)
next
  case (ExceptionEvent t m)
  assume "ctx_inv c"
  with ok_stop_reason [OF this, of "''max_tokens''"] ok_nothing [OF this] show ?thesis
    by (simp add: ExceptionEvent ok_def nothing_def)
qed (simp_all add: ok_and_then ok_close_reasoning ok_inv ok_assistant ok_tool_use ok_reasoning ok_context_usage
      ok_nothing [unfolded nothing_def [abs_def]])

text \<open>The handlers as a machine with an invariant, followed by the protocol.\<close>

interpretation stream: refines "\<lambda>c e. process_kiro_event sd e c" ctx_inv protocol_step "\<lambda>c. manager_abs (state_manager c)"
  by unfold_locales (use ok_event in \<open>auto simp: ok_def mleads_def\<close>)

lemma ok_run: "ctx_inv c \<Longrightarrow> ok (\<lambda>c. run (\<lambda>c e. process_kiro_event sd e c) c es) c"
  using stream.run_inv [of c sd es] stream.run_follows [of c sd es] by (simp add: ok_def mleads_def ctx_inv_def)

subsection \<open>The final events\<close>

lemma ok_emit_all [step_intros]: "ctx_inv c \<Longrightarrow> ok (emit_all sd ts) c"
proof (induction ts arbitrary: c)
  case Nil
  then show ?case by (simp add: ok_nothing)
next
  case (Cons t ts)
  note t = ok_emit_tool [OF Cons.prems, of sd t]
  from ok_and_then [OF t Cons.IH [OF ok_inv [OF t]]] show ?case by simp
qed

lemma ok_finish_tools:
  assumes inv: "ctx_inv c"
  shows "ok (finish_tools sd) c"
proof (cases "tool_json_error c")
  case (Some e)
  with ok_nothing [OF inv] show ?thesis by (simp add: ok_def finish_tools_def nothing_def)
next
  case None
  obtain bs r where p: "accumulator_finish (tool_name_map c) (tool_json_accumulator c) = (bs, r)" by fastforce
  let ?c = "c\<lparr>tool_json_accumulator := bs\<rparr>"
  have i: "ctx_inv ?c" by (rule ctx_inv_cong [OF inv]) simp_all
  have "ok (\<lambda>c. case r of
               Inr pending \<Rightarrow> emit_all sd pending c
             | Inl e \<Rightarrow>
                 (c\<lparr>tool_json_error := Some e, state_manager := set_stop_reason ''error'' (state_manager c)\<rparr>, [])) ?c"
    using ok_tool_error [OF i] ok_emit_all [OF i] by (auto simp: ok_def split: sum.split)
  with None show ?thesis by (simp add: ok_def finish_tools_def p Let_def split: sum.splits)
qed

lemma ok_finish_filter:
  assumes inv: "ctx_inv c"
  shows "ok finish_filter c"
proof -
  let ?f = "fst (leak_filter_finish (tool_use_xml_filter c))"
  let ?t = "snd (leak_filter_finish (tool_use_xml_filter c))"
  let ?c1 = "c\<lparr>tool_use_xml_filter := ?f\<rparr>"
  let ?c2 = "?c1\<lparr>output_tokens := output_tokens c + estimate_tokens ?t\<rparr>"
  have i1: "ctx_inv ?c1" by (rule ctx_inv_cong [OF inv]) simp_all
  have i2: "ctx_inv ?c2" by (rule ctx_inv_cong [OF inv]) simp_all
  have e: "finish_filter c =
      (if ?t = [] then nothing ?c1
       else (if thinking_enabled c then process_content_with_thinking ?t else create_text_delta_events ?t) ?c2)"
    by (simp add: finish_filter_def case_prod_unfold Let_def nothing_def)
  have "ok nothing ?c1" and "ok (process_content_with_thinking ?t) ?c2" and "ok (create_text_delta_events ?t) ?c2"
    by (rule ok_nothing [OF i1], rule ok_process_content [OF i2], rule ok_text_delta [OF i2])
  then show ?thesis by (simp add: ok_def e)
qed

text \<open>
  From here on the flags that promise an open thinking block need not hold any more: the flush ends the
  block of an unfinished thinking part without lowering them. What the last steps need is the manager.
\<close>

definition mok :: "handler \<Rightarrow> stream_context \<Rightarrow> bool" where
  "mok f c \<longleftrightarrow> mleads (state_manager c) (snd (f c)) (state_manager (fst (f c)))"

lemma ok_mok: "ok f c \<Longrightarrow> mok f c"
  by (simp add: ok_def mok_def)

lemma mok_and_then: "mok f c \<Longrightarrow> mok g (fst (f c)) \<Longrightarrow> mok (and_then f g) c"
  by (auto simp: mok_def and_then_def case_prod_unfold intro: mleads_trans)

lemma mok_text_delta:
  assumes v: "manager_inv (state_manager c)"
  shows "mok (create_text_delta_events t) c"
proof -
  let ?c = "c\<lparr>tool_block_indices := hm_empty (\<lambda>_ _. 0), in_thinking_block := False, reasoning_block_open := False\<rparr>"
  have "ctx_inv ?c" using v by (simp add: ctx_inv_def thinking_ok_def tools_ok_def hm_simps)
  note e = ok_text_delta [OF this, of t] create_text_delta_eq [OF this, of t]
  have "snd (create_text_delta_events t ?c) = snd (create_text_delta_events t c)
      \<and> state_manager (fst (create_text_delta_events t ?c)) = state_manager (fst (create_text_delta_events t c))"
    by (simp add: create_text_delta_events_def Let_def take_block_index_eq start_block_def on_manager_def
        case_prod_unfold split: option.split)
  with e(1) show ?thesis by (simp add: ok_def mok_def)
qed

lemma mok_flush:
  assumes inv: "ctx_inv c"
  shows "mok flush_thinking_buffer c"
proof (cases "thinking_enabled c \<and> thinking_buffer c \<noteq> []")
  case False
  with ok_mok [OF ok_nothing [OF inv]] show ?thesis
    by (simp only: mok_def flush_thinking_buffer_def nothing_def if_False)
next
  case True
  let ?g = "\<lambda>c. (c\<lparr>thinking_buffer := []\<rparr>, [])"
  have g: "mok ?g c'" if "manager_inv (state_manager c')" for c'
    using that by (simp add: mok_def mleads_refl)
  have inside: "mok (and_then (thinking_delta t) end_thinking_block) c" if i: "in_thinking_block c" for t
  proof (rule mok_and_then)
    have t: "thinking_open c" using in_thinking_open [OF inv i] by simp
    show "mok (thinking_delta t) c" by (rule ok_mok [OF ok_thinking_delta [OF inv t]])
    show "mok end_thinking_block (fst (thinking_delta t c))"
      using end_thinking_leads(1) [OF _ t] inv by (simp add: mok_def ctx_inv_def)
  qed
  have "ctx_inv (fst (text_after_boundary c))" by (rule ctx_inv_cong [OF inv]) simp_all
  note outside = ok_text_delta [OF this] ok_nothing [OF this]
  let ?f = "\<lambda>c. if in_thinking_block c then
                (case find_real_thinking_end_tag_at_buffer_end (thinking_buffer c) of
                   Some end_pos \<Rightarrow> flush_thinking_end end_pos c
                 | None \<Rightarrow> and_then (thinking_delta (thinking_buffer c)) end_thinking_block c)
              else
                (case text_after_boundary c of (c, buffer_content) \<Rightarrow>
                   if buffer_content \<noteq> [] then create_text_delta_events buffer_content c else (c, []))"
  have f: "mok ?f c"
    using ok_flush_end [OF inv] inside outside
    by (auto simp: mok_def ok_def nothing_def case_prod_unfold split: option.split)
  then have "mok (and_then ?f ?g) c"
    by (rule mok_and_then) (rule g, use f in \<open>simp add: mok_def mleads_def\<close>)
  with True show ?thesis unfolding mok_def flush_thinking_buffer_def by simp
qed

lemma mok_thinking_only:
  assumes v: "manager_inv (state_manager c)"
  shows "mok thinking_only c"
proof -
  let ?c = "c\<lparr>state_manager := set_stop_reason ''max_tokens'' (state_manager c)\<rparr>"
  have s: "mleads (state_manager c) [] (state_manager ?c)" using set_stop_reason_leads(1) [OF v] by simp
  then have "manager_inv (state_manager ?c)" by (rule mleads_inv)
  from mleads_trans [OF s mok_text_delta [OF this, of "'' ''", unfolded mok_def]] mleads_refl [OF v]
  show ?thesis by (auto simp: mok_def thinking_only_def)
qed

text \<open>The end of the stream: accepted, and then every block is stopped and the message has ended.\<close>

definition ends :: "handler \<Rightarrow> stream_context \<Rightarrow> bool" where
  "ends f c \<longleftrightarrow> accepts protocol_step (manager_abs (state_manager c)) (snd (f c))
       = Some (manager_abs (state_manager (fst (f c)))) \<and> manager_done (state_manager (fst (f c)))"

lemma ends_and_then: "mok f c \<Longrightarrow> ends g (fst (f c)) \<Longrightarrow> ends (and_then f g) c"
  by (simp add: ends_def mok_def mleads_def and_then_def case_prod_unfold accepts_append)

lemma mok_inv: "mok f c \<Longrightarrow> manager_inv (state_manager (fst (f c)))"
  by (simp add: mok_def mleads_def)

lemma ends_manager_final:
  assumes v: "manager_inv (state_manager c)"
  shows "ends manager_final c"
  using final_leads [OF v] by (simp add: ends_def manager_final_def on_manager_def case_prod_unfold)

lemma ends_error:
  assumes "ends f c"
  shows "ends (and_then f (\<lambda>c. (c, [error_event err]))) c"
  using assms
  by (simp add: ends_def and_then_def case_prod_unfold accepts_append error_event_def protocol_step_def manager_done_def)

lemma and_then_assoc: "and_then (and_then f g) h = and_then f (and_then g h)"
  by (rule ext) (simp add: and_then_def case_prod_unfold)

lemma ends_finish_stream:
  assumes inv: "ctx_inv c"
  shows "ends finish_stream c"
proof (cases "tool_json_error c")
  case (Some err)
  have r: "mok close_reasoning_if_open c" by (rule ok_mok [OF ok_close_reasoning [OF inv]])
  have "ends (and_then close_reasoning_if_open manager_final) c"
    by (rule ends_and_then [OF r ends_manager_final [OF mok_inv [OF r]]])
  from ends_error [OF this, of err] Some show ?thesis by (simp add: ends_def finish_stream_def and_then_assoc)
next
  case None
  note r = ok_close_reasoning [OF inv]
  have f: "mok flush_thinking_buffer (fst (close_reasoning_if_open c))" by (rule mok_flush [OF ok_inv [OF r]])
  have t: "mok thinking_only (fst (flush_thinking_buffer (fst (close_reasoning_if_open c))))"
    by (rule mok_thinking_only [OF mok_inv [OF f]])
  have "ends (and_then close_reasoning_if_open (and_then flush_thinking_buffer (and_then thinking_only manager_final))) c"
    by (intro ends_and_then ok_mok [OF r] f t ends_manager_final mok_inv [OF t])
  with None show ?thesis by (simp add: ends_def finish_stream_def)
qed

lemma ends_generate_final:
  assumes inv: "ctx_inv c"
  shows "ends (generate_final_events sd) c"
proof -
  note t = ok_finish_tools [OF inv, of sd]
  note f = ok_finish_filter [OF ok_inv [OF t]]
  show ?thesis unfolding generate_final_events_def
    by (intro ends_and_then ok_mok [OF t] ok_mok [OF f] ends_finish_stream ok_inv [OF f])
qed

subsection \<open>Whole streams\<close>

lemma initial_inv:
  assumes "c = new_with_thinking ri rs mid mdl tokens thinking names\<lparr>cache_usage := u\<rparr>"
  shows "ctx_inv (fst (generate_initial_events c))
    \<and> accepts protocol_step protocol_start (snd (generate_initial_events c))
      = Some (manager_abs (state_manager (fst (generate_initial_events c))))"
proof -
  let ?m1 = "(sse_manager_new ri)\<lparr>message_started := True\<rparr>"
  let ?c1 = "c\<lparr>state_manager := ?m1\<rparr>"
  have m: "state_manager c = sse_manager_new ri" by (simp add: assms new_with_thinking_def)
  have e1: "on_manager (handle_message_start (create_message_start_event c)) c
      = (?c1, [sse_new ''message_start'' (create_message_start_event c)])"
    by (simp add: on_manager_def handle_message_start_def m) (simp add: sse_manager_new_def)
  have v: "manager_inv ?m1" by (simp add: manager_inv_def sse_manager_new_def hm_simps)
  have i1: "ctx_inv ?c1"
    using v by (simp add: ctx_inv_def thinking_ok_def tools_ok_def) (simp add: assms new_with_thinking_def hm_simps)
  have a1: "accepts protocol_step protocol_start [sse_new ''message_start'' j] = Some (manager_abs ?m1)" for j
    by (auto simp: protocol_step_def protocol_start_def manager_abs_def sse_manager_new_def hm_simps
        is_block_open_of_type_def)
  show ?thesis
  proof (cases "thinking_enabled c")
    case True
    with e1 a1 i1 show ?thesis by (simp add: generate_initial_events_def)
  next
    case False
    let ?nb = "new_block ''text'' [(''text'', JStr [])] ?m1"
    note nb = new_block_leads [OF v, of "''text''" "[(''text'', JStr [])]", simplified]
    have e: "generate_initial_events c = (c\<lparr>state_manager := fst ?nb, text_block_index := Some (next_index ?m1)\<rparr>,
        [sse_new ''message_start'' (create_message_start_event c)] @ snd ?nb)"
      using False e1
      by (simp add: generate_initial_events_def take_block_index_eq start_block_def on_manager_def new_block_def case_prod_unfold)
    have "ctx_inv (c\<lparr>state_manager := fst ?nb, text_block_index := Some (next_index ?m1)\<rparr>)"
      by (rule ctx_inv_keeps [OF i1, of "snd ?nb"]) (simp_all add: nb)
    moreover have "accepts protocol_step (manager_abs ?m1) (snd ?nb) = Some (manager_abs (fst ?nb))"
      using nb(1) by (simp add: mleads_def)
    ultimately show ?thesis by (simp only: e accepts_append a1 option.case fst_conv snd_conv) simp
  qed
qed

lemma stream_accepted:
  assumes "c = new_with_thinking ri rs mid mdl tokens thinking names\<lparr>cache_usage := u\<rparr>"
  shows "\<exists>p. accepts protocol_step protocol_start (snd (stream_events sd c es)) = Some p
    \<and> pr_open p = {} \<and> pr_ended p \<and> pr_started p"
proof -
  let ?i = "fst (generate_initial_events c)"
  note init = initial_inv [OF assms]
  let ?r = "\<lambda>c. run (\<lambda>c e. process_kiro_event sd e c) c es"
  have r: "ok ?r ?i" by (rule ok_run) (use init in simp)
  have f: "ends (generate_final_events sd) (fst (?r ?i))" by (rule ends_generate_final [OF ok_inv [OF r]])
  have e: "ends (and_then ?r (generate_final_events sd)) ?i" by (rule ends_and_then [OF ok_mok [OF r] f])
  let ?m = "state_manager (fst (stream_events sd c es))"
  have "accepts protocol_step protocol_start (snd (stream_events sd c es)) = Some (manager_abs ?m)"
    and "manager_done ?m"
    using e init by (auto simp: stream_events_def and_then_def case_prod_unfold accepts_append ends_def)
  then show ?thesis by (auto simp: manager_done_def)
qed

text \<open>C3: Every stream the client sees follows the protocol, whatever events the upstream sends in whatever
  order and whatever order the hash maps are visited in: one message\_start comes first, a block starts
  once, takes deltas of its own type only while it is open and stops once, message\_delta comes once and
  after every block has stopped, message\_stop follows it, and only an error event may come behind it;
  at the end no block is open and the message has ended.\<close>

theorem stream_follows_protocol:
  assumes "c = new_with_thinking ri rs mid mdl tokens thinking names\<lparr>cache_usage := u\<rparr>"
  shows "\<exists>p. accepts protocol_step protocol_start (snd (stream_events sd c es)) = Some p
    \<and> pr_open p = {} \<and> pr_ended p \<and> pr_started p"
  by (rule stream_accepted [OF assms])

definition sample_serde :: serde where
  "sample_serde = \<lparr>from_str = (\<lambda>s. Inl ''EOF''), to_str = (\<lambda>_. ''{}'')\<rparr>"

definition sample_context :: "bool \<Rightarrow> stream_context" where
  "sample_context thinking =
     new_with_thinking (\<lambda>_ _. 0) (\<lambda>_ _. 0) ''msg_1'' ''claude-opus-4.6'' 10 thinking (hm_empty (\<lambda>_ _. 0))"

theorem stream_follows_protocol_witness:
  "\<exists>p. accepts protocol_step protocol_start
      (snd (stream_events sample_serde (sample_context True) [AssistantResponse ''<thinking>'', Code ''a''])) = Some p
    \<and> pr_open p = {} \<and> pr_ended p \<and> pr_started p"
proof (rule stream_follows_protocol)
  show "sample_context True = (new_with_thinking (\<lambda>_ _. 0) (\<lambda>_ _. 0) ''msg_1'' ''claude-opus-4.6'' 10 True
      (hm_empty (\<lambda>_ _. 0)))\<lparr>cache_usage := cache_usage_default\<rparr>"
    by (simp add: sample_context_def new_with_thinking_def)
qed

end
