(* ===== verification/Stream_Text.thy ===== *)
theory Stream_Text imports Stream_Protocol begin

section \<open>The text of a stream\<close>

text \<open>
  What a client without thinking reads: the texts of the text deltas, joined. The theorem says that it
  is exactly what the markup filter makes of the upstream's text, whatever tool calls, reasoning,
  usage reports and errors come in between. The last part evaluates two short streams that show where
  the protocol's comments promise more than the code does.
\<close>

definition text_of_event :: "sse_event \<Rightarrow> string" where
  "text_of_event e =
    (if se_event e = ''content_block_delta'' \<and> get_type_of ''delta'' (se_data e) = Some ''text_delta'' then
       (case Option.bind (json_get (se_data e) ''delta'') (\<lambda>d. Option.bind (json_get d ''text'') json_as_str) of
          Some t \<Rightarrow> t | None \<Rightarrow> [])
     else [])"

definition streamed_text :: "sse_event list \<Rightarrow> string" where
  "streamed_text es = concat (map text_of_event es)"

text \<open>The text the upstream sends in an event.\<close>

fun event_texts :: "event \<Rightarrow> string list" where
  "event_texts (AssistantResponse content) = [content]"
| "event_texts (Code content) = [content]"
| "event_texts _ = []"

lemma streamed_text_simps [simp]:
  "streamed_text [] = []" "streamed_text (e # es) = text_of_event e @ streamed_text es"
  "streamed_text (es @ fs) = streamed_text es @ streamed_text fs"
  by (simp_all add: streamed_text_def)

lemma text_of_events [simp]:
  "text_of_event (stop_event i) = []"
  "text_of_event (sse_new ''content_block_start'' j) = []"
  "text_of_event (sse_new ''message_start'' j) = []"
  "text_of_event (sse_new ''message_delta'' j) = []"
  "text_of_event (sse_new ''message_stop'' j) = []"
  "text_of_event (error_event err) = []"
  "text_of_event (create_thinking_delta_event i t) = []"
  "text_of_event (create_signature_delta_event i) = []"
  "text_of_event (text_delta i t) = t"
  "text_of_event (sse_new ''content_block_delta'' (block_delta_data i ((''type'', JStr ''input_json_delta'') # d))) = []"
  by (simp_all add: text_of_event_def stop_event_def sse_new_def error_event_def create_thinking_delta_event_def
      create_signature_delta_event_def text_delta_def text_delta_data_def block_delta_data_def get_type_of_def)

text \<open>A handler that writes no text and leaves the filter and the mode alone.\<close>

definition textless :: "handler \<Rightarrow> stream_context \<Rightarrow> bool" where
  "textless f c \<longleftrightarrow> streamed_text (snd (f c)) = [] \<and> tool_use_xml_filter (fst (f c)) = tool_use_xml_filter c
     \<and> thinking_enabled (fst (f c)) = thinking_enabled c"

lemma textless_and_then: "textless f c \<Longrightarrow> textless g (fst (f c)) \<Longrightarrow> textless (and_then f g) c"
  by (simp add: textless_def and_then_def case_prod_unfold)

lemma streamed_stop_where [simp]: "streamed_text (snd (stop_where p m)) = []"
  by (simp add: stop_where_def streamed_text_def comp_def)

lemma textless_on_manager:
  "streamed_text (snd (f (state_manager c))) = [] \<Longrightarrow> textless (on_manager f) c"
  by (simp add: textless_def on_manager_def case_prod_unfold)

lemma streamed_start [simp]: "streamed_text (snd (handle_content_block_start i t j m)) = []"
  by (auto simp: handle_content_block_start_def case_prod_unfold split: option.split)

lemma streamed_stop [simp]: "streamed_text (snd (handle_content_block_stop i m)) = []"
  by (auto simp: handle_content_block_stop_def split: option.split)

lemma textless_start: "textless (start_block i t cb) c"
  unfolding start_block_def by (rule textless_on_manager) simp

lemma textless_stop: "textless (stop_block i) c"
  unfolding stop_block_def by (rule textless_on_manager) simp

lemma textless_close_reasoning: "textless close_reasoning_if_open c"
  using textless_stop
  by (auto simp: textless_def close_reasoning_if_open_def end_thinking_block_def case_prod_unfold split: option.split)

lemma streamed_tool_delta [simp]:
  "streamed_text (handle_content_block_delta i (block_delta_data i ((''type'', JStr ''input_json_delta'') # d)) m) = []"
  by (auto simp: handle_content_block_delta_def split: option.split)

lemma textless_emit: "textless (emit_completed_tool_use sd t) c"
proof -
  have b: "textless (and_then (start_block i ''tool_use'' cb)
           (and_then (\<lambda>c. (c\<lparr>output_tokens := n c\<rparr>,
              handle_content_block_delta i (block_delta_data i ((''type'', JStr ''input_json_delta'') # d)) (state_manager c)))
             (stop_block i))) c'" for i cb n d c'
    by (intro textless_and_then textless_start textless_stop) (simp add: textless_def)
  show ?thesis
    using b by (auto simp: textless_def emit_completed_tool_use_def take_block_index_eq split: option.split)
qed

lemma textless_emit_all: "textless (emit_all sd ts) c"
proof (induction ts arbitrary: c)
  case Nil
  show ?case by (simp add: textless_def nothing_def)
next
  case (Cons t ts)
  show ?case unfolding emit_all.simps by (rule textless_and_then [OF textless_emit Cons.IH])
qed

lemma textless_tool_use:
  assumes "\<not> thinking_enabled c"
  shows "textless (process_tool_use sd t) c"
proof -
  let ?f = "\<lambda>c. flush_before_tool (c\<lparr>state_manager := set_has_tool_use True (state_manager c)\<rparr>)"
  have f: "?f c = (c\<lparr>state_manager := set_has_tool_use True (state_manager c)\<rparr>, [])"
    using assms by (simp add: flush_before_tool_def and_then_def)
  obtain bs r where p: "accumulator_push sd t (tool_name_map c) (tool_json_accumulator c) = (bs, r)" by fastforce
  let ?g = "\<lambda>c. case accumulator_push sd t (tool_name_map c) (tool_json_accumulator c) of
          (buffers, result) \<Rightarrow>
            let c = c\<lparr>tool_json_accumulator := buffers\<rparr> in
            (case result of
               Inr (Some completed) \<Rightarrow> emit_completed_tool_use sd completed c
             | Inr None \<Rightarrow> (c, [])
             | Inl e \<Rightarrow>
                 (c\<lparr>tool_json_error := Some e, state_manager := set_stop_reason ''error'' (state_manager c)\<rparr>, []))"
  have "textless ?g (fst (?f c))"
    using textless_emit [of sd] by (auto simp: f p textless_def Let_def split: sum.split option.split)
  then show ?thesis unfolding process_tool_use_def
    by (rule textless_and_then [rotated]) (use assms in \<open>simp add: textless_def f\<close>)
qed

lemma create_text_delta_text:
  assumes "ctx_inv c"
  shows "streamed_text (snd (create_text_delta_events t c)) = t"
    and "tool_use_xml_filter (fst (create_text_delta_events t c)) = tool_use_xml_filter c"
  by (auto simp: create_text_delta_eq [OF assms] new_block_def split: option.split)

text \<open>One event: the text that comes out is what the filter lets through.\<close>

definition passes :: "handler \<Rightarrow> string list \<Rightarrow> stream_context \<Rightarrow> bool" where
  "passes f texts c \<longleftrightarrow>
     (tool_use_xml_filter (fst (f c)), streamed_text (snd (f c))) = run leak_filter_step (tool_use_xml_filter c) texts
     \<and> thinking_enabled (fst (f c)) = thinking_enabled c"

lemma passes_textless: "textless f c \<Longrightarrow> passes f [] c"
  by (simp add: passes_def textless_def)

lemma passes_and_then: "passes f ts c \<Longrightarrow> passes g us (fst (f c)) \<Longrightarrow> passes (and_then f g) (ts @ us) c"
  by (simp add: passes_def and_then_def run_append split: prod.splits) (metis fst_conv snd_conv)

lemma passes_assistant:
  assumes inv: "ctx_inv c" and th: "\<not> thinking_enabled c"
  shows "passes (process_assistant_response t) [t] c"
proof -
  obtain f out where fo: "leak_filter_step (tool_use_xml_filter c) t = (f, out)" by fastforce
  let ?c = "c\<lparr>tool_use_xml_filter := f, output_tokens := output_tokens c + estimate_tokens out\<rparr>"
  have "ctx_inv ?c" by (rule ctx_inv_cong [OF inv]) simp_all
  note d = create_text_delta_text [OF this]
  show ?thesis
    using th d by (simp add: passes_def process_assistant_response_def fo Let_def)
qed

lemma passes_event:
  assumes inv: "ctx_inv c" and th: "\<not> thinking_enabled c"
  shows "passes (process_kiro_event sd e) (event_texts e) c"
proof -
  let ?c = "fst (close_reasoning_if_open c)"
  have i: "ctx_inv ?c" by (rule ok_inv [OF ok_close_reasoning [OF inv]])
  have r: "textless close_reasoning_if_open c" by (rule textless_close_reasoning)
  then have t: "\<not> thinking_enabled ?c" using th by (simp add: textless_def)
  have a: "passes (and_then close_reasoning_if_open (process_assistant_response x)) [x] c" for x
    using passes_and_then [OF passes_textless [OF r] passes_assistant [OF i t]] by simp
  show ?thesis
  proof (cases e)
    case (AssistantResponse x)
    with a show ?thesis by simp
  next
    case (Code x)
    with a show ?thesis by simp
  next
    case (ToolUse u)
    then show ?thesis
      using passes_textless [OF textless_and_then [OF r textless_tool_use [OF t]]] by simp
  qed (use th in \<open>auto simp: passes_def process_reasoning_content_def process_context_usage_def Let_def\<close>)
qed

lemma passes_run:
  assumes "ctx_inv c" and "\<not> thinking_enabled c"
  shows "passes (\<lambda>c. run (\<lambda>c e. process_kiro_event sd e c) c es) (concat (map event_texts es)) c"
  using assms
proof (induction es arbitrary: c)
  case Nil
  then show ?case by (simp add: passes_def)
next
  case (Cons e es)
  have e: "passes (process_kiro_event sd e) (event_texts e) c" by (rule passes_event [OF Cons.prems])
  let ?c = "fst (process_kiro_event sd e c)"
  have "ctx_inv ?c" by (rule ok_inv [OF ok_event [OF Cons.prems(1)]])
  moreover have "\<not> thinking_enabled ?c" using e Cons.prems(2) by (simp add: passes_def)
  ultimately have "passes (\<lambda>c. run (\<lambda>c e. process_kiro_event sd e c) c es) (concat (map event_texts es)) ?c"
    by (rule Cons.IH)
  from passes_and_then [OF e this] show ?case
    by (simp add: passes_def and_then_def case_prod_unfold)
qed

subsection \<open>The end of the stream\<close>

lemma textless_finish_tools: "textless (finish_tools sd) c"
  using textless_emit_all
  by (auto simp: textless_def finish_tools_def case_prod_unfold Let_def split: sum.split)

lemma finish_filter_text:
  assumes inv: "ctx_inv c" and th: "\<not> thinking_enabled c"
  shows "streamed_text (snd (finish_filter c)) = snd (leak_filter_finish (tool_use_xml_filter c))
    \<and> \<not> thinking_enabled (fst (finish_filter c))"
proof -
  have "ctx_inv (c\<lparr>tool_use_xml_filter := f, output_tokens := n\<rparr>)" for f n
    by (rule ctx_inv_cong [OF inv]) simp_all
  note d = create_text_delta_text [OF this]
  show ?thesis using th d by (simp add: finish_filter_def case_prod_unfold Let_def)
qed

lemma textless_manager_final: "textless manager_final c"
  by (simp add: textless_def manager_final_def on_manager_def case_prod_unfold sse_generate_final_events_def)

lemma textless_finish_stream:
  assumes "\<not> thinking_enabled c"
  shows "textless finish_stream c"
proof -
  have r: "textless close_reasoning_if_open c" by (rule textless_close_reasoning)
  let ?c = "fst (close_reasoning_if_open c)"
  have t: "\<not> thinking_enabled ?c" using r assms by (simp add: textless_def)
  have e: "textless (\<lambda>c. (c, [error_event err])) c'" for err c' by (simp add: textless_def)
  have n: "textless (and_then flush_thinking_buffer (and_then thinking_only manager_final)) ?c"
  proof (intro textless_and_then textless_manager_final)
    show "textless flush_thinking_buffer ?c" using t by (simp add: textless_def flush_thinking_buffer_def)
    have f: "fst (flush_thinking_buffer ?c) = ?c" using t by (simp add: flush_thinking_buffer_def)
    show "textless thinking_only (fst (flush_thinking_buffer ?c))"
      unfolding f using t by (simp add: textless_def thinking_only_def)
  qed
  show ?thesis
  proof (cases "tool_json_error c")
    case None
    then show ?thesis using textless_and_then [OF r n] by (simp add: textless_def finish_stream_def)
  next
    case (Some err)
    then show ?thesis
      using textless_and_then [OF r textless_and_then [OF textless_manager_final e [of err]]]
      by (simp add: textless_def finish_stream_def)
  qed
qed

lemma plain_stream_text:
  assumes "c = new_with_thinking ri rs mid mdl tokens False names\<lparr>cache_usage := u\<rparr>"
  shows "streamed_text (snd (stream_events sd c es)) = filter_stream (concat (map event_texts es))"
proof -
  let ?i = "fst (generate_initial_events c)"
  have inv: "ctx_inv ?i" using initial_inv [OF assms] by simp
  have "textless generate_initial_events c"
    by (simp add: textless_def generate_initial_events_def on_manager_def handle_message_start_def
        take_block_index_eq start_block_def case_prod_unfold)
  then have i: "streamed_text (snd (generate_initial_events c)) = []" "\<not> thinking_enabled ?i"
    "tool_use_xml_filter ?i = leak_filter_default"
    using assms by (simp_all add: textless_def new_with_thinking_def)
  let ?r = "\<lambda>c. run (\<lambda>c e. process_kiro_event sd e c) c es"
  have r: "passes ?r (concat (map event_texts es)) ?i" by (rule passes_run [OF inv i(2)])
  let ?c = "fst (?r ?i)"
  have c: "ctx_inv ?c" "\<not> thinking_enabled ?c"
    using ok_inv [OF ok_run [OF inv]] r i(2) by (simp_all add: passes_def)
  let ?t = "fst (finish_tools sd ?c)"
  have ft: "textless (finish_tools sd) ?c" by (rule textless_finish_tools)
  have t: "ctx_inv ?t" "\<not> thinking_enabled ?t" "tool_use_xml_filter ?t = tool_use_xml_filter ?c"
    using ok_inv [OF ok_finish_tools [OF c(1)]] ft c(2) by (simp_all add: textless_def)
  note ff = finish_filter_text [OF t(1,2)]
  have fs: "textless finish_stream (fst (finish_filter ?t))" using ff by (intro textless_finish_stream) simp
  have "streamed_text (snd (generate_final_events sd ?c)) = snd (leak_filter_finish (tool_use_xml_filter ?c))"
    using ft ff fs t(3) by (simp add: generate_final_events_def and_then_def case_prod_unfold textless_def)
  moreover have "run leak_filter_step leak_filter_default (concat (map event_texts es))
      = (tool_use_xml_filter ?c, streamed_text (snd (?r ?i)))"
    using r by (simp add: passes_def i(3))
  ultimately show ?thesis
    using i(1) by (simp add: stream_events_def and_then_def case_prod_unfold filter_stream_def)
qed

text \<open>C5: Without thinking the client reads the upstream's text, all of it and nothing else: the joined text deltas
  are what the markup filter makes of the joined texts of the events, no matter how they are cut into
  events and what tool calls, reasoning, usage reports and errors lie between them; text that follows a
  tool call, which closes the text block, goes to a new block and is not swallowed.\<close>

theorem stream_text_complete:
  assumes "c = new_with_thinking ri rs mid mdl tokens False names\<lparr>cache_usage := u\<rparr>"
  shows "streamed_text (snd (stream_events sd c es)) = filter_stream (concat (map event_texts es))"
  using assms by (rule plain_stream_text)

theorem stream_text_complete_witness:
  "streamed_text (snd (stream_events sample_serde (sample_context False)
      [AssistantResponse ''a <too'', ToolUse (fragment ''x'' '''' True), Code ''l> b'']))
    = filter_stream [''a <too'', ''l> b'']"
proof -
  have "sample_context False = (new_with_thinking (\<lambda>_ _. 0) (\<lambda>_ _. 0) ''msg_1'' ''claude-opus-4.6'' 10 False
      (hm_empty (\<lambda>_ _. 0)))\<lparr>cache_usage := cache_usage_default\<rparr>"
    by (simp add: sample_context_def new_with_thinking_def)
  from stream_text_complete [OF this] show ?thesis by simp
qed

subsection \<open>Two short streams\<close>

lemma start_tag_alone: "find_real_thinking_start_tag ''<thinking>'' = Some 0"
  by (simp add: find_real_thinking_start_tag_def find_unquoted.simps thinking_tag_def quoted_tag_def is_quote_char_def)

text \<open>
  A stream that ends right behind \<open><thinking>\<close>: the thinking block is stopped without the signature that
  a thinking block must carry, and a text block is opened while it is still open.
\<close>

lemma thinking_without_signature:
  "map sse_view (snd (stream_events sample_serde (sample_context True) [AssistantResponse ''<thinking>''])) =
    [VMessageStart, VBlockStart 0 ''thinking'', VBlockStart 1 ''text'', VBlockDelta 1 ''text_delta'',
     VBlockStop 0, VBlockStop 1, VMessageDelta, VMessageStop]"
proof -
  have f: "leak_filter_step \<lparr>lf_buffer = [], lf_stripping = False\<rparr> ''<thinking>'' =
      (\<lparr>lf_buffer = [], lf_stripping = False\<rparr>, ''<thinking>'')"
    by (simp add: leak_filter_step_def filter_loop.simps TOOL_USE_XML_PREFIX_def
      longest_tool_use_prefix_suffix_def is_char_boundary_def numeral_eq_Suc)
  have e: "find_real_thinking_end_tag_with_boundary [] = None"
    by (simp add: find_real_thinking_end_tag_with_boundary_def find_unquoted.simps thinking_tag_def)
  have b: "find_char_boundary [] 0 = 0" by (simp add: find_char_boundary_def)
  show ?thesis
    by (simp add: stream_events_def and_then_def sample_context_def new_with_thinking_def generate_initial_events_def
      on_manager_def handle_message_start_def sse_manager_new_def take_block_index_def next_block_index_def
      start_block_def handle_content_block_start_def hm_get_def hm_empty_def hm_insert_def block_state_new_def
      close_reasoning_if_open_def process_assistant_response_def Let_def f generate_final_events_def finish_tools_def
      process_content_with_thinking_def content_loop.simps content_step_def seek_thinking_def start_tag_alone nothing_def
      inside_thinking_def strip_leading_newline_def e b flush_thinking_buffer_def thinking_only_def
      has_non_thinking_blocks_def create_text_delta_events_def handle_content_block_delta_def text_delta_data_def
      accumulator_finish_def hm_iter_def set_stop_reason_def finish_filter_def leak_filter_finish_def
      leak_filter_default_def finish_stream_def manager_final_def resolved_usage_def split_against_total_def
      cache_usage_default_def sse_generate_final_events_def stop_where_def is_open_def hm_map_def error_event_def)
qed

text \<open>An unfinished tool input: the error event comes behind \<open>message_stop\<close>.\<close>

lemma error_behind_message_stop:
  "map sse_view (snd (stream_events sample_serde (sample_context False) [ToolUse (fragment ''a'' ''{'' False)])) =
    [VMessageStart, VBlockStart 0 ''text'', VBlockStop 0, VMessageDelta, VMessageStop, VError]"
proof -
  have nb: "\<not> is_blank ''{''" by code_simp
  have tg: "hm_get (hm_empty r) k = None" for r k by (simp add: hm_simps)
  show ?thesis
    by (simp add: stream_events_def and_then_def sample_context_def new_with_thinking_def generate_initial_events_def
      on_manager_def handle_message_start_def sse_manager_new_def take_block_index_def next_block_index_def
      start_block_def handle_content_block_start_def hm_get_def hm_empty_def hm_insert_def block_state_new_def
      close_reasoning_if_open_def process_tool_use_def flush_before_tool_def set_has_tool_use_def
      accumulator_push_def add_fragment_def Let_def fragment_def generate_final_events_def finish_tools_def
      accumulator_finish_def hm_iter_def nb set_stop_reason_def finish_filter_def leak_filter_finish_def
      leak_filter_default_def finish_stream_def manager_final_def resolved_usage_def split_against_total_def
      cache_usage_default_def sse_generate_final_events_def stop_where_def is_open_def hm_map_def error_event_def)
qed

end
