(* ===== verification/Buffered_Stream.thy ===== *)
theory Buffered_Stream imports Stream_Text begin

section \<open>Buffered streams (src/src/anthropic/stream.rs, BufferedStreamContext)\<close>

text \<open>
  The variant that keeps every event until the upstream's stream has ended and then writes the real
  token usage, which is only known at the end, into the first event.
\<close>

record buffered_context =
  inner :: stream_context
  event_buffer :: "sse_event list"
  initial_events_generated :: bool

definition buffered_new :: "stream_context \<Rightarrow> buffered_context" where
  "buffered_new c = \<lparr>inner = c, event_buffer = [], initial_events_generated = False\<rparr>"

definition set_cache_usage :: "Cache_Usage.cache_usage \<Rightarrow> buffered_context \<Rightarrow> buffered_context" where
  "set_cache_usage u b = b\<lparr>inner := (inner b)\<lparr>cache_usage := u\<rparr>\<rparr>"

definition ensure_initial :: "buffered_context \<Rightarrow> buffered_context" where
  "ensure_initial b =
    (if \<not> initial_events_generated b then
       (case generate_initial_events (inner b) of (c, es) \<Rightarrow>
          b\<lparr>inner := c, event_buffer := event_buffer b @ es, initial_events_generated := True\<rparr>)
     else b)"

definition process_and_buffer :: "serde \<Rightarrow> event \<Rightarrow> buffered_context \<Rightarrow> buffered_context" where
  "process_and_buffer sd e b =
    (let b = ensure_initial b in
     case process_kiro_event sd e (inner b) of
       (c, es) \<Rightarrow> b\<lparr>inner := c, event_buffer := event_buffer b @ es\<rparr>)"

text \<open>\<open>value["key"] = v\<close> on an object.\<close>

fun json_set :: "string \<Rightarrow> json \<Rightarrow> json \<Rightarrow> json" where
  "json_set k v (JObj kvs) = JObj (map_insert k v kvs)"
| "json_set k v j = j"

definition correct_usage :: "int \<times> int \<times> int \<Rightarrow> sse_event \<Rightarrow> sse_event" where
  "correct_usage u e =
    (if se_event e = ''message_start'' then
       (case json_get (se_data e) ''message'' of
          None \<Rightarrow> e
        | Some message \<Rightarrow>
            (case json_get message ''usage'' of
               None \<Rightarrow> e
             | Some usage \<Rightarrow>
                 (case u of (inp, creation, read) \<Rightarrow>
                    let usage = json_set ''cache_read_input_tokens'' (JInt read)
                          (json_set ''cache_creation_input_tokens'' (JInt creation)
                            (json_set ''input_tokens'' (JInt inp) usage))
                    in e\<lparr>se_data := json_set ''message'' (json_set ''usage'' usage message) (se_data e)\<rparr>)))
     else e)"

definition finish_and_get_all_events :: "serde \<Rightarrow> buffered_context \<Rightarrow> buffered_context \<times> sse_event list" where
  "finish_and_get_all_events sd b =
    (let b = ensure_initial b; u = resolved_usage (inner b) in
     case generate_final_events sd (inner b) of
       (c, es) \<Rightarrow> (b\<lparr>inner := c, event_buffer := []\<rparr>, map (correct_usage u) (event_buffer b @ es)))"

definition final_usage :: "buffered_context \<Rightarrow> int \<times> int \<times> int \<times> int \<times> rat" where
  "final_usage b =
    (case resolved_usage (inner b) of (inp, creation, read) \<Rightarrow>
       (inp, output_tokens (inner b), creation, read, credits (inner b)))"

text \<open>A whole buffered stream.\<close>

definition buffered_events :: "serde \<Rightarrow> stream_context \<Rightarrow> event list \<Rightarrow> buffered_context \<times> sse_event list" where
  "buffered_events sd c es = finish_and_get_all_events sd (fold (process_and_buffer sd) es (buffered_new c))"

lemma fold_process_and_buffer:
  assumes "initial_events_generated b"
  shows "fold (process_and_buffer sd) es b =
    b\<lparr>inner := fst (run (\<lambda>c e. process_kiro_event sd e c) (inner b) es),
      event_buffer := event_buffer b @ snd (run (\<lambda>c e. process_kiro_event sd e c) (inner b) es)\<rparr>"
  using assms
proof (induction es arbitrary: b)
  case (Cons e es)
  have s: "process_and_buffer sd e b = b\<lparr>inner := fst (process_kiro_event sd e (inner b)),
      event_buffer := event_buffer b @ snd (process_kiro_event sd e (inner b))\<rparr>"
    using Cons.prems by (simp add: process_and_buffer_def ensure_initial_def case_prod_unfold)
  have "initial_events_generated (process_and_buffer sd e b)" using Cons.prems by (simp add: s)
  from Cons.IH [OF this] show ?case by (simp add: s case_prod_unfold)
qed simp

lemma ensure_initial_fold:
  "ensure_initial (fold (process_and_buffer sd) es b) = fold (process_and_buffer sd) es (ensure_initial b)"
proof (induction es arbitrary: b)
  case (Cons e es)
  have i: "initial_events_generated (ensure_initial b)" by (simp add: ensure_initial_def case_prod_unfold)
  have "process_and_buffer sd e (ensure_initial b) = process_and_buffer sd e b"
    using i by (simp add: process_and_buffer_def ensure_initial_def [of "ensure_initial b"])
  moreover have "ensure_initial (process_and_buffer sd e b) = process_and_buffer sd e b"
    using i by (simp add: process_and_buffer_def ensure_initial_def [of "_\<lparr>inner := _\<rparr>"] case_prod_unfold ensure_initial_def)
  ultimately show ?case using Cons.IH [of "process_and_buffer sd e b"] by simp
qed simp

lemma view_correct_usage: "sse_view (correct_usage u e) = sse_view e"
  by (auto simp: correct_usage_def sse_view_def Let_def split: option.split prod.split)

lemma buffered_stream:
  "\<exists>u. snd (buffered_events sd c es) = map (correct_usage u) (snd (stream_events sd c es))
     \<and> u = resolved_usage (fst (run (\<lambda>c e. process_kiro_event sd e c) (fst (generate_initial_events c)) es))
     \<and> map sse_view (snd (buffered_events sd c es)) = map sse_view (snd (stream_events sd c es))
     \<and> event_buffer (fst (buffered_events sd c es)) = []"
proof -
  let ?i = "fst (generate_initial_events c)"
  let ?r = "run (\<lambda>c e. process_kiro_event sd e c) ?i es"
  let ?u = "resolved_usage (fst ?r)"
  have e: "ensure_initial (buffered_new c) = \<lparr>inner = ?i, event_buffer = snd (generate_initial_events c),
      initial_events_generated = True\<rparr>"
    by (simp add: ensure_initial_def buffered_new_def case_prod_unfold)
  have b: "ensure_initial (fold (process_and_buffer sd) es (buffered_new c)) =
      \<lparr>inner = fst ?r, event_buffer = snd (generate_initial_events c) @ snd ?r, initial_events_generated = True\<rparr>"
    unfolding ensure_initial_fold by (subst fold_process_and_buffer) (simp_all add: e)
  have s: "snd (buffered_events sd c es) = map (correct_usage ?u) (snd (stream_events sd c es))"
    by (simp add: buffered_events_def finish_and_get_all_events_def Let_def b case_prod_unfold stream_events_def and_then_def)
  moreover have "map sse_view (map (correct_usage ?u) xs) = map sse_view xs" for xs
    by (simp add: view_correct_usage)
  moreover have "event_buffer (fst (buffered_events sd c es)) = []"
    by (simp add: buffered_events_def finish_and_get_all_events_def Let_def case_prod_unfold)
  ultimately show ?thesis by (intro exI [of _ ?u]) simp
qed

text \<open>A buffered stream is the unbuffered one with the usage of the first event corrected: same events in the
  same order, of which the protocol sees no difference; the correction uses the usage at the end of the
  upstream's stream; nothing is left in the buffer, and with no upstream event at all the first events
  are still there.\<close>

theorem buffered_stream_same:
  "\<exists>u. snd (buffered_events sd c es) = map (correct_usage u) (snd (stream_events sd c es))
     \<and> u = resolved_usage (fst (run (\<lambda>c e. process_kiro_event sd e c) (fst (generate_initial_events c)) es))
     \<and> map sse_view (snd (buffered_events sd c es)) = map sse_view (snd (stream_events sd c es))
     \<and> event_buffer (fst (buffered_events sd c es)) = []"
  by (rule buffered_stream)

end
