(* ===== verification/Credentials.thy ===== *)
theory Credentials imports Text "HOL-Library.Multiset" begin

section \<open>Credentials (src/src/kiro/model/credentials.rs)\<close>

text \<open>
  A credential of the upstream, the normal form of its authentication method, the fallbacks for its
  region, proxy and profile, and which kind of account it belongs to. File access and JSON are not
  modelled: the loaded list is an argument.
\<close>

record credentials =
  cr_id :: "u64 option"
  access_token :: "string option"
  refresh_token :: "string option"
  profile_arn :: "string option"
  expires_at :: "string option"
  auth_method :: "string option"
  provider :: "string option"
  client_id :: "string option"
  client_secret :: "string option"
  start_url :: "string option"
  priority :: u32
  region :: "string option"
  auth_region :: "string option"
  api_region :: "string option"
  machine_id :: "string option"
  email :: "string option"
  subscription_title :: "string option"
  proxy_url :: "string option"
  proxy_username :: "string option"
  proxy_password :: "string option"
  cr_disabled :: bool
  kiro_api_key :: "string option"
  endpoint :: "string option"

definition credentials_default :: credentials where
  "credentials_default =
    \<lparr>cr_id = None, access_token = None, refresh_token = None, profile_arn = None, expires_at = None,
     auth_method = None, provider = None, client_id = None, client_secret = None, start_url = None,
     priority = 0, region = None, auth_region = None, api_region = None, machine_id = None, email = None,
     subscription_title = None, proxy_url = None, proxy_username = None, proxy_password = None,
     cr_disabled = False, kiro_api_key = None, endpoint = None\<rparr>"

text \<open>\<open>a.or(b)\<close>, \<open>o.map(p).unwrap_or(false)\<close>\<close>

definition or_else :: "'a option \<Rightarrow> 'a option \<Rightarrow> 'a option" where
  "or_else a b = (case a of Some x \<Rightarrow> Some x | None \<Rightarrow> b)"

definition some_and :: "('a \<Rightarrow> bool) \<Rightarrow> 'a option \<Rightarrow> bool" where
  "some_and p o' = (case o' of Some x \<Rightarrow> p x | None \<Rightarrow> False)"

subsection \<open>Profile ARNs\<close>

definition BUILDER_ID_PROFILE_ARN :: string where
  "BUILDER_ID_PROFILE_ARN = ''arn:aws:codewhisperer:us-east-1:638616132270:profile/AAAACCCCXXXX''"

definition SOCIAL_PROFILE_ARN :: string where
  "SOCIAL_PROFILE_ARN = ''arn:aws:codewhisperer:us-east-1:699475941385:profile/EHGA3GRVQMUK''"

definition ENTERPRISE_FALLBACK_SUFFIX :: string where
  "ENTERPRISE_FALLBACK_SUFFIX = '':610548660232:profile/VNECVYCYYAWN''"

definition is_placeholder_profile_arn :: "string \<Rightarrow> bool" where
  "is_placeholder_profile_arn arn = (arn = BUILDER_ID_PROFILE_ARN)"

definition is_enterprise_fallback_profile_arn :: "string \<Rightarrow> bool" where
  "is_enterprise_fallback_profile_arn arn = contains arn ENTERPRISE_FALLBACK_SUFFIX"

definition enterprise_fallback_profile_arn :: "string option \<Rightarrow> string" where
  "enterprise_fallback_profile_arn r =
    (let r1 = (if starts_with (case r of Some x \<Rightarrow> x | None \<Rightarrow> ''us-east-1'') ''eu-''
               then ''eu-central-1'' else ''us-east-1'')
     in ''arn:aws:codewhisperer:'' @ r1 @ ENTERPRISE_FALLBACK_SUFFIX)"

subsection \<open>The authentication method\<close>

definition canonicalize_auth_method_value :: "string \<Rightarrow> string" where
  "canonicalize_auth_method_value v =
    (if eq_ignore_ascii_case v ''builder-id'' \<or> eq_ignore_ascii_case v ''iam'' then ''idc''
     else if eq_ignore_ascii_case v ''api_key'' \<or> eq_ignore_ascii_case v ''apikey'' then ''api_key''
     else v)"

definition canonicalize_auth_method :: "credentials \<Rightarrow> credentials" where
  "canonicalize_auth_method c =
    (case auth_method c of
       None \<Rightarrow> c
     | Some m \<Rightarrow>
         let canonical = canonicalize_auth_method_value m in
         if canonical \<noteq> m then c\<lparr>auth_method := Some canonical\<rparr> else c)"

datatype credentials_config = Single credentials | Multiple "credentials list"

fun into_sorted_credentials :: "credentials_config \<Rightarrow> credentials list" where
  "into_sorted_credentials (Single cred) = [canonicalize_auth_method cred]"
| "into_sorted_credentials (Multiple creds) = map canonicalize_auth_method (sort_key priority creds)"

fun is_multiple :: "credentials_config \<Rightarrow> bool" where
  "is_multiple (Multiple _) = True"
| "is_multiple (Single _) = False"

subsection \<open>Fallbacks\<close>

text \<open>The configuration's own fallback is an argument.\<close>

definition effective_auth_region :: "string \<Rightarrow> credentials \<Rightarrow> string" where
  "effective_auth_region config_auth_region c =
    (case or_else (auth_region c) (region c) of Some r \<Rightarrow> r | None \<Rightarrow> config_auth_region)"

definition effective_api_region :: "string \<Rightarrow> credentials \<Rightarrow> string" where
  "effective_api_region config_api_region c =
    (case api_region c of Some r \<Rightarrow> r | None \<Rightarrow> config_api_region)"

record proxy_config =
  px_url :: string
  px_auth :: "(string \<times> string) option"

definition effective_proxy :: "proxy_config option \<Rightarrow> credentials \<Rightarrow> proxy_config option" where
  "effective_proxy global_proxy c =
    (case proxy_url c of
       Some url \<Rightarrow>
         if eq_ignore_ascii_case url ''direct'' then None
         else Some \<lparr>px_url = url,
                    px_auth = (case (proxy_username c, proxy_password c) of
                       (Some u, Some p) \<Rightarrow> Some (u, p) | _ \<Rightarrow> None)\<rparr>
     | None \<Rightarrow> global_proxy)"

definition effective_region_hint :: "credentials \<Rightarrow> string option" where
  "effective_region_hint c = or_else (or_else (api_region c) (region c)) (auth_region c)"

subsection \<open>Kinds of accounts\<close>

definition is_api_key_credential :: "credentials \<Rightarrow> bool" where
  "is_api_key_credential c \<longleftrightarrow> kiro_api_key c \<noteq> None \<or>
     some_and (\<lambda>m. eq_ignore_ascii_case m ''api_key'' \<or> eq_ignore_ascii_case m ''apikey'') (auth_method c)"

definition is_social_login :: "credentials \<Rightarrow> bool" where
  "is_social_login c \<longleftrightarrow>
     some_and (\<lambda>m. eq_ignore_ascii_case m ''social'') (auth_method c) \<or>
     some_and (\<lambda>p. eq_ignore_ascii_case p ''github'' \<or> eq_ignore_ascii_case p ''google'') (provider c)"

text \<open>\<open>url.trim().trim_end_matches('/')\<close>\<close>

definition normalized_url :: "string \<Rightarrow> string" where
  "normalized_url url = rev (dropWhile (\<lambda>ch. ch = CHR ''/'') (rev (trim url)))"

definition builder_id_start_url :: string where
  "builder_id_start_url = ''https://view.awsapps.com/start''"

definition is_enterprise_identity :: "credentials \<Rightarrow> bool" where
  "is_enterprise_identity c =
    (let has_enterprise_start_url =
           some_and (\<lambda>u. normalized_url u \<noteq> [] \<and> normalized_url u \<noteq> builder_id_start_url) (start_url c);
         has_builder_id_start_url = some_and (\<lambda>u. normalized_url u = builder_id_start_url) (start_url c);
         idc_without_builder_start_url =
           (some_and (\<lambda>m. eq_ignore_ascii_case m ''idc'') (auth_method c) \<and> \<not> has_builder_id_start_url)
     in some_and (\<lambda>m. eq_ignore_ascii_case m ''external_idp'' \<or> eq_ignore_ascii_case m ''enterprise'' \<or>
                      eq_ignore_ascii_case m ''iam_sso'') (auth_method c)
        \<or> some_and (\<lambda>p. eq_ignore_ascii_case p ''enterprise'' \<or> eq_ignore_ascii_case p ''iam_sso'') (provider c)
        \<or> idc_without_builder_start_url \<or> has_enterprise_start_url)"

definition should_fetch_enterprise_profile_arn :: "credentials \<Rightarrow> bool" where
  "should_fetch_enterprise_profile_arn c \<longleftrightarrow> is_enterprise_identity c \<and>
     (case profile_arn c of
        None \<Rightarrow> True
      | Some arn \<Rightarrow> is_placeholder_profile_arn arn \<or> is_enterprise_fallback_profile_arn arn)"

definition effective_profile_arn :: "credentials \<Rightarrow> string option" where
  "effective_profile_arn c =
    (case profile_arn c of
       Some arn \<Rightarrow> if \<not> is_placeholder_profile_arn arn then Some arn else None | None \<Rightarrow> None)"

definition default_profile_arn :: "string option \<Rightarrow> credentials \<Rightarrow> string" where
  "default_profile_arn enterprise_region c =
    (if is_social_login c then SOCIAL_PROFILE_ARN
     else if is_enterprise_identity c then enterprise_fallback_profile_arn enterprise_region
     else BUILDER_ID_PROFILE_ARN)"

definition fill_default_profile_arn_with_region :: "string option \<Rightarrow> credentials \<Rightarrow> credentials \<times> bool" where
  "fill_default_profile_arn_with_region default_region c =
    (if is_api_key_credential c then (c, False)
     else if some_and (\<lambda>arn. \<not> is_placeholder_profile_arn arn) (profile_arn c) then (c, False)
     else (c\<lparr>profile_arn := Some (default_profile_arn (or_else (effective_region_hint c) default_region) c)\<rparr>, True))"

definition streaming_profile_arn :: "credentials \<Rightarrow> string option" where
  "streaming_profile_arn c =
    (if is_api_key_credential c then None
     else or_else (profile_arn c) (Some (default_profile_arn (effective_region_hint c) c)))"

definition supports_opus :: "credentials \<Rightarrow> bool" where
  "supports_opus c =
    (case subscription_title c of Some title \<Rightarrow> \<not> contains (to_uppercase title) ''FREE'' | None \<Rightarrow> True)"

subsection \<open>Properties\<close>

lemma canonicalize_value_idem:
  "canonicalize_auth_method_value (canonicalize_auth_method_value v) = canonicalize_auth_method_value v"
proof -
  have "canonicalize_auth_method_value ''idc'' = ''idc''"
    and "canonicalize_auth_method_value ''api_key'' = ''api_key''" by code_simp+
  then show ?thesis
    by (cases "canonicalize_auth_method_value v = ''idc''"; cases "canonicalize_auth_method_value v = ''api_key''")
      (auto simp: canonicalize_auth_method_value_def)
qed

lemma canonicalize_priority [simp]: "priority (canonicalize_auth_method c) = priority c"
  by (simp add: canonicalize_auth_method_def Let_def split: option.split)

lemma canonicalize_idem: "canonicalize_auth_method (canonicalize_auth_method c) = canonicalize_auth_method c"
  by (auto simp: canonicalize_auth_method_def Let_def canonicalize_value_idem split: option.split)

lemma sort_key_filter: "filter (\<lambda>x. f x = k) (sort_key f xs) = filter (\<lambda>x. f x = k) xs"
  by (simp add: sort_key_stable)

text \<open>Loading a list of credentials sorts it by priority, lowest number first, keeps the file's order among
  equal priorities, changes nothing but the spelling of the authentication method, and is final:
  loading the result again gives the same list.\<close>

theorem sorted_credentials:
  "sorted (map priority (into_sorted_credentials (Multiple cs)))
   \<and> mset (into_sorted_credentials (Multiple cs)) = image_mset canonicalize_auth_method (mset cs)
   \<and> filter (\<lambda>c. priority c = p) (into_sorted_credentials (Multiple cs))
       = map canonicalize_auth_method (filter (\<lambda>c. priority c = p) cs)
   \<and> into_sorted_credentials (Multiple (into_sorted_credentials (Multiple cs))) = into_sorted_credentials (Multiple cs)"
proof (intro conjI)
  let ?s = "into_sorted_credentials (Multiple cs)"
  show s: "sorted (map priority ?s)" by (simp add: comp_def)
  show "mset ?s = image_mset canonicalize_auth_method (mset cs)" by simp
  show "filter (\<lambda>c. priority c = p) ?s = map canonicalize_auth_method (filter (\<lambda>c. priority c = p) cs)"
    by (simp add: filter_map comp_def sort_key_filter)
  show "into_sorted_credentials (Multiple ?s) = ?s"
    using s by (simp add: sorted_sort_id sort_key_id_if_sorted canonicalize_idem comp_def)
qed

text \<open>The default profile: an API key account never gets one, a profile that is not the placeholder is never
  overwritten, otherwise the account's kind decides it, nothing else of the credential changes, the
  streamed requests of an account without a profile name the same profile, and filling in twice with
  the same region gives what filling in once gives.\<close>

theorem default_profile_filled:
  "(snd (fill_default_profile_arn_with_region r c)
      \<longleftrightarrow> \<not> is_api_key_credential c \<and> effective_profile_arn c = None)
   \<and> fst (fill_default_profile_arn_with_region r c)
      = (if snd (fill_default_profile_arn_with_region r c)
         then c\<lparr>profile_arn := Some (default_profile_arn (or_else (effective_region_hint c) r) c)\<rparr> else c)
   \<and> fst (fill_default_profile_arn_with_region r (fst (fill_default_profile_arn_with_region r c)))
      = fst (fill_default_profile_arn_with_region r c)
   \<and> streaming_profile_arn (c\<lparr>profile_arn := None\<rparr>)
      = (if is_api_key_credential c then None
         else profile_arn (fst (fill_default_profile_arn_with_region None (c\<lparr>profile_arn := None\<rparr>))))"
proof -
  have k: "is_api_key_credential (c\<lparr>profile_arn := a\<rparr>) = is_api_key_credential c"
    "default_profile_arn x (c\<lparr>profile_arn := a\<rparr>) = default_profile_arn x c"
    "effective_region_hint (c\<lparr>profile_arn := a\<rparr>) = effective_region_hint c" for a x
    by (simp_all add: is_api_key_credential_def default_profile_arn_def is_social_login_def
        is_enterprise_identity_def effective_region_hint_def)
  show ?thesis
    by (auto simp: fill_default_profile_arn_with_region_def effective_profile_arn_def some_and_def k
        streaming_profile_arn_def or_else_def split: option.splits)
qed

text \<open>The normal form of the authentication method changes an account's kind: a Builder ID account without a
  start URL is no enterprise account as it is written in the file, and one after loading, so the default
  profile it gets is that of the enterprise fallback.\<close>

theorem builder_id_becomes_enterprise:
  assumes "auth_method c = Some m" and "eq_ignore_ascii_case m ''builder-id''"
    and "start_url c = None" and "provider c = None" and "kiro_api_key c = None" and "profile_arn c = None"
  shows "\<not> is_enterprise_identity c \<and> is_enterprise_identity (canonicalize_auth_method c)
    \<and> profile_arn (fst (fill_default_profile_arn_with_region r c)) = Some BUILDER_ID_PROFILE_ARN
    \<and> profile_arn (fst (fill_default_profile_arn_with_region r (canonicalize_auth_method c)))
        = Some (enterprise_fallback_profile_arn (or_else (effective_region_hint c) r))"
proof -
  have ne: "map ascii_lower ''builder-id'' \<noteq> map ascii_lower x"
    if "x \<in> {''external_idp'', ''enterprise'', ''iam_sso'', ''idc'', ''social'', ''api_key'', ''apikey''}" for x
    using that by (elim insertE emptyE; hypsubst; code_simp)
  have m: "map ascii_lower m = map ascii_lower ''builder-id''"
    using assms(2) by (simp only: eq_ignore_ascii_case_def)
  have no: "\<not> eq_ignore_ascii_case m x"
    if "x \<in> {''external_idp'', ''enterprise'', ''iam_sso'', ''idc'', ''social'', ''api_key'', ''apikey''}" for x
    unfolding eq_ignore_ascii_case_def m using ne [OF that] by simp
  have idc: "eq_ignore_ascii_case ''idc'' ''idc''" "\<not> eq_ignore_ascii_case ''idc'' ''social''"
    "\<not> eq_ignore_ascii_case ''idc'' ''api_key''" "\<not> eq_ignore_ascii_case ''idc'' ''apikey''"
    by code_simp+
  have "m \<noteq> ''idc''" using no [of "''idc''"] idc(1) by auto
  then have c: "canonicalize_auth_method c = c\<lparr>auth_method := Some ''idc''\<rparr>"
    using assms(1,2) by (simp add: canonicalize_auth_method_def canonicalize_auth_method_value_def)
  show ?thesis
    using assms no idc
    by (simp add: c is_enterprise_identity_def some_and_def fill_default_profile_arn_with_region_def
        is_api_key_credential_def default_profile_arn_def is_social_login_def effective_region_hint_def)
qed

theorem builder_id_becomes_enterprise_witness:
  "is_enterprise_identity (canonicalize_auth_method (credentials_default\<lparr>auth_method := Some ''builder-id''\<rparr>))"
proof -
  have "eq_ignore_ascii_case ''builder-id'' ''builder-id''" by (simp add: eq_ignore_ascii_case_def)
  then show ?thesis
    using builder_id_becomes_enterprise [of "credentials_default\<lparr>auth_method := Some ''builder-id''\<rparr>" "''builder-id''"]
    by (simp add: credentials_default_def)
qed

end
