(* ===== verification/Machine_Id.thy ===== *)
theory Machine_Id imports Credentials begin

section \<open>Device fingerprints (src/src/kiro/machine_id.rs)\<close>

text \<open>
  The machine id sent with every upstream request. SHA-256 and the random seed of the fallback are
  arguments; the process-wide cache of fallback ids is an explicit map, so that two calls for the
  same credential can be compared.
\<close>

definition is_ascii_hexdigit :: "char \<Rightarrow> bool" where
  "is_ascii_hexdigit c \<longleftrightarrow>
     48 \<le> byte_of c \<and> byte_of c \<le> 57 \<or> 65 \<le> byte_of c \<and> byte_of c \<le> 70 \<or> 97 \<le> byte_of c \<and> byte_of c \<le> 102"

definition normalize_machine_id :: "string \<Rightarrow> string option" where
  "normalize_machine_id s =
    (let trimmed = trim s;
         without_dashes = filter (\<lambda>c. c \<noteq> CHR ''-'') trimmed
     in if length trimmed = 64 \<and> list_all is_ascii_hexdigit trimmed then Some trimmed
        else if length without_dashes = 32 \<and> list_all is_ascii_hexdigit without_dashes
        then Some (without_dashes @ without_dashes)
        else None)"

type_synonym id_cache = "u64 option \<Rightarrow> string option"

definition fallback_machine_id ::
  "(string \<Rightarrow> string) \<Rightarrow> string \<Rightarrow> credentials \<Rightarrow> id_cache \<Rightarrow> string \<times> id_cache" where
  "fallback_machine_id sha256_hex seed c cache =
    (case cache (cr_id c) of
       Some existing \<Rightarrow> (existing, cache)
     | None \<Rightarrow> (let derived = sha256_hex (''KiroFallback/'' @ seed) in (derived, cache(cr_id c \<mapsto> derived))))"

text \<open>\<open>cfg\<close> is the machine id of the configuration, \<open>config.machine_id\<close>.\<close>

definition generate_from_credentials ::
  "(string \<Rightarrow> string) \<Rightarrow> string \<Rightarrow> string option \<Rightarrow> credentials \<Rightarrow> id_cache \<Rightarrow> string \<times> id_cache" where
  "generate_from_credentials sha256_hex seed cfg c cache =
    (case Option.bind (machine_id c) normalize_machine_id of
       Some n \<Rightarrow> (n, cache)
     | None \<Rightarrow>
    (case Option.bind cfg normalize_machine_id of
       Some n \<Rightarrow> (n, cache)
     | None \<Rightarrow>
    (if is_api_key_credential c then
       (case kiro_api_key c of
          Some k \<Rightarrow> if k \<noteq> [] then (sha256_hex (''KiroAPIKey/'' @ k), cache)
                    else fallback_machine_id sha256_hex seed c cache
        | None \<Rightarrow> fallback_machine_id sha256_hex seed c cache)
     else
       (case refresh_token c of
          Some t \<Rightarrow> if t \<noteq> [] then (sha256_hex (''KotlinNativeAPI/'' @ t), cache)
                    else fallback_machine_id sha256_hex seed c cache
        | None \<Rightarrow> fallback_machine_id sha256_hex seed c cache))))"

subsection \<open>Properties\<close>

definition is_machine_id :: "string \<Rightarrow> bool" where
  "is_machine_id s \<longleftrightarrow> length s = 64 \<and> list_all is_ascii_hexdigit s"

lemma normalize_is_machine_id: "normalize_machine_id s = Some n \<Longrightarrow> is_machine_id n"
  by (auto simp: normalize_machine_id_def is_machine_id_def Let_def split: if_splits)

lemma fallback_cached:
  "fallback_machine_id h seed c cache = (m, cache') \<Longrightarrow> fst (fallback_machine_id h seed' c cache') = m"
  by (auto simp: fallback_machine_id_def Let_def split: option.splits)

text \<open>Every machine id is 64 hexadecimal digits, whatever the credential and the configuration hold and in
  whatever order credentials were asked for, and within a process the same credential always gets the
  same one, whatever seed the second call would draw.\<close>

theorem machine_id_stable:
  assumes "\<And>x. is_machine_id (sha256_hex x)" and "\<And>k v. cache k = Some v \<Longrightarrow> is_machine_id v"
    and "generate_from_credentials sha256_hex seed cfg c cache = (m, cache')"
  shows "is_machine_id m \<and> fst (generate_from_credentials sha256_hex seed' cfg c cache') = m
    \<and> (\<forall>k v. cache' k = Some v \<longrightarrow> is_machine_id v)"
proof -
  consider (norm) "cache' = cache" "is_machine_id m" "fst (generate_from_credentials sha256_hex seed' cfg c cache') = m"
    | (fallback) "fallback_machine_id sha256_hex seed c cache = (m, cache')"
      "generate_from_credentials sha256_hex seed' cfg c cache' = fallback_machine_id sha256_hex seed' c cache'"
    using assms(1,3)
    by (auto simp: generate_from_credentials_def normalize_is_machine_id bind_eq_Some_conv
        split: option.splits if_splits)
  then show ?thesis
  proof cases
    case norm
    then show ?thesis using assms(2) by blast
  next
    case fallback
    then have "is_machine_id m" "\<forall>k v. cache' k = Some v \<longrightarrow> is_machine_id v"
      using assms(1,2) by (auto simp: fallback_machine_id_def Let_def split: option.splits if_splits)
    then show ?thesis using fallback fallback_cached by metis
  qed
qed

theorem machine_id_stable_witness:
  "fst (generate_from_credentials (\<lambda>_. replicate 64 (CHR ''a'')) ''seed'' None credentials_default Map.empty)
    = replicate 64 (CHR ''a'')
   \<and> is_machine_id (replicate 64 (CHR ''a''))"
proof -
  let ?a = "replicate 64 (CHR ''a'')"
  have h: "is_machine_id ?a" by (simp add: is_machine_id_def list_all_iff is_ascii_hexdigit_def byte_of_def)
  have g: "generate_from_credentials (\<lambda>_. ?a) ''seed'' None credentials_default Map.empty = (?a, [None \<mapsto> ?a])"
    by (simp add: generate_from_credentials_def credentials_default_def is_api_key_credential_def
        some_and_def fallback_machine_id_def Let_def)
  from machine_id_stable [OF _ _ g] h have "is_machine_id ?a" by auto
  with g show ?thesis by simp
qed

end
