(* ===== verification/Retry_Policy.thy ===== *)
theory Retry_Policy imports Prelude begin

section \<open>Retry policies (src/src/model/config.rs, src/src/kiro/provider.rs)\<close>

text \<open>
  How the provider retries a rate limited request: the presets, the check of a custom policy, the
  number of attempts and the delay before each. The jitter's random number is an argument.
  \<open>Duration\<close>s are in milliseconds.
\<close>

datatype retry_mode = Turbo | Fast | Balanced | Steady | Polite | Custom

definition retry_mode_to_string :: "retry_mode \<Rightarrow> string" where
  "retry_mode_to_string m =
    (case m of Turbo \<Rightarrow> ''turbo'' | Fast \<Rightarrow> ''fast'' | Balanced \<Rightarrow> ''balanced''
     | Steady \<Rightarrow> ''steady'' | Polite \<Rightarrow> ''polite'' | Custom \<Rightarrow> ''custom'')"

definition retry_mode_from_str :: "string \<Rightarrow> retry_mode option" where
  "retry_mode_from_str v =
    (if v = ''turbo'' then Some Turbo else if v = ''fast'' then Some Fast
     else if v = ''balanced'' then Some Balanced else if v = ''steady'' then Some Steady
     else if v = ''polite'' then Some Polite else if v = ''custom'' then Some Custom else None)"

record retry_policy =
  rate_limit_cooldown_ms :: u64
  max_request_retries :: u64
  base_backoff_ms :: u64
  max_backoff_ms :: u64
  credential_switch_on_429 :: bool
  respect_retry_after :: bool

fun preset :: "retry_mode \<Rightarrow> retry_policy" where
  "preset Turbo = \<lparr>rate_limit_cooldown_ms = 1000, max_request_retries = 12, base_backoff_ms = 100,
     max_backoff_ms = 1000, credential_switch_on_429 = True, respect_retry_after = False\<rparr>"
| "preset Fast = \<lparr>rate_limit_cooldown_ms = 3000, max_request_retries = 9, base_backoff_ms = 200,
     max_backoff_ms = 2000, credential_switch_on_429 = True, respect_retry_after = False\<rparr>"
| "preset Balanced = \<lparr>rate_limit_cooldown_ms = 10000, max_request_retries = 9, base_backoff_ms = 500,
     max_backoff_ms = 5000, credential_switch_on_429 = True, respect_retry_after = False\<rparr>"
| "preset Steady = \<lparr>rate_limit_cooldown_ms = 30000, max_request_retries = 6, base_backoff_ms = 1000,
     max_backoff_ms = 10000, credential_switch_on_429 = True, respect_retry_after = True\<rparr>"
| "preset Polite = \<lparr>rate_limit_cooldown_ms = 60000, max_request_retries = 4, base_backoff_ms = 2000,
     max_backoff_ms = 30000, credential_switch_on_429 = False, respect_retry_after = True\<rparr>"
| "preset Custom = \<lparr>rate_limit_cooldown_ms = 3000, max_request_retries = 9, base_backoff_ms = 200,
     max_backoff_ms = 2000, credential_switch_on_429 = True, respect_retry_after = False\<rparr>"

datatype policy_error = MissingPolicy | BadCooldown | BadRetries | BadBaseBackoff | BadMaxBackoff

definition validate :: "retry_policy \<Rightarrow> policy_error option" where
  "validate p =
    (if \<not> (500 \<le> rate_limit_cooldown_ms p \<and> rate_limit_cooldown_ms p \<le> 120000) then Some BadCooldown
     else if \<not> (1 \<le> max_request_retries p \<and> max_request_retries p \<le> 30) then Some BadRetries
     else if \<not> (50 \<le> base_backoff_ms p \<and> base_backoff_ms p \<le> 30000) then Some BadBaseBackoff
     else if max_backoff_ms p < base_backoff_ms p \<or> max_backoff_ms p > 120000 then Some BadMaxBackoff
     else None)"

definition effective :: "retry_mode \<Rightarrow> retry_policy option \<Rightarrow> policy_error + retry_policy" where
  "effective mode custom =
    (case (if mode = Custom then (case custom of None \<Rightarrow> Inl MissingPolicy | Some p \<Rightarrow> Inr p) else Inr (preset mode)) of
       Inl e \<Rightarrow> Inl e
     | Inr p \<Rightarrow> (case validate p of Some e \<Rightarrow> Inl e | None \<Rightarrow> Inr p))"

subsection \<open>Attempts and delays\<close>

definition MAX_TOTAL_RETRIES :: u64 where
  "MAX_TOTAL_RETRIES = 30"

text \<open>\<open>saturating_mul\<close>, \<open>saturating_pow\<close> and \<open>saturating_add\<close> on 64 bits\<close>

definition saturate :: "nat \<Rightarrow> u64" where
  "saturate n = (if n < 2 ^ 64 then of_nat n else - 1)"

definition max_retries :: "u64 \<Rightarrow> retry_policy \<Rightarrow> u64" where
  "max_retries total_credentials p =
    min (max total_credentials 1 * max_request_retries p) MAX_TOTAL_RETRIES"

definition backoff :: "nat \<Rightarrow> retry_policy \<Rightarrow> u64" where
  "backoff attempt p =
    min (saturate (unat (base_backoff_ms p) * unat (saturate (2 ^ min attempt 6)))) (max_backoff_ms p)"

text \<open>\<open>fastrand::u64(0..=jitter_max)\<close> is the random number \<open>r\<close> reduced to the range.\<close>

definition retry_delay :: "nat \<Rightarrow> nat \<Rightarrow> retry_policy \<Rightarrow> u64" where
  "retry_delay r attempt p =
    (let b = backoff attempt p;
         jitter_max = max (b div 4) 1;
         jitter = of_nat (r mod (unat jitter_max + 1)) :: u64
     in saturate (unat b + unat jitter))"

subsection \<open>Properties\<close>

lemma unat_max_word_64: "unat (- 1 :: u64) = 2 ^ 64 - 1"
  by (simp add: unsigned_minus_1_eq_mask mask_eq_exp_minus_1)

lemma unat_saturate: "unat (saturate n) = min n (2 ^ 64 - 1)"
  by (simp add: saturate_def unat_of_nat unat_max_word_64 take_bit_eq_mod)

lemma unat_min: "unat (min a b :: u64) = min (unat a) (unat b)"
  by (simp add: min_def word_le_nat_alt)

lemma unat_max: "unat (max a b :: u64) = max (unat a) (unat b)"
  by (simp add: max_def word_le_nat_alt)

lemma preset_valid: "validate (preset m) = None"
  by (cases m) (simp_all add: validate_def)

lemma retry_mode_roundtrip: "retry_mode_from_str (retry_mode_to_string m) = Some m"
  by (cases m) (simp_all add: retry_mode_from_str_def retry_mode_to_string_def)

lemma effective_valid: "effective m c = Inr p \<Longrightarrow> validate p = None"
  by (auto simp: effective_def split: option.splits sum.splits if_splits)

lemma unat_backoff:
  "unat (backoff n p) = min (unat (base_backoff_ms p) * 2 ^ min n 6) (unat (max_backoff_ms p))"
proof -
  have "(2::nat) ^ min n 6 \<le> 2 ^ 6" by (rule power_increasing) simp_all
  then have s: "min (2 ^ min n 6) 18446744073709551615 = (2::nat) ^ min n 6" by simp
  have "unat (max_backoff_ms p) \<le> 2 ^ 64 - 1" using unsigned_less [of "max_backoff_ms p", where ?'a = nat] by simp
  then show ?thesis by (simp add: backoff_def unat_min unat_saturate s)
qed

lemma div_4_64: "unat (b div 4 :: u64) = unat b div 4"
  by (simp add: unat_div)

lemma unat_of_nat_le: "n \<le> unat (w :: u64) \<Longrightarrow> unat (of_nat n :: u64) \<le> unat w"
  by (simp add: unat_of_nat take_bit_eq_mod)

lemma jitter_bound: "unat (of_nat (r mod (unat (max (b div 4) 1 :: u64) + 1)) :: u64) \<le> max (unat b div 4) 1"
proof -
  have "r mod (unat (max (b div 4) 1 :: u64) + 1) \<le> unat (max (b div 4) 1 :: u64)"
    by (metis Suc_eq_plus1 less_Suc_eq_le mod_less_divisor zero_less_Suc)
  then have "unat (of_nat (r mod (unat (max (b div 4) 1 :: u64) + 1)) :: u64) \<le> unat (max (b div 4) 1 :: u64)"
    by (rule unat_of_nat_le)
  then show ?thesis by (simp add: unat_max div_4_64)
qed

text \<open>Of every policy the provider can run with (a preset or an accepted custom one): the number of
  attempts is at least one and at most thirty, whatever the number of credentials (up to 2^58, where the
  product cannot wrap); the delay before a retry is never below the base nor above five quarters of the
  policy's maximum, does not overflow, and before its jitter it never shrinks from one attempt to the next.\<close>

theorem retries_bounded:
  assumes "effective mode custom = Inr p" and "creds < 2 ^ 58"
  shows "1 \<le> max_retries creds p \<and> max_retries creds p \<le> 30
    \<and> unat (base_backoff_ms p) \<le> unat (retry_delay r n p)
    \<and> unat (retry_delay r n p) \<le> unat (max_backoff_ms p) + unat (max_backoff_ms p) div 4
    \<and> backoff n p \<le> backoff (Suc n) p"
proof -
  let ?b = "unat (base_backoff_ms p)" and ?m = "unat (max_backoff_ms p)" and ?r = "unat (max_request_retries p)"
  have v: "?b \<ge> 50 \<and> ?b \<le> ?m \<and> ?m \<le> 120000 \<and> 1 \<le> ?r \<and> ?r \<le> 30"
    using effective_valid [OF assms(1)]
    by (auto simp: validate_def word_le_nat_alt word_less_nat_alt split: if_splits)
  have t: "unat creds < 2 ^ 58" using assms(2) by (simp add: word_less_nat_alt)
  define c where "c = max (unat creds) 1"
  have c: "1 \<le> c" "c < 2 ^ 58" using t by (auto simp: c_def)
  have prod: "c * ?r < 2 ^ 64"
  proof -
    have "c * ?r \<le> 2 ^ 58 * 30" using c v by (intro mult_le_mono) simp_all
    then show ?thesis by simp
  qed
  have "unat (max creds 1 * max_request_retries p) = c * ?r"
    using prod by (simp add: unat_word_ariths unat_max c_def)
  then have mr: "unat (max_retries creds p) = min (c * ?r) 30"
    by (simp add: max_retries_def unat_min MAX_TOTAL_RETRIES_def)
  have "1 \<le> c * ?r" using c v by simp
  then have 1: "1 \<le> max_retries creds p" "max_retries creds p \<le> 30"
    using mr by (simp_all add: word_le_nat_alt)
  have p1: "(1::nat) \<le> 2 ^ min n 6" by simp
  have lo: "?b \<le> unat (backoff n p)" using v p1 by (simp add: unat_backoff)
  have hi: "unat (backoff n p) \<le> ?m" by (simp add: unat_backoff)
  define j where "j = unat (of_nat (r mod (unat (max (backoff n p div 4) 1) + 1)) :: u64)"
  have j: "j \<le> max (unat (backoff n p) div 4) 1" unfolding j_def by (rule jitter_bound)
  have j': "j \<le> ?m div 4" using j div_le_mono [OF hi, of 4] v by linarith
  have d: "unat (retry_delay r n p) = unat (backoff n p) + j"
  proof -
    have "unat (backoff n p) + j \<le> 150000" using hi j' v by linarith
    then show ?thesis by (simp add: retry_delay_def Let_def unat_saturate j_def)
  qed
  have "(2::nat) ^ min n 6 \<le> 2 ^ min (Suc n) 6" by (rule power_increasing) simp_all
  then have "unat (backoff n p) \<le> unat (backoff (Suc n) p)"
    unfolding unat_backoff by (intro min.mono mult_le_mono) simp_all
  then show ?thesis using 1 lo hi j' d by (simp add: word_le_nat_alt)
qed

theorem retries_bounded_witness:
  "effective Polite None = Inr (preset Polite)
   \<and> 1 \<le> max_retries 3 (preset Polite) \<and> max_retries 3 (preset Polite) \<le> 30
   \<and> unat (retry_delay 7 5 (preset Polite)) \<le> unat (max_backoff_ms (preset Polite)) + unat (max_backoff_ms (preset Polite)) div 4"
proof -
  have e: "effective Polite None = Inr (preset Polite)"
    by (simp add: effective_def preset_valid del: preset.simps)
  have "(3::u64) < 2 ^ 58" by simp
  from retries_bounded [OF e this, of 7 5] e show ?thesis by (simp del: preset.simps)
qed

end
