(* ===== verification/Credential_Pool.thy ===== *)
theory Credential_Pool imports Machine_Id Retry_Policy begin

section \<open>The credential pool (src/src/kiro/token_manager.rs)\<close>

text \<open>
  The state of the token manager, how it is written to its files, which credential serves the next
  request, and what the provider reports back about a request. Every mutex of the program is a field
  of one record: an operation of the model runs with all locks held. The world outside is an argument
  of each operation: \<open>outside\<close> holds the clocks and what becomes of the writes to the files. A point of
  the monotonic clock (\<open>Instant\<close>) is a number of nanoseconds.
\<close>

subsection \<open>The state\<close>

definition MAX_FAILURES_PER_CREDENTIAL :: u32 where
  "MAX_FAILURES_PER_CREDENTIAL = 3"

definition STATS_SAVE_DEBOUNCE :: nat where
  "STATS_SAVE_DEBOUNCE = 30 * 1000000000"

datatype disabled_reason = Manual | TooManyFailures | TooManyRefreshFailures | QuotaExceeded
  | InvalidRefreshToken | InvalidConfig

record credential_entry =
  ce_id :: u64
  ce_credentials :: credentials
  failure_count :: u32
  total_failure_count :: u64
  refresh_failure_count :: u32
  ce_disabled :: bool
  ce_disabled_reason :: "disabled_reason option"
  success_count :: u64
  last_used_at :: "string option"
  throttled_until :: "nat option"
  rate_limited_until :: "nat option"

record stats_entry =
  st_success_count :: u64
  st_total_failure_count :: u64
  st_last_used_at :: "string option"

text \<open>The fields of the configuration that the manager reads or writes.\<close>

record config =
  cf_region :: string
  cf_auth_region :: "string option"
  cf_api_region :: "string option"
  cf_machine_id :: "string option"
  cf_has_path :: bool
  cf_load_balancing_mode :: string
  cf_retry_mode :: retry_mode
  cf_retry_policy :: "retry_policy option"
  cf_throttle_failover :: bool
  cf_throttle_cooldown_secs :: u64

definition config_api_region :: "config \<Rightarrow> string" where
  "config_api_region cf = (case cf_api_region cf of Some r \<Rightarrow> r | None \<Rightarrow> cf_region cf)"

definition config_auth_region :: "config \<Rightarrow> string" where
  "config_auth_region cf = (case cf_auth_region cf of Some r \<Rightarrow> r | None \<Rightarrow> cf_region cf)"

text \<open>
  The manager, and what its three files hold: the credentials file as it would be parsed (\<open>None\<close>:
  there is none or it is no JSON of that type), the statistics by credential id, and the
  configuration file. The path of the credentials file always has a parent directory.
\<close>

type_synonym stats = "u64 \<Rightarrow> stats_entry option"

record manager =
  mg_config :: config
  mg_proxy :: "proxy_config option"
  mg_entries :: "credential_entry list"
  mg_current_id :: u64
  mg_has_path :: bool
  mg_multiple_format :: bool
  mg_load_balancing_mode :: string
  mg_retry_mode :: retry_mode
  mg_retry_policy :: "retry_policy option"
  mg_throttle_failover :: bool
  mg_throttle_cooldown_secs :: u64
  mg_last_stats_save :: "nat option"
  mg_stats_dirty :: bool
  mg_fetch_attempted :: "u64 set"
  mg_file :: "credentials_config option"
  mg_stats_file :: "stats option"
  mg_config_file :: "config option"

text \<open>A write of a file succeeds, or fails and leaves something behind.\<close>

datatype 'f write_result = Written | Failed 'f

record outside =
  ev_now :: nat
  ev_stamp :: string
  ev_write :: "credentials_config option write_result"
  ev_stats_write :: "stats option write_result"
  ev_config_write :: "config option write_result"

datatype token_error = MissingToken | EmptyToken | TruncatedToken

datatype manager_error = NoCredential u64 | PersistFailed | ConfigReloadFailed | NotDisabled u64
  | ConfigInvalid u64 | DuplicateIds "u64 list" | MissingApiKey | EmptyApiKey | DuplicateApiKey
  | DuplicateRefreshToken | BadRefreshToken token_error | InvalidMode string | InvalidCooldown u64
  | BadRetryPolicy policy_error | InvalidOverageStatus

subsection \<open>Entries\<close>

definition find_entry :: "u64 \<Rightarrow> manager \<Rightarrow> credential_entry option" where
  "find_entry cid m = find (\<lambda>e. ce_id e = cid) (mg_entries m)"

definition update_entry :: "u64 \<Rightarrow> (credential_entry \<Rightarrow> credential_entry) \<Rightarrow> manager \<Rightarrow> manager" where
  "update_entry cid f m = m\<lparr>mg_entries := update_first (\<lambda>e. ce_id e = cid) f (mg_entries m)\<rparr>"

definition any_enabled :: "manager \<Rightarrow> bool" where
  "any_enabled m = list_ex (\<lambda>e. \<not> ce_disabled e) (mg_entries m)"

text \<open>\<open>until.map(|t| t > now).unwrap_or(false)\<close>\<close>

definition cooling :: "nat \<Rightarrow> nat option \<Rightarrow> bool" where
  "cooling now until = (case until of Some t \<Rightarrow> now < t | None \<Rightarrow> False)"

definition cooldown_remaining_ms :: "nat \<Rightarrow> nat option \<Rightarrow> nat option" where
  "cooldown_remaining_ms now until =
    (case until of
       Some t \<Rightarrow> if now < t then Some (min ((t - now) div 1000000) (2 ^ 64 - 1)) else None
     | None \<Rightarrow> None)"

definition is_available :: "nat \<Rightarrow> credential_entry \<Rightarrow> bool" where
  "is_available now e \<longleftrightarrow> \<not> ce_disabled e \<and> \<not> cooling now (throttled_until e) \<and> \<not> cooling now (rate_limited_until e)"

definition total_count :: "manager \<Rightarrow> nat" where
  "total_count m = length (mg_entries m)"

definition available_count :: "nat \<Rightarrow> manager \<Rightarrow> nat" where
  "available_count now m = length (filter (is_available now) (mg_entries m))"

text \<open>The shortest remaining cooldown after a rate limit, in nanoseconds.\<close>

definition next_rate_limit_delay :: "nat \<Rightarrow> manager \<Rightarrow> nat option" where
  "next_rate_limit_delay now m =
    min_by_key id
      (map (\<lambda>e. the (rate_limited_until e) - now)
        (filter (\<lambda>e. \<not> ce_disabled e \<and> cooling now (rate_limited_until e)) (mg_entries m)))"

subsection \<open>Files\<close>

definition entry_for_file :: "credential_entry \<Rightarrow> credentials" where
  "entry_for_file e = (canonicalize_auth_method (ce_credentials e))\<lparr>cr_disabled := ce_disabled e\<rparr>"

text \<open>\<open>Ok(true)\<close> written, \<open>Ok(false)\<close> nothing to write to, \<open>Err\<close> the write failed.\<close>

definition persist_credentials :: "outside \<Rightarrow> manager \<Rightarrow> manager \<times> (manager_error + bool)" where
  "persist_credentials ev m =
    (if \<not> mg_multiple_format m then (m, Inr False)
     else if \<not> mg_has_path m then (m, Inr False)
     else (case ev_write ev of
             Written \<Rightarrow> (m\<lparr>mg_file := Some (Multiple (map entry_for_file (mg_entries m)))\<rparr>, Inr True)
           | Failed left \<Rightarrow> (m\<lparr>mg_file := left\<rparr>, Inl PersistFailed)))"

text \<open>\<open>self.persist_credentials()?; Ok(v)\<close>\<close>

definition persist_or :: "outside \<Rightarrow> 'a \<Rightarrow> manager \<Rightarrow> manager \<times> (manager_error + 'a)" where
  "persist_or ev v m =
    (case persist_credentials ev m of (m, Inl e) \<Rightarrow> (m, Inl e) | (m, Inr _) \<Rightarrow> (m, Inr v))"

definition load_stats :: "outside \<Rightarrow> manager \<Rightarrow> manager" where
  "load_stats ev m =
    (if \<not> mg_has_path m then m
     else (case mg_stats_file m of
             None \<Rightarrow> m
           | Some st \<Rightarrow>
               m\<lparr>mg_entries := map (\<lambda>e. case st (ce_id e) of
                     Some s \<Rightarrow> e\<lparr>success_count := st_success_count s,
                                total_failure_count := st_total_failure_count s,
                                last_used_at := st_last_used_at s\<rparr>
                   | None \<Rightarrow> e) (mg_entries m),
                 mg_last_stats_save := Some (ev_now ev), mg_stats_dirty := False\<rparr>))"

definition stats_of_entry :: "credential_entry \<Rightarrow> stats_entry" where
  "stats_of_entry e = \<lparr>st_success_count = success_count e, st_total_failure_count = total_failure_count e,
     st_last_used_at = last_used_at e\<rparr>"

text \<open>Collecting pairs into a hash map keeps the last value of a key.\<close>

definition collect_stats :: "credential_entry list \<Rightarrow> stats" where
  "collect_stats es = map_of (rev (map (\<lambda>e. (ce_id e, stats_of_entry e)) es))"

definition save_stats :: "outside \<Rightarrow> manager \<Rightarrow> manager" where
  "save_stats ev m =
    (if \<not> mg_has_path m then m
     else (case ev_stats_write ev of
             Written \<Rightarrow> m\<lparr>mg_stats_file := Some (collect_stats (mg_entries m)),
                         mg_last_stats_save := Some (ev_now ev), mg_stats_dirty := False\<rparr>
           | Failed left \<Rightarrow> m\<lparr>mg_stats_file := left\<rparr>))"

definition save_stats_debounced :: "outside \<Rightarrow> manager \<Rightarrow> manager" where
  "save_stats_debounced ev m =
    (let m = m\<lparr>mg_stats_dirty := True\<rparr>;
         should_flush = (case mg_last_stats_save m of
           Some last_saved_at \<Rightarrow> STATS_SAVE_DEBOUNCE \<le> ev_now ev - last_saved_at | None \<Rightarrow> True)
     in if should_flush then save_stats ev m else m)"

text \<open>\<open>drop\<close>: what is not written yet is written when the manager goes away.\<close>

definition drop_manager :: "outside \<Rightarrow> manager \<Rightarrow> manager" where
  "drop_manager ev m = (if mg_stats_dirty m then save_stats ev m else m)"

subsection \<open>Selection\<close>

definition is_opus :: "string option \<Rightarrow> bool" where
  "is_opus model = (case model of Some m \<Rightarrow> contains (to_lowercase m) ''opus'' | None \<Rightarrow> False)"

definition eligible :: "nat \<Rightarrow> string option \<Rightarrow> credential_entry \<Rightarrow> bool" where
  "eligible now model e \<longleftrightarrow> is_available now e \<and> \<not> (is_opus model \<and> \<not> supports_opus (ce_credentials e))"

definition entry_priority :: "credential_entry \<Rightarrow> u32" where
  "entry_priority e = priority (ce_credentials e)"

definition select_next_credential :: "nat \<Rightarrow> string option \<Rightarrow> manager \<Rightarrow> (u64 \<times> credentials) option" where
  "select_next_credential now model m =
    (let available = filter (eligible now model) (mg_entries m) in
     if available = [] then None
     else if mg_load_balancing_mode m = ''balanced''
     then map_option (\<lambda>e. (ce_id e, ce_credentials e))
            (min_by_key (\<lambda>e. (success_count e, entry_priority e)) available)
     else map_option (\<lambda>e. (ce_id e, ce_credentials e)) (min_by_key entry_priority available))"

text \<open>The enabled entry with the smallest priority number, cooling or not, becomes the current one.\<close>

definition best_enabled :: "manager \<Rightarrow> credential_entry option" where
  "best_enabled m = min_by_key entry_priority (filter (\<lambda>e. \<not> ce_disabled e) (mg_entries m))"

definition select_highest_priority :: "manager \<Rightarrow> manager" where
  "select_highest_priority m =
    (case best_enabled m of
       Some best \<Rightarrow> if ce_id best \<noteq> mg_current_id m then m\<lparr>mg_current_id := ce_id best\<rparr> else m
     | None \<Rightarrow> m)"

definition switch_to_best :: "manager \<Rightarrow> manager \<times> bool" where
  "switch_to_best m =
    (case best_enabled m of Some next \<Rightarrow> (m\<lparr>mg_current_id := ce_id next\<rparr>, True) | None \<Rightarrow> (m, False))"

definition switch_to_next :: "manager \<Rightarrow> manager \<times> bool" where
  "switch_to_next m =
    (case min_by_key entry_priority (filter (\<lambda>e. \<not> ce_disabled e \<and> ce_id e \<noteq> mg_current_id m) (mg_entries m)) of
       Some next \<Rightarrow> (m\<lparr>mg_current_id := ce_id next\<rparr>, True)
     | None \<Rightarrow> (m, list_ex (\<lambda>e. ce_id e = mg_current_id m \<and> \<not> ce_disabled e) (mg_entries m)))"

subsection \<open>Reports\<close>

definition report_success :: "outside \<Rightarrow> u64 \<Rightarrow> manager \<Rightarrow> manager" where
  "report_success ev cid m =
    save_stats_debounced ev
      (update_entry cid (\<lambda>e. e\<lparr>failure_count := 0, refresh_failure_count := 0,
         success_count := success_count e + 1, last_used_at := Some (ev_stamp ev),
         throttled_until := None, rate_limited_until := None\<rparr>) m)"

definition report_failure :: "outside \<Rightarrow> u64 \<Rightarrow> manager \<Rightarrow> manager \<times> bool" where
  "report_failure ev cid m =
    (case find_entry cid m of
       None \<Rightarrow> (m, any_enabled m)
     | Some e \<Rightarrow>
         if ce_disabled e then (m, any_enabled m)
         else
           let m = update_entry cid (\<lambda>e. e\<lparr>failure_count := failure_count e + 1,
                     total_failure_count := total_failure_count e + 1,
                     last_used_at := Some (ev_stamp ev)\<rparr>) m;
               m = (if MAX_FAILURES_PER_CREDENTIAL \<le> failure_count e + 1
                    then fst (switch_to_best (update_entry cid
                           (\<lambda>e. e\<lparr>ce_disabled := True, ce_disabled_reason := Some TooManyFailures\<rparr>) m))
                    else m)
           in (save_stats_debounced ev m, any_enabled m))"

definition report_quota_exhausted :: "outside \<Rightarrow> u64 \<Rightarrow> manager \<Rightarrow> manager \<times> bool" where
  "report_quota_exhausted ev cid m =
    (case find_entry cid m of
       None \<Rightarrow> (m, any_enabled m)
     | Some e \<Rightarrow>
         if ce_disabled e then (m, any_enabled m)
         else
           (case switch_to_best (update_entry cid (\<lambda>e. e\<lparr>ce_disabled := True,
                   ce_disabled_reason := Some QuotaExceeded, last_used_at := Some (ev_stamp ev),
                   failure_count := MAX_FAILURES_PER_CREDENTIAL,
                   total_failure_count := total_failure_count e + 1\<rparr>) m) of
              (m, result) \<Rightarrow> (save_stats_debounced ev m, result)))"

text \<open>Below the limit the operation returns early: the statistics are not marked as changed.\<close>

definition report_refresh_failure :: "outside \<Rightarrow> u64 \<Rightarrow> manager \<Rightarrow> manager \<times> bool" where
  "report_refresh_failure ev cid m =
    (case find_entry cid m of
       None \<Rightarrow> (m, any_enabled m)
     | Some e \<Rightarrow>
         if ce_disabled e then (m, any_enabled m)
         else
           let m = update_entry cid (\<lambda>e. e\<lparr>last_used_at := Some (ev_stamp ev),
                     refresh_failure_count := refresh_failure_count e + 1\<rparr>) m in
           if refresh_failure_count e + 1 < MAX_FAILURES_PER_CREDENTIAL then (m, any_enabled m)
           else
             (case switch_to_best (update_entry cid (\<lambda>e. e\<lparr>ce_disabled := True,
                     ce_disabled_reason := Some TooManyRefreshFailures\<rparr>) m) of
                (m, result) \<Rightarrow> (save_stats_debounced ev m, result)))"

definition report_refresh_token_invalid :: "outside \<Rightarrow> u64 \<Rightarrow> manager \<Rightarrow> manager \<times> bool" where
  "report_refresh_token_invalid ev cid m =
    (case find_entry cid m of
       None \<Rightarrow> (m, any_enabled m)
     | Some e \<Rightarrow>
         if ce_disabled e then (m, any_enabled m)
         else
           (case switch_to_best (update_entry cid (\<lambda>e. e\<lparr>last_used_at := Some (ev_stamp ev),
                   ce_disabled := True, ce_disabled_reason := Some InvalidRefreshToken\<rparr>) m) of
              (m, result) \<Rightarrow> (save_stats_debounced ev m, result)))"

text \<open>The later of two ends of a cooldown.\<close>

definition extend_cooldown :: "nat \<Rightarrow> nat option \<Rightarrow> nat option" where
  "extend_cooldown until prev =
    Some (case prev of Some p \<Rightarrow> if until < p then p else until | None \<Rightarrow> until)"

definition report_account_throttled :: "outside \<Rightarrow> u64 \<Rightarrow> nat \<Rightarrow> manager \<Rightarrow> manager \<times> nat" where
  "report_account_throttled ev cid cooldown m =
    (let m = update_entry cid (\<lambda>e. e\<lparr>
               throttled_until := extend_cooldown (ev_now ev + cooldown) (throttled_until e),
               total_failure_count := total_failure_count e + 1\<rparr>) m
     in (m, length (filter (\<lambda>e. \<not> ce_disabled e \<and> \<not> cooling (ev_now ev) (throttled_until e)) (mg_entries m))))"

definition other_available :: "nat \<Rightarrow> u64 \<Rightarrow> credential_entry \<Rightarrow> bool" where
  "other_available now cid e \<longleftrightarrow> \<not> ce_disabled e \<and> ce_id e \<noteq> cid
     \<and> cooldown_remaining_ms now (throttled_until e) = None
     \<and> cooldown_remaining_ms now (rate_limited_until e) = None"

definition report_rate_limited :: "outside \<Rightarrow> u64 \<Rightarrow> nat \<Rightarrow> manager \<Rightarrow> manager \<times> bool" where
  "report_rate_limited ev cid cooldown m =
    (let m = update_entry cid (\<lambda>e. e\<lparr>
               rate_limited_until := extend_cooldown (ev_now ev + cooldown) (rate_limited_until e),
               total_failure_count := total_failure_count e + 1\<rparr>) m;
         others = filter (other_available (ev_now ev) cid) (mg_entries m);
         m = (if mg_current_id m = cid
              then (case min_by_key entry_priority others of
                      Some next \<Rightarrow> m\<lparr>mg_current_id := ce_id next\<rparr> | None \<Rightarrow> m)
              else m)
     in (m, others \<noteq> []))"

end
