(* ===== verification/Endpoints.thy ===== *)
theory Endpoints imports Credential_Pool Json begin

section \<open>Upstream endpoints (src/src/kiro/endpoint)\<close>

text \<open>
  The two endpoints a credential can use: where a request goes, its headers, what is changed in its
  body, and how a failed reply is classified. The parser and printer of JSON are the argument
  \<open>serde\<close>. A credential and a token reach the request only through \<open>request_context\<close>.
\<close>

datatype endpoint_kind = Ide | Cli

text \<open>The fields of the configuration that only name the client.\<close>

record client_config =
  cl_system_version :: string
  cl_node_version :: string
  cl_kiro_version :: string

record request_context =
  rc_credentials :: credentials
  rc_token :: string
  rc_machine_id :: string
  rc_config :: config
  rc_client :: client_config

type_synonym header_list = "(string \<times> string) list"

definition endpoint_name :: "endpoint_kind \<Rightarrow> string" where
  "endpoint_name k = (case k of Ide \<Rightarrow> ''ide'' | Cli \<Rightarrow> ''cli'')"

definition content_type :: "endpoint_kind \<Rightarrow> string" where
  "content_type k = (case k of Ide \<Rightarrow> ''application/json'' | Cli \<Rightarrow> ''application/x-amz-json-1.0'')"

definition api_region_of :: "request_context \<Rightarrow> string" where
  "api_region_of ctx = effective_api_region (config_api_region (rc_config ctx)) (rc_credentials ctx)"

definition host :: "endpoint_kind \<Rightarrow> request_context \<Rightarrow> string" where
  "host k ctx =
    (case k of
       Ide \<Rightarrow> ''q.'' @ api_region_of ctx @ ''.amazonaws.com''
     | Cli \<Rightarrow> ''runtime.'' @ api_region_of ctx @ ''.kiro.dev'')"

definition api_url :: "endpoint_kind \<Rightarrow> request_context \<Rightarrow> string" where
  "api_url k ctx =
    (case k of
       Ide \<Rightarrow> ''https://q.'' @ api_region_of ctx @ ''.amazonaws.com/generateAssistantResponse''
     | Cli \<Rightarrow> ''https://runtime.'' @ api_region_of ctx @ ''.kiro.dev/'')"

definition mcp_url :: "request_context \<Rightarrow> string" where
  "mcp_url ctx = ''https://q.'' @ api_region_of ctx @ ''.amazonaws.com/mcp''"

text \<open>\<open>latest\<close> is the version of the client that the program has looked up, when it has.\<close>

definition effective_version :: "string option \<Rightarrow> string \<Rightarrow> string" where
  "effective_version latest fallback = (case latest of Some v \<Rightarrow> v | None \<Rightarrow> fallback)"

definition x_amz_user_agent :: "endpoint_kind \<Rightarrow> string option \<Rightarrow> request_context \<Rightarrow> string" where
  "x_amz_user_agent k latest ctx =
    (case k of
       Ide \<Rightarrow> ''aws-sdk-js/1.0.34 KiroIDE-'' @ effective_version latest (cl_kiro_version (rc_client ctx))
              @ ''-'' @ rc_machine_id ctx
     | Cli \<Rightarrow> ''aws-sdk-rust/1.3.15 ua/2.1 api/codewhispererstreaming/0.1.16551 os/''
              @ cl_system_version (rc_client ctx) @ '' lang/rust/1.92.0 m/F app/AmazonQ-For-CLI'')"

definition user_agent :: "endpoint_kind \<Rightarrow> string option \<Rightarrow> request_context \<Rightarrow> string" where
  "user_agent k latest ctx =
    (case k of
       Ide \<Rightarrow> ''aws-sdk-js/1.0.34 ua/2.1 os/'' @ cl_system_version (rc_client ctx)
              @ '' lang/js md/nodejs#'' @ cl_node_version (rc_client ctx)
              @ '' api/codewhispererstreaming#1.0.34 m/E KiroIDE-''
              @ effective_version latest (cl_kiro_version (rc_client ctx)) @ ''-'' @ rc_machine_id ctx
     | Cli \<Rightarrow> ''aws-sdk-rust/1.3.15 ua/2.1 api/codewhispererstreaming/0.1.16551 os/''
              @ cl_system_version (rc_client ctx) @ '' lang/rust/1.92.0 md/appVersion-''
              @ cl_kiro_version (rc_client ctx) @ '' app/AmazonQ-For-CLI'')"

text \<open>The headers both kinds of requests end with; \<open>invocation\<close> is a random id.\<close>

definition common_headers :: "endpoint_kind \<Rightarrow> string option \<Rightarrow> string \<Rightarrow> request_context \<Rightarrow> header_list" where
  "common_headers k latest invocation ctx =
    [(''x-amz-user-agent'', x_amz_user_agent k latest ctx), (''user-agent'', user_agent k latest ctx),
     (''host'', host k ctx), (''amz-sdk-invocation-id'', invocation),
     (''amz-sdk-request'', ''attempt=1; max=3''), (''Authorization'', ''Bearer '' @ rc_token ctx)]"

definition token_type :: "request_context \<Rightarrow> header_list" where
  "token_type ctx = (if is_api_key_credential (rc_credentials ctx) then [(''tokentype'', ''API_KEY'')] else [])"

definition decorate_api :: "endpoint_kind \<Rightarrow> string option \<Rightarrow> string \<Rightarrow> request_context \<Rightarrow> header_list" where
  "decorate_api k latest invocation ctx =
    (case k of
       Ide \<Rightarrow> [(''x-amzn-codewhisperer-optout'', ''true''), (''x-amzn-kiro-agent-mode'', ''vibe'')]
     | Cli \<Rightarrow> [(''x-amz-target'', ''AmazonCodeWhispererStreamingService.GenerateAssistantResponse''),
              (''x-amzn-codewhisperer-optout'', ''false'')])
    @ common_headers k latest invocation ctx @ token_type ctx"

definition decorate_mcp :: "endpoint_kind \<Rightarrow> string option \<Rightarrow> string \<Rightarrow> request_context \<Rightarrow> header_list" where
  "decorate_mcp k latest invocation ctx =
    common_headers k latest invocation ctx
    @ (case effective_profile_arn (rc_credentials ctx) of
         Some arn \<Rightarrow> [(''x-amzn-kiro-profile-arn'', arn)] | None \<Rightarrow> [])
    @ token_type ctx"

subsection \<open>The body of a request\<close>

text \<open>\<open>get_mut(k)\<close> followed by a change of what it finds: a value that is no object or has no such key stays.\<close>

fun json_update :: "string \<Rightarrow> (json \<Rightarrow> json) \<Rightarrow> json \<Rightarrow> json" where
  "json_update k f (JObj kvs) =
    (case map_of kvs k of Some v \<Rightarrow> JObj (map_insert k (f v) kvs) | None \<Rightarrow> JObj kvs)"
| "json_update k f j = j"

text \<open>\<open>json[k] = v\<close>: a null becomes an object, any other value that is no object panics (\<open>None\<close>).\<close>

fun json_index_set :: "string \<Rightarrow> json \<Rightarrow> json \<Rightarrow> json option" where
  "json_index_set k v (JObj kvs) = Some (JObj (map_insert k v kvs))"
| "json_index_set k v JNull = Some (JObj [(k, v)])"
| "json_index_set k v j = None"

text \<open>The result is \<open>None\<close> when the program panics. A value of this type can always be printed.\<close>

definition inject_profile_arn :: "serde \<Rightarrow> string \<Rightarrow> string option \<Rightarrow> string option" where
  "inject_profile_arn sd body arn =
    (case from_str sd body of
       Inl _ \<Rightarrow> Some body
     | Inr j \<Rightarrow>
         (case arn of
            None \<Rightarrow> Some body
          | Some a \<Rightarrow> map_option (to_str sd) (json_index_set ''profileArn'' (JStr a) j)))"

definition adaptive_thinking :: json where
  "adaptive_thinking = JObj [(''type'', JStr ''adaptive''), (''display'', JStr ''summarized'')]"

definition inject_ide_thinking_fields :: "serde \<Rightarrow> string \<Rightarrow> string" where
  "inject_ide_thinking_fields sd body =
    (case from_str sd body of
       Inl _ \<Rightarrow> body
     | Inr j \<Rightarrow>
         (case json_get j ''additionalModelRequestFields'' of
            Some (JObj fs) \<Rightarrow>
              if map_of fs ''output_config'' = None \<or> map_of fs ''thinking'' \<noteq> None then body
              else to_str sd (json_update ''additionalModelRequestFields''
                     (\<lambda>_. JObj (map_insert ''thinking'' adaptive_thinking fs)) j)
          | _ \<Rightarrow> body))"

fun json_remove :: "string \<Rightarrow> json \<Rightarrow> json" where
  "json_remove k (JObj kvs) = JObj (AList.delete k kvs)"
| "json_remove k j = j"

definition strip_unsupported_cli_model_fields :: "json \<Rightarrow> json" where
  "strip_unsupported_cli_model_fields j =
    (case json_get j ''additionalModelRequestFields'' of
       Some (JObj fs) \<Rightarrow>
         let rest = AList.delete ''thinking'' fs in
         if rest = [] then json_remove ''additionalModelRequestFields'' j
         else json_update ''additionalModelRequestFields'' (\<lambda>_. JObj rest) j
     | _ \<Rightarrow> j)"

definition set_user_input_for_cli :: "json \<Rightarrow> json" where
  "set_user_input_for_cli uim = json_update ''origin'' (\<lambda>_. JStr ''KIRO_CLI'') uim"

fun json_map_array :: "(json \<Rightarrow> json) \<Rightarrow> json \<Rightarrow> json" where
  "json_map_array f (JArr xs) = JArr (map f xs)"
| "json_map_array f j = j"

definition rewrite_origin_and_model :: "json \<Rightarrow> json" where
  "rewrite_origin_and_model j =
    json_update ''conversationState''
      (\<lambda>state. json_update ''history'' (json_map_array (json_update ''userInputMessage'' set_user_input_for_cli))
        (json_update ''currentMessage'' (json_update ''userInputMessage'' set_user_input_for_cli) state)) j"

definition rewrite_cli_body :: "serde \<Rightarrow> string \<Rightarrow> string" where
  "rewrite_cli_body sd body =
    (case from_str sd body of
       Inl _ \<Rightarrow> body
     | Inr j \<Rightarrow> to_str sd (strip_unsupported_cli_model_fields (rewrite_origin_and_model j)))"

definition transform_api_body :: "endpoint_kind \<Rightarrow> serde \<Rightarrow> request_context \<Rightarrow> string \<Rightarrow> string option" where
  "transform_api_body k sd ctx body =
    inject_profile_arn sd
      (case k of Ide \<Rightarrow> inject_ide_thinking_fields sd body | Cli \<Rightarrow> rewrite_cli_body sd body)
      (streaming_profile_arn (rc_credentials ctx))"

subsection \<open>What a failed reply means\<close>

definition QUOTA_EXHAUSTED_REASONS :: "string list" where
  "QUOTA_EXHAUSTED_REASONS = [''MONTHLY_REQUEST_COUNT'', ''OVERAGE_REQUEST_LIMIT_EXCEEDED'']"

definition CLIENT_VALIDATION_REASONS :: "string list" where
  "CLIENT_VALIDATION_REASONS = [''TOOL_USE_RESULT_MISMATCH'', ''TOOL_SCHEMA_INVALID'']"

text \<open>The fields \<open>reason\<close> and \<open>error.reason\<close>, when they are texts.\<close>

definition reasons_of :: "json \<Rightarrow> string list" where
  "reasons_of j =
    concat (map (\<lambda>r. case r of Some s \<Rightarrow> [s] | None \<Rightarrow> [])
      [Option.bind (json_get j ''reason'') json_as_str,
       Option.bind (Option.bind (json_get j ''error'') (\<lambda>e. json_get e ''reason'')) json_as_str])"

definition is_monthly_request_limit :: "serde \<Rightarrow> string \<Rightarrow> bool" where
  "is_monthly_request_limit sd body =
    (if list_ex (contains body) QUOTA_EXHAUSTED_REASONS
     then (case from_str sd body of
             Inr j \<Rightarrow> list_ex (\<lambda>r. r \<in> set QUOTA_EXHAUSTED_REASONS) (reasons_of j)
           | Inl _ \<Rightarrow> True)
     else False)"

definition is_bearer_token_invalid :: "string \<Rightarrow> bool" where
  "is_bearer_token_invalid body = contains body ''The bearer token included in the request is invalid''"

definition is_account_throttled :: "string \<Rightarrow> bool" where
  "is_account_throttled body \<longleftrightarrow> contains body ''suspicious activity'' \<and> contains body ''temporary limits''"

definition is_gateway_timeout :: "string \<Rightarrow> bool" where
  "is_gateway_timeout body \<longleftrightarrow>
    (let lower = map ascii_lower body in
     contains body ''524'' \<and>
     (contains lower ''status code'' \<or> contains lower ''gateway timeout'' \<or> contains lower ''server-side issue''))"

definition is_client_validation_error :: "serde \<Rightarrow> string \<Rightarrow> bool" where
  "is_client_validation_error sd body \<longleftrightarrow>
    (list_ex (contains body) CLIENT_VALIDATION_REASONS
       \<and> (case from_str sd body of
            Inr j \<Rightarrow> list_ex (\<lambda>r. r \<in> set CLIENT_VALIDATION_REASONS) (reasons_of j)
          | Inl _ \<Rightarrow> True))
    \<or> contains body ''Expected toolResult blocks''"

end
