(* ===== verification/Numbers.thy ===== *)
theory Numbers imports Text Cache_Usage "HOL-Library.Log_Nat" begin

section \<open>Numbers: decimal text, binary floating point\<close>

text \<open>
  The number formats of the Rust standard library that several components use: \<open>str::parse\<close> for the
  unsigned integer types, saturating arithmetic and the casts between integers, and the IEEE types
  \<open>f32\<close> and \<open>f64\<close> as the rationals they denote, where every operation rounds its exact result to the
  precision of the type (nearest, ties to even). The program only forms floats far from the ends of
  the exponent range, so infinities and subnormal numbers are left out.
\<close>

subsection \<open>Decimal text\<close>

definition is_decimal :: "char \<Rightarrow> bool" where
  "is_decimal c \<longleftrightarrow> 48 \<le> byte_of c \<and> byte_of c \<le> 57"

text \<open>\<open>parse()\<close> to an unsigned type of \<open>w\<close> bits: digits after an optional plus sign.\<close>

definition parse_uint :: "nat \<Rightarrow> string \<Rightarrow> nat option" where
  "parse_uint w s =
    (let ds = (case s of c # r \<Rightarrow> if c = CHR ''+'' then r else s | [] \<Rightarrow> []);
         n = fold (\<lambda>c n. n * 10 + (byte_of c - 48)) ds 0
     in if ds = [] \<or> \<not> list_all is_decimal ds \<or> 2 ^ w \<le> n then None else Some n)"

subsection \<open>Saturation and casts\<close>

definition saturating_add_u32 :: "nat \<Rightarrow> nat \<Rightarrow> nat" where
  "saturating_add_u32 a b = min (a + b) (2 ^ 32 - 1)"

text \<open>\<open>v as i32\<close> for a \<open>u32\<close> value.\<close>

definition as_i32 :: "nat \<Rightarrow> int" where
  "as_i32 n = (int n + 2 ^ 31) mod 2 ^ 32 - 2 ^ 31"

lemma as_i32_id: "n < 2 ^ 31 \<Longrightarrow> as_i32 n = int n"
  by (simp add: as_i32_def)

subsection \<open>Floating point\<close>

definition pow2 :: "int \<Rightarrow> rat" where
  "pow2 e = (if 0 \<le> e then 2 ^ nat e else 1 / 2 ^ nat (- e))"

definition round_even :: "rat \<Rightarrow> int" where
  "round_even y =
    (let k = \<lfloor>y\<rfloor>; d = y - of_int k
     in if d < 1 / 2 \<or> (d = 1 / 2 \<and> even k) then k else k + 1)"

text \<open>The exponent of a positive number: the \<open>e\<close> with \<open>2^e \<le> r < 2^(e+1)\<close>.\<close>

definition exponent :: "rat \<Rightarrow> int" where
  "exponent r =
    (case quotient_of r of (p, q) \<Rightarrow>
       let e = int (floorlog 2 (nat p)) - int (floorlog 2 (nat q))
       in if pow2 e \<le> r then e else e - 1)"

text \<open>The nearest number with \<open>p\<close> significant bits, for numbers that are not negative.\<close>

definition fl :: "nat \<Rightarrow> rat \<Rightarrow> rat" where
  "fl p r =
    (if r \<le> 0 then 0
     else let u = pow2 (exponent r - int p + 1) in of_int (round_even (r / u)) * u)"

abbreviation f32 :: "rat \<Rightarrow> rat" where "f32 \<equiv> fl 24"
abbreviation f64 :: "rat \<Rightarrow> rat" where "f64 \<equiv> fl 53"

text \<open>\<open>x as u32\<close> for a float that is not negative.\<close>

definition float_as_u32 :: "rat \<Rightarrow> nat" where
  "float_as_u32 r = min (nat \<lfloor>r\<rfloor>) (2 ^ 32 - 1)"

lemma pow2_powi: "pow2 e = 2 powi e"
  by (simp add: pow2_def power_int_def power_one_over inverse_eq_divide)

lemma pow2_pos [simp]: "0 < pow2 e"
  by (simp add: pow2_def)

lemma pow2_nonzero [simp]: "pow2 e \<noteq> 0"
  using pow2_pos [of e] by linarith

lemma pow2_add: "pow2 (a + b) = pow2 a * pow2 b"
  by (simp add: pow2_powi power_int_add)

lemma round_even_error: "\<bar>of_int (round_even y) - y\<bar> \<le> 1 / 2"
proof -
  define d where "d = y - of_int \<lfloor>y\<rfloor>"
  have d: "0 \<le> d" "d < 1" by (simp_all add: d_def) linarith
  have y: "y = of_int \<lfloor>y\<rfloor> + d" by (simp add: d_def)
  show ?thesis
  proof (cases "d < 1 / 2 \<or> (d = 1 / 2 \<and> even \<lfloor>y\<rfloor>)")
    case True
    then have "round_even y = \<lfloor>y\<rfloor>" by (simp add: round_even_def Let_def d_def)
    with True d y show ?thesis by linarith
  next
    case False
    then have "round_even y = \<lfloor>y\<rfloor> + 1" by (auto simp add: round_even_def Let_def d_def)
    moreover from False have "1 / 2 \<le> d" by linarith
    ultimately show ?thesis using d y by (simp add: abs_le_iff)
  qed
qed

lemma exponent_le:
  assumes "0 < r"
  shows "pow2 (exponent r) \<le> r"
proof -
  obtain p q where pq: "quotient_of r = (p, q)" by (cases "quotient_of r")
  then have q: "0 < q" and r: "r = of_int p / of_int q"
    by (auto dest: quotient_of_denom_pos quotient_of_div)
  with assms have p: "0 < p" by (simp add: zero_less_divide_iff)
  let ?a = "floorlog 2 (nat p)" and ?b = "floorlog 2 (nat q)"
  from p floorlog_bounds [of "nat p" 2] have "2 ^ (?a - 1) \<le> nat p" by simp
  then have lo: "(2::int) ^ (?a - 1) \<le> p" using p by (simp add: le_nat_iff)
  from q floorlog_bounds [of "nat q" 2] have "nat q < 2 ^ ?b" by simp
  then have hi: "q < (2::int) ^ ?b" using q by (simp add: nat_less_iff)
  from p have a: "0 < ?a" by (simp add: floorlog_def)
  have "pow2 (int ?a - int ?b - 1) = 2 ^ (?a - 1) / 2 ^ ?b"
  proof -
    from a have "int ?a - int ?b - 1 = int (?a - 1) + - int ?b" by simp
    then have "pow2 (int ?a - int ?b - 1) = pow2 (int (?a - 1)) * pow2 (- int ?b)"
      by (simp only: pow2_add)
    then show ?thesis by (simp add: pow2_def)
  qed
  also have "\<dots> \<le> of_int p / of_int q"
  proof (rule frac_le)
    show "(2 :: rat) ^ (?a - 1) \<le> of_int p" using lo by (metis of_int_le_iff of_int_numeral of_int_power)
    show "rat_of_int q \<le> 2 ^ ?b" using hi by (metis less_imp_le of_int_le_iff of_int_numeral of_int_power)
  qed (use p q in auto)
  finally have "pow2 (int ?a - int ?b - 1) \<le> r" by (simp add: r)
  then show ?thesis by (auto simp: exponent_def pq Let_def)
qed

lemma fl_error:
  assumes "0 \<le> r"
  shows "\<bar>fl p r - r\<bar> \<le> r * pow2 (- int p)"
proof (cases "r = 0")
  case True
  then show ?thesis by (simp add: fl_def)
next
  case False
  with assms have r: "0 < r" by simp
  let ?u = "pow2 (exponent r - int p + 1)"
  have "?u = pow2 (exponent r) * (2 * pow2 (- int p))"
    using pow2_add [of "exponent r" "1 + - int p"] pow2_add [of 1 "- int p"]
    by (simp add: pow2_def [of 1] algebra_simps)
  moreover have "pow2 (exponent r) * (2 * pow2 (- int p)) \<le> r * (2 * pow2 (- int p))"
    by (rule mult_right_mono [OF exponent_le [OF r]]) (simp add: less_imp_le)
  ultimately have u: "?u \<le> 2 * (r * pow2 (- int p))" by simp
  have "\<bar>fl p r - r\<bar> = \<bar>(of_int (round_even (r / ?u)) - r / ?u) * ?u\<bar>"
    using r by (simp add: fl_def Let_def algebra_simps)
  also have "\<dots> = \<bar>of_int (round_even (r / ?u)) - r / ?u\<bar> * ?u"
    by (simp add: abs_mult abs_of_pos)
  also have "\<dots> \<le> 1 / 2 * ?u" by (rule mult_right_mono [OF round_even_error]) (simp add: less_imp_le)
  also have "\<dots> \<le> r * pow2 (- int p)" using u by simp
  finally show ?thesis .
qed

lemma fl_upper: "0 \<le> r \<Longrightarrow> fl p r \<le> r * (1 + pow2 (- int p))"
  using fl_error [of r p] by (simp add: abs_le_iff algebra_simps)

lemma round_even_nonneg: "0 \<le> y \<Longrightarrow> 0 \<le> round_even y"
  by (simp add: round_even_def Let_def)

lemma fl_nonneg [simp]: "0 \<le> fl p r"
proof (cases "r \<le> 0")
  case False
  then have "0 \<le> round_even (r / pow2 (exponent r - int p + 1))"
    by (intro round_even_nonneg) (simp add: less_imp_le)
  with False show ?thesis by (simp add: fl_def Let_def less_imp_le)
qed (simp add: fl_def)

end
