(* ===== verification/Usage_Limits.thy ===== *)
theory Usage_Limits imports Credentials begin

section \<open>Usage limits of an account (src/src/kiro/model/usage_limits.rs)\<close>

text \<open>
  The reply of the upstream's usage query and what the program reads from it. Amounts are rational
  numbers: the rounding of floating point sums is not modelled.
\<close>

record bonus =
  bo_current_usage :: rat
  bo_usage_limit :: rat
  bo_status :: "string option"

record free_trial_info =
  ft_current_usage :: int
  ft_current_usage_with_precision :: rat
  ft_free_trial_expiry :: "rat option"
  ft_free_trial_status :: "string option"
  ft_usage_limit :: int
  ft_usage_limit_with_precision :: rat

record usage_breakdown =
  ub_current_usage :: int
  ub_current_usage_with_precision :: rat
  ub_bonuses :: "bonus list"
  ub_free_trial_info :: "free_trial_info option"
  ub_next_date_reset :: "rat option"
  ub_usage_limit :: int
  ub_usage_limit_with_precision :: rat

record subscription_info =
  si_subscription_title :: "string option"
  si_overage_capability :: "string option"

record overage_configuration =
  oc_overage_enabled :: "bool option"
  oc_overage_status :: "string option"

record usage_limits =
  ul_next_date_reset :: "rat option"
  ul_subscription_info :: "subscription_info option"
  ul_usage_breakdown_list :: "usage_breakdown list"
  ul_overage_configuration :: "overage_configuration option"
  ul_user_email :: "string option option"

definition bonus_is_active :: "bonus \<Rightarrow> bool" where
  "bonus_is_active b = some_and (\<lambda>s. s = ''ACTIVE'') (bo_status b)"

definition trial_is_active :: "free_trial_info \<Rightarrow> bool" where
  "trial_is_active f = some_and (\<lambda>s. s = ''ACTIVE'') (ft_free_trial_status f)"

definition subscription_title_of :: "usage_limits \<Rightarrow> string option" where
  "subscription_title_of u = Option.bind (ul_subscription_info u) si_subscription_title"

definition email_of :: "usage_limits \<Rightarrow> string option" where
  "email_of u =
    (case Option.bind (ul_user_email u) (map_option trim) of
       Some e \<Rightarrow> if e = [] then None else Some e | None \<Rightarrow> None)"

definition overage_enabled :: "usage_limits \<Rightarrow> bool option" where
  "overage_enabled u =
    (case ul_overage_configuration u of
       None \<Rightarrow> None
     | Some cfg \<Rightarrow>
         (case oc_overage_enabled cfg of
            Some enabled \<Rightarrow> Some enabled
          | None \<Rightarrow> map_option (\<lambda>s. eq_ignore_ascii_case s ''ENABLED'') (oc_overage_status cfg)))"

definition overage_capable :: "usage_limits \<Rightarrow> bool option" where
  "overage_capable u =
    (case Option.bind (ul_subscription_info u) si_overage_capability of
       None \<Rightarrow> None
     | Some cap \<Rightarrow>
         let normalized = to_uppercase (trim cap) in
         if normalized = ''OVERAGE_CAPABLE'' then Some True
         else if normalized = ''NOT_OVERAGE_CAPABLE'' \<or> normalized = ''NOT_AVAILABLE'' then Some False
         else None)"

definition usage_limit :: "usage_limits \<Rightarrow> rat" where
  "usage_limit u =
    (case ul_usage_breakdown_list u of
       [] \<Rightarrow> 0
     | b # _ \<Rightarrow>
         ub_usage_limit_with_precision b
         + (case ub_free_trial_info b of
              Some t \<Rightarrow> if trial_is_active t then ft_usage_limit_with_precision t else 0 | None \<Rightarrow> 0)
         + sum_list (map bo_usage_limit (filter bonus_is_active (ub_bonuses b))))"

definition current_usage :: "usage_limits \<Rightarrow> rat" where
  "current_usage u =
    (case ul_usage_breakdown_list u of
       [] \<Rightarrow> 0
     | b # _ \<Rightarrow>
         ub_current_usage_with_precision b
         + (case ub_free_trial_info b of
              Some t \<Rightarrow> if trial_is_active t then ft_current_usage_with_precision t else 0 | None \<Rightarrow> 0)
         + sum_list (map bo_current_usage (filter bonus_is_active (ub_bonuses b))))"

end
