(* ===== verification/Token_Refresh.thy ===== *)
theory Token_Refresh imports Credential_Pool Usage_Limits begin

section \<open>Tokens and the calls to the upstream's services (src/src/kiro/token_manager.rs)\<close>

text \<open>
  Expiry, the refresh of a token, and the four queries of the regional services. The network and the
  parsers of the replies are arguments (\<open>network\<close>): a reply is a function of the request. A request
  carries what decides the reply; headers that only name the client (user agent, invocation id, host,
  machine id) are left out. Times of day are seconds.
\<close>

record refresh_response =
  rr_access_token :: string
  rr_refresh_token :: "string option"
  rr_profile_arn :: "string option"
  rr_expires_in :: "int option"

record request =
  rq_url :: string
  rq_body :: "(string \<times> string) list"
  rq_bearer :: "string option"
  rq_tokentype_api_key :: bool
  rq_proxy :: "proxy_config option"

text \<open>
  \<open>rq_body\<close> holds the fields of the body and the header that names the operation.
  \<open>NoReply\<close>: the client cannot be built, or sending fails. The body is empty when it cannot be read.
\<close>

datatype reply = NoReply | Reply nat string

record network =
  nw_utc :: int
  nw_parse_time :: "string \<Rightarrow> int option"
  nw_format_time :: "int \<Rightarrow> string"
  nw_send :: "request \<Rightarrow> reply"
  nw_parse_refresh :: "string \<Rightarrow> refresh_response option"
  nw_parse_profiles :: "string \<Rightarrow> string option list option"
  nw_parse_usage :: "string \<Rightarrow> usage_limits option"
  nw_parse_models :: "string \<Rightarrow> string list option"
  nw_url_encode :: "string \<Rightarrow> string"

datatype status_error = AuthExpired | Forbidden | RateLimited | ServerError | OtherStatus

datatype refresh_error =
    ApiKeyNotRefreshable
  | InvalidToken token_error
  | MissingClientId
  | MissingClientSecret
  | NoConnection
  | RefreshTokenInvalid string
  | BadStatus status_error nat string
  | BadReply
  | StillExpired
  | NoAccessToken
  | NoApiKey
  | NoSuchCredential u64
  | BadPreference

subsection \<open>Expiry\<close>

definition is_token_expiring_within :: "network \<Rightarrow> int \<Rightarrow> credentials \<Rightarrow> bool option" where
  "is_token_expiring_within nw minutes c =
    map_option (\<lambda>expires. expires \<le> nw_utc nw + 60 * minutes) (Option.bind (expires_at c) (nw_parse_time nw))"

definition is_token_expired :: "network \<Rightarrow> credentials \<Rightarrow> bool" where
  "is_token_expired nw c = (case is_token_expiring_within nw 5 c of Some b \<Rightarrow> b | None \<Rightarrow> True)"

definition is_token_expiring_soon :: "network \<Rightarrow> credentials \<Rightarrow> bool" where
  "is_token_expiring_soon nw c = (case is_token_expiring_within nw 10 c of Some b \<Rightarrow> b | None \<Rightarrow> False)"

definition needs_refresh :: "network \<Rightarrow> credentials \<Rightarrow> bool" where
  "needs_refresh nw c \<longleftrightarrow> is_token_expired nw c \<or> is_token_expiring_soon nw c"

subsection \<open>Refreshing a token\<close>

definition validate_refresh_token :: "credentials \<Rightarrow> token_error option" where
  "validate_refresh_token c =
    (case refresh_token c of
       None \<Rightarrow> Some MissingToken
     | Some t \<Rightarrow>
         if t = [] then Some EmptyToken
         else if length t < 100 \<or> ends_with t ''...'' \<or> contains t ''...'' then Some TruncatedToken
         else None)"

definition status_error_of :: "nat \<Rightarrow> status_error" where
  "status_error_of status =
    (if status = 401 then AuthExpired else if status = 403 then Forbidden
     else if status = 429 then RateLimited else if 500 \<le> status \<and> status \<le> 599 then ServerError
     else OtherStatus)"

definition is_success :: "nat \<Rightarrow> bool" where
  "is_success status \<longleftrightarrow> 200 \<le> status \<and> status \<le> 299"

definition invalid_grant :: "nat \<Rightarrow> string \<Rightarrow> bool" where
  "invalid_grant status body \<longleftrightarrow> status = 400
     \<and> contains body [CHR 0x22, CHR ''i'', CHR ''n'', CHR ''v'', CHR ''a'', CHR ''l'', CHR ''i'', CHR ''d'',
         CHR ''_'', CHR ''g'', CHR ''r'', CHR ''a'', CHR ''n'', CHR ''t'', CHR 0x22]
     \<and> contains body ''Invalid refresh token provided''"

text \<open>What a reply does to the credential: the same for both kinds of accounts.\<close>

definition apply_refresh :: "network \<Rightarrow> refresh_response \<Rightarrow> credentials \<Rightarrow> credentials" where
  "apply_refresh nw d c0 =
    (let c = c0\<lparr>access_token := Some (rr_access_token d)\<rparr>;
         c = (case rr_refresh_token d of Some t \<Rightarrow> c\<lparr>refresh_token := Some t\<rparr> | None \<Rightarrow> c);
         c = (case rr_profile_arn d of Some a \<Rightarrow> c\<lparr>profile_arn := Some a\<rparr> | None \<Rightarrow> c)
     in case rr_expires_in d of
          Some s \<Rightarrow> c\<lparr>expires_at := Some (nw_format_time nw (nw_utc nw + s))\<rparr> | None \<Rightarrow> c)"

definition refresh_reply :: "network \<Rightarrow> reply \<Rightarrow> credentials \<Rightarrow> refresh_error + credentials" where
  "refresh_reply nw r c =
    (case r of
       NoReply \<Rightarrow> Inl NoConnection
     | Reply status body \<Rightarrow>
         if \<not> is_success status
         then (if invalid_grant status body then Inl (RefreshTokenInvalid body)
               else Inl (BadStatus (status_error_of status) status body))
         else (case nw_parse_refresh nw body of
                 None \<Rightarrow> Inl BadReply
               | Some d \<Rightarrow> Inr (apply_refresh nw d c)))"

definition refresh_social_token ::
  "network \<Rightarrow> config \<Rightarrow> proxy_config option \<Rightarrow> credentials \<Rightarrow> refresh_error + credentials" where
  "refresh_social_token nw cf proxy c =
    (let region = effective_auth_region (config_auth_region cf) c
     in refresh_reply nw
          (nw_send nw \<lparr>rq_url = ''https://prod.'' @ region @ ''.auth.desktop.kiro.dev/refreshToken'',
             rq_body = [(''refreshToken'', the (refresh_token c))], rq_bearer = None,
             rq_tokentype_api_key = False, rq_proxy = proxy\<rparr>) c)"

definition refresh_idc_token ::
  "network \<Rightarrow> config \<Rightarrow> proxy_config option \<Rightarrow> credentials \<Rightarrow> refresh_error + credentials" where
  "refresh_idc_token nw cf proxy c =
    (case client_id c of
       None \<Rightarrow> Inl MissingClientId
     | Some cid \<Rightarrow>
    (case client_secret c of
       None \<Rightarrow> Inl MissingClientSecret
     | Some secret \<Rightarrow>
         let region = effective_auth_region (config_auth_region cf) c
         in refresh_reply nw
              (nw_send nw \<lparr>rq_url = ''https://oidc.'' @ region @ ''.amazonaws.com/token'',
                 rq_body = [(''clientId'', cid), (''clientSecret'', secret),
                            (''refreshToken'', the (refresh_token c)), (''grantType'', ''refresh_token'')],
                 rq_bearer = None, rq_tokentype_api_key = False, rq_proxy = proxy\<rparr>) c))"

definition refresh_method :: "credentials \<Rightarrow> string" where
  "refresh_method c =
    (case auth_method c of
       Some m \<Rightarrow> m
     | None \<Rightarrow> if client_id c \<noteq> None \<and> client_secret c \<noteq> None then ''idc'' else ''social'')"

definition refresh_credentials ::
  "network \<Rightarrow> config \<Rightarrow> proxy_config option \<Rightarrow> credentials \<Rightarrow> refresh_error + credentials" where
  "refresh_credentials nw cf proxy c =
    (if is_api_key_credential c then Inl ApiKeyNotRefreshable
     else (case validate_refresh_token c of
             Some e \<Rightarrow> Inl (InvalidToken e)
           | None \<Rightarrow>
               if eq_ignore_ascii_case (refresh_method c) ''idc''
                  \<or> eq_ignore_ascii_case (refresh_method c) ''builder-id''
                  \<or> eq_ignore_ascii_case (refresh_method c) ''iam''
               then refresh_idc_token nw cf proxy c else refresh_social_token nw cf proxy c))"

subsection \<open>Queries of the regional services\<close>

definition rest_api_region_candidates :: "string \<Rightarrow> string list" where
  "rest_api_region_candidates sso_region =
    (if sso_region = ''eu-central-1'' \<or> starts_with sso_region ''eu-'' then [''eu-central-1'', ''us-east-1'']
     else [''us-east-1'', ''eu-central-1''])"

text \<open>
  One service after the other: success ends the query, a 403 goes on to the next region while there is
  one, everything else is an error. \<open>request\<close> builds the request for a region.
\<close>

fun query_regions :: "network \<Rightarrow> (string \<Rightarrow> request) \<Rightarrow> (string \<Rightarrow> 'a option) \<Rightarrow> string list \<Rightarrow> refresh_error + 'a" where
  "query_regions nw request parse [] = Inl NoConnection"
| "query_regions nw request parse (r # rs) =
    (case nw_send nw (request r) of
       NoReply \<Rightarrow> Inl NoConnection
     | Reply status body \<Rightarrow>
         if is_success status then (case parse body of Some a \<Rightarrow> Inr a | None \<Rightarrow> Inl BadReply)
         else if status = 403 \<and> rs \<noteq> [] then query_regions nw request parse rs
         else Inl (BadStatus (status_error_of status) status body))"

definition profile_arn_query :: "network \<Rightarrow> credentials \<Rightarrow> string" where
  "profile_arn_query nw c =
    (case effective_profile_arn c of Some arn \<Rightarrow> ''&profileArn='' @ nw_url_encode nw arn | None \<Rightarrow> [])"

definition service_request ::
  "credentials \<Rightarrow> proxy_config option \<Rightarrow> string \<Rightarrow> string \<Rightarrow> (string \<times> string) list \<Rightarrow> string \<Rightarrow> request" where
  "service_request c proxy token path body r =
    \<lparr>rq_url = ''https://q.'' @ r @ ''.amazonaws.com/'' @ path, rq_body = body, rq_bearer = Some token,
     rq_tokentype_api_key = is_api_key_credential c, rq_proxy = proxy\<rparr>"

definition candidates_of :: "config \<Rightarrow> credentials \<Rightarrow> string list" where
  "candidates_of cf c = rest_api_region_candidates (effective_auth_region (config_auth_region cf) c)"

definition get_usage_limits ::
  "network \<Rightarrow> config \<Rightarrow> proxy_config option \<Rightarrow> string \<Rightarrow> credentials \<Rightarrow> refresh_error + usage_limits" where
  "get_usage_limits nw cf proxy token c =
    query_regions nw
      (service_request c proxy token
        (''getUsageLimits?origin=AI_EDITOR&resourceType=AGENTIC_REQUEST&isEmailRequired=true''
           @ profile_arn_query nw c) [])
      (nw_parse_usage nw) (candidates_of cf c)"

definition get_available_models ::
  "network \<Rightarrow> config \<Rightarrow> proxy_config option \<Rightarrow> string \<Rightarrow> credentials \<Rightarrow> refresh_error + string list" where
  "get_available_models nw cf proxy token c =
    query_regions nw
      (service_request c proxy token (''ListAvailableModels?origin=AI_EDITOR'' @ profile_arn_query nw c) [])
      (nw_parse_models nw) (candidates_of cf c)"

definition set_user_preference ::
  "network \<Rightarrow> config \<Rightarrow> proxy_config option \<Rightarrow> string \<Rightarrow> string \<Rightarrow> credentials \<Rightarrow> refresh_error + unit" where
  "set_user_preference nw cf proxy token overage_status c =
    query_regions nw
      (service_request c proxy token ''setUserPreference''
        ((''overageStatus'', overage_status) #
         (case effective_profile_arn c of Some arn \<Rightarrow> [(''profileArn'', arn)] | None \<Rightarrow> [])))
      (\<lambda>_. Some ()) (candidates_of cf c)"

text \<open>
  The profiles of an enterprise account: every region is asked until one names a profile; only when
  every region failed is the result an error.
\<close>

definition first_arn :: "string option list \<Rightarrow> string option" where
  "first_arn ps = find (\<lambda>arn. \<not> is_blank arn) (concat (map (\<lambda>p. case p of Some a \<Rightarrow> [a] | None \<Rightarrow> []) ps))"

fun query_profiles ::
  "network \<Rightarrow> (string \<Rightarrow> request) \<Rightarrow> bool \<Rightarrow> string list \<Rightarrow> refresh_error + string option" where
  "query_profiles nw request empty_seen [] = (if empty_seen then Inr None else Inl NoConnection)"
| "query_profiles nw request empty_seen (r # rs) =
    (case nw_send nw (request r) of
       NoReply \<Rightarrow> Inl NoConnection
     | Reply status body \<Rightarrow>
         if is_success status
         then (case nw_parse_profiles nw body of
                 None \<Rightarrow> Inl BadReply
               | Some ps \<Rightarrow> (case first_arn ps of
                   Some arn \<Rightarrow> Inr (Some arn) | None \<Rightarrow> query_profiles nw request True rs))
         else query_profiles nw request empty_seen rs)"

definition fetch_enterprise_profile_arn ::
  "network \<Rightarrow> config \<Rightarrow> proxy_config option \<Rightarrow> string \<Rightarrow> credentials \<Rightarrow> refresh_error + string option" where
  "fetch_enterprise_profile_arn nw cf proxy token c =
    query_profiles nw (service_request c proxy token [] 
      [(''x-amz-target'', ''AmazonCodeWhispererService.ListAvailableProfiles''), (''maxResults'', ''10'')]) False (candidates_of cf c)"

end
