(* ===== verification/Acquire.thy ===== *)
theory Acquire imports Token_Refresh begin

section \<open>Acquiring a credential for a request (src/src/kiro/token_manager.rs)\<close>

text \<open>
  The loop that picks a credential, gets it a valid token, and goes on to another one when it cannot:
  \<open>acquire_step\<close> is one iteration, \<open>acquire_loop\<close> runs it with a bound on the number of iterations, so that
  not returning is the value \<open>None\<close>. Each iteration has its own outside world (\<open>turn\<close>): the clocks, the
  network, the fate of the writes, and an edit of the credentials file by another program before the
  file is read.
\<close>

subsection \<open>Profiles of enterprise accounts\<close>

record call_context =
  cx_id :: u64
  cx_credentials :: credentials
  cx_token :: string

definition set_profile_arn_for :: "outside \<Rightarrow> u64 \<Rightarrow> string \<Rightarrow> manager \<Rightarrow> manager \<times> credentials option" where
  "set_profile_arn_for ev cid arn m =
    (case find_entry cid m of
       None \<Rightarrow> (m, None)
     | Some e \<Rightarrow>
         let c = (ce_credentials e)\<lparr>profile_arn := Some arn\<rparr> in
         if profile_arn (ce_credentials e) \<noteq> Some arn
         then (fst (persist_credentials ev (update_entry cid (\<lambda>e. e\<lparr>ce_credentials := c\<rparr>) m)), Some c)
         else (m, Some (ce_credentials e)))"

text \<open>\<open>Ok\<close> (right): the credential was changed, \<open>Err\<close> (left): it is handed back as it was.\<close>

definition ensure_enterprise_fallback_profile_arn ::
  "outside \<Rightarrow> u64 \<Rightarrow> credentials \<Rightarrow> manager \<Rightarrow> manager \<times> (credentials + credentials)" where
  "ensure_enterprise_fallback_profile_arn ev cid c m =
    (let fallback = enterprise_fallback_profile_arn
           (Some (effective_api_region (config_api_region (mg_config m)) c));
         needs_update = (case profile_arn c of
             None \<Rightarrow> True
           | Some arn \<Rightarrow> is_placeholder_profile_arn arn
               \<or> (is_enterprise_fallback_profile_arn arn \<and> arn \<noteq> fallback))
     in if \<not> needs_update then (m, Inl c)
        else (case set_profile_arn_for ev cid fallback m of
                (m, Some c') \<Rightarrow> (m, Inr c')
              | (m, None) \<Rightarrow> (m, Inr (c\<lparr>profile_arn := Some fallback\<rparr>))))"

text \<open>\<open>.unwrap_or_else(|creds| creds)\<close>\<close>

definition either :: "'a + 'a \<Rightarrow> 'a" where
  "either x = (case x of Inl a \<Rightarrow> a | Inr a \<Rightarrow> a)"

definition ensure_enterprise_profile_arn ::
  "outside \<Rightarrow> network \<Rightarrow> u64 \<Rightarrow> credentials \<Rightarrow> string \<Rightarrow> manager \<Rightarrow> manager \<times> credentials" where
  "ensure_enterprise_profile_arn ev nw cid c token m =
    (if \<not> should_fetch_enterprise_profile_arn c then (m, c)
     else if cid \<in> mg_fetch_attempted m then apsnd either (ensure_enterprise_fallback_profile_arn ev cid c m)
     else
       let m = m\<lparr>mg_fetch_attempted := insert cid (mg_fetch_attempted m)\<rparr> in
       (case fetch_enterprise_profile_arn nw (mg_config m) (effective_proxy (mg_proxy m) c) token c of
          Inr (Some arn) \<Rightarrow>
            (case set_profile_arn_for ev cid arn m of (m, Some c') \<Rightarrow> (m, c') | (m, None) \<Rightarrow> (m, c))
        | Inr None \<Rightarrow> apsnd either (ensure_enterprise_fallback_profile_arn ev cid c m)
        | Inl err \<Rightarrow> (m\<lparr>mg_fetch_attempted := mg_fetch_attempted m - {cid}\<rparr>, c)))"

subsection \<open>A token for a credential\<close>

text \<open>The refresh under the refresh lock: the entry is read again, it may have been refreshed meanwhile.\<close>

definition refresh_entry ::
  "outside \<Rightarrow> network \<Rightarrow> u64 \<Rightarrow> manager \<Rightarrow> manager \<times> (refresh_error + credentials)" where
  "refresh_entry ev nw cid m =
    (case find_entry cid m of
       None \<Rightarrow> (m, Inl (NoSuchCredential cid))
     | Some e \<Rightarrow>
         let current = ce_credentials e in
         if needs_refresh nw current
         then (case refresh_credentials nw (mg_config m) (effective_proxy (mg_proxy m) current) current of
                 Inl err \<Rightarrow> (m, Inl err)
               | Inr new \<Rightarrow>
                   if is_token_expired nw new then (m, Inl StillExpired)
                   else (fst (persist_credentials ev (update_entry cid (\<lambda>e. e\<lparr>ce_credentials := new\<rparr>) m)), Inr new))
         else (m, Inr current))"

definition try_ensure_token ::
  "outside \<Rightarrow> network \<Rightarrow> u64 \<Rightarrow> credentials \<Rightarrow> manager \<Rightarrow> manager \<times> (refresh_error + call_context)" where
  "try_ensure_token ev nw cid c m =
    (if is_api_key_credential c
     then (m, case kiro_api_key c of
                None \<Rightarrow> Inl NoApiKey
              | Some k \<Rightarrow> Inr \<lparr>cx_id = cid, cx_credentials = c, cx_token = k\<rparr>)
     else
       (case (if needs_refresh nw c then refresh_entry ev nw cid m else (m, Inr c)) of
          (m, Inl e) \<Rightarrow> (m, Inl e)
        | (m, Inr c) \<Rightarrow>
            (case access_token c of
               None \<Rightarrow> (m, Inl NoAccessToken)
             | Some token \<Rightarrow>
                 (case ensure_enterprise_profile_arn ev nw cid c token m of
                    (m, c) \<Rightarrow>
                      (update_entry cid (\<lambda>e. e\<lparr>refresh_failure_count := 0\<rparr>) m,
                       Inr \<lparr>cx_id = cid, cx_credentials = c, cx_token = token\<rparr>)))))"

subsection \<open>Reloading a credential from the file\<close>

definition matching_credential :: "nat \<Rightarrow> credentials \<Rightarrow> credentials list \<Rightarrow> credentials option" where
  "matching_credential entries_len current file_creds =
    (case find (\<lambda>fc. (cr_id fc \<noteq> None \<and> cr_id fc = cr_id current) \<or> (email fc \<noteq> None \<and> email fc = email current))
            file_creds of
       Some fc \<Rightarrow> Some fc
     | None \<Rightarrow> if length file_creds = 1 \<and> entries_len = 1 then Some (hd file_creds) else None)"

text \<open>What the file has to offer for a credential: a different refresh token.\<close>

definition reload_candidate :: "credentials_config option \<Rightarrow> nat \<Rightarrow> credentials \<Rightarrow> credentials option" where
  "reload_candidate file entries_len current =
    (case file of
       None \<Rightarrow> None
     | Some cfg \<Rightarrow>
         (case matching_credential entries_len current (into_sorted_credentials cfg) of
            None \<Rightarrow> None
          | Some fc \<Rightarrow>
              if refresh_token fc = None \<or> refresh_token fc = refresh_token current then None else Some fc))"

definition try_reload_credential_from_file :: "u64 \<Rightarrow> manager \<Rightarrow> manager \<times> bool" where
  "try_reload_credential_from_file cid m =
    (if \<not> mg_has_path m then (m, False)
     else
       (case find_entry cid m of
          None \<Rightarrow> (m, False)
        | Some e \<Rightarrow>
            (case reload_candidate (mg_file m) (length (mg_entries m)) (ce_credentials e) of
               None \<Rightarrow> (m, False)
             | Some fc \<Rightarrow>
                 (update_entry cid (\<lambda>e. e\<lparr>
                    ce_credentials := (ce_credentials e)\<lparr>refresh_token := refresh_token fc,
                      access_token := access_token fc, expires_at := expires_at fc\<rparr>,
                    ce_disabled := False, ce_disabled_reason := None,
                    refresh_failure_count := 0, failure_count := 0\<rparr>) m, True))))"

subsection \<open>The loop\<close>

text \<open>When nothing is available: credentials disabled for their failures are enabled again.\<close>

definition heal_entry :: "credential_entry \<Rightarrow> credential_entry" where
  "heal_entry e =
    (if ce_disabled_reason e = Some TooManyFailures
     then e\<lparr>ce_disabled := False, ce_disabled_reason := None, failure_count := 0\<rparr> else e)"

definition self_heal :: "manager \<Rightarrow> manager" where
  "self_heal m = m\<lparr>mg_entries := map heal_entry (mg_entries m)\<rparr>"

definition current_hit :: "nat \<Rightarrow> manager \<Rightarrow> credential_entry option" where
  "current_hit now m =
    (if mg_load_balancing_mode m = ''balanced'' then None
     else find (\<lambda>e. ce_id e = mg_current_id m \<and> is_available now e) (mg_entries m))"

definition select_or_heal :: "nat \<Rightarrow> string option \<Rightarrow> manager \<Rightarrow> manager \<times> (u64 \<times> credentials) option" where
  "select_or_heal now model m =
    (case select_next_credential now model m of
       Some best \<Rightarrow> (m, Some best)
     | None \<Rightarrow>
         if list_ex (\<lambda>e. ce_disabled e \<and> ce_disabled_reason e = Some TooManyFailures) (mg_entries m)
         then (self_heal m, select_next_credential now model (self_heal m))
         else (m, None))"

definition pick_credential :: "nat \<Rightarrow> string option \<Rightarrow> manager \<Rightarrow> manager \<times> (u64 \<times> credentials) option" where
  "pick_credential now model m =
    (case current_hit now m of
       Some e \<Rightarrow> (m, Some (ce_id e, ce_credentials e))
     | None \<Rightarrow>
         (case select_or_heal now model m of
            (m, Some (new_id, c)) \<Rightarrow> (m\<lparr>mg_current_id := new_id\<rparr>, Some (new_id, c))
          | (m, None) \<Rightarrow> (m, None)))"

record turn =
  tn_outside :: outside
  tn_network :: network
  tn_edit :: "credentials_config option option"

datatype acquire_error = NoTokenForAny nat nat | AllDisabled nat nat

datatype acquire_progress = Finished "acquire_error + call_context" | Again nat

definition edit_file :: "turn \<Rightarrow> manager \<Rightarrow> manager" where
  "edit_file t m = (case tn_edit t of None \<Rightarrow> m | Some f \<Rightarrow> m\<lparr>mg_file := f\<rparr>)"

text \<open>What becomes of an iteration whose credential got no token: only an invalid token is looked up in the file.\<close>

definition reload_if_invalid :: "refresh_error \<Rightarrow> u64 \<Rightarrow> manager \<Rightarrow> manager \<times> bool" where
  "reload_if_invalid e cid m =
    (case e of RefreshTokenInvalid _ \<Rightarrow> try_reload_credential_from_file cid m | _ \<Rightarrow> (m, False))"

definition report_token_error :: "outside \<Rightarrow> refresh_error \<Rightarrow> u64 \<Rightarrow> manager \<Rightarrow> manager \<times> bool" where
  "report_token_error ev e cid m =
    (case e of RefreshTokenInvalid _ \<Rightarrow> report_refresh_token_invalid ev cid m
     | _ \<Rightarrow> report_refresh_failure ev cid m)"

definition token_failed ::
  "outside \<Rightarrow> nat \<Rightarrow> nat \<Rightarrow> u64 \<Rightarrow> refresh_error \<Rightarrow> manager \<Rightarrow> manager \<times> acquire_progress" where
  "token_failed ev all attempts cid e m =
    (case reload_if_invalid e cid m of
       (m, True) \<Rightarrow> (m, Again attempts)
     | (m, False) \<Rightarrow>
         (case report_token_error ev e cid m of
            (m, has_available) \<Rightarrow>
              (m, if has_available then Again (attempts + 1) else Finished (Inl (AllDisabled 0 all)))))"

definition acquire_step ::
  "turn \<Rightarrow> nat \<Rightarrow> nat \<Rightarrow> string option \<Rightarrow> nat \<Rightarrow> manager \<Rightarrow> manager \<times> acquire_progress" where
  "acquire_step t all max_attempts model attempts m0 =
    (let ev = tn_outside t; m = edit_file t m0 in
     if max_attempts \<le> attempts
     then (m, Finished (Inl (NoTokenForAny (available_count (ev_now ev) m) all)))
     else
       (case pick_credential (ev_now ev) model m of
          (m, None) \<Rightarrow>
            (m, Finished (Inl (AllDisabled (length (filter (\<lambda>e. \<not> ce_disabled e) (mg_entries m))) all)))
        | (m, Some (cid, c)) \<Rightarrow>
            (case try_ensure_token ev (tn_network t) cid c m of
               (m, Inr ctx) \<Rightarrow> (m, Finished (Inr ctx))
             | (m, Inl e) \<Rightarrow> token_failed ev all attempts cid e m)))"

fun acquire_loop ::
  "nat \<Rightarrow> (nat \<Rightarrow> turn) \<Rightarrow> nat \<Rightarrow> nat \<Rightarrow> string option \<Rightarrow> nat \<Rightarrow> manager
     \<Rightarrow> (manager \<times> (acquire_error + call_context)) option" where
  "acquire_loop 0 turns all max_attempts model attempts m = None"
| "acquire_loop (Suc n) turns all max_attempts model attempts m =
    (case acquire_step (turns n) all max_attempts model attempts m of
       (m, Finished r) \<Rightarrow> Some (m, r)
     | (m, Again a) \<Rightarrow> acquire_loop n turns all max_attempts model a m)"

definition max_attempts_of :: "manager \<Rightarrow> nat" where
  "max_attempts_of m = max (total_count m * unat MAX_FAILURES_PER_CREDENTIAL) 1"

definition acquire_context ::
  "nat \<Rightarrow> (nat \<Rightarrow> turn) \<Rightarrow> string option \<Rightarrow> manager \<Rightarrow> (manager \<times> (acquire_error + call_context)) option" where
  "acquire_context fuel turns model m = acquire_loop fuel turns (total_count m) (max_attempts_of m) model 0 m"

end
