(* ===== verification/Pool_Admin.thy ===== *)
theory Pool_Admin imports Acquire begin

section \<open>Construction and administration of the pool (src/src/kiro/token_manager.rs)\<close>

text \<open>
  How a manager is built from the loaded credentials, the snapshot the admin interface shows, and the
  operations of that interface. \<open>sha256_hex\<close>, the random seeds of machine ids and the network are
  arguments. An operation returns the new state and an error or its result; where the program changes
  the memory and then fails to write the file, the changed state comes with the error.
\<close>

datatype admin_error = ManagerError manager_error | RefreshError refresh_error

subsection \<open>Construction\<close>

definition new_entry :: "u64 \<Rightarrow> credentials \<Rightarrow> bool \<Rightarrow> disabled_reason option \<Rightarrow> credential_entry" where
  "new_entry cid c dis reason =
    \<lparr>ce_id = cid, ce_credentials = c, failure_count = 0, total_failure_count = 0, refresh_failure_count = 0,
     ce_disabled = dis, ce_disabled_reason = reason, success_count = 0, last_used_at = None,
     throttled_until = None, rate_limited_until = None\<rparr>"

text \<open>\<open>iter().max().unwrap_or(0)\<close>\<close>

definition max_id :: "u64 list \<Rightarrow> u64" where
  "max_id ids = fold max ids 0"

text \<open>The credential of one entry: its id, its profile, its machine id, and whether any of them is new.\<close>

definition complete_credential ::
  "(string \<Rightarrow> string) \<Rightarrow> (u64 option \<Rightarrow> string) \<Rightarrow> config \<Rightarrow> u64 \<Rightarrow> credentials \<Rightarrow> id_cache
     \<Rightarrow> credentials \<times> bool \<times> id_cache" where
  "complete_credential sha256_hex seeds cf cid c0 cache =
    (let c = c0\<lparr>cr_id := Some cid\<rparr>;
         (c, filled) = fill_default_profile_arn_with_region (Some (config_api_region cf)) c
     in case machine_id c of
          Some _ \<Rightarrow> (c, cr_id c0 = None \<or> filled, cache)
        | None \<Rightarrow>
            (case generate_from_credentials sha256_hex (seeds (cr_id c)) (cf_machine_id cf) c cache of
               (mid, cache) \<Rightarrow> (c\<lparr>machine_id := Some mid\<rparr>, True, cache)))"

fun build_entries ::
  "(string \<Rightarrow> string) \<Rightarrow> (u64 option \<Rightarrow> string) \<Rightarrow> config \<Rightarrow> u64 \<Rightarrow> id_cache \<Rightarrow> credentials list
     \<Rightarrow> credential_entry list \<times> bool" where
  "build_entries sha256_hex seeds cf next_id cache [] = ([], False)"
| "build_entries sha256_hex seeds cf next_id cache (c0 # cs) =
    (let c = canonicalize_auth_method c0;
         (cid, next_id) = (case cr_id c of Some i \<Rightarrow> (i, next_id) | None \<Rightarrow> (next_id, next_id + 1));
         (c, changed, cache) = complete_credential sha256_hex seeds cf cid c cache;
         e = new_entry cid c (cr_disabled c) (if cr_disabled c then Some Manual else None);
         (es, more) = build_entries sha256_hex seeds cf next_id cache cs
     in (e # es, changed \<or> more))"

text \<open>An API key account without its key is disabled.\<close>

definition check_config :: "credential_entry \<Rightarrow> credential_entry" where
  "check_config e =
    (if kiro_api_key (ce_credentials e) = None
        \<and> some_and (\<lambda>m. eq_ignore_ascii_case m ''api_key'' \<or> eq_ignore_ascii_case m ''apikey'')
            (auth_method (ce_credentials e))
     then e\<lparr>ce_disabled := True, ce_disabled_reason := Some InvalidConfig\<rparr> else e)"

fun duplicate_ids :: "u64 set \<Rightarrow> u64 list \<Rightarrow> u64 list" where
  "duplicate_ids seen [] = []"
| "duplicate_ids seen (i # is) =
    (if i \<in> seen then i # duplicate_ids seen is else duplicate_ids (insert i seen) is)"

definition initial_manager ::
  "config \<Rightarrow> credential_entry list \<Rightarrow> proxy_config option \<Rightarrow> bool \<Rightarrow> bool \<Rightarrow> credentials_config option
     \<Rightarrow> stats option \<Rightarrow> config option \<Rightarrow> manager" where
  "initial_manager cf entries proxy has_path multiple file stats_file config_file =
    \<lparr>mg_config = cf, mg_proxy = proxy, mg_entries = entries,
     mg_current_id = (case min_by_key entry_priority (filter (\<lambda>e. \<not> ce_disabled e) entries) of
                        Some e \<Rightarrow> ce_id e | None \<Rightarrow> 0),
     mg_has_path = has_path, mg_multiple_format = multiple,
     mg_load_balancing_mode = cf_load_balancing_mode cf, mg_retry_mode = cf_retry_mode cf,
     mg_retry_policy = cf_retry_policy cf, mg_throttle_failover = cf_throttle_failover cf,
     mg_throttle_cooldown_secs = cf_throttle_cooldown_secs cf, mg_last_stats_save = None,
     mg_stats_dirty = False, mg_fetch_attempted = {}, mg_file = file,
     mg_stats_file = stats_file, mg_config_file = config_file\<rparr>"

text \<open>
  The migration of a single-credential file (in the world \<open>ev\<close>), and the write of what was completed
  (in \<open>ev'\<close>). A failed write is ignored.
\<close>

definition write_completed :: "outside \<Rightarrow> outside \<Rightarrow> bool \<Rightarrow> manager \<Rightarrow> manager" where
  "write_completed ev ev' changed m =
    (let m = (if \<not> mg_multiple_format m \<and> mg_entries m \<noteq> [] \<and> mg_has_path m
              then fst (persist_credentials ev (m\<lparr>mg_multiple_format := True\<rparr>)) else m)
     in if changed then fst (persist_credentials ev' m) else m)"

definition given_ids :: "credentials list \<Rightarrow> u64 list" where
  "given_ids creds = concat (map (\<lambda>c. case cr_id c of Some i \<Rightarrow> [i] | None \<Rightarrow> []) creds)"

definition manager_new ::
  "(string \<Rightarrow> string) \<Rightarrow> (u64 option \<Rightarrow> string) \<Rightarrow> outside \<Rightarrow> outside \<Rightarrow> config \<Rightarrow> credentials list
     \<Rightarrow> proxy_config option \<Rightarrow> bool \<Rightarrow> bool \<Rightarrow> credentials_config option \<Rightarrow> stats option \<Rightarrow> config option
     \<Rightarrow> id_cache \<Rightarrow> manager_error + manager" where
  "manager_new sha256_hex seeds ev ev' cf creds proxy has_path multiple file stats_file config_file cache =
    (let (built, changed) = build_entries sha256_hex seeds cf (max_id (given_ids creds) + 1) cache creds;
         entries = map check_config built;
         duplicates = duplicate_ids {} (map ce_id entries)
     in if duplicates \<noteq> [] then Inl (DuplicateIds duplicates)
        else Inr (load_stats ev' (write_completed ev ev' changed
               (initial_manager cf entries proxy has_path multiple file stats_file config_file))))"

subsection \<open>Snapshots\<close>

definition mask_api_key :: "string \<Rightarrow> string" where
  "mask_api_key key =
    (if is_ascii key \<and> 16 < length key then take 4 key @ ''...'' @ drop (length key - 4) key else ''***'')"

record entry_snapshot =
  sn_id :: u64
  sn_priority :: u32
  sn_disabled :: bool
  sn_failure_count :: u32
  sn_total_failure_count :: u64
  sn_auth_method :: "string option"
  sn_has_profile_arn :: bool
  sn_expires_at :: "string option"
  sn_refresh_token_hash :: "string option"
  sn_api_key_hash :: "string option"
  sn_masked_api_key :: "string option"
  sn_email :: "string option"
  sn_success_count :: u64
  sn_last_used_at :: "string option"
  sn_has_proxy :: bool
  sn_proxy_url :: "string option"
  sn_refresh_failure_count :: u32
  sn_disabled_reason :: "string option"
  sn_throttled_remaining_secs :: "nat option"
  sn_rate_limited_for_ms :: "nat option"
  sn_rate_limited_until_ms :: "nat option"
  sn_endpoint :: "string option"

record manager_snapshot =
  ms_entries :: "entry_snapshot list"
  ms_current_id :: u64
  ms_total :: nat
  ms_available :: nat

definition reason_text :: "disabled_reason \<Rightarrow> string" where
  "reason_text r =
    (case r of Manual \<Rightarrow> ''Manual'' | TooManyFailures \<Rightarrow> ''TooManyFailures''
     | TooManyRefreshFailures \<Rightarrow> ''TooManyRefreshFailures'' | QuotaExceeded \<Rightarrow> ''QuotaExceeded''
     | InvalidRefreshToken \<Rightarrow> ''InvalidRefreshToken'' | InvalidConfig \<Rightarrow> ''InvalidConfig'')"

definition snapshot_auth_method :: "string \<Rightarrow> string" where
  "snapshot_auth_method m =
    (if eq_ignore_ascii_case m ''builder-id'' \<or> eq_ignore_ascii_case m ''iam'' then ''idc'' else m)"

definition throttled_remaining_secs :: "nat \<Rightarrow> nat option \<Rightarrow> nat option" where
  "throttled_remaining_secs now until =
    (case until of
       Some t \<Rightarrow> if now \<le> t \<and> 0 < (t - now) div 1000000000 then Some ((t - now) div 1000000000) else None
     | None \<Rightarrow> None)"

definition snapshot_entry :: "(string \<Rightarrow> string) \<Rightarrow> nat \<Rightarrow> credential_entry \<Rightarrow> entry_snapshot" where
  "snapshot_entry sha256_hex now e =
    (let c = ce_credentials e; api_key = is_api_key_credential c in
     \<lparr>sn_id = ce_id e, sn_priority = priority c, sn_disabled = ce_disabled e,
      sn_failure_count = failure_count e, sn_total_failure_count = total_failure_count e,
      sn_auth_method = (if api_key then Some ''api_key'' else map_option snapshot_auth_method (auth_method c)),
      sn_has_profile_arn = (profile_arn c \<noteq> None),
      sn_expires_at = (if api_key then None else expires_at c),
      sn_refresh_token_hash = (if api_key then None else map_option sha256_hex (refresh_token c)),
      sn_api_key_hash = (if api_key then map_option sha256_hex (kiro_api_key c) else None),
      sn_masked_api_key = (if api_key then map_option mask_api_key (kiro_api_key c) else None),
      sn_email = email c, sn_success_count = success_count e, sn_last_used_at = last_used_at e,
      sn_has_proxy = (proxy_url c \<noteq> None), sn_proxy_url = proxy_url c,
      sn_refresh_failure_count = refresh_failure_count e,
      sn_disabled_reason = map_option reason_text (ce_disabled_reason e),
      sn_throttled_remaining_secs = throttled_remaining_secs now (throttled_until e),
      sn_rate_limited_for_ms = cooldown_remaining_ms now (rate_limited_until e),
      sn_rate_limited_until_ms = cooldown_remaining_ms now (rate_limited_until e),
      sn_endpoint = endpoint c\<rparr>)"

definition snapshot :: "(string \<Rightarrow> string) \<Rightarrow> nat \<Rightarrow> manager \<Rightarrow> manager_snapshot" where
  "snapshot sha256_hex now m =
    \<lparr>ms_entries = map (snapshot_entry sha256_hex now) (mg_entries m), ms_current_id = mg_current_id m,
     ms_total = length (mg_entries m), ms_available = length (filter (is_available now) (mg_entries m))\<rparr>"

definition clone_all_credentials :: "manager \<Rightarrow> credentials list" where
  "clone_all_credentials m =
    map (\<lambda>e. (canonicalize_auth_method (ce_credentials e))\<lparr>cr_disabled := ce_disabled e, cr_id := Some (ce_id e)\<rparr>)
      (mg_entries m)"

subsection \<open>Operations on one credential\<close>

text \<open>Change an existing entry, then write the file.\<close>

definition change_entry ::
  "outside \<Rightarrow> u64 \<Rightarrow> (credential_entry \<Rightarrow> credential_entry) \<Rightarrow> manager \<Rightarrow> manager \<times> (manager_error + unit)" where
  "change_entry ev cid f m =
    (case find_entry cid m of
       None \<Rightarrow> (m, Inl (NoCredential cid))
     | Some _ \<Rightarrow> persist_or ev () (update_entry cid f m))"

definition set_disabled :: "outside \<Rightarrow> u64 \<Rightarrow> bool \<Rightarrow> manager \<Rightarrow> manager \<times> (manager_error + unit)" where
  "set_disabled ev cid dis =
    change_entry ev cid (\<lambda>e.
      if \<not> dis
      then e\<lparr>ce_disabled := dis, failure_count := 0, refresh_failure_count := 0, ce_disabled_reason := None,
             throttled_until := None, rate_limited_until := None\<rparr>
      else e\<lparr>ce_disabled := dis, ce_disabled_reason := Some Manual\<rparr>)"

definition clear_throttle :: "u64 \<Rightarrow> manager \<Rightarrow> manager \<times> (manager_error + unit)" where
  "clear_throttle cid m =
    (case find_entry cid m of
       None \<Rightarrow> (m, Inl (NoCredential cid))
     | Some _ \<Rightarrow> (update_entry cid (\<lambda>e. e\<lparr>throttled_until := None, rate_limited_until := None\<rparr>) m, Inr ()))"

definition disable_quota_exceeded :: "outside \<Rightarrow> u64 \<Rightarrow> manager \<Rightarrow> manager \<times> (manager_error + unit)" where
  "disable_quota_exceeded ev cid =
    change_entry ev cid (\<lambda>e. e\<lparr>ce_disabled := True, ce_disabled_reason := Some QuotaExceeded\<rparr>)"

definition set_priority :: "outside \<Rightarrow> u64 \<Rightarrow> u32 \<Rightarrow> manager \<Rightarrow> manager \<times> (manager_error + unit)" where
  "set_priority ev cid p m =
    (case find_entry cid m of
       None \<Rightarrow> (m, Inl (NoCredential cid))
     | Some _ \<Rightarrow>
         persist_or ev ()
           (select_highest_priority
             (update_entry cid (\<lambda>e. e\<lparr>ce_credentials := (ce_credentials e)\<lparr>priority := p\<rparr>\<rparr>) m)))"

definition set_endpoint :: "outside \<Rightarrow> u64 \<Rightarrow> string option \<Rightarrow> manager \<Rightarrow> manager \<times> (manager_error + unit)" where
  "set_endpoint ev cid ep =
    change_entry ev cid (\<lambda>e. e\<lparr>ce_credentials := (ce_credentials e)\<lparr>endpoint := ep\<rparr>\<rparr>)"

definition reset_and_enable :: "outside \<Rightarrow> u64 \<Rightarrow> manager \<Rightarrow> manager \<times> (manager_error + unit)" where
  "reset_and_enable ev cid m =
    (case find_entry cid m of
       None \<Rightarrow> (m, Inl (NoCredential cid))
     | Some e \<Rightarrow>
         if ce_disabled_reason e = Some InvalidConfig then (m, Inl (ConfigInvalid cid))
         else change_entry ev cid (\<lambda>e. e\<lparr>failure_count := 0, total_failure_count := 0,
                refresh_failure_count := 0, ce_disabled := False, ce_disabled_reason := None,
                throttled_until := None\<rparr>) m)"

definition reset_success_count ::
  "outside \<Rightarrow> u64 option \<Rightarrow> manager \<Rightarrow> manager \<times> (manager_error + nat)" where
  "reset_success_count ev which m =
    (case which of
       Some cid \<Rightarrow>
         (case find_entry cid m of
            None \<Rightarrow> (m, Inl (NoCredential cid))
          | Some _ \<Rightarrow> (save_stats ev (update_entry cid (\<lambda>e. e\<lparr>success_count := 0\<rparr>) m), Inr 1))
     | None \<Rightarrow>
         (save_stats ev (m\<lparr>mg_entries := map (\<lambda>e. e\<lparr>success_count := 0\<rparr>) (mg_entries m)\<rparr>),
          Inr (length (mg_entries m))))"

text \<open>\<open>None\<close> leaves a field as it is, an empty text clears it.\<close>

definition edit_field :: "string option option \<Rightarrow> string option \<Rightarrow> string option" where
  "edit_field v old =
    (case v of None \<Rightarrow> old | Some None \<Rightarrow> None | Some (Some s) \<Rightarrow> if s = [] then None else Some s)"

definition update_credential ::
  "outside \<Rightarrow> u64 \<Rightarrow> string option option \<Rightarrow> string option option \<Rightarrow> string option option
     \<Rightarrow> string option option \<Rightarrow> manager \<Rightarrow> manager \<times> (manager_error + unit)" where
  "update_credential ev cid new_email new_url new_user new_password =
    change_entry ev cid (\<lambda>e. e\<lparr>ce_credentials := (ce_credentials e)
      \<lparr>email := edit_field new_email (email (ce_credentials e)),
       proxy_url := edit_field new_url (proxy_url (ce_credentials e)),
       proxy_username := edit_field new_user (proxy_username (ce_credentials e)),
       proxy_password := edit_field new_password (proxy_password (ce_credentials e))\<rparr>\<rparr>)"

definition merge_metadata :: "credentials \<Rightarrow> credentials \<Rightarrow> credentials" where
  "merge_metadata md c =
    c\<lparr>auth_method := or_else (auth_method md) (auth_method c), provider := or_else (provider md) (provider c),
      client_id := or_else (client_id md) (client_id c), client_secret := or_else (client_secret md) (client_secret c),
      start_url := or_else (start_url md) (start_url c), region := or_else (region md) (region c),
      auth_region := or_else (auth_region md) (auth_region c), api_region := or_else (api_region md) (api_region c),
      profile_arn := or_else (profile_arn md) (profile_arn c)\<rparr>"

definition update_auth_metadata ::
  "outside \<Rightarrow> u64 \<Rightarrow> credentials \<Rightarrow> manager \<Rightarrow> manager \<times> (manager_error + unit)" where
  "update_auth_metadata ev cid md m =
    (case find_entry cid m of
       None \<Rightarrow> (m, Inl (NoCredential cid))
     | Some e \<Rightarrow>
         let c = merge_metadata md (ce_credentials e) in
         if c \<noteq> ce_credentials e
         then persist_or ev () (update_entry cid (\<lambda>e. e\<lparr>ce_credentials := c\<rparr>) m)
         else (m, Inr ()))"

definition delete_credential :: "outside \<Rightarrow> u64 \<Rightarrow> manager \<Rightarrow> manager \<times> (manager_error + unit)" where
  "delete_credential ev cid m =
    (case find_entry cid m of
       None \<Rightarrow> (m, Inl (NoCredential cid))
     | Some e \<Rightarrow>
         if \<not> ce_disabled e then (m, Inl (NotDisabled cid))
         else
           let was_current = (mg_current_id m = cid);
               m = m\<lparr>mg_entries := filter (\<lambda>e. ce_id e \<noteq> cid) (mg_entries m)\<rparr>;
               m = (if was_current then select_highest_priority m else m);
               m = (if mg_entries m = [] then m\<lparr>mg_current_id := 0\<rparr> else m)
           in (case persist_credentials ev m of
                 (m, Inl err) \<Rightarrow> (m, Inl err)
               | (m, Inr _) \<Rightarrow> (save_stats ev m, Inr ())))"

text \<open>Another entry (by its place in the list) with the hash of the new token.\<close>

definition duplicate_token :: "(string \<Rightarrow> string) \<Rightarrow> u64 \<Rightarrow> string \<Rightarrow> credential_entry list \<Rightarrow> bool" where
  "duplicate_token sha256_hex cid token es =
    (let idx = length (takeWhile (\<lambda>e. ce_id e \<noteq> cid) es)
     in list_ex (\<lambda>(i, e). i \<noteq> idx \<and>
          some_and (\<lambda>t. sha256_hex t = sha256_hex token) (refresh_token (ce_credentials e)))
        (zip [0..<length es] es))"

definition update_refresh_token ::
  "(string \<Rightarrow> string) \<Rightarrow> outside \<Rightarrow> u64 \<Rightarrow> string \<Rightarrow> string option \<Rightarrow> string option \<Rightarrow> manager
     \<Rightarrow> manager \<times> (manager_error + unit)" where
  "update_refresh_token sha256_hex ev cid token new_access new_expires m =
    (case find_entry cid m of
       None \<Rightarrow> (m, Inl (NoCredential cid))
     | Some e \<Rightarrow>
         if \<not> ce_disabled e then (m, Inl (NotDisabled cid))
         else (case validate_refresh_token ((ce_credentials e)\<lparr>refresh_token := Some token\<rparr>) of
             Some err \<Rightarrow> (m, Inl (BadRefreshToken err))
           | None \<Rightarrow>
               if duplicate_token sha256_hex cid token (mg_entries m) then (m, Inl DuplicateRefreshToken)
               else change_entry ev cid (\<lambda>e. e\<lparr>
                      ce_credentials := (ce_credentials e)\<lparr>refresh_token := Some token,
                        access_token := new_access, expires_at := new_expires\<rparr>,
                      refresh_failure_count := 0\<rparr>) m))"

subsection \<open>Adding a credential\<close>

definition basic_check :: "credentials \<Rightarrow> manager_error option" where
  "basic_check c =
    (if is_api_key_credential c
     then (case kiro_api_key c of
             None \<Rightarrow> Some MissingApiKey | Some k \<Rightarrow> if k = [] then Some EmptyApiKey else None)
     else map_option BadRefreshToken (validate_refresh_token c))"

definition is_duplicate :: "(string \<Rightarrow> string) \<Rightarrow> credentials \<Rightarrow> credential_entry list \<Rightarrow> bool" where
  "is_duplicate sha256_hex c es =
    (if is_api_key_credential c
     then list_ex (\<lambda>e. map_option sha256_hex (kiro_api_key (ce_credentials e))
                     = Some (sha256_hex (the (kiro_api_key c)))) es
     else list_ex (\<lambda>e. map_option sha256_hex (refresh_token (ce_credentials e))
                     = Some (sha256_hex (the (refresh_token c)))) es)"

definition keep_user_fields :: "config \<Rightarrow> u64 \<Rightarrow> credentials \<Rightarrow> credentials \<Rightarrow> credentials" where
  "keep_user_fields cf cid new v0 =
    (let v = v0\<lparr>cr_id := Some cid, priority := priority new,
               auth_method := map_option snapshot_auth_method (auth_method new)\<rparr>;
         v = (if profile_arn new \<noteq> None then v\<lparr>profile_arn := profile_arn new\<rparr> else v);
         v = v\<lparr>provider := provider new\<rparr>;
         v = fst (fill_default_profile_arn_with_region (Some (config_api_region cf)) v)
     in v\<lparr>client_id := client_id new, client_secret := client_secret new, region := region new,
          auth_region := auth_region new, api_region := api_region new, machine_id := machine_id new,
          email := email new, proxy_url := proxy_url new, proxy_username := proxy_username new,
          proxy_password := proxy_password new, kiro_api_key := kiro_api_key new\<rparr>)"

definition add_credential ::
  "(string \<Rightarrow> string) \<Rightarrow> outside \<Rightarrow> network \<Rightarrow> credentials \<Rightarrow> manager \<Rightarrow> manager \<times> (admin_error + u64)" where
  "add_credential sha256_hex ev nw new m =
    (case basic_check new of
       Some err \<Rightarrow> (m, Inl (ManagerError err))
     | None \<Rightarrow>
         if is_duplicate sha256_hex new (mg_entries m)
         then (m, Inl (ManagerError
                (if is_api_key_credential new then DuplicateApiKey else DuplicateRefreshToken)))
         else (case (if is_api_key_credential new then Inr new
                     else refresh_credentials nw (mg_config m) (effective_proxy (mg_proxy m) new) new) of
             Inl err \<Rightarrow> (m, Inl (RefreshError err))
           | Inr validated \<Rightarrow>
               let cid = max_id (map ce_id (mg_entries m)) + 1;
                   e = new_entry cid (keep_user_fields (mg_config m) cid new validated) False None
               in (case persist_credentials ev
                          (m\<lparr>mg_entries := mg_entries m @ [e], mg_multiple_format := True\<rparr>) of
                     (m, Inl err) \<Rightarrow> (m, Inl (ManagerError err))
                   | (m, Inr _) \<Rightarrow> (m, Inr cid))))"

subsection \<open>Operations that need a token\<close>

definition force_refresh_token_for ::
  "outside \<Rightarrow> network \<Rightarrow> u64 \<Rightarrow> manager \<Rightarrow> manager \<times> (refresh_error + unit)" where
  "force_refresh_token_for ev nw cid m =
    (case find_entry cid m of
       None \<Rightarrow> (m, Inl (NoSuchCredential cid))
     | Some e \<Rightarrow>
         (case refresh_credentials nw (mg_config m) (effective_proxy (mg_proxy m) (ce_credentials e)) (ce_credentials e) of
            Inl err \<Rightarrow> (m, Inl err)
          | Inr new \<Rightarrow>
              (fst (persist_credentials ev
                 (update_entry cid (\<lambda>e. e\<lparr>ce_credentials := new, refresh_failure_count := 0\<rparr>) m)), Inr ())))"

text \<open>The token of a query: here a refreshed token is not checked for being expired again.\<close>

definition prepare_request_token ::
  "outside \<Rightarrow> network \<Rightarrow> u64 \<Rightarrow> manager \<Rightarrow> manager \<times> (refresh_error + string \<times> credentials)" where
  "prepare_request_token ev nw cid m =
    (case find_entry cid m of
       None \<Rightarrow> (m, Inl (NoSuchCredential cid))
     | Some e \<Rightarrow>
         let c = ce_credentials e in
         if is_api_key_credential c
         then (m, case kiro_api_key c of None \<Rightarrow> Inl NoApiKey | Some k \<Rightarrow> Inr (k, c))
         else if needs_refresh nw c
         then (case refresh_credentials nw (mg_config m) (effective_proxy (mg_proxy m) c) c of
                 Inl err \<Rightarrow> (m, Inl err)
               | Inr new \<Rightarrow>
                   (fst (persist_credentials ev (update_entry cid (\<lambda>e. e\<lparr>ce_credentials := new\<rparr>) m)),
                    case access_token new of None \<Rightarrow> Inl NoAccessToken | Some t \<Rightarrow> Inr (t, new)))
         else (m, case access_token c of None \<Rightarrow> Inl NoAccessToken | Some t \<Rightarrow> Inr (t, c)))"

definition get_available_models_for ::
  "outside \<Rightarrow> network \<Rightarrow> u64 \<Rightarrow> manager \<Rightarrow> manager \<times> (refresh_error + string list)" where
  "get_available_models_for ev nw cid m =
    (case prepare_request_token ev nw cid m of
       (m, Inl err) \<Rightarrow> (m, Inl err)
     | (m, Inr (token, c)) \<Rightarrow>
         (m, get_available_models nw (mg_config m) (effective_proxy (mg_proxy m) c) token c))"

definition set_user_preference_for ::
  "outside \<Rightarrow> network \<Rightarrow> u64 \<Rightarrow> string \<Rightarrow> manager \<Rightarrow> manager \<times> (refresh_error + unit)" where
  "set_user_preference_for ev nw cid overage_status m =
    (if overage_status \<noteq> ''ENABLED'' \<and> overage_status \<noteq> ''DISABLED'' then (m, Inl BadPreference)
     else (case prepare_request_token ev nw cid m of
         (m, Inl err) \<Rightarrow> (m, Inl err)
       | (m, Inr (token, c)) \<Rightarrow>
           (m, set_user_preference nw (mg_config m) (effective_proxy (mg_proxy m) c) token overage_status c)))"

text \<open>The subscription's title, when it changed, and the account's address, when there was none.\<close>

definition store_title :: "outside \<Rightarrow> u64 \<Rightarrow> usage_limits \<Rightarrow> manager \<Rightarrow> manager" where
  "store_title ev cid u m =
    (case (subscription_title_of u, find_entry cid m) of
       (Some title, Some e) \<Rightarrow>
         if subscription_title (ce_credentials e) \<noteq> Some title
         then fst (persist_credentials ev (update_entry cid
                (\<lambda>e. e\<lparr>ce_credentials := (ce_credentials e)\<lparr>subscription_title := Some title\<rparr>\<rparr>) m))
         else m
     | _ \<Rightarrow> m)"

definition store_email :: "outside \<Rightarrow> u64 \<Rightarrow> usage_limits \<Rightarrow> manager \<Rightarrow> manager" where
  "store_email ev cid u m =
    (case (email_of u, find_entry cid m) of
       (Some address, Some e) \<Rightarrow>
         if \<not> some_and (\<lambda>s. \<not> is_blank s) (email (ce_credentials e))
         then fst (persist_credentials ev (update_entry cid
                (\<lambda>e. e\<lparr>ce_credentials := (ce_credentials e)\<lparr>email := Some address\<rparr>\<rparr>) m))
         else m
     | _ \<Rightarrow> m)"

definition get_usage_limits_for ::
  "outside \<Rightarrow> network \<Rightarrow> u64 \<Rightarrow> manager \<Rightarrow> manager \<times> (refresh_error + usage_limits)" where
  "get_usage_limits_for ev nw cid m =
    (case prepare_request_token ev nw cid m of
       (m, Inl err) \<Rightarrow> (m, Inl err)
     | (m, Inr (token, c)) \<Rightarrow>
         (case get_usage_limits nw (mg_config m) (effective_proxy (mg_proxy m) c) token c of
            Inl err \<Rightarrow> (m, Inl err)
          | Inr u \<Rightarrow> (store_email ev cid u (store_title ev cid u m), Inr u)))"

subsection \<open>Settings\<close>

text \<open>
  A setting is changed in memory, then in the configuration file, which is read again for it; when
  that fails the memory is put back. Without a configuration file the change is only in memory.
\<close>

definition persist_setting :: "outside \<Rightarrow> (config \<Rightarrow> config) \<Rightarrow> manager \<Rightarrow> manager \<times> manager_error option" where
  "persist_setting ev f m =
    (if \<not> cf_has_path (mg_config m) then (m, None)
     else (case mg_config_file m of
             None \<Rightarrow> (m, Some ConfigReloadFailed)
           | Some cf \<Rightarrow>
               (case ev_config_write ev of
                  Written \<Rightarrow> (m\<lparr>mg_config_file := Some (f cf)\<rparr>, None)
                | Failed left \<Rightarrow> (m\<lparr>mg_config_file := left\<rparr>, Some PersistFailed))))"

definition set_load_balancing_mode ::
  "outside \<Rightarrow> string \<Rightarrow> manager \<Rightarrow> manager \<times> (manager_error + unit)" where
  "set_load_balancing_mode ev mode m =
    (if mode \<noteq> ''priority'' \<and> mode \<noteq> ''balanced'' then (m, Inl (InvalidMode mode))
     else if mg_load_balancing_mode m = mode then (m, Inr ())
     else (case persist_setting ev (\<lambda>cf. cf\<lparr>cf_load_balancing_mode := mode\<rparr>) (m\<lparr>mg_load_balancing_mode := mode\<rparr>) of
             (m', Some err) \<Rightarrow> (m'\<lparr>mg_load_balancing_mode := mg_load_balancing_mode m\<rparr>, Inl err)
           | (m', None) \<Rightarrow> (m', Inr ())))"

definition get_retry_policy ::
  "manager \<Rightarrow> policy_error + retry_mode \<times> retry_policy option \<times> retry_policy" where
  "get_retry_policy m =
    (case effective (mg_retry_mode m) (mg_retry_policy m) of
       Inl e \<Rightarrow> Inl e | Inr p \<Rightarrow> Inr (mg_retry_mode m, mg_retry_policy m, p))"

definition set_retry_policy ::
  "outside \<Rightarrow> retry_mode \<Rightarrow> retry_policy option \<Rightarrow> manager \<Rightarrow> manager \<times> (manager_error + unit)" where
  "set_retry_policy ev mode custom m =
    (case effective mode custom of
       Inl e \<Rightarrow> (m, Inl (BadRetryPolicy e))
     | Inr _ \<Rightarrow>
         if mg_retry_mode m = mode \<and> mg_retry_policy m = custom then (m, Inr ())
         else (case persist_setting ev (\<lambda>cf. cf\<lparr>cf_retry_mode := mode, cf_retry_policy := custom\<rparr>)
                      (m\<lparr>mg_retry_mode := mode, mg_retry_policy := custom\<rparr>) of
                 (m', Some err) \<Rightarrow>
                   (m'\<lparr>mg_retry_mode := mg_retry_mode m, mg_retry_policy := mg_retry_policy m\<rparr>, Inl err)
               | (m', None) \<Rightarrow> (m', Inr ())))"

definition set_account_throttle_config ::
  "outside \<Rightarrow> bool option \<Rightarrow> u64 option \<Rightarrow> manager \<Rightarrow> manager \<times> (manager_error + unit)" where
  "set_account_throttle_config ev failover cooldown_secs m =
    (case (case cooldown_secs of
             Some secs \<Rightarrow> if \<not> (1 \<le> secs \<and> secs \<le> 86400) then Some (InvalidCooldown secs) else None
           | None \<Rightarrow> None) of
       Some err \<Rightarrow> (m, Inl err)
     | None \<Rightarrow>
         let new_failover = (case failover of Some b \<Rightarrow> b | None \<Rightarrow> mg_throttle_failover m);
             new_cooldown = (case cooldown_secs of Some s \<Rightarrow> s | None \<Rightarrow> mg_throttle_cooldown_secs m)
         in if new_failover = mg_throttle_failover m \<and> new_cooldown = mg_throttle_cooldown_secs m then (m, Inr ())
            else (case persist_setting ev
                      (\<lambda>cf. cf\<lparr>cf_throttle_failover := new_failover, cf_throttle_cooldown_secs := new_cooldown\<rparr>)
                      (m\<lparr>mg_throttle_failover := new_failover, mg_throttle_cooldown_secs := new_cooldown\<rparr>) of
                 (m', Some err) \<Rightarrow>
                   (m'\<lparr>mg_throttle_failover := mg_throttle_failover m,
                       mg_throttle_cooldown_secs := mg_throttle_cooldown_secs m\<rparr>, Inl err)
               | (m', None) \<Rightarrow> (m', Inr ())))"

end
