(* ===== verification/Pool_Invariant.thy ===== *)
theory Pool_Invariant imports Pool_Admin begin

section \<open>The invariant of the credential pool\<close>

text \<open>
  What holds of the pool in every state: the ids are distinct, a credential is disabled exactly when
  there is a reason for it, an enabled one is below both failure limits, and no failure counter passes
  its limit. One lemma per operation, and the states a run of operations can reach.
\<close>

named_theorems pool_simps \<open>what an operation does to the entries\<close>
named_theorems pool_intros \<open>operations that keep the invariant\<close>

subsection \<open>The invariant\<close>

definition entry_ok :: "credential_entry \<Rightarrow> bool" where
  "entry_ok e \<longleftrightarrow> (ce_disabled e \<longleftrightarrow> ce_disabled_reason e \<noteq> None)
     \<and> (\<not> ce_disabled e \<longrightarrow> failure_count e < MAX_FAILURES_PER_CREDENTIAL)
     \<and> (\<not> ce_disabled e \<or> ce_disabled_reason e = Some TooManyFailures
          \<longrightarrow> refresh_failure_count e < MAX_FAILURES_PER_CREDENTIAL)
     \<and> failure_count e \<le> MAX_FAILURES_PER_CREDENTIAL \<and> refresh_failure_count e \<le> MAX_FAILURES_PER_CREDENTIAL"

definition pool_inv :: "manager \<Rightarrow> bool" where
  "pool_inv m \<longleftrightarrow> distinct (map ce_id (mg_entries m)) \<and> list_all entry_ok (mg_entries m)"

lemma pool_inv_entries: "mg_entries m' = mg_entries m \<Longrightarrow> pool_inv m' = pool_inv m"
  by (simp add: pool_inv_def)

lemma count_bound [simp]: "x + 1 \<le> MAX_FAILURES_PER_CREDENTIAL" if "x < MAX_FAILURES_PER_CREDENTIAL"
  using that by (rule inc_le)

lemma entry_ok_new [pool_intros]: "dis \<longleftrightarrow> reason \<noteq> None \<Longrightarrow> entry_ok (new_entry cid c dis reason)"
  by (simp add: entry_ok_def new_entry_def MAX_FAILURES_PER_CREDENTIAL_def)

lemma pool_inv_update:
  assumes "pool_inv m"
    and "\<And>e. entry_ok e \<Longrightarrow> e \<in> set (mg_entries m) \<Longrightarrow> ce_id e = cid \<Longrightarrow> entry_ok (f e)"
    and "\<And>e. ce_id (f e) = ce_id e"
  shows "pool_inv (update_entry cid f m)"
  using assms by (auto simp: pool_inv_def update_entry_def intro!: list_all_update_first)

lemma pool_inv_map:
  assumes "pool_inv m" and "\<And>e. entry_ok e \<Longrightarrow> entry_ok (f e)" and "\<And>e. ce_id (f e) = ce_id e"
  shows "pool_inv (m\<lparr>mg_entries := map f (mg_entries m)\<rparr>)"
  using assms by (auto simp: pool_inv_def list_all_iff comp_def)

subsection \<open>Operations that keep the entries\<close>

lemma entries_persist [pool_simps]: "mg_entries (fst (persist_credentials ev m)) = mg_entries m"
  by (simp add: persist_credentials_def split: write_result.split)

lemma entries_persist_or [pool_simps]: "mg_entries (fst (persist_or ev v m)) = mg_entries m"
  using entries_persist [of ev m] by (auto simp: persist_or_def split: prod.splits sum.splits)

lemma entries_save_stats [pool_simps]: "mg_entries (save_stats ev m) = mg_entries m"
  by (simp add: save_stats_def split: write_result.split)

lemma entries_debounced [pool_simps]: "mg_entries (save_stats_debounced ev m) = mg_entries m"
  by (simp add: save_stats_debounced_def Let_def entries_save_stats)

lemma entries_drop_manager [pool_simps]: "mg_entries (drop_manager ev m) = mg_entries m"
  by (simp add: drop_manager_def entries_save_stats)

lemma entries_select_highest [pool_simps]: "mg_entries (select_highest_priority m) = mg_entries m"
  by (simp add: select_highest_priority_def split: option.split)

lemma entries_switch_to_best [pool_simps]: "mg_entries (fst (switch_to_best m)) = mg_entries m"
  by (simp add: switch_to_best_def split: option.split)

lemma entries_switch_to_next [pool_simps]: "mg_entries (fst (switch_to_next m)) = mg_entries m"
  by (simp add: switch_to_next_def split: option.split)

lemma entries_persist_setting [pool_simps]: "mg_entries (fst (persist_setting ev f m)) = mg_entries m"
  by (simp add: persist_setting_def split: option.split write_result.split)

lemma entries_edit_file [pool_simps]: "mg_entries (edit_file t m) = mg_entries m"
  by (simp add: edit_file_def split: option.split)

lemma entries_settings [pool_simps]:
  "mg_entries (fst (set_load_balancing_mode ev mode m)) = mg_entries m"
  "mg_entries (fst (set_retry_policy ev rm custom m)) = mg_entries m"
  "mg_entries (fst (set_account_throttle_config ev failover secs m)) = mg_entries m"
  using entries_persist_setting [of ev "\<lambda>cf. cf\<lparr>cf_load_balancing_mode := mode\<rparr>" "m\<lparr>mg_load_balancing_mode := mode\<rparr>"]
    entries_persist_setting [of ev "\<lambda>cf. cf\<lparr>cf_retry_mode := rm, cf_retry_policy := custom\<rparr>"
      "m\<lparr>mg_retry_mode := rm, mg_retry_policy := custom\<rparr>"]
  by (auto simp: set_load_balancing_mode_def set_retry_policy_def set_account_throttle_config_def Let_def
      persist_setting_def split: option.splits sum.splits write_result.splits)

lemmas pool_inv_same = pool_inv_entries [OF entries_persist] pool_inv_entries [OF entries_persist_or]
  pool_inv_entries [OF entries_save_stats] pool_inv_entries [OF entries_debounced]
  pool_inv_entries [OF entries_drop_manager] pool_inv_entries [OF entries_select_highest]
  pool_inv_entries [OF entries_switch_to_best] pool_inv_entries [OF entries_switch_to_next]
  pool_inv_entries [OF entries_edit_file] pool_inv_entries [OF entries_settings(1)]
  pool_inv_entries [OF entries_settings(2)] pool_inv_entries [OF entries_settings(3)]

lemma pool_inv_fields [simp]:
  "pool_inv (m\<lparr>mg_current_id := i\<rparr>) = pool_inv m"
  "pool_inv (m\<lparr>mg_fetch_attempted := a\<rparr>) = pool_inv m"
  "pool_inv (m\<lparr>mg_multiple_format := b\<rparr>) = pool_inv m"
  "pool_inv (m\<lparr>mg_file := fl\<rparr>) = pool_inv m"
  "pool_inv (m\<lparr>mg_config := cf\<rparr>) = pool_inv m"
  "pool_inv (m\<lparr>mg_proxy := px\<rparr>) = pool_inv m"
  by (simp_all add: pool_inv_def)

text \<open>Changes of an entry that touch none of the fields the invariant speaks of.\<close>

lemma entry_ok_irrelevant [simp]:
  "entry_ok (e\<lparr>ce_credentials := c\<rparr>) = entry_ok e"
  "entry_ok (e\<lparr>success_count := n\<rparr>) = entry_ok e"
  "entry_ok (e\<lparr>last_used_at := s\<rparr>) = entry_ok e"
  "entry_ok (e\<lparr>total_failure_count := k\<rparr>) = entry_ok e"
  "entry_ok (e\<lparr>throttled_until := t\<rparr>) = entry_ok e"
  "entry_ok (e\<lparr>rate_limited_until := t\<rparr>) = entry_ok e"
  by (simp_all add: entry_ok_def)

lemma find_entry_unique:
  assumes "pool_inv m" and "find_entry cid m = Some e" and "e' \<in> set (mg_entries m)" and "ce_id e' = cid"
  shows "e' = e"
proof -
  have "find (\<lambda>x. ce_id x = ce_id e') (mg_entries m) = Some e'"
    using assms(1,3) by (intro find_distinct_key) (simp_all add: pool_inv_def)
  with assms(2,4) show ?thesis by (simp add: find_entry_def)
qed

lemma find_entry_in: "find_entry cid m = Some e \<Longrightarrow> e \<in> set (mg_entries m) \<and> ce_id e = cid"
  unfolding find_entry_def by (rule find_Some_in)

lemma find_entry_ok: "pool_inv m \<Longrightarrow> find_entry cid m = Some e \<Longrightarrow> entry_ok e"
  using find_entry_in by (fastforce simp: pool_inv_def list_all_iff)

subsection \<open>Reports\<close>

lemma pool_inv_report_success [pool_intros]: "pool_inv m \<Longrightarrow> pool_inv (report_success ev cid m)"
  unfolding report_success_def pool_inv_same
  by (rule pool_inv_update) (auto simp: entry_ok_def MAX_FAILURES_PER_CREDENTIAL_def)

lemma update_entry_twice:
  "(\<And>e. ce_id (f e) = ce_id e) \<Longrightarrow> update_entry cid g (update_entry cid f m) = update_entry cid (\<lambda>e. g (f e)) m"
proof -
  assume f: "\<And>e. ce_id (f e) = ce_id e"
  have "update_first (\<lambda>x. ce_id x = cid) g (update_first (\<lambda>x. ce_id x = cid) f es) =
      update_first (\<lambda>x. ce_id x = cid) (\<lambda>e. g (f e)) es" for es
    by (induction es) (auto simp: f)
  then show ?thesis by (simp add: update_entry_def)
qed

text \<open>An operation on the one entry it found: it may assume what it tested of that entry.\<close>

lemma pool_inv_update_found:
  assumes "pool_inv m" and "find_entry cid m = Some e" and "entry_ok e \<Longrightarrow> entry_ok (f e)"
    and "\<And>e. ce_id (f e) = ce_id e"
  shows "pool_inv (update_entry cid f m)"
  using assms(1)
proof (rule pool_inv_update)
  fix e' assume "entry_ok e'" and "e' \<in> set (mg_entries m)" and "ce_id e' = cid"
  then show "entry_ok (f e')" using find_entry_unique [OF assms(1,2)] assms(3) by blast
qed (rule assms(4))

lemma pool_inv_switch_pair [simp]: "pool_inv (fst (case switch_to_best m of (m, r) \<Rightarrow> (save_stats_debounced ev m, r)))
    = pool_inv m"
  by (simp add: case_prod_unfold pool_inv_same)

lemma pool_inv_report_failure [pool_intros]:
  assumes "pool_inv m" shows "pool_inv (fst (report_failure ev cid m))"
proof (cases "find_entry cid m")
  case (Some e)
  show ?thesis
  proof (cases "ce_disabled e \<or> MAX_FAILURES_PER_CREDENTIAL \<le> failure_count e + 1")
    case True
    have "pool_inv (update_entry cid (\<lambda>e. e\<lparr>failure_count := failure_count e + 1,
        total_failure_count := total_failure_count e + 1, last_used_at := Some (ev_stamp ev),
        ce_disabled := True, ce_disabled_reason := Some TooManyFailures\<rparr>) m)" if "\<not> ce_disabled e"
      using assms Some by (rule pool_inv_update_found) (use that in \<open>auto simp: entry_ok_def\<close>)
    with True assms show ?thesis
      by (auto simp: report_failure_def Some Let_def pool_inv_same update_entry_twice)
  next
    case False
    have "pool_inv (update_entry cid (\<lambda>e. e\<lparr>failure_count := failure_count e + 1,
        total_failure_count := total_failure_count e + 1, last_used_at := Some (ev_stamp ev)\<rparr>) m)"
      using assms Some by (rule pool_inv_update_found) (use False in \<open>auto simp: entry_ok_def not_le\<close>)
    with False show ?thesis by (simp add: report_failure_def Some Let_def pool_inv_same)
  qed
qed (use assms in \<open>simp add: report_failure_def\<close>)

lemma pool_inv_report_quota [pool_intros]:
  assumes "pool_inv m" shows "pool_inv (fst (report_quota_exhausted ev cid m))"
proof (cases "find_entry cid m")
  case (Some e)
  have "pool_inv (update_entry cid (\<lambda>e. e\<lparr>ce_disabled := True, ce_disabled_reason := Some QuotaExceeded,
      last_used_at := Some (ev_stamp ev), failure_count := MAX_FAILURES_PER_CREDENTIAL,
      total_failure_count := total_failure_count e + 1\<rparr>) m)"
    using assms by (rule pool_inv_update) (auto simp: entry_ok_def)
  with assms show ?thesis by (simp add: report_quota_exhausted_def Some)
qed (use assms in \<open>simp add: report_quota_exhausted_def\<close>)

lemma pool_inv_report_refresh_failure [pool_intros]:
  assumes "pool_inv m" shows "pool_inv (fst (report_refresh_failure ev cid m))"
proof (cases "find_entry cid m")
  case (Some e)
  show ?thesis
  proof (cases "ce_disabled e \<or> refresh_failure_count e + 1 < MAX_FAILURES_PER_CREDENTIAL")
    case True
    have "pool_inv (update_entry cid (\<lambda>e. e\<lparr>last_used_at := Some (ev_stamp ev),
        refresh_failure_count := refresh_failure_count e + 1\<rparr>) m)" if "\<not> ce_disabled e"
      using assms Some by (rule pool_inv_update_found) (use that True in \<open>auto simp: entry_ok_def\<close>)
    with True assms show ?thesis by (auto simp: report_refresh_failure_def Some Let_def)
  next
    case False
    have "pool_inv (update_entry cid (\<lambda>e. e\<lparr>last_used_at := Some (ev_stamp ev),
        refresh_failure_count := refresh_failure_count e + 1,
        ce_disabled := True, ce_disabled_reason := Some TooManyRefreshFailures\<rparr>) m)"
      using assms Some by (rule pool_inv_update_found) (use False in \<open>auto simp: entry_ok_def\<close>)
    with False show ?thesis by (simp add: report_refresh_failure_def Some Let_def update_entry_twice)
  qed
qed (use assms in \<open>simp add: report_refresh_failure_def\<close>)

lemma pool_inv_report_invalid [pool_intros]:
  assumes "pool_inv m" shows "pool_inv (fst (report_refresh_token_invalid ev cid m))"
proof (cases "find_entry cid m")
  case (Some e)
  have "pool_inv (update_entry cid (\<lambda>e. e\<lparr>last_used_at := Some (ev_stamp ev), ce_disabled := True,
      ce_disabled_reason := Some InvalidRefreshToken\<rparr>) m)"
    using assms by (rule pool_inv_update) (auto simp: entry_ok_def)
  with assms show ?thesis by (simp add: report_refresh_token_invalid_def Some)
qed (use assms in \<open>simp add: report_refresh_token_invalid_def\<close>)

lemma pool_inv_account_throttled [pool_intros]: "pool_inv m \<Longrightarrow> pool_inv (fst (report_account_throttled ev cid cd m))"
  unfolding report_account_throttled_def Let_def fst_conv by (rule pool_inv_update) auto

lemma pool_inv_rate_limited [pool_intros]: "pool_inv m \<Longrightarrow> pool_inv (fst (report_rate_limited ev cid cd m))"
proof -
  assume m: "pool_inv m"
  have "pool_inv (update_entry cid (\<lambda>e. e\<lparr>
      rate_limited_until := extend_cooldown (ev_now ev + cd) (rate_limited_until e),
      total_failure_count := total_failure_count e + 1\<rparr>) m)"
    using m by (rule pool_inv_update) auto
  then show ?thesis by (simp add: report_rate_limited_def Let_def split: option.split)
qed

subsection \<open>Acquiring\<close>

lemma pool_inv_set_credentials: "pool_inv m \<Longrightarrow> pool_inv (update_entry cid (\<lambda>e. e\<lparr>ce_credentials := c\<rparr>) m)"
  by (rule pool_inv_update) auto

lemma pool_inv_set_profile_arn [pool_intros]: "pool_inv m \<Longrightarrow> pool_inv (fst (set_profile_arn_for ev cid arn m))"
  by (auto simp: set_profile_arn_for_def Let_def pool_inv_same pool_inv_set_credentials split: option.split)

lemma pool_inv_fallback [pool_intros]:
  "pool_inv m \<Longrightarrow> pool_inv (fst (ensure_enterprise_fallback_profile_arn ev cid c m))"
  using pool_inv_set_profile_arn [of m ev cid]
  by (auto simp: ensure_enterprise_fallback_profile_arn_def Let_def case_prod_unfold split: option.split)

lemma pool_inv_ensure_profile [pool_intros]:
  "pool_inv m \<Longrightarrow> pool_inv (fst (ensure_enterprise_profile_arn ev nw cid c token m))"
proof -
  assume m: "pool_inv m"
  let ?m = "m\<lparr>mg_fetch_attempted := insert cid (mg_fetch_attempted m)\<rparr>"
  have "pool_inv ?m" using m by simp
  with m show ?thesis
    by (auto simp: ensure_enterprise_profile_arn_def Let_def case_prod_unfold
        intro: pool_inv_fallback pool_inv_set_profile_arn split: sum.split option.split)
qed

lemma pool_inv_refresh_entry [pool_intros]: "pool_inv m \<Longrightarrow> pool_inv (fst (refresh_entry ev nw cid m))"
  by (auto simp: refresh_entry_def Let_def pool_inv_same pool_inv_set_credentials split: option.split sum.split)

lemma pool_inv_try_ensure_token [pool_intros]:
  "pool_inv m \<Longrightarrow> pool_inv (fst (try_ensure_token ev nw cid c m))"
proof -
  assume m: "pool_inv m"
  have r: "pool_inv (fst (refresh_entry ev nw cid m))" using m by (rule pool_inv_refresh_entry)
  have u: "pool_inv (update_entry cid (\<lambda>e. e\<lparr>refresh_failure_count := 0\<rparr>)
      (fst (ensure_enterprise_profile_arn ev nw cid c' token m')))" if "pool_inv m'" for m' c' token
    using pool_inv_ensure_profile [OF that]
    by (rule pool_inv_update) (auto simp: entry_ok_def MAX_FAILURES_PER_CREDENTIAL_def)
  show ?thesis
    using m r u by (auto simp: try_ensure_token_def case_prod_unfold split: sum.split option.split)
qed

lemma pool_inv_reload [pool_intros]: "pool_inv m \<Longrightarrow> pool_inv (fst (try_reload_credential_from_file cid m))"
proof -
  assume m: "pool_inv m"
  have "pool_inv (update_entry cid (\<lambda>e. e\<lparr>ce_credentials := (ce_credentials e)\<lparr>refresh_token := refresh_token fc,
      access_token := access_token fc, expires_at := expires_at fc\<rparr>, ce_disabled := False,
      ce_disabled_reason := None, refresh_failure_count := 0, failure_count := 0\<rparr>) m)" for fc :: credentials
    using m by (rule pool_inv_update) (auto simp: entry_ok_def MAX_FAILURES_PER_CREDENTIAL_def)
  with m show ?thesis by (simp add: try_reload_credential_from_file_def split: option.split)
qed

lemma pool_inv_self_heal [pool_intros]: "pool_inv m \<Longrightarrow> pool_inv (self_heal m)"
  unfolding self_heal_def
  by (rule pool_inv_map) (auto simp: heal_entry_def entry_ok_def MAX_FAILURES_PER_CREDENTIAL_def)

lemma pool_inv_pick [pool_intros]: "pool_inv m \<Longrightarrow> pool_inv (fst (pick_credential now model m))"
  by (auto simp: pick_credential_def select_or_heal_def pool_inv_self_heal split: option.split prod.split)

lemma pool_inv_reload_if_invalid [pool_intros]: "pool_inv m \<Longrightarrow> pool_inv (fst (reload_if_invalid e cid m))"
  by (cases e) (simp_all add: reload_if_invalid_def pool_inv_reload)

lemma pool_inv_report_token_error [pool_intros]: "pool_inv m \<Longrightarrow> pool_inv (fst (report_token_error ev e cid m))"
  by (cases e) (simp_all add: report_token_error_def pool_inv_report_invalid pool_inv_report_refresh_failure)

lemma pool_inv_token_failed [pool_intros]: "pool_inv m \<Longrightarrow> pool_inv (fst (token_failed ev all k cid e m))"
  using pool_inv_reload_if_invalid [of m e cid]
  by (cases "reload_if_invalid e cid m")
    (auto simp: token_failed_def case_prod_unfold intro: pool_inv_report_token_error split: bool.splits)

lemma pool_inv_acquire_step [pool_intros]:
  "pool_inv m \<Longrightarrow> pool_inv (fst (acquire_step t all max_attempts model k m))"
proof -
  assume m: "pool_inv m"
  let ?m = "edit_file t m" let ?ev = "tn_outside t" let ?p = "pick_credential (ev_now (tn_outside t)) model ?m"
  have p: "pool_inv (fst ?p)" by (rule pool_inv_pick) (use m in \<open>simp add: pool_inv_same\<close>)
  have e: "pool_inv (fst (try_ensure_token ?ev (tn_network t) cid c (fst ?p)))" for cid c
    using p by (rule pool_inv_try_ensure_token)
  obtain m1 r where pe: "?p = (m1, r)" by (cases ?p)
  show ?thesis
  proof (cases r)
    case None
    then show ?thesis using m p pe by (simp add: acquire_step_def Let_def pool_inv_same)
  next
    case (Some b)
    obtain cid c where b: "b = (cid, c)" by (cases b)
    obtain m2 x where te: "try_ensure_token ?ev (tn_network t) cid c m1 = (m2, x)" by fastforce
    have "pool_inv m2" using e [of cid c] by (simp add: pe te)
    then show ?thesis using m
      by (cases x) (auto simp: acquire_step_def Let_def pool_inv_same pe Some b te intro: pool_inv_token_failed)
  qed
qed

lemma pool_inv_acquire_loop:
  "pool_inv m \<Longrightarrow> acquire_loop fuel turns all max_attempts model k m = Some (m', r) \<Longrightarrow> pool_inv m'"
proof (induction fuel arbitrary: m k)
  case (Suc n)
  have s: "pool_inv (fst (acquire_step (turns n) all max_attempts model k m))"
    using Suc.prems(1) by (rule pool_inv_acquire_step)
  obtain m1 p where e: "acquire_step (turns n) all max_attempts model k m = (m1, p)" by fastforce
  with s Suc show ?case by (cases p) auto
qed simp

lemma pool_inv_acquire [pool_intros]:
  "pool_inv m \<Longrightarrow> acquire_context fuel turns model m = Some (m', r) \<Longrightarrow> pool_inv m'"
  unfolding acquire_context_def by (rule pool_inv_acquire_loop)

subsection \<open>Administration\<close>

lemma pool_inv_change_entry:
  assumes "pool_inv m" and "\<And>e. entry_ok e \<Longrightarrow> entry_ok (f e)" and "\<And>e. ce_id (f e) = ce_id e"
  shows "pool_inv (fst (change_entry ev cid f m))"
  using assms by (auto simp: change_entry_def pool_inv_same intro: pool_inv_update split: option.split)

lemma pool_inv_change_entries [pool_intros]:
  assumes "pool_inv m"
  shows "pool_inv (fst (set_disabled ev cid dis m))"
    and "pool_inv (fst (disable_quota_exceeded ev cid m))"
    and "pool_inv (fst (set_endpoint ev cid ep m))"
    and "pool_inv (fst (update_credential ev cid a b c d m))"
  unfolding set_disabled_def disable_quota_exceeded_def set_endpoint_def update_credential_def
  by (rule pool_inv_change_entry [OF assms],
      auto simp: entry_ok_def MAX_FAILURES_PER_CREDENTIAL_def)+

lemma pool_inv_clear_throttle [pool_intros]: "pool_inv m \<Longrightarrow> pool_inv (fst (clear_throttle cid m))"
  by (auto simp: clear_throttle_def intro: pool_inv_update split: option.split)

lemma pool_inv_set_priority [pool_intros]: "pool_inv m \<Longrightarrow> pool_inv (fst (set_priority ev cid p m))"
  by (auto simp: set_priority_def pool_inv_same intro: pool_inv_update split: option.split)

lemma pool_inv_reset_and_enable [pool_intros]: "pool_inv m \<Longrightarrow> pool_inv (fst (reset_and_enable ev cid m))"
  by (auto simp: reset_and_enable_def entry_ok_def MAX_FAILURES_PER_CREDENTIAL_def
      intro: pool_inv_change_entry split: option.split)

lemma pool_inv_reset_success [pool_intros]: "pool_inv m \<Longrightarrow> pool_inv (fst (reset_success_count ev which m))"
  by (auto simp: reset_success_count_def pool_inv_same intro: pool_inv_update pool_inv_map split: option.split)

lemma pool_inv_update_auth_metadata [pool_intros]:
  "pool_inv m \<Longrightarrow> pool_inv (fst (update_auth_metadata ev cid md m))"
  by (auto simp: update_auth_metadata_def Let_def pool_inv_same pool_inv_set_credentials split: option.split)

lemma pool_inv_delete [pool_intros]: "pool_inv m \<Longrightarrow> pool_inv (fst (delete_credential ev cid m))"
proof -
  assume m: "pool_inv m"
  then have "pool_inv (m\<lparr>mg_entries := filter (\<lambda>e. ce_id e \<noteq> cid) (mg_entries m)\<rparr>)"
    by (auto simp: pool_inv_def distinct_map_filter list_all_iff)
  then have "pool_inv (fst (persist_credentials ev m'))"
    if "mg_entries m' = filter (\<lambda>e. ce_id e \<noteq> cid) (mg_entries m)" for m'
    using that by (simp add: pool_inv_def pool_simps)
  then have "pool_inv (fst (case persist_credentials ev m' of
      (m, Inl err) \<Rightarrow> (m, Inl err) | (m, Inr _) \<Rightarrow> (save_stats ev m, Inr ())))"
    if "mg_entries m' = filter (\<lambda>e. ce_id e \<noteq> cid) (mg_entries m)" for m'
    using that by (auto simp: case_prod_unfold pool_inv_same split: sum.split)
  with m show ?thesis
    by (auto simp: delete_credential_def Let_def entries_select_highest split: option.split)
qed

lemma pool_inv_update_refresh_token [pool_intros]:
  "pool_inv m \<Longrightarrow> pool_inv (fst (update_refresh_token h ev cid token a x m))"
  by (auto simp: update_refresh_token_def entry_ok_def MAX_FAILURES_PER_CREDENTIAL_def
      intro: pool_inv_change_entry split: option.split)

lemma pool_inv_force_refresh [pool_intros]:
  "pool_inv m \<Longrightarrow> pool_inv (fst (force_refresh_token_for ev nw cid m))"
  by (auto simp: force_refresh_token_for_def pool_inv_same entry_ok_def MAX_FAILURES_PER_CREDENTIAL_def
      intro: pool_inv_update split: option.split sum.split)

lemma pool_inv_prepare [pool_intros]: "pool_inv m \<Longrightarrow> pool_inv (fst (prepare_request_token ev nw cid m))"
  by (auto simp: prepare_request_token_def Let_def pool_inv_same pool_inv_set_credentials
      split: option.split sum.split)

lemma pool_inv_store [pool_intros]:
  assumes "pool_inv m"
  shows "pool_inv (store_title ev cid u m)" and "pool_inv (store_email ev cid u m)"
  using assms by (auto simp: store_title_def store_email_def pool_inv_same
      intro: pool_inv_update split: option.split)

lemma pool_inv_queries [pool_intros]:
  assumes "pool_inv m"
  shows "pool_inv (fst (get_available_models_for ev nw cid m))"
    and "pool_inv (fst (set_user_preference_for ev nw cid st m))"
    and "pool_inv (fst (get_usage_limits_for ev nw cid m))"
  using pool_inv_prepare [OF assms, of ev nw cid] assms
  by (auto simp: get_available_models_for_def set_user_preference_for_def get_usage_limits_for_def
      case_prod_unfold intro: pool_inv_store split: sum.split)

lemma max_id_ge: "i \<in> set ids \<Longrightarrow> i \<le> fold max ids a"
  and max_id_start: "a \<le> fold max ids a" for a :: u64
proof (induction ids arbitrary: a)
  case (Cons x xs)
  { case 1 then show ?case using Cons(1) [of "max x a"] Cons(2) [of "max x a"] by (auto intro: order_trans) }
  { case 2 then show ?case using Cons(2) [of "max x a"] by (auto intro: order_trans) }
qed simp_all

text \<open>The id of a new credential is not taken, as long as the largest id has a successor.\<close>

lemma fresh_id: "max_id ids \<noteq> - 1 \<Longrightarrow> max_id ids + 1 \<notin> set ids"
proof
  assume m: "max_id ids \<noteq> - 1" and "max_id ids + 1 \<in> set ids"
  then have "max_id ids + 1 \<le> max_id ids" unfolding max_id_def by (intro max_id_ge)
  with m show False by (simp add: inc_less_eq_self_iff_eq)
qed

lemma pool_inv_add [pool_intros]:
  assumes "pool_inv m" and "max_id (map ce_id (mg_entries m)) \<noteq> - 1"
  shows "pool_inv (fst (add_credential h ev nw new m))"
proof -
  have "pool_inv (fst (persist_credentials ev (m\<lparr>mg_entries := mg_entries m @
      [new_entry (max_id (map ce_id (mg_entries m)) + 1) c False None], mg_multiple_format := True\<rparr>)))" for c
    using assms fresh_id [OF assms(2)] entry_ok_new [of False None]
    by (simp add: pool_inv_def new_entry_def pool_simps)
  with assms(1) show ?thesis
    by (auto simp: add_credential_def Let_def case_prod_unfold split: option.split sum.split)
qed

subsection \<open>Construction\<close>

lemma duplicate_ids_nil: "duplicate_ids seen ids = [] \<longleftrightarrow> distinct ids \<and> set ids \<inter> seen = {}"
  by (induction ids arbitrary: seen) auto

lemma build_entries_ok: "list_all entry_ok (fst (build_entries h seeds cf next_id cache cs))"
proof (induction cs arbitrary: next_id cache)
  case (Cons c cs)
  show ?case
    by (auto simp: Let_def case_prod_unfold intro: entry_ok_new Cons.IH split: option.split)
qed simp

lemma check_config_ok: "entry_ok e \<Longrightarrow> entry_ok (check_config e)"
  by (auto simp: check_config_def entry_ok_def)

lemma pool_inv_load_stats [pool_intros]: "pool_inv m \<Longrightarrow> pool_inv (load_stats ev m)"
proof -
  assume m: "pool_inv m"
  have "pool_inv (m\<lparr>mg_entries := map (\<lambda>e. case st (ce_id e) of
      Some s \<Rightarrow> e\<lparr>success_count := st_success_count s, total_failure_count := st_total_failure_count s,
                  last_used_at := st_last_used_at s\<rparr>
    | None \<Rightarrow> e) (mg_entries m)\<rparr>)" for st :: stats
    using m by (rule pool_inv_map) (auto split: option.split)
  with m show ?thesis by (simp add: load_stats_def pool_inv_def split: option.split)
qed

lemma entries_write_completed [pool_simps]: "mg_entries (write_completed ev ev' changed m) = mg_entries m"
  by (simp add: write_completed_def Let_def entries_persist)

lemma manager_new_ok:
  assumes "manager_new h seeds ev ev' cf creds px hp mf file st cff cache = Inr m"
  shows "pool_inv m"
proof -
  define es where "es = map check_config (fst (build_entries h seeds cf (max_id (given_ids creds) + 1) cache creds))"
  have ok: "list_all entry_ok es"
    using build_entries_ok check_config_ok by (fastforce simp: es_def list_all_iff)
  obtain changed where d: "duplicate_ids {} (map ce_id es) = []"
    and m: "m = load_stats ev' (write_completed ev ev' changed (initial_manager cf es px hp mf file st cff))"
    using assms by (auto simp: manager_new_def Let_def case_prod_unfold es_def split: if_splits)
  have "distinct (map ce_id es)" using d duplicate_ids_nil [of "{}" "map ce_id es"] by simp
  with ok show ?thesis
    unfolding m by (intro pool_inv_load_stats) (simp add: pool_inv_def pool_simps initial_manager_def)
qed

subsection \<open>Reachable states\<close>

datatype pool_op =
    Acquire nat "nat \<Rightarrow> turn" "string option"
  | Success outside u64
  | Failure outside u64
  | QuotaExhausted outside u64
  | Throttled outside u64 nat
  | LimitHit outside u64 nat
  | SwitchToNext
  | SetDisabled outside u64 bool
  | ClearThrottle u64
  | DisableQuota outside u64
  | SetPriority outside u64 u32
  | SetEndpoint outside u64 "string option"
  | ResetAndEnable outside u64
  | ResetSuccess outside "u64 option"
  | Edit outside u64 "string option option" "string option option" "string option option" "string option option"
  | Metadata outside u64 credentials
  | Delete outside u64
  | NewToken "string \<Rightarrow> string" outside u64 string "string option" "string option"
  | Add "string \<Rightarrow> string" outside network credentials
  | ForceRefresh outside network u64
  | Models outside network u64
  | Preference outside network u64 string
  | Usage outside network u64
  | BalancingMode outside string
  | RetryPolicy outside retry_mode "retry_policy option"
  | ThrottleConfig outside "bool option" "u64 option"
  | GlobalConfig config
  | GlobalProxy "proxy_config option"
  | ExternalEdit "credentials_config option"

fun pool_step :: "pool_op \<Rightarrow> manager \<Rightarrow> manager" where
  "pool_step (Acquire fuel turns model) m =
     (case acquire_context fuel turns model m of Some (m', _) \<Rightarrow> m' | None \<Rightarrow> m)"
| "pool_step (Success ev i) m = report_success ev i m"
| "pool_step (Failure ev i) m = fst (report_failure ev i m)"
| "pool_step (QuotaExhausted ev i) m = fst (report_quota_exhausted ev i m)"
| "pool_step (Throttled ev i cd) m = fst (report_account_throttled ev i cd m)"
| "pool_step (LimitHit ev i cd) m = fst (report_rate_limited ev i cd m)"
| "pool_step SwitchToNext m = fst (switch_to_next m)"
| "pool_step (SetDisabled ev i b) m = fst (set_disabled ev i b m)"
| "pool_step (ClearThrottle i) m = fst (clear_throttle i m)"
| "pool_step (DisableQuota ev i) m = fst (disable_quota_exceeded ev i m)"
| "pool_step (SetPriority ev i p) m = fst (set_priority ev i p m)"
| "pool_step (SetEndpoint ev i ep) m = fst (set_endpoint ev i ep m)"
| "pool_step (ResetAndEnable ev i) m = fst (reset_and_enable ev i m)"
| "pool_step (ResetSuccess ev i) m = fst (reset_success_count ev i m)"
| "pool_step (Edit ev i a b c d) m = fst (update_credential ev i a b c d m)"
| "pool_step (Metadata ev i md) m = fst (update_auth_metadata ev i md m)"
| "pool_step (Delete ev i) m = fst (delete_credential ev i m)"
| "pool_step (NewToken h ev i t a x) m = fst (update_refresh_token h ev i t a x m)"
| "pool_step (Add h ev nw c) m = fst (add_credential h ev nw c m)"
| "pool_step (ForceRefresh ev nw i) m = fst (force_refresh_token_for ev nw i m)"
| "pool_step (Models ev nw i) m = fst (get_available_models_for ev nw i m)"
| "pool_step (Preference ev nw i s) m = fst (set_user_preference_for ev nw i s m)"
| "pool_step (Usage ev nw i) m = fst (get_usage_limits_for ev nw i m)"
| "pool_step (BalancingMode ev s) m = fst (set_load_balancing_mode ev s m)"
| "pool_step (RetryPolicy ev rm c) m = fst (set_retry_policy ev rm c m)"
| "pool_step (ThrottleConfig ev f s) m = fst (set_account_throttle_config ev f s m)"
| "pool_step (GlobalConfig cf) m = m\<lparr>mg_config := cf\<rparr>"
| "pool_step (GlobalProxy px) m = m\<lparr>mg_proxy := px\<rparr>"
| "pool_step (ExternalEdit f) m = m\<lparr>mg_file := f\<rparr>"

text \<open>The next id exists: the largest id in use is not the largest number of 64 bits.\<close>

definition id_left :: "manager \<Rightarrow> bool" where
  "id_left m \<longleftrightarrow> max_id (map ce_id (mg_entries m)) \<noteq> - 1"

inductive pool_reaches :: "manager \<Rightarrow> manager \<Rightarrow> bool" for m0 :: manager where
  reaches_start: "pool_reaches m0 m0"
| reaches_step: "pool_reaches m0 m \<Longrightarrow> id_left m \<Longrightarrow> pool_reaches m0 (pool_step op m)"

inductive_simps pool_reaches_iff: "pool_reaches m0 m"

lemma pool_step_inv: "pool_inv m \<Longrightarrow> id_left m \<Longrightarrow> pool_inv (pool_step op m)"
  by (cases op) (auto simp: pool_inv_same id_left_def split: option.split
      intro: pool_intros)

lemma pool_reaches_inv: "pool_reaches m0 m \<Longrightarrow> pool_inv m0 \<Longrightarrow> pool_inv m"
  by (induction rule: pool_reaches.induct) (auto intro: pool_step_inv)

end
