(* ===== verification/Provider.thy ===== *)
theory Provider imports Endpoints Numbers Pool_Invariant begin

section \<open>The upstream provider (src/src/kiro/provider.rs)\<close>

text \<open>
  A request to the upstream: which credential, client and endpoint it uses, what every kind of reply
  does to the pool, when it is tried again and when it ends. Each attempt has a world of its own
  (\<open>hop\<close>): the clocks, the network, and the operations of other requests and of the administrator on
  the pool, before the attempt and while its reply is awaited. What a call does besides changing the
  state is a list of effects: the pauses (in nanoseconds) and the attempts reported to the trace,
  without their durations and error snippets. A client of the HTTP library is opaque.
\<close>

subsection \<open>The clients\<close>

definition CLIENT_CACHE_CAP :: nat where
  "CLIENT_CACHE_CAP = 64"

record 'c client_cache =
  cc_map :: "proxy_config option \<Rightarrow> 'c option"
  cc_order :: "proxy_config option list"
  cc_protected :: "proxy_config option"
  cc_cap :: nat

definition cache_new :: "proxy_config option \<Rightarrow> 'c \<Rightarrow> nat \<Rightarrow> 'c client_cache" where
  "cache_new protected initial cap =
    \<lparr>cc_map = [protected \<mapsto> initial], cc_order = [], cc_protected = protected, cc_cap = cap\<rparr>"

definition cache_get :: "'c client_cache \<Rightarrow> proxy_config option \<Rightarrow> 'c option" where
  "cache_get c k = cc_map c k"

fun evict_oldest ::
  "nat \<Rightarrow> proxy_config option list \<Rightarrow> (proxy_config option \<Rightarrow> 'c option)
     \<Rightarrow> proxy_config option list \<times> (proxy_config option \<Rightarrow> 'c option)" where
  "evict_oldest cap [] m = ([], m)"
| "evict_oldest cap (k # ks) m =
    (if cap \<le> length (k # ks) then evict_oldest cap ks (m(k := None)) else (k # ks, m))"

definition cache_insert :: "proxy_config option \<Rightarrow> 'c \<Rightarrow> 'c client_cache \<Rightarrow> 'c client_cache" where
  "cache_insert k client c =
    (if k = cc_protected c \<or> cc_map c k \<noteq> None then c\<lparr>cc_map := (cc_map c)(k \<mapsto> client)\<rparr>
     else (case evict_oldest (cc_cap c) (cc_order c) (cc_map c) of
             (ks, m) \<Rightarrow> c\<lparr>cc_order := ks @ [k], cc_map := m(k \<mapsto> client)\<rparr>))"

subsection \<open>The provider and its surroundings\<close>

record 'c provider =
  pv_manager :: manager
  pv_global_proxy :: "proxy_config option"
  pv_cache :: "'c client_cache"
  pv_endpoints :: "string \<Rightarrow> endpoint_kind option"
  pv_default_endpoint :: string
  pv_ids :: id_cache

record surroundings =
  sr_sha256_hex :: "string \<Rightarrow> string"
  sr_serde :: serde
  sr_latest_version :: "string option"
  sr_client :: client_config

record http_request =
  hq_url :: string
  hq_headers :: header_list
  hq_body :: string

record http_response =
  hr_status :: nat
  hr_retry_after :: "string option"
  hr_body :: string

datatype upstream = Unreachable | Responded http_response

record 'c hop =
  hp_before :: "pool_op list"
  hp_fuel :: nat
  hp_turns :: "nat \<Rightarrow> turn"
  hp_seed :: string
  hp_invocation :: string
  hp_build :: "proxy_config option \<Rightarrow> 'c option"
  hp_valid :: "http_request \<Rightarrow> bool"
  hp_send :: "'c \<Rightarrow> http_request \<Rightarrow> upstream"
  hp_during :: "pool_op list"
  hp_date :: "string \<Rightarrow> nat option"
  hp_outside :: outside
  hp_network :: network
  hp_jitter :: nat

text \<open>Operations of others; an id is only given to a new credential while there are ids left.\<close>

definition guarded_step :: "pool_op \<Rightarrow> manager \<Rightarrow> manager" where
  "guarded_step op m = (if id_left m then pool_step op m else m)"

definition interleave :: "pool_op list \<Rightarrow> manager \<Rightarrow> manager" where
  "interleave ops m = fold guarded_step ops m"

datatype trace_outcome = Succeeded | QuotaUsedUp | AccountThrottled | AuthFailed | Transient
  | NetworkError | BadRequest | UnknownOutcome

record trace_attempt =
  ta_attempt :: nat
  ta_credential :: u64
  ta_endpoint :: string
  ta_status :: "nat option"
  ta_outcome :: trace_outcome

datatype effect = Slept nat | Traced trace_attempt

datatype call_error =
    BadPolicy policy_error
  | NoContext acquire_error
  | UnknownEndpoint string
  | NoClient
  | NoRequest
  | Panicked
  | Unreached
  | UpstreamFailed nat string
  | AllUsedUp nat string
  | AllThrottled u64 nat string
  | AttemptsUsedUp nat

text \<open>An attempt ends the call, or the loop goes on; with \<open>Retry None\<close> the last error stays.\<close>

datatype verdict = Return "call_error + http_response \<times> u64" | Retry "call_error option"

type_synonym handled = "manager \<times> u64 set \<times> effect list \<times> verdict"

definition client_for :: "('c hop) \<Rightarrow> credentials \<Rightarrow> 'c provider \<Rightarrow> 'c provider \<times> 'c option" where
  "client_for h c pv =
    (let proxy = effective_proxy (pv_global_proxy pv) c in
     case cache_get (pv_cache pv) proxy of
       Some client \<Rightarrow> (pv, Some client)
     | None \<Rightarrow>
         (case hp_build h proxy of
            None \<Rightarrow> (pv, None)
          | Some client \<Rightarrow> (pv\<lparr>pv_cache := cache_insert proxy client (pv_cache pv)\<rparr>, Some client)))"

definition endpoint_for :: "credentials \<Rightarrow> 'c provider \<Rightarrow> call_error + endpoint_kind" where
  "endpoint_for c pv =
    (let name = (case endpoint c of Some n \<Rightarrow> n | None \<Rightarrow> pv_default_endpoint pv) in
     case pv_endpoints pv name of Some k \<Rightarrow> Inr k | None \<Rightarrow> Inl (UnknownEndpoint name))"

definition update_global_proxy :: "'c option \<Rightarrow> proxy_config option \<Rightarrow> 'c provider \<Rightarrow> 'c provider \<times> bool" where
  "update_global_proxy built proxy pv =
    (case built of
       None \<Rightarrow> (pv, False)
     | Some client \<Rightarrow>
         (pv\<lparr>pv_global_proxy := proxy, pv_cache := cache_new proxy client CLIENT_CACHE_CAP\<rparr>, True))"

definition update_default_endpoint :: "string \<Rightarrow> 'c provider \<Rightarrow> 'c provider \<times> bool" where
  "update_default_endpoint name pv =
    (if pv_endpoints pv name = None then (pv, False) else (pv\<lparr>pv_default_endpoint := name\<rparr>, True))"

text \<open>\<open>None\<close>: the default endpoint is not registered, or no client can be built; the program panics.\<close>

definition with_proxy ::
  "('c option) \<Rightarrow> manager \<Rightarrow> proxy_config option \<Rightarrow> (string \<Rightarrow> endpoint_kind option) \<Rightarrow> string \<Rightarrow> id_cache
     \<Rightarrow> 'c provider option" where
  "with_proxy built m proxy endpoints default_endpoint ids =
    (if endpoints default_endpoint = None then None
     else (case built of
             None \<Rightarrow> None
           | Some client \<Rightarrow>
               Some \<lparr>pv_manager = m, pv_global_proxy = proxy,
                 pv_cache = cache_new proxy client CLIENT_CACHE_CAP, pv_endpoints = endpoints,
                 pv_default_endpoint = default_endpoint, pv_ids = ids\<rparr>))"

subsection \<open>Delays\<close>

abbreviation parse_u64 :: "string \<Rightarrow> nat option" where
  "parse_u64 \<equiv> parse_uint 64"

definition retry_after_delay :: "'c hop \<Rightarrow> retry_policy \<Rightarrow> http_response \<Rightarrow> nat option" where
  "retry_after_delay h p r =
    (if \<not> respect_retry_after p then None
     else (case hr_retry_after r of
             None \<Rightarrow> None
           | Some v \<Rightarrow>
               (case parse_u64 (trim v) of
                  Some seconds \<Rightarrow> Some (seconds * 1000000000) | None \<Rightarrow> hp_date h (trim v))))"

definition millis :: "u64 \<Rightarrow> nat" where
  "millis ms = unat ms * 1000000"

definition pause :: "'c hop \<Rightarrow> retry_policy \<Rightarrow> nat \<Rightarrow> nat" where
  "pause h p k = millis (retry_delay (hp_jitter h) k p)"

text \<open>\<open>if attempt + 1 < max_retries { sleep(..) }\<close>\<close>

definition sleep_unless_last :: "nat \<Rightarrow> nat \<Rightarrow> nat \<Rightarrow> effect list" where
  "sleep_unless_last k n d = (if k + 1 < n then [Slept d] else [])"

subsection \<open>What a failed reply does\<close>

text \<open>
  \<open>tr\<close> reports an attempt to the trace (the calls of tools have none). A handler takes and returns the
  pool and the credentials whose token this call has already renewed by force.
\<close>

definition no_trace :: "trace_outcome \<Rightarrow> effect list" where
  "no_trace oc = []"

definition trace :: "nat \<Rightarrow> u64 \<Rightarrow> string \<Rightarrow> nat option \<Rightarrow> trace_outcome \<Rightarrow> effect list" where
  "trace k cid ep status oc =
    [Traced \<lparr>ta_attempt = k, ta_credential = cid, ta_endpoint = ep, ta_status = status, ta_outcome = oc\<rparr>]"

definition on_quota :: "'c hop \<Rightarrow> u64 \<Rightarrow> nat \<Rightarrow> string \<Rightarrow> effect list \<Rightarrow> manager \<Rightarrow> u64 set \<Rightarrow> handled" where
  "on_quota h cid status body fx m forced =
    (case report_quota_exhausted (hp_outside h) cid m of
       (m, has_available) \<Rightarrow>
         (m, forced, fx,
          if has_available then Retry (Some (UpstreamFailed status body)) else Return (Inl (AllUsedUp status body))))"

definition count_failure :: "'c hop \<Rightarrow> u64 \<Rightarrow> nat \<Rightarrow> string \<Rightarrow> effect list \<Rightarrow> manager \<Rightarrow> u64 set \<Rightarrow> handled" where
  "count_failure h cid status body fx m forced =
    (case report_failure (hp_outside h) cid m of
       (m, has_available) \<Rightarrow>
         (m, forced, fx,
          if has_available then Retry (Some (UpstreamFailed status body)) else Return (Inl (AllUsedUp status body))))"

definition on_auth :: "'c hop \<Rightarrow> u64 \<Rightarrow> nat \<Rightarrow> string \<Rightarrow> effect list \<Rightarrow> manager \<Rightarrow> u64 set \<Rightarrow> handled" where
  "on_auth h cid status body fx m forced =
    (if is_bearer_token_invalid body \<and> cid \<notin> forced
     then (case force_refresh_token_for (hp_outside h) (hp_network h) cid m of
             (m, Inr _) \<Rightarrow> (m, insert cid forced, fx, Retry None)
           | (m, Inl _) \<Rightarrow> count_failure h cid status body fx m (insert cid forced))
     else count_failure h cid status body fx m forced)"

definition on_account_throttled ::
  "'c hop \<Rightarrow> u64 \<Rightarrow> nat \<Rightarrow> string \<Rightarrow> effect list \<Rightarrow> manager \<Rightarrow> u64 set \<Rightarrow> handled" where
  "on_account_throttled h cid status body fx m forced =
    (let cooldown = unat (max (mg_throttle_cooldown_secs m) 1) * 1000000000 in
     case report_account_throttled (hp_outside h) cid cooldown m of
       (m, remaining) \<Rightarrow>
         (m, forced, fx,
          if remaining = 0 then Return (Inl (AllThrottled cid status body))
          else Retry (Some (UpstreamFailed status body))))"

definition is_server_error :: "nat \<Rightarrow> bool" where
  "is_server_error status \<longleftrightarrow> 500 \<le> status \<and> status \<le> 599"

definition is_client_error :: "nat \<Rightarrow> bool" where
  "is_client_error status \<longleftrightarrow> 400 \<le> status \<and> status \<le> 499"

text \<open>408 and 5xx, other 4xx, anything else.\<close>

definition on_rest ::
  "'c hop \<Rightarrow> retry_policy \<Rightarrow> nat \<Rightarrow> nat \<Rightarrow> (trace_outcome \<Rightarrow> effect list) \<Rightarrow> nat \<Rightarrow> string \<Rightarrow> manager
     \<Rightarrow> u64 set \<Rightarrow> handled" where
  "on_rest h p k n tr status body m forced =
    (if status = 408 \<or> is_server_error status
     then (m, forced, tr Transient @ sleep_unless_last k n (pause h p k), Retry (Some (UpstreamFailed status body)))
     else if is_client_error status
     then (m, forced, tr BadRequest, Return (Inl (UpstreamFailed status body)))
     else (m, forced, tr UnknownOutcome @ sleep_unless_last k n (pause h p k), Retry (Some (UpstreamFailed status body))))"

text \<open>A rate limit of the last attempt is not tried again: what follows treats it as any other 4xx.\<close>

definition on_rate_limited ::
  "'c hop \<Rightarrow> retry_policy \<Rightarrow> nat \<Rightarrow> nat \<Rightarrow> (trace_outcome \<Rightarrow> effect list) \<Rightarrow> u64 \<Rightarrow> http_response \<Rightarrow> manager
     \<Rightarrow> u64 set \<Rightarrow> handled" where
  "on_rate_limited h p k n tr cid r m forced =
    (let retry_after = retry_after_delay h p r;
         cooldown = (case retry_after of Some d \<Rightarrow> d | None \<Rightarrow> millis (rate_limit_cooldown_ms p));
         (m, has_other) = (if credential_switch_on_429 p then report_rate_limited (hp_outside h) cid cooldown m
                           else (m, False))
     in if k + 1 < n
        then (m, forced,
              tr Transient @ (if has_other then []
                else [Slept (case retry_after of Some d \<Rightarrow> d | None \<Rightarrow> pause h p k)]),
              Retry (Some (UpstreamFailed (hr_status r) (hr_body r))))
        else (case on_rest h p k n tr (hr_status r) (hr_body r) m forced of
                (m, forced, fx, v) \<Rightarrow> (m, forced, tr Transient @ fx, v)))"

subsection \<open>The reply\<close>

definition on_api_reply ::
  "serde \<Rightarrow> 'c hop \<Rightarrow> retry_policy \<Rightarrow> nat \<Rightarrow> nat \<Rightarrow> string \<Rightarrow> u64 \<Rightarrow> http_response \<Rightarrow> manager \<Rightarrow> u64 set \<Rightarrow> handled" where
  "on_api_reply sd h p k n ep cid r m forced =
    (let status = hr_status r; body = hr_body r; tr = trace k cid ep (Some status) in
     if is_success status
     then (report_success (hp_outside h) cid m, forced, tr Succeeded, Return (Inr (r, cid)))
     else if status = 402 \<and> is_monthly_request_limit sd body
     then on_quota h cid status body (tr QuotaUsedUp) m forced
     else if status = 400 then (m, forced, tr BadRequest, Return (Inl (UpstreamFailed status body)))
     else if status = 401 \<or> status = 403 then on_auth h cid status body (tr AuthFailed) m forced
     else if status = 429 \<and> mg_throttle_failover m \<and> is_account_throttled body
     then on_account_throttled h cid status body (tr AccountThrottled) m forced
     else if is_client_validation_error sd body
     then (m, forced, tr BadRequest, Return (Inl (UpstreamFailed status body)))
     else if status = 524 \<or> is_gateway_timeout body
     then (m, forced, tr Transient, Return (Inl (UpstreamFailed status body)))
     else if status = 429 then on_rate_limited h p k n tr cid r m forced
     else on_rest h p k n tr status body m forced)"

definition on_mcp_reply ::
  "serde \<Rightarrow> 'c hop \<Rightarrow> retry_policy \<Rightarrow> nat \<Rightarrow> nat \<Rightarrow> u64 \<Rightarrow> http_response \<Rightarrow> manager \<Rightarrow> u64 set \<Rightarrow> handled" where
  "on_mcp_reply sd h p k n cid r m forced =
    (let status = hr_status r; body = hr_body r in
     if is_success status then (report_success (hp_outside h) cid m, forced, [], Return (Inr (r, cid)))
     else if status = 402 \<and> is_monthly_request_limit sd body then on_quota h cid status body [] m forced
     else if status = 400 then (m, forced, [], Return (Inl (UpstreamFailed status body)))
     else if status = 401 \<or> status = 403 then on_auth h cid status body [] m forced
     else if status = 429 then on_rate_limited h p k n no_trace cid r m forced
     else on_rest h p k n no_trace status body m forced)"

subsection \<open>One attempt\<close>

definition context_for :: "surroundings \<Rightarrow> 'c hop \<Rightarrow> call_context \<Rightarrow> 'c provider \<Rightarrow> 'c provider \<times> request_context" where
  "context_for sr h ctx pv =
    (let cf = mg_config (pv_manager pv) in
     case generate_from_credentials (sr_sha256_hex sr) (hp_seed h) (cf_machine_id cf) (cx_credentials ctx) (pv_ids pv) of
       (mid, ids) \<Rightarrow>
         (pv\<lparr>pv_ids := ids\<rparr>,
          \<lparr>rc_credentials = cx_credentials ctx, rc_token = cx_token ctx, rc_machine_id = mid, rc_config = cf,
           rc_client = sr_client sr\<rparr>))"

definition base_headers :: "endpoint_kind \<Rightarrow> header_list" where
  "base_headers ek = [(''content-type'', content_type ek), (''Connection'', ''close'')]"

definition api_request :: "surroundings \<Rightarrow> 'c hop \<Rightarrow> endpoint_kind \<Rightarrow> request_context \<Rightarrow> string \<Rightarrow> http_request option" where
  "api_request sr h ek rc body =
    map_option (\<lambda>b. \<lparr>hq_url = api_url ek rc,
        hq_headers = base_headers ek @ decorate_api ek (sr_latest_version sr) (hp_invocation h) rc, hq_body = b\<rparr>)
      (transform_api_body ek (sr_serde sr) rc body)"

definition mcp_request :: "surroundings \<Rightarrow> 'c hop \<Rightarrow> endpoint_kind \<Rightarrow> request_context \<Rightarrow> string \<Rightarrow> http_request" where
  "mcp_request sr h ek rc body =
    \<lparr>hq_url = mcp_url rc,
     hq_headers = base_headers ek @ decorate_mcp ek (sr_latest_version sr) (hp_invocation h) rc, hq_body = body\<rparr>"

text \<open>No credential: pause until one cools down, but not longer than the back-off.\<close>

definition no_context ::
  "'c hop \<Rightarrow> retry_policy \<Rightarrow> nat \<Rightarrow> nat \<Rightarrow> effect list \<Rightarrow> acquire_error \<Rightarrow> manager \<Rightarrow> u64 set \<Rightarrow> handled" where
  "no_context h p k n fx e m forced =
    (m, forced,
     fx @ (case next_rate_limit_delay (ev_now (hp_outside h)) m of
             Some d \<Rightarrow> sleep_unless_last k n (min d (pause h p k)) | None \<Rightarrow> []),
     Retry (Some (NoContext e)))"

definition set_manager :: "'c provider \<Rightarrow> handled \<Rightarrow> 'c provider \<times> u64 set \<times> effect list \<times> verdict" where
  "set_manager pv r = (case r of (m, forced, fx, v) \<Rightarrow> (pv\<lparr>pv_manager := m\<rparr>, forced, fx, v))"

definition others_during :: "'c hop \<Rightarrow> 'c provider \<Rightarrow> 'c provider" where
  "others_during h pv = pv\<lparr>pv_manager := interleave (hp_during h) (pv_manager pv)\<rparr>"

type_synonym 'c attempted = "'c provider \<times> u64 set \<times> effect list \<times> verdict"

text \<open>The client is looked up twice: to build the request, and to send it.\<close>

definition deliver_api ::
  "surroundings \<Rightarrow> 'c hop \<Rightarrow> retry_policy \<Rightarrow> nat \<Rightarrow> nat \<Rightarrow> endpoint_kind \<Rightarrow> call_context \<Rightarrow> http_request
     \<Rightarrow> 'c provider \<Rightarrow> u64 set \<Rightarrow> 'c attempted" where
  "deliver_api sr h p k n ek ctx rq pv forced =
    (case client_for h (cx_credentials ctx) pv of
       (pv, None) \<Rightarrow> (pv, forced, [], Return (Inl NoClient))
     | (pv, Some _) \<Rightarrow>
         if \<not> hp_valid h rq then (pv, forced, [], Return (Inl NoRequest))
         else (case client_for h (cx_credentials ctx) pv of
             (pv, None) \<Rightarrow> (pv, forced, [], Return (Inl NoClient))
           | (pv, Some client) \<Rightarrow>
               (case hp_send h client rq of
                  Unreachable \<Rightarrow>
                    (others_during h pv, forced,
                     trace k (cx_id ctx) (endpoint_name ek) None NetworkError @ sleep_unless_last k n (pause h p k),
                     Retry (Some Unreached))
                | Responded r \<Rightarrow>
                    set_manager pv (on_api_reply (sr_serde sr) h p k n (endpoint_name ek) (cx_id ctx) r
                      (pv_manager (others_during h pv)) forced))))"

definition api_send ::
  "surroundings \<Rightarrow> 'c hop \<Rightarrow> retry_policy \<Rightarrow> nat \<Rightarrow> nat \<Rightarrow> call_context \<Rightarrow> string \<Rightarrow> 'c provider \<Rightarrow> u64 set
     \<Rightarrow> 'c attempted" where
  "api_send sr h p k n ctx body pv forced =
    (case context_for sr h ctx pv of
       (pv, rc) \<Rightarrow>
         (case endpoint_for (cx_credentials ctx) pv of
            Inl e \<Rightarrow>
              set_manager pv (fst (report_failure (hp_outside h) (cx_id ctx) (pv_manager pv)), forced,
                trace k (cx_id ctx) [] None UnknownOutcome, Retry (Some e))
          | Inr ek \<Rightarrow>
              (case api_request sr h ek rc body of
                 None \<Rightarrow> (pv, forced, [], Return (Inl Panicked))
               | Some rq \<Rightarrow> deliver_api sr h p k n ek ctx rq pv forced)))"

definition mcp_send ::
  "surroundings \<Rightarrow> 'c hop \<Rightarrow> retry_policy \<Rightarrow> nat \<Rightarrow> nat \<Rightarrow> call_context \<Rightarrow> string \<Rightarrow> 'c provider \<Rightarrow> u64 set
     \<Rightarrow> 'c attempted" where
  "mcp_send sr h p k n ctx body pv forced =
    (case context_for sr h ctx pv of
       (pv, rc) \<Rightarrow>
         (case endpoint_for (cx_credentials ctx) pv of
            Inl e \<Rightarrow>
              set_manager pv (fst (report_failure (hp_outside h) (cx_id ctx) (pv_manager pv)), forced, [], Retry (Some e))
          | Inr ek \<Rightarrow>
              (case client_for h (cx_credentials ctx) pv of
                 (pv, None) \<Rightarrow> (pv, forced, [], Return (Inl NoClient))
               | (pv, Some client) \<Rightarrow>
                   (case hp_send h client (mcp_request sr h ek rc body) of
                      Unreachable \<Rightarrow>
                        (others_during h pv, forced, sleep_unless_last k n (pause h p k), Retry (Some Unreached))
                    | Responded r \<Rightarrow>
                        set_manager pv (on_mcp_reply (sr_serde sr) h p k n (cx_id ctx) r
                          (pv_manager (others_during h pv)) forced)))))"

text \<open>\<open>None\<close>: the acquisition of a credential does not end.\<close>

definition attempt_with ::
  "('c hop \<Rightarrow> retry_policy \<Rightarrow> nat \<Rightarrow> nat \<Rightarrow> call_context \<Rightarrow> 'c provider \<Rightarrow> u64 set \<Rightarrow> 'c attempted)
     \<Rightarrow> (nat \<Rightarrow> effect list) \<Rightarrow> string option \<Rightarrow> 'c hop \<Rightarrow> retry_policy \<Rightarrow> nat \<Rightarrow> nat \<Rightarrow> 'c provider \<Rightarrow> u64 set
     \<Rightarrow> 'c attempted option" where
  "attempt_with send tr model h p k n pv forced =
    (case acquire_context (hp_fuel h) (hp_turns h) model (interleave (hp_before h) (pv_manager pv)) of
       None \<Rightarrow> None
     | Some (m, Inl e) \<Rightarrow> Some (set_manager pv (no_context h p k n (tr k) e m forced))
     | Some (m, Inr ctx) \<Rightarrow> Some (send h p k n ctx (pv\<lparr>pv_manager := m\<rparr>) forced))"

definition api_attempt ::
  "surroundings \<Rightarrow> string option \<Rightarrow> string \<Rightarrow> 'c hop \<Rightarrow> retry_policy \<Rightarrow> nat \<Rightarrow> nat \<Rightarrow> 'c provider \<Rightarrow> u64 set
     \<Rightarrow> 'c attempted option" where
  "api_attempt sr model body =
    attempt_with (\<lambda>h p k n ctx. api_send sr h p k n ctx body) (\<lambda>k. trace k 0 [] None UnknownOutcome) model"

definition mcp_attempt ::
  "surroundings \<Rightarrow> string \<Rightarrow> 'c hop \<Rightarrow> retry_policy \<Rightarrow> nat \<Rightarrow> nat \<Rightarrow> 'c provider \<Rightarrow> u64 set \<Rightarrow> 'c attempted option" where
  "mcp_attempt sr body = attempt_with (\<lambda>h p k n ctx. mcp_send sr h p k n ctx body) (\<lambda>_. []) None"

subsection \<open>The loop\<close>

text \<open>\<open>left\<close> attempts are left, \<open>k\<close> is the number of the next one.\<close>

fun attempts ::
  "(nat \<Rightarrow> 'c provider \<Rightarrow> u64 set \<Rightarrow> 'c attempted option) \<Rightarrow> nat \<Rightarrow> nat \<Rightarrow> call_error option \<Rightarrow> 'c provider
     \<Rightarrow> u64 set \<Rightarrow> ('c provider \<times> effect list \<times> (call_error + http_response \<times> u64)) option" where
  "attempts step 0 k last_error pv forced =
    Some (pv, [], Inl (case last_error of Some e \<Rightarrow> e | None \<Rightarrow> AttemptsUsedUp k))"
| "attempts step (Suc left) k last_error pv forced =
    (case step k pv forced of
       None \<Rightarrow> None
     | Some (pv, forced, fx, Return r) \<Rightarrow> Some (pv, fx, r)
     | Some (pv, forced, fx, Retry e) \<Rightarrow>
         (case attempts step left (Suc k) (or_else e last_error) pv forced of
            None \<Rightarrow> None
          | Some (pv, fx', r) \<Rightarrow> Some (pv, fx @ fx', r)))"

definition effective_retry_policy :: "'c provider \<Rightarrow> policy_error + retry_mode \<times> retry_policy" where
  "effective_retry_policy pv =
    (case get_retry_policy (pv_manager pv) of Inl e \<Rightarrow> Inl e | Inr (mode, _, p) \<Rightarrow> Inr (mode, p))"

text \<open>\<open>body\<close>'s \<open>conversationState.currentMessage.userInputMessage.modelId\<close>\<close>

definition extract_model_from_request :: "serde \<Rightarrow> string \<Rightarrow> string option" where
  "extract_model_from_request sd body =
    (case from_str sd body of
       Inl _ \<Rightarrow> None
     | Inr j \<Rightarrow>
         Option.bind (Option.bind (Option.bind (Option.bind (json_get j ''conversationState'')
           (\<lambda>j. json_get j ''currentMessage'')) (\<lambda>j. json_get j ''userInputMessage''))
           (\<lambda>j. json_get j ''modelId'')) json_as_str)"

definition call_with ::
  "('c hop \<Rightarrow> retry_policy \<Rightarrow> nat \<Rightarrow> nat \<Rightarrow> 'c provider \<Rightarrow> u64 set \<Rightarrow> 'c attempted option) \<Rightarrow> (nat \<Rightarrow> 'c hop)
     \<Rightarrow> 'c provider \<Rightarrow> ('c provider \<times> effect list \<times> (call_error + http_response \<times> u64)) option" where
  "call_with attempt hops pv =
    (case effective_retry_policy pv of
       Inl e \<Rightarrow> Some (pv, [], Inl (BadPolicy e))
     | Inr (_, p) \<Rightarrow>
         let n = unat (max_retries (of_nat (total_count (pv_manager pv))) p)
         in attempts (\<lambda>k. attempt (hops k) p k n) n 0 None pv {})"

definition call_api_with_retry ::
  "surroundings \<Rightarrow> string \<Rightarrow> (nat \<Rightarrow> 'c hop) \<Rightarrow> 'c provider
     \<Rightarrow> ('c provider \<times> effect list \<times> (call_error + http_response \<times> u64)) option" where
  "call_api_with_retry sr body = call_with (api_attempt sr (extract_model_from_request (sr_serde sr) body) body)"

definition call_mcp_with_retry ::
  "surroundings \<Rightarrow> string \<Rightarrow> (nat \<Rightarrow> 'c hop) \<Rightarrow> 'c provider
     \<Rightarrow> ('c provider \<times> effect list \<times> (call_error + http_response \<times> u64)) option" where
  "call_mcp_with_retry sr body = call_with (mcp_attempt sr body)"

end
