(* ===== verification/Pool_Selection.thy ===== *)
theory Pool_Selection imports Pool_Invariant begin

section \<open>Selection, failures and the acquisition of a credential\<close>

text \<open>
  What the provider can rely on: which credential is selected, what consecutive failures do, that
  acquiring a credential ends, and what the context it hands out is worth.
\<close>

subsection \<open>Selection\<close>

lemma select_next_Some:
  "select_next_credential now model m = Some (i, c) \<Longrightarrow>
     \<exists>e \<in> set (mg_entries m). ce_id e = i \<and> ce_credentials e = c \<and> eligible now model e"
  by (auto simp: select_next_credential_def Let_def split: if_splits dest!: min_by_key_in)

text \<open>C27: Selection: nothing is selected exactly when no credential is enabled, out of both cooldowns and, for an
  Opus model, of a plan that has it; otherwise the one selected is such a credential, in balanced mode
  with the fewest successes (and among those the best priority), else with the best priority.\<close>

theorem selection_best:
  "case select_next_credential now model m of
     None \<Rightarrow> {e \<in> set (mg_entries m). eligible now model e} = {}
   | Some (i, c) \<Rightarrow>
       (\<exists>e \<in> set (mg_entries m). ce_id e = i \<and> ce_credentials e = c \<and> eligible now model e
          \<and> {e' \<in> set (mg_entries m). eligible now model e' \<and>
               (if mg_load_balancing_mode m = ''balanced''
                then (success_count e', entry_priority e') < (success_count e, entry_priority e)
                else entry_priority e' < entry_priority e)} = {})"
proof (cases "filter (eligible now model) (mg_entries m) = []")
  case True
  then show ?thesis by (auto simp: select_next_credential_def filter_empty_conv)
next
  case False
  let ?es = "filter (eligible now model) (mg_entries m)"
  let ?k = "\<lambda>e. (success_count e, entry_priority e)"
  let ?better = "\<lambda>e' e. if mg_load_balancing_mode m = ''balanced'' then ?k e' < ?k e else entry_priority e' < entry_priority e"
  have "\<exists>e. select_next_credential now model m = Some (ce_id e, ce_credentials e) \<and> e \<in> set ?es
      \<and> (\<forall>e' \<in> set ?es. \<not> ?better e' e)"
  proof (cases "mg_load_balancing_mode m = ''balanced''")
    case True
    obtain b where b: "min_by_key ?k ?es = Some b" using False by (cases "min_by_key ?k ?es") auto
    have "\<not> ?k e' < ?k b" if "e' \<in> set ?es" for e' using min_by_key_le [OF b that] by (simp only: not_less)
    then show ?thesis using True False b min_by_key_in [OF b]
      by (intro exI [of _ b]) (simp add: select_next_credential_def Let_def)
  next
    case prio: False
    obtain b where b: "min_by_key entry_priority ?es = Some b"
      using False by (cases "min_by_key entry_priority ?es") auto
    have "\<not> entry_priority e' < entry_priority b" if "e' \<in> set ?es" for e'
      using min_by_key_le [OF b that] by (simp only: not_less)
    then show ?thesis using prio False b min_by_key_in [OF b]
      by (intro exI [of _ b]) (simp add: select_next_credential_def Let_def)
  qed
  then obtain e where e: "select_next_credential now model m = Some (ce_id e, ce_credentials e)"
    "e \<in> set ?es" "\<forall>e' \<in> set ?es. \<not> ?better e' e" by blast
  have "{e' \<in> set (mg_entries m). eligible now model e' \<and> ?better e' e} = {}" using e(3) by auto
  with e(1,2) show ?thesis by (simp only: option.case prod.case) (intro bexI [of _ e] conjI, simp_all)
qed

subsection \<open>Lookups after updates\<close>

lemma find_update_same [pool_simps]:
  "(\<And>e. ce_id (f e) = ce_id e) \<Longrightarrow> find_entry cid (update_entry cid f m) = map_option f (find_entry cid m)"
  by (simp add: find_entry_def update_entry_def find_update_first)

lemma find_update_other [pool_simps]:
  "i \<noteq> cid \<Longrightarrow> (\<And>e. ce_id (f e) = ce_id e) \<Longrightarrow> find_entry i (update_entry cid f m) = find_entry i m"
  by (simp add: find_entry_def update_entry_def find_update_first_other)

lemma find_entry_cong: "mg_entries m' = mg_entries m \<Longrightarrow> find_entry i m' = find_entry i m"
  by (simp add: find_entry_def)

lemmas find_entry_same [pool_simps] = find_entry_cong [OF entries_persist] find_entry_cong [OF entries_save_stats]
  find_entry_cong [OF entries_debounced] find_entry_cong [OF entries_switch_to_best]

lemma find_entry_fields [simp]:
  "find_entry i (m\<lparr>mg_current_id := x\<rparr>) = find_entry i m"
  "find_entry i (m\<lparr>mg_fetch_attempted := a\<rparr>) = find_entry i m"
  "find_entry i (m\<lparr>mg_file := fl\<rparr>) = find_entry i m"
  by (simp_all add: find_entry_def)

subsection \<open>Consecutive failures\<close>

definition failures :: "outside list \<Rightarrow> u64 \<Rightarrow> manager \<Rightarrow> manager" where
  "failures evs cid m = fold (\<lambda>ev m. fst (report_failure ev cid m)) evs m"

lemma report_failure_disabled:
  "find_entry cid m = Some e \<Longrightarrow> ce_disabled e \<Longrightarrow> fst (report_failure ev cid m) = m"
  by (simp add: report_failure_def)

lemma failures_disabled: "find_entry cid m = Some e \<Longrightarrow> ce_disabled e \<Longrightarrow> failures evs cid m = m"
  by (induction evs) (simp_all add: failures_def report_failure_disabled)

lemma find_report_failure:
  assumes "find_entry cid m = Some e" and "\<not> ce_disabled e"
  shows "find_entry cid (fst (report_failure ev cid m)) = Some (e\<lparr>failure_count := failure_count e + 1,
      total_failure_count := total_failure_count e + 1, last_used_at := Some (ev_stamp ev),
      ce_disabled := (MAX_FAILURES_PER_CREDENTIAL \<le> failure_count e + 1),
      ce_disabled_reason := (if MAX_FAILURES_PER_CREDENTIAL \<le> failure_count e + 1 then Some TooManyFailures
                             else ce_disabled_reason e)\<rparr>)"
  using assms by (auto simp: report_failure_def Let_def pool_simps)

lemma find_report_failure_other:
  "i \<noteq> cid \<Longrightarrow> find_entry i (fst (report_failure ev cid m)) = find_entry i m"
  by (auto simp: report_failure_def Let_def pool_simps split: option.split)

lemma find_failures_other: "i \<noteq> cid \<Longrightarrow> find_entry i (failures evs cid m) = find_entry i m"
  by (induction evs arbitrary: m) (auto simp: failures_def find_report_failure_other)

lemma unat_below_limit: "unat (c + 1 :: u32) = unat c + 1" if "c < MAX_FAILURES_PER_CREDENTIAL"
  using that by (simp add: MAX_FAILURES_PER_CREDENTIAL_def word_less_nat_alt unat_word_ariths)

text \<open>C11: A credential is disabled exactly by its third consecutive failure, with the reason recorded, whatever
  was counted before; later failures of it change nothing, and no other credential changes.\<close>

theorem third_failure_disables:
  assumes "pool_inv m" and "find_entry cid m = Some e" and "\<not> ce_disabled e"
    and "n = unat (failure_count e) + length evs"
  shows "\<exists>e'. find_entry cid (failures evs cid m) = Some e' \<and> unat (failure_count e') = min n 3
      \<and> (ce_disabled e' \<longleftrightarrow> 3 \<le> n) \<and> ce_disabled_reason e' = (if 3 \<le> n then Some TooManyFailures else None)
      \<and> (\<forall>i. i \<noteq> cid \<longrightarrow> find_entry i (failures evs cid m) = find_entry i m)"
  using assms
proof (induction evs arbitrary: m e n)
  case Nil
  from find_entry_ok [OF Nil.prems(1,2)] Nil.prems show ?case
    by (auto simp: failures_def entry_ok_def MAX_FAILURES_PER_CREDENTIAL_def word_less_nat_alt)
next
  case (Cons ev evs)
  let ?m = "fst (report_failure ev cid m)"
  have ok: "failure_count e < MAX_FAILURES_PER_CREDENTIAL"
    using find_entry_ok [OF Cons.prems(1,2)] Cons.prems(3) by (simp add: entry_ok_def)
  note u = unat_below_limit [OF ok]
  have inv: "pool_inv ?m" using Cons.prems(1) by (rule pool_inv_report_failure)
  have f: "failures (ev # evs) cid m = failures evs cid ?m" by (simp add: failures_def)
  note found = find_report_failure [OF Cons.prems(2,3), of ev]
  have others: "\<forall>i. i \<noteq> cid \<longrightarrow> find_entry i (failures (ev # evs) cid m) = find_entry i m"
    by (simp add: find_failures_other)
  show ?case
  proof (cases "MAX_FAILURES_PER_CREDENTIAL \<le> failure_count e + 1")
    case True
    then have "3 \<le> unat (failure_count e) + 1"
      using u by (simp add: MAX_FAILURES_PER_CREDENTIAL_def word_le_nat_alt)
    moreover have "unat (failure_count e) < 3"
      using ok by (simp add: MAX_FAILURES_PER_CREDENTIAL_def word_less_nat_alt)
    moreover have "failures evs cid ?m = ?m" using found True by (intro failures_disabled) auto
    ultimately show ?thesis using found True others u Cons.prems(4) by (simp add: f)
  next
    case False
    let ?e = "e\<lparr>failure_count := failure_count e + 1, total_failure_count := total_failure_count e + 1,
        last_used_at := Some (ev_stamp ev), ce_disabled := False, ce_disabled_reason := ce_disabled_reason e\<rparr>"
    have e: "find_entry cid ?m = Some ?e" "\<not> ce_disabled ?e" using found False by simp_all
    have "n = unat (failure_count ?e) + length evs" using Cons.prems(4) u by simp
    from Cons.IH [OF inv e this] others show ?thesis by (auto simp: f)
  qed
qed

text \<open>A pool of two API key accounts, the second with the better priority.\<close>

definition sample_outside :: outside where
  "sample_outside = \<lparr>ev_now = 100, ev_stamp = ''now'', ev_write = Written, ev_stats_write = Written,
     ev_config_write = Written\<rparr>"

definition sample_config :: config where
  "sample_config = \<lparr>cf_region = ''us-east-1'', cf_auth_region = None, cf_api_region = None, cf_machine_id = None,
     cf_has_path = False, cf_load_balancing_mode = ''priority'', cf_retry_mode = Fast, cf_retry_policy = None,
     cf_throttle_failover = True, cf_throttle_cooldown_secs = 60\<rparr>"

definition sample_key :: "u64 \<Rightarrow> u32 \<Rightarrow> credentials" where
  "sample_key i p = credentials_default\<lparr>cr_id := Some i, priority := p, kiro_api_key := Some ''key'',
     machine_id := Some ''m''\<rparr>"

definition sample_pool :: manager where
  "sample_pool = initial_manager sample_config
     [new_entry 1 (sample_key 1 5) False None, new_entry 2 (sample_key 2 3) False None]
     None True True None None None"

lemma sample_pool_inv: "pool_inv sample_pool"
  by (simp add: sample_pool_def initial_manager_def pool_inv_def entry_ok_new new_entry_def entry_ok_def
      MAX_FAILURES_PER_CREDENTIAL_def)

lemma sample_find: "find_entry 1 sample_pool = Some (new_entry 1 (sample_key 1 5) False None)"
  by (simp add: sample_pool_def initial_manager_def find_entry_def new_entry_def)

theorem third_failure_disables_witness:
  "\<exists>e'. find_entry 1 (failures [sample_outside, sample_outside, sample_outside] 1 sample_pool) = Some e'
     \<and> ce_disabled e' \<and> ce_disabled_reason e' = Some TooManyFailures"
  using third_failure_disables [OF sample_pool_inv sample_find,
      of 3 "[sample_outside, sample_outside, sample_outside]"]
  by (auto simp: new_entry_def)

subsection \<open>Acquiring a credential ends\<close>

text \<open>How many entries the credentials file has another refresh token for.\<close>

definition stale :: "manager \<Rightarrow> nat" where
  "stale m = length (filter (\<lambda>c. reload_candidate (mg_file m) (length (mg_entries m)) c \<noteq> None)
     (map ce_credentials (mg_entries m)))"

definition creds_view :: "manager \<Rightarrow> credentials_config option \<times> credentials list" where
  "creds_view m = (mg_file m, map ce_credentials (mg_entries m))"

lemma stale_view: "creds_view m' = creds_view m \<Longrightarrow> stale m' = stale m"
  using map_eq_imp_length_eq [of ce_credentials "mg_entries m'" ce_credentials "mg_entries m"]
  by (simp add: creds_view_def stale_def)

lemma view_update: "(\<And>e. ce_credentials (f e) = ce_credentials e) \<Longrightarrow> creds_view (update_entry cid f m) = creds_view m"
  by (simp add: creds_view_def update_entry_def)

lemma view_others [simp]:
  "creds_view (save_stats ev m) = creds_view m"
  "creds_view (save_stats_debounced ev m) = creds_view m"
  "creds_view (fst (switch_to_best m)) = creds_view m"
  "creds_view (m\<lparr>mg_current_id := i\<rparr>) = creds_view m"
  by (simp_all add: creds_view_def save_stats_def save_stats_debounced_def switch_to_best_def Let_def
      split: write_result.split option.split)

lemma view_self_heal: "creds_view (self_heal m) = creds_view m"
  by (auto simp: creds_view_def self_heal_def heal_entry_def)

lemma view_pick: "creds_view (fst (pick_credential now model m)) = creds_view m"
  by (auto simp: pick_credential_def select_or_heal_def view_self_heal split: option.split prod.split)

lemma view_report_refresh_failure: "creds_view (fst (report_refresh_failure ev cid m)) = creds_view m"
  by (auto simp: report_refresh_failure_def Let_def view_update case_prod_unfold split: option.split)

lemma view_report_invalid: "creds_view (fst (report_refresh_token_invalid ev cid m)) = creds_view m"
  by (auto simp: report_refresh_token_invalid_def Let_def view_update case_prod_unfold split: option.split)

text \<open>A failed attempt leaves the manager as it was.\<close>

lemma refresh_entry_error: "refresh_entry ev nw cid m = (m', Inl e) \<Longrightarrow> m' = m"
  by (auto simp: refresh_entry_def Let_def split: option.splits sum.splits if_splits)

lemma apply_refresh_access [simp]: "access_token (apply_refresh nw d c) = Some (rr_access_token d)"
  by (simp add: apply_refresh_def Let_def split: option.split)

lemma refresh_gives_access:
  "refresh_credentials nw cf px c = Inr c' \<Longrightarrow> \<exists>d. c' = apply_refresh nw d c"
  by (auto simp: refresh_credentials_def refresh_idc_token_def refresh_social_token_def refresh_reply_def Let_def
      split: if_splits option.splits reply.splits)

lemma refresh_entry_ok:
  assumes "refresh_entry ev nw cid m = (m', Inr c)" and "find_entry cid m = Some e"
    and "needs_refresh nw (ce_credentials e)"
  shows "\<not> is_token_expired nw c \<and> (\<exists>d. c = apply_refresh nw d (ce_credentials e))
    \<and> m' = fst (persist_credentials ev (update_entry cid (\<lambda>e. e\<lparr>ce_credentials := c\<rparr>) m))"
  using assms by (auto simp: refresh_entry_def Let_def refresh_gives_access split: sum.splits if_splits)

lemma try_ensure_token_error:
  assumes "try_ensure_token ev nw cid c m = (m', Inl e)" and "find_entry cid m = Some en"
    and "ce_credentials en = c"
  shows "m' = m"
proof (cases "is_api_key_credential c \<or> \<not> needs_refresh nw c")
  case True
  then show ?thesis using assms(1)
    by (cases "is_api_key_credential c") (auto simp: try_ensure_token_def case_prod_unfold split: option.splits)
next
  case False
  obtain m1 x where r: "refresh_entry ev nw cid m = (m1, x)" by fastforce
  show ?thesis
  proof (cases x)
    case (Inl err)
    then show ?thesis using False assms(1) refresh_entry_error r by (auto simp: try_ensure_token_def)
  next
    case (Inr c1)
    with refresh_entry_ok [OF r [unfolded Inr] assms(2)] assms(3) False have "access_token c1 \<noteq> None" by auto
    then show ?thesis using False assms(1) r Inr
      by (auto simp: try_ensure_token_def case_prod_unfold split: option.splits)
  qed
qed

lemma filter_update_first:
  "find p xs = Some x \<Longrightarrow> q x \<Longrightarrow> \<not> q (f x) \<Longrightarrow>
     length (filter q (update_first p f xs)) < length (filter q xs)"
  by (induction xs) (auto split: if_splits)

lemma reload_once:
  "reload_candidate file n c = Some fc \<Longrightarrow>
     reload_candidate file n (c\<lparr>refresh_token := refresh_token fc, access_token := a, expires_at := x\<rparr>) = None"
  by (auto simp: reload_candidate_def matching_credential_def split: option.splits if_splits)

lemma reload_progress:
  assumes "try_reload_credential_from_file cid m = (m', True)" shows "stale m' < stale m"
proof -
  from assms obtain e fc where e: "find_entry cid m = Some e"
    and fc: "reload_candidate (mg_file m) (length (mg_entries m)) (ce_credentials e) = Some fc"
    by (auto simp: try_reload_credential_from_file_def split: if_splits option.splits)
  let ?q = "\<lambda>e. reload_candidate (mg_file m) (length (mg_entries m)) (ce_credentials e) \<noteq> None"
  let ?f = "\<lambda>e. e\<lparr>ce_credentials := (ce_credentials e)\<lparr>refresh_token := refresh_token fc,
      access_token := access_token fc, expires_at := expires_at fc\<rparr>,
      ce_disabled := False, ce_disabled_reason := None, refresh_failure_count := 0, failure_count := 0\<rparr>"
  have m': "m' = update_entry cid ?f m"
    using assms e fc by (auto simp: try_reload_credential_from_file_def split: if_splits)
  have "length (filter ?q (update_first (\<lambda>e. ce_id e = cid) ?f (mg_entries m))) < length (filter ?q (mg_entries m))"
    using e [unfolded find_entry_def] by (rule filter_update_first) (simp_all add: fc reload_once [OF fc])
  then show ?thesis by (simp add: stale_def m' update_entry_def filter_map comp_def)
qed

lemma reload_failed: "try_reload_credential_from_file cid m = (m', False) \<Longrightarrow> m' = m"
  by (auto simp: try_reload_credential_from_file_def split: if_splits option.splits)

lemma reload_if_invalid_True: "reload_if_invalid e cid m = (m', True) \<Longrightarrow> stale m' < stale m"
  by (cases e) (auto simp: reload_if_invalid_def reload_progress)

lemma reload_if_invalid_False: "reload_if_invalid e cid m = (m', False) \<Longrightarrow> m' = m"
  by (cases e) (auto simp: reload_if_invalid_def reload_failed)

lemma stale_report: "stale (fst (report_token_error ev e cid m)) = stale m"
  by (rule stale_view, cases e)
    (simp_all add: report_token_error_def view_report_invalid view_report_refresh_failure)

lemma token_failed_progress:
  assumes "token_failed ev all k cid e m = (m', Again k')"
  shows "(k' = k \<and> stale m' < stale m) \<or> (k' = k + 1 \<and> stale m' = stale m)"
proof -
  obtain m1 b where r: "reload_if_invalid e cid m = (m1, b)" by fastforce
  show ?thesis
  proof (cases b)
    case True
    then show ?thesis using assms r reload_if_invalid_True by (auto simp: token_failed_def)
  next
    case False
    then have "m1 = m" using r reload_if_invalid_False by auto
    then show ?thesis using assms False r stale_report [of ev e cid m]
      by (auto simp: token_failed_def case_prod_unfold split: if_splits)
  qed
qed

lemma pick_find:
  assumes "pool_inv m" and "pick_credential now model m = (m', Some (cid, c))"
  shows "\<exists>e. find_entry cid m' = Some e \<and> ce_credentials e = c \<and> is_available now e"
proof -
  have m': "pool_inv m'" using pool_inv_pick [OF assms(1), of now model] assms(2) by simp
  have "\<exists>e \<in> set (mg_entries m'). ce_id e = cid \<and> ce_credentials e = c \<and> is_available now e"
    using assms(2)
    by (auto simp: pick_credential_def current_hit_def select_or_heal_def eligible_def
        split: option.splits prod.splits if_splits dest!: select_next_Some find_Some_in; blast)
  then obtain e where e: "e \<in> set (mg_entries m')" "ce_id e = cid" "ce_credentials e = c" "is_available now e" by blast
  have "find_entry cid m' = Some e"
    using find_distinct_key [of ce_id "mg_entries m'" e] m' e by (simp add: find_entry_def pool_inv_def)
  with e show ?thesis by blast
qed

text \<open>One iteration that goes on uses up an attempt or a stale entry.\<close>

lemma acquire_step_progress:
  assumes "pool_inv m" and "tn_edit t = None" and "acquire_step t all mx model k m = (m', Again k')"
  shows "k < mx \<and> ((k' = k \<and> stale m' < stale m) \<or> (k' = k + 1 \<and> stale m' = stale m))"
proof -
  have ed: "edit_file t m = m" using assms(2) by (simp add: edit_file_def)
  obtain m1 r where p: "pick_credential (ev_now (tn_outside t)) model m = (m1, r)" by fastforce
  have k: "k < mx" and r: "r \<noteq> None" using assms(3) by (auto simp: acquire_step_def Let_def ed p split: if_splits option.splits)
  then obtain cid c where b: "r = Some (cid, c)" by auto
  obtain en where en: "find_entry cid m1 = Some en" "ce_credentials en = c"
    using pick_find [OF assms(1) p [unfolded b]] by blast
  obtain m2 x where t: "try_ensure_token (tn_outside t) (tn_network t) cid c m1 = (m2, x)" by fastforce
  obtain e where x: "x = Inl e" and f: "token_failed (tn_outside t) all k cid e m2 = (m', Again k')"
    using assms(3) k by (cases x) (auto simp: acquire_step_def Let_def ed p b t)
  have "m2 = m1" using try_ensure_token_error [OF t [unfolded x] en] .
  moreover have "stale m1 = stale m"
    using stale_view [OF view_pick [of "ev_now (tn_outside t)" model m]] by (simp add: p)
  ultimately show ?thesis using token_failed_progress [OF f] k by auto
qed

lemma acquire_loop_returns:
  assumes "\<And>n. tn_edit (turns n) = None"
  shows "pool_inv m \<Longrightarrow> mx - k + stale m < fuel \<Longrightarrow> \<exists>r. acquire_loop fuel turns all mx model k m = Some r"
proof (induction fuel arbitrary: m k)
  case (Suc n)
  obtain m1 p where s: "acquire_step (turns n) all mx model k m = (m1, p)" by fastforce
  show ?case
  proof (cases p)
    case (Again k')
    have i: "pool_inv m1" using pool_inv_acquire_step [OF Suc.prems(1), of "turns n" all mx model k] s by simp
    have "mx - k' + stale m1 < n"
      using acquire_step_progress [OF Suc.prems(1) assms s [unfolded Again]] Suc.prems(2) by auto
    from Suc.IH [OF i this] show ?thesis by (simp add: s Again)
  qed (simp add: s)
qed simp

text \<open>C7: Acquiring a credential ends, with a context or an error, whatever the network answers, however the
  clocks advance and whichever writes fail: as long as no other program changes the credentials file
  meanwhile, the number of iterations is at most the number of attempts (three per credential), plus one
  for each entry that the file has another refresh token for, plus one.\<close>

theorem acquire_returns:
  assumes "pool_inv m" and "\<And>n. tn_edit (turns n) = None"
    and "max_attempts_of m + length (mg_entries m) < fuel"
  shows "\<exists>m' r. acquire_context fuel turns model m = Some (m', r)"
proof -
  have "stale m \<le> length (mg_entries m)"
    unfolding stale_def by (metis length_filter_le length_map)
  then have "max_attempts_of m - 0 + stale m < fuel" using assms(3) by simp
  from acquire_loop_returns [OF assms(2,1) this] show ?thesis by (simp add: acquire_context_def)
qed

definition sample_network :: network where
  "sample_network = \<lparr>nw_utc = 0, nw_parse_time = (\<lambda>_. None), nw_format_time = (\<lambda>_. []), nw_send = (\<lambda>_. NoReply),
     nw_parse_refresh = (\<lambda>_. None), nw_parse_profiles = (\<lambda>_. None), nw_parse_usage = (\<lambda>_. None),
     nw_parse_models = (\<lambda>_. None), nw_url_encode = id\<rparr>"

definition sample_turn :: turn where
  "sample_turn = \<lparr>tn_outside = sample_outside, tn_network = sample_network, tn_edit = None\<rparr>"

theorem acquire_returns_witness: "\<exists>m' r. acquire_context 9 (\<lambda>_. sample_turn) None sample_pool = Some (m', r)"
proof (rule acquire_returns [OF sample_pool_inv])
  show "max_attempts_of sample_pool + length (mg_entries sample_pool) < 9"
    by (simp add: max_attempts_of_def total_count_def sample_pool_def initial_manager_def
        MAX_FAILURES_PER_CREDENTIAL_def)
qed (simp add: sample_turn_def)

subsection \<open>What a context is worth\<close>

text \<open>The fields of an entry that decide whether it is served.\<close>

definition same_state :: "credential_entry \<Rightarrow> credential_entry \<Rightarrow> bool" where
  "same_state e e' \<longleftrightarrow> ce_disabled e' = ce_disabled e \<and> throttled_until e' = throttled_until e
     \<and> rate_limited_until e' = rate_limited_until e"

lemma same_available: "same_state e e' \<Longrightarrow> is_available now e' = is_available now e"
  by (simp add: same_state_def is_available_def)

definition token_of :: "credentials \<Rightarrow> string option" where
  "token_of c = (if is_api_key_credential c then kiro_api_key c else access_token c)"

definition token_valid :: "network \<Rightarrow> credentials \<Rightarrow> bool" where
  "token_valid nw c \<longleftrightarrow> is_api_key_credential c \<or> \<not> is_token_expired nw c"

lemma profile_arn_irrelevant [simp]:
  "is_api_key_credential (c\<lparr>profile_arn := a\<rparr>) = is_api_key_credential c"
  "token_of (c\<lparr>profile_arn := a\<rparr>) = token_of c"
  "token_valid nw (c\<lparr>profile_arn := a\<rparr>) = token_valid nw c"
  by (simp_all add: is_api_key_credential_def token_of_def token_valid_def is_token_expired_def
      is_token_expiring_within_def)

lemma set_profile_arn_found:
  assumes "find_entry cid m = Some e"
  shows "\<exists>m' c' e'. set_profile_arn_for ev cid arn m = (m', Some c') \<and> find_entry cid m' = Some e'
    \<and> ce_credentials e' = c' \<and> same_state e e' \<and> c' = (ce_credentials e)\<lparr>profile_arn := Some arn\<rparr>"
proof (cases "profile_arn (ce_credentials e) = Some arn")
  case True
  then have "(ce_credentials e)\<lparr>profile_arn := Some arn\<rparr> = ce_credentials e" by simp
  then show ?thesis using assms True by (simp add: set_profile_arn_for_def same_state_def)
next
  case False
  then show ?thesis using assms by (simp add: set_profile_arn_for_def Let_def pool_simps same_state_def)
qed

text \<open>The profile step: the entry and the credential handed on agree, and only the profile has changed.\<close>

definition profile_result :: "credential_entry \<Rightarrow> u64 \<Rightarrow> manager \<times> credentials \<Rightarrow> bool" where
  "profile_result e cid x \<longleftrightarrow> (\<exists>e' a. find_entry cid (fst x) = Some e' \<and> ce_credentials e' = snd x
     \<and> same_state e e' \<and> (snd x = ce_credentials e \<or> snd x = (ce_credentials e)\<lparr>profile_arn := a\<rparr>))"

lemma profile_fallback:
  assumes "find_entry cid m = Some e"
  shows "profile_result e cid (apsnd either (ensure_enterprise_fallback_profile_arn ev cid (ce_credentials e) m))"
proof -
  define fb where "fb = enterprise_fallback_profile_arn
      (Some (effective_api_region (config_api_region (mg_config m)) (ce_credentials e)))"
  obtain m' c' e' where s: "set_profile_arn_for ev cid fb m = (m', Some c')" "find_entry cid m' = Some e'"
    "ce_credentials e' = c'" "same_state e e'" "c' = (ce_credentials e)\<lparr>profile_arn := Some fb\<rparr>"
    using set_profile_arn_found [OF assms] by blast
  then have "profile_result e cid (m', c')" unfolding profile_result_def fst_conv snd_conv by blast
  moreover have "profile_result e cid (m, ce_credentials e)"
    using assms by (simp add: profile_result_def same_state_def)
  ultimately show ?thesis
    using s(1) by (simp add: ensure_enterprise_fallback_profile_arn_def Let_def fb_def [symmetric] either_def)
qed

lemma profile_ensured:
  assumes "find_entry cid m = Some e"
  shows "profile_result e cid (ensure_enterprise_profile_arn ev nw cid (ce_credentials e) token m)"
proof -
  let ?m = "m\<lparr>mg_fetch_attempted := insert cid (mg_fetch_attempted m)\<rparr>"
  have f: "find_entry cid ?m = Some e" using assms by simp
  have unchanged: "profile_result e cid (m', ce_credentials e)" if "find_entry cid m' = Some e" for m'
    using that by (simp add: profile_result_def same_state_def)
  have set_p: "profile_result e cid (case set_profile_arn_for ev cid arn ?m of (m, Some c') \<Rightarrow> (m, c')
      | (m, None) \<Rightarrow> (m, ce_credentials e))" for arn
    using set_profile_arn_found [OF f, of ev arn] by (auto simp: profile_result_def)
  show ?thesis
    using profile_fallback [OF assms] profile_fallback [OF f] set_p unchanged assms
    by (simp add: ensure_enterprise_profile_arn_def Let_def split: sum.split option.split)
qed

end
