(* ===== verification/Pool_Properties.thy ===== *)
theory Pool_Properties imports Pool_Selection begin

section \<open>What the pool promises the provider\<close>

text \<open>
  The contexts the acquisition hands out, the states a run of the program can reach, what a refresh
  may change, what a rate limit does to the selection, and what a restart brings back.
\<close>

subsection \<open>An acquired context\<close>

lemma same_state_trans: "same_state e e' \<Longrightarrow> same_state e' e'' \<Longrightarrow> same_state e e''"
  by (simp add: same_state_def)

lemma apply_refresh_api [simp]: "is_api_key_credential (apply_refresh nw d c) = is_api_key_credential c"
  by (simp add: apply_refresh_def Let_def is_api_key_credential_def split: option.split)

text \<open>The token a credential ends up with, before the profile step.\<close>

lemma refresh_entry_found:
  assumes "find_entry cid m = Some e" and "refresh_entry ev nw cid m = (m1, Inr c1)"
    and "needs_refresh nw (ce_credentials e)"
  shows "\<exists>e1. find_entry cid m1 = Some e1 \<and> ce_credentials e1 = c1 \<and> same_state e e1
    \<and> is_api_key_credential c1 = is_api_key_credential (ce_credentials e) \<and> \<not> is_token_expired nw c1"
  using refresh_entry_ok [OF assms(2,1,3)] assms(1) by (auto simp: pool_simps same_state_def)

definition context_of :: "network \<Rightarrow> u64 \<Rightarrow> credential_entry \<Rightarrow> manager \<Rightarrow> call_context \<Rightarrow> bool" where
  "context_of nw cid e m ctx \<longleftrightarrow> cx_id ctx = cid \<and> token_of (cx_credentials ctx) = Some (cx_token ctx)
     \<and> token_valid nw (cx_credentials ctx)
     \<and> (\<exists>e'. find_entry cid m = Some e' \<and> ce_credentials e' = cx_credentials ctx \<and> same_state e e')"

lemma context_after_profile:
  assumes "find_entry cid m = Some e1" and "same_state e e1" and "\<not> is_api_key_credential (ce_credentials e1)"
    and "\<not> is_token_expired nw (ce_credentials e1)" and "access_token (ce_credentials e1) = Some token"
    and "ensure_enterprise_profile_arn ev nw cid (ce_credentials e1) token m = (m', c')"
  shows "context_of nw cid e (update_entry cid (\<lambda>e. e\<lparr>refresh_failure_count := 0\<rparr>) m')
    \<lparr>cx_id = cid, cx_credentials = c', cx_token = token\<rparr>"
proof -
  obtain e2 a where p: "find_entry cid m' = Some e2" "ce_credentials e2 = c'" "same_state e1 e2"
    and c': "c' = ce_credentials e1 \<or> c' = (ce_credentials e1)\<lparr>profile_arn := a\<rparr>"
    using profile_ensured [OF assms(1), of ev nw token] unfolding assms(6) profile_result_def by auto
  have "token_of (ce_credentials e1) = Some token" "token_valid nw (ce_credentials e1)"
    using assms(3-5) by (simp_all add: token_of_def token_valid_def)
  then have "token_of c' = Some token \<and> token_valid nw c'" using c' by auto
  moreover have "same_state e (e2\<lparr>refresh_failure_count := 0\<rparr>)"
    using same_state_trans [OF assms(2) p(3)] by (simp add: same_state_def)
  ultimately show ?thesis using p(1,2) by (simp add: context_of_def pool_simps)
qed

lemma try_ensure_token_ok:
  assumes "find_entry cid m = Some e" and "try_ensure_token ev nw cid (ce_credentials e) m = (m', Inr ctx)"
  shows "context_of nw cid e m' ctx"
proof (cases "is_api_key_credential (ce_credentials e)")
  case True
  then show ?thesis using assms
    by (auto simp: try_ensure_token_def context_of_def token_of_def token_valid_def same_state_def
        split: option.splits)
next
  case False
  obtain m1 x where x: "(if needs_refresh nw (ce_credentials e) then refresh_entry ev nw cid m
      else (m, Inr (ce_credentials e))) = (m1, x)" by fastforce
  then obtain c1 where c1: "x = Inr c1" using False assms(2) by (cases x) (auto simp: try_ensure_token_def)
  obtain e1 where e1: "find_entry cid m1 = Some e1" "ce_credentials e1 = c1" "same_state e e1"
    "\<not> is_api_key_credential c1" "\<not> is_token_expired nw c1"
  proof (cases "needs_refresh nw (ce_credentials e)")
    case True
    then show ?thesis using refresh_entry_found [OF assms(1), of ev nw m1 c1] x c1 False that by auto
  next
    case fresh: False
    then show ?thesis using x c1 False assms(1) that [of e]
      by (auto simp: same_state_def needs_refresh_def)
  qed
  obtain token where t: "access_token c1 = Some token"
    using False assms(2) x c1 by (auto simp: try_ensure_token_def split: option.splits)
  obtain m2 c2 where p: "ensure_enterprise_profile_arn ev nw cid c1 token m1 = (m2, c2)" by fastforce
  have "context_of nw cid e (update_entry cid (\<lambda>e. e\<lparr>refresh_failure_count := 0\<rparr>) m2)
    \<lparr>cx_id = cid, cx_credentials = c2, cx_token = token\<rparr>"
    by (rule context_after_profile [OF e1(1,3)]) (use e1 t p in simp_all)
  moreover have "m' = update_entry cid (\<lambda>e. e\<lparr>refresh_failure_count := 0\<rparr>) m2"
    "ctx = \<lparr>cx_id = cid, cx_credentials = c2, cx_token = token\<rparr>"
    using assms(2) False x c1 t p by (simp_all add: try_ensure_token_def)
  ultimately show ?thesis by simp
qed

text \<open>What an iteration that ends with a context hands out.\<close>

definition sound_context :: "turn \<Rightarrow> manager \<Rightarrow> call_context \<Rightarrow> bool" where
  "sound_context t m ctx \<longleftrightarrow> token_of (cx_credentials ctx) = Some (cx_token ctx)
     \<and> token_valid (tn_network t) (cx_credentials ctx)
     \<and> (\<exists>e. find_entry (cx_id ctx) m = Some e \<and> ce_credentials e = cx_credentials ctx
          \<and> is_available (ev_now (tn_outside t)) e)"

lemma token_failed_no_context: "token_failed ev all k cid e m = (m', p) \<Longrightarrow> p \<noteq> Finished (Inr ctx)"
  by (auto simp: token_failed_def split: prod.splits bool.splits if_splits)

lemma acquire_step_sound:
  assumes "pool_inv m" and "acquire_step t all mx model k m = (m', Finished (Inr ctx))"
  shows "sound_context t m' ctx"
proof -
  let ?m = "edit_file t m" let ?now = "ev_now (tn_outside t)"
  have i: "pool_inv ?m" using assms(1) by (simp add: pool_inv_same)
  obtain m1 r where p: "pick_credential ?now model ?m = (m1, r)" by fastforce
  obtain cid c where b: "r = Some (cid, c)"
    using assms(2) by (auto simp: acquire_step_def Let_def p split: if_splits option.splits)
  obtain e where e: "find_entry cid m1 = Some e" "ce_credentials e = c" "is_available ?now e"
    using pick_find [OF i p [unfolded b]] by blast
  obtain m2 x where t: "try_ensure_token (tn_outside t) (tn_network t) cid c m1 = (m2, x)" by fastforce
  have "x = Inr ctx \<and> m2 = m'"
    using assms(2) token_failed_no_context
    by (cases x) (fastforce simp: acquire_step_def Let_def p b t split: if_splits)+
  then have "context_of (tn_network t) cid e m' ctx"
    using try_ensure_token_ok [OF e(1), of "tn_outside t" "tn_network t" m' ctx] t e(2) by simp
  then show ?thesis using e(3) same_available by (auto simp: context_of_def sound_context_def)
qed

lemma acquire_loop_sound:
  "pool_inv m \<Longrightarrow> acquire_loop fuel turns all mx model k m = Some (m', Inr ctx) \<Longrightarrow>
     \<exists>n < fuel. sound_context (turns n) m' ctx"
proof (induction fuel arbitrary: m k)
  case (Suc n)
  obtain m1 p where s: "acquire_step (turns n) all mx model k m = (m1, p)" by fastforce
  show ?case
  proof (cases p)
    case (Finished r)
    then have "r = Inr ctx" "m1 = m'" using Suc.prems(2) s by simp_all
    with acquire_step_sound [OF Suc.prems(1)] s Finished show ?thesis by blast
  next
    case (Again k')
    have "pool_inv m1" using pool_inv_acquire_step [OF Suc.prems(1), of "turns n" all mx model k] s by simp
    from Suc.IH [OF this] Suc.prems(2) s Again show ?thesis by (auto intro: less_SucI)
  qed
qed simp

text \<open>C6: A context that acquiring hands out belongs to a credential of the pool: it carries this
  credential as it is stored, with its own token; the credential is enabled and out of both
  cooldowns, and the token is an API key or is not expired, both by the clocks of the iteration that
  ended the acquisition.\<close>

theorem acquired_context_sound:
  assumes "pool_inv m" and "acquire_context fuel turns model m = Some (m', Inr ctx)"
  shows "\<exists>n < fuel. \<exists>e. find_entry (cx_id ctx) m' = Some e \<and> ce_credentials e = cx_credentials ctx
    \<and> is_available (ev_now (tn_outside (turns n))) e \<and> token_of (cx_credentials ctx) = Some (cx_token ctx)
    \<and> (is_api_key_credential (cx_credentials ctx) \<or> \<not> is_token_expired (tn_network (turns n)) (cx_credentials ctx))"
  using acquire_loop_sound [OF assms [unfolded acquire_context_def]]
  by (auto simp: sound_context_def token_valid_def)

lemma sample_acquire:
  "acquire_context 1 (\<lambda>_. sample_turn) None sample_pool =
     Some (sample_pool, Inr \<lparr>cx_id = 2, cx_credentials = sample_key 2 3, cx_token = ''key''\<rparr>)"
  by (simp add: acquire_context_def acquire_step_def sample_pool_def initial_manager_def sample_turn_def
      edit_file_def max_attempts_of_def total_count_def MAX_FAILURES_PER_CREDENTIAL_def
      pick_credential_def current_hit_def is_available_def new_entry_def cooling_def sample_config_def
      try_ensure_token_def is_api_key_credential_def sample_key_def credentials_default_def
      entry_priority_def)

theorem acquired_context_sound_witness:
  "\<exists>e. find_entry 2 sample_pool = Some e \<and> ce_credentials e = sample_key 2 3 \<and> is_available 100 e"
  using acquired_context_sound [OF sample_pool_inv sample_acquire]
  by (auto simp: sample_turn_def sample_outside_def)

subsection \<open>A refresh\<close>

text \<open>The credential a successful reply makes of \<open>c\<close>.\<close>

definition refreshed :: "network \<Rightarrow> refresh_response \<Rightarrow> credentials \<Rightarrow> credentials" where
  "refreshed nw d c =
    c\<lparr>access_token := Some (rr_access_token d),
      refresh_token := or_else (rr_refresh_token d) (refresh_token c),
      profile_arn := or_else (rr_profile_arn d) (profile_arn c),
      expires_at := or_else (map_option (\<lambda>s. nw_format_time nw (nw_utc nw + s)) (rr_expires_in d)) (expires_at c)\<rparr>"

lemma apply_refresh_refreshed: "apply_refresh nw d c = refreshed nw d c"
  by (simp add: apply_refresh_def refreshed_def Let_def or_else_def split: option.split)

text \<open>What each outcome says of the one request that was sent, or of the credential.\<close>

fun refresh_outcome :: "network \<Rightarrow> credentials \<Rightarrow> refresh_error + credentials \<Rightarrow> bool" where
  "refresh_outcome nw c (Inr c') = (\<exists>rq status body d. nw_send nw rq = Reply status body
     \<and> is_success status \<and> nw_parse_refresh nw body = Some d \<and> c' = refreshed nw d c)"
| "refresh_outcome nw c (Inl (RefreshTokenInvalid body)) =
     (\<exists>rq. nw_send nw rq = Reply 400 body \<and> invalid_grant 400 body)"
| "refresh_outcome nw c (Inl (BadStatus e status body)) = (\<exists>rq. nw_send nw rq = Reply status body
     \<and> \<not> is_success status \<and> \<not> invalid_grant status body \<and> e = status_error_of status)"
| "refresh_outcome nw c (Inl BadReply) =
     (\<exists>rq status body. nw_send nw rq = Reply status body \<and> is_success status \<and> nw_parse_refresh nw body = None)"
| "refresh_outcome nw c (Inl NoConnection) = (\<exists>rq. nw_send nw rq = NoReply)"
| "refresh_outcome nw c (Inl ApiKeyNotRefreshable) = is_api_key_credential c"
| "refresh_outcome nw c (Inl (InvalidToken e)) = (\<not> is_api_key_credential c \<and> validate_refresh_token c = Some e)"
| "refresh_outcome nw c (Inl MissingClientId) = (client_id c = None)"
| "refresh_outcome nw c (Inl MissingClientSecret) = (client_id c \<noteq> None \<and> client_secret c = None)"
| "refresh_outcome nw c (Inl e) = False"

lemma refresh_reply_outcome: "refresh_outcome nw c (refresh_reply nw (nw_send nw rq) c)"
proof (cases "nw_send nw rq")
  case NoReply
  then show ?thesis by (auto simp: refresh_reply_def)
next
  case (Reply status body)
  show ?thesis
  proof (cases "is_success status")
    case True
    with Reply show ?thesis
      by (cases "nw_parse_refresh nw body") (auto simp: refresh_reply_def apply_refresh_refreshed)
  next
    case False
    then show ?thesis using Reply
      by (cases "invalid_grant status body") (auto simp: refresh_reply_def invalid_grant_def)
  qed
qed

text \<open>C28: A refresh changes nothing of a credential but its tokens, their expiry and the profile, to what
  a successful reply says, keeping the old refresh token, profile and expiry where the reply has none;
  an API key account and a missing or cut off refresh token are refused; and every error says what
  happened: a refresh token is reported as invalid only for a reply of status 400 that says so, any
  other failed reply as its status, a reply that cannot be parsed as such.\<close>

theorem refresh_keeps_identity: "refresh_outcome nw c (refresh_credentials nw cf px c)"
proof (cases "is_api_key_credential c \<or> validate_refresh_token c \<noteq> None")
  case True
  then show ?thesis by (auto simp: refresh_credentials_def)
next
  case False
  have "refresh_outcome nw c (refresh_social_token nw cf px c)"
    by (simp add: refresh_social_token_def Let_def refresh_reply_outcome)
  moreover have "refresh_outcome nw c (refresh_idc_token nw cf px c)"
    by (cases "client_id c"; cases "client_secret c")
      (simp_all add: refresh_idc_token_def Let_def refresh_reply_outcome)
  ultimately show ?thesis using False by (simp add: refresh_credentials_def)
qed

subsection \<open>A rate limit\<close>

lemma find_self_heal: "find_entry i (self_heal m) = map_option heal_entry (find_entry i m)"
proof -
  have "find (\<lambda>e. ce_id e = i) (map heal_entry es) = map_option heal_entry (find (\<lambda>e. ce_id e = i) es)" for es
    by (induction es) (auto simp: heal_entry_def)
  then show ?thesis by (simp add: find_entry_def self_heal_def)
qed

lemma find_pick:
  "pick_credential now model m = (m', b) \<Longrightarrow>
     find_entry i m' = find_entry i m \<or> find_entry i m' = map_option heal_entry (find_entry i m)"
  by (auto simp: pick_credential_def select_or_heal_def find_self_heal split: option.splits prod.splits if_splits)

lemma heal_cooldown [simp]: "rate_limited_until (heal_entry e) = rate_limited_until e"
  by (simp add: heal_entry_def)

lemma pick_not_cooling:
  assumes "pool_inv m" and "find_entry cid m = Some e" and "cooling now (rate_limited_until e)"
    and "pick_credential now model m = (m', Some (i, c))"
  shows "i \<noteq> cid"
proof
  assume "i = cid"
  then obtain e' where e': "find_entry cid m' = Some e'" "is_available now e'"
    using pick_find [OF assms(1,4)] by blast
  then have "rate_limited_until e' = rate_limited_until e"
    using find_pick [OF assms(4), of cid] assms(2) by auto
  with e'(2) assms(3) show False by (simp add: is_available_def)
qed

lemma select_None: "select_next_credential now model m = None \<longleftrightarrow> filter (eligible now model) (mg_entries m) = []"
  by (simp add: select_next_credential_def Let_def del: not_None_eq)

lemma pick_some:
  assumes "e \<in> set (mg_entries m)" and "is_available now e"
  shows "\<exists>m' i c. pick_credential now None m = (m', Some (i, c))"
proof (cases "current_hit now m")
  case None
  have "eligible now None e" using assms(2) by (simp add: eligible_def is_opus_def)
  then have "select_next_credential now None m \<noteq> None"
    unfolding select_None using assms(1) by (auto simp: filter_empty_conv)
  then show ?thesis using None by (auto simp: pick_credential_def select_or_heal_def)
qed (simp add: pick_credential_def)

lemma cooldown_none: "cooldown_remaining_ms now until = None \<longleftrightarrow> \<not> cooling now until"
  by (simp add: cooldown_remaining_ms_def cooling_def split: option.split)

lemma other_available_iff: "other_available now cid e \<longleftrightarrow> ce_id e \<noteq> cid \<and> is_available now e"
  by (auto simp: other_available_def is_available_def cooldown_none)

lemma extend_cooling: "now < until \<Longrightarrow> cooling now (extend_cooldown until prev)"
  by (auto simp: extend_cooldown_def cooling_def split: option.split)

lemma other_in_update:
  "ce_id e \<noteq> cid \<Longrightarrow> (\<And>x. ce_id (f x) = ce_id x) \<Longrightarrow>
     e \<in> set (mg_entries (update_entry cid f m)) \<longleftrightarrow> e \<in> set (mg_entries m)"
proof -
  assume e: "ce_id e \<noteq> cid" and f: "\<And>x. ce_id (f x) = ce_id x"
  have "e \<in> set (update_first (\<lambda>x. ce_id x = cid) f es) \<longleftrightarrow> e \<in> set es" for es
    using e f by (induction es) auto
  then show ?thesis by (simp add: update_entry_def)
qed

text \<open>C12: Failover after a rate limit: until the cooldown has passed the limited credential is not picked for
  any model, not even when credentials are healed because none is left; the caller is told to go on
  exactly when another credential is available, and then the next pick, for a model every plan has,
  finds one.\<close>

theorem rate_limit_failover:
  assumes "pool_inv m" and "find_entry cid m = Some e" and "report_rate_limited ev cid cooldown m = (m', others)"
    and "now < ev_now ev + cooldown"
  shows "(case pick_credential now model m' of (_, Some (i, _)) \<Rightarrow> i \<noteq> cid | _ \<Rightarrow> True)
    \<and> others = (\<exists>e' \<in> set (mg_entries m). ce_id e' \<noteq> cid \<and> is_available (ev_now ev) e')
    \<and> (others \<longrightarrow> snd (pick_credential (ev_now ev) None m') \<noteq> None)"
proof -
  let ?f = "\<lambda>e. e\<lparr>rate_limited_until := extend_cooldown (ev_now ev + cooldown) (rate_limited_until e),
      total_failure_count := total_failure_count e + 1\<rparr>"
  let ?m = "update_entry cid ?f m"
  have es: "mg_entries m' = mg_entries ?m"
    and others: "others = (filter (other_available (ev_now ev) cid) (mg_entries ?m) \<noteq> [])"
    using assms(3) by (auto simp: report_rate_limited_def Let_def split: option.splits)
  have inv: "pool_inv m'" using pool_inv_rate_limited [OF assms(1), of ev cid cooldown] assms(3) by simp
  have found: "find_entry cid m' = Some (?f e)"
    using assms(2) by (simp add: find_entry_cong [OF es] find_update_same)
  have "cooling now (rate_limited_until (?f e))" using assms(4) by (simp add: extend_cooling)
  from pick_not_cooling [OF inv found this]
  have 1: "case pick_credential now model m' of (_, Some (i, _)) \<Rightarrow> i \<noteq> cid | _ \<Rightarrow> True"
    by (auto split: prod.split option.split)
  have 2: "others = (\<exists>e' \<in> set (mg_entries m). ce_id e' \<noteq> cid \<and> is_available (ev_now ev) e')"
    using other_in_update [of _ cid ?f m] by (auto simp: others filter_empty_conv other_available_iff)
  have 3: "snd (pick_credential (ev_now ev) None m') \<noteq> None" if "others"
  proof -
    from that obtain e' where "e' \<in> set (mg_entries m')" "is_available (ev_now ev) e'"
      by (auto simp: others es filter_empty_conv other_available_iff)
    from pick_some [OF this] show ?thesis by auto
  qed
  from 1 2 3 show ?thesis by blast
qed

theorem rate_limit_failover_witness:
  "snd (report_rate_limited sample_outside 2 60 sample_pool) \<and>
   (case pick_credential 120 None (fst (report_rate_limited sample_outside 2 60 sample_pool)) of
      (_, Some (i, _)) \<Rightarrow> i \<noteq> 2 | _ \<Rightarrow> True)"
proof -
  have f: "find_entry 2 sample_pool = Some (new_entry 2 (sample_key 2 3) False None)"
    by (simp add: sample_pool_def initial_manager_def find_entry_def new_entry_def)
  obtain m' b where r: "report_rate_limited sample_outside 2 60 sample_pool = (m', b)" by fastforce
  have other: "\<exists>e' \<in> set (mg_entries sample_pool). ce_id e' \<noteq> 2 \<and> is_available (ev_now sample_outside) e'"
    by (simp add: sample_pool_def initial_manager_def new_entry_def is_available_def cooling_def)
  have "120 < ev_now sample_outside + 60" by (simp add: sample_outside_def)
  note w = rate_limit_failover [OF sample_pool_inv f r this, of None]
  from iffD2 [OF conjunct1 [OF conjunct2 [OF w]] other] conjunct1 [OF w] show ?thesis
    unfolding r fst_conv snd_conv by (rule conjI)
qed

end
