(* ===== verification/Pool_Restart.thy ===== *)
theory Pool_Restart imports Pool_Properties begin

section \<open>Reachable states and restarts\<close>

text \<open>
  What a manager is when it is built from a list of credentials that have ids, and with it: the
  states a run of the program can reach, and what a restart brings back from the written file.
\<close>

subsection \<open>Building the entries\<close>

text \<open>Fields that building an entry does not touch.\<close>

definition kept :: "credentials \<Rightarrow> credentials \<Rightarrow> bool" where
  "kept c c' \<longleftrightarrow> c'\<lparr>cr_id := None, profile_arn := None, machine_id := None\<rparr>
     = c\<lparr>cr_id := None, profile_arn := None, machine_id := None\<rparr>"

lemma complete_credential_id: "cr_id (fst (complete_credential h seeds cf cid c cache)) = Some cid"
  by (simp add: complete_credential_def Let_def fill_default_profile_arn_with_region_def split: option.split prod.split)

lemma complete_credential_kept: "kept c (fst (complete_credential h seeds cf cid c cache))"
  by (auto simp: complete_credential_def Let_def fill_default_profile_arn_with_region_def kept_def
      split: option.split prod.split) 

definition restored :: "credentials \<Rightarrow> credential_entry \<Rightarrow> bool" where
  "restored c e \<longleftrightarrow> cr_id c = Some (ce_id e) \<and> kept (canonicalize_auth_method c) (ce_credentials e)
     \<and> e = new_entry (ce_id e) (ce_credentials e) (cr_disabled c) (if cr_disabled c then Some Manual else None)"

lemma canonicalize_fields [simp]:
  "cr_id (canonicalize_auth_method c) = cr_id c" "cr_disabled (canonicalize_auth_method c) = cr_disabled c"
  by (simp_all add: canonicalize_auth_method_def Let_def split: option.split)

lemma kept_disabled: "kept c c' \<Longrightarrow> cr_disabled c' = cr_disabled c"
  unfolding kept_def by (drule arg_cong [where f = cr_disabled]) simp

lemma build_entries_restored:
  "list_all (\<lambda>c. cr_id c \<noteq> None) cs \<Longrightarrow> list_all2 restored cs (fst (build_entries h seeds cf n cache cs))"
proof (induction cs arbitrary: cache)
  case (Cons c cs)
  then obtain i where i: "cr_id c = Some i" by auto
  let ?c = "canonicalize_auth_method c"
  let ?x = "complete_credential h seeds cf i ?c cache"
  have "restored c (new_entry i (fst ?x) (cr_disabled (fst ?x)) (if cr_disabled (fst ?x) then Some Manual else None))"
    using i complete_credential_kept [of ?c h seeds cf i cache] kept_disabled [of ?c "fst ?x"]
    by (auto simp: restored_def new_entry_def)
  moreover have "list_all2 restored cs (fst (build_entries h seeds cf n (snd (snd ?x)) cs))"
    using Cons by simp
  ultimately show ?case using i by (simp add: Let_def case_prod_unfold)
qed simp

text \<open>An account that is to use an API key and has none.\<close>

definition lacks_key :: "credentials \<Rightarrow> bool" where
  "lacks_key c \<longleftrightarrow> kiro_api_key c = None \<and> is_api_key_credential c"

text \<open>An entry of a new manager and the credential it was built from.\<close>

definition started :: "credentials \<Rightarrow> credential_entry \<Rightarrow> bool" where
  "started c e \<longleftrightarrow> cr_id c = Some (ce_id e) \<and> kept (canonicalize_auth_method c) (ce_credentials e)
     \<and> ce_disabled_reason e = (if lacks_key (ce_credentials e) then Some InvalidConfig
                               else if cr_disabled c then Some Manual else None)
     \<and> failure_count e = 0 \<and> refresh_failure_count e = 0
     \<and> throttled_until e = None \<and> rate_limited_until e = None"

lemma restored_started: "restored c e \<Longrightarrow> started c (check_config e)"
proof -
  assume r: "restored c e"
  then have e: "e = new_entry (ce_id e) (ce_credentials e) (cr_disabled c) (if cr_disabled c then Some Manual else None)"
    by (simp add: restored_def)
  note field = arg_cong [OF e]
  have "ce_disabled_reason e = (if cr_disabled c then Some Manual else None)" "failure_count e = 0"
    "refresh_failure_count e = 0" "throttled_until e = None" "rate_limited_until e = None"
    using field [of ce_disabled_reason] field [of failure_count] field [of refresh_failure_count]
      field [of throttled_until] field [of rate_limited_until]
    by (simp_all add: new_entry_def)
  with r show ?thesis
    by (auto simp: started_def restored_def check_config_def lacks_key_def is_api_key_credential_def)
qed

lemma list_all2_in: "list_all2 p xs ys \<Longrightarrow> x \<in> set xs \<Longrightarrow> \<exists>y \<in> set ys. p x y"
  by (induction rule: list_all2_induct) auto

lemma started_ids: "list_all2 started cs es \<Longrightarrow> map cr_id cs = map (\<lambda>e. Some (ce_id e)) es"
  by (induction rule: list_all2_induct) (auto simp: started_def)

lemma started_load_stats:
  "list_all2 started cs (mg_entries m) \<Longrightarrow> list_all2 started cs (mg_entries (load_stats ev m))"
  by (auto simp: load_stats_def list_all2_map2 started_def elim!: list_all2_mono split: option.split)

lemma started_found:
  assumes "pool_inv m" and "list_all2 started cs (mg_entries m)" and "c \<in> set cs"
  shows "\<exists>e. cr_id c = Some (ce_id e) \<and> find_entry (ce_id e) m = Some e \<and> started c e"
proof -
  obtain e where e: "e \<in> set (mg_entries m)" "started c e" using list_all2_in [OF assms(2,3)] by blast
  have "find_entry (ce_id e) m = Some e"
    using find_distinct_key [of ce_id "mg_entries m" e] assms(1) e(1) by (simp add: find_entry_def pool_inv_def)
  with e(2) show ?thesis by (auto simp: started_def)
qed

lemma distinct_some_ids: "distinct (map (\<lambda>e. Some (ce_id e)) es) = distinct (map ce_id es)"
  by (induction es) auto

lemma manager_new_started:
  assumes "list_all (\<lambda>c. cr_id c \<noteq> None) cs" and "distinct (map cr_id cs)"
  shows "\<exists>m. manager_new h seeds ev ev' cf cs px hp mf file st cff cache = Inr m \<and> list_all2 started cs (mg_entries m)"
proof -
  obtain es changed where b: "build_entries h seeds cf (max_id (given_ids cs) + 1) cache cs = (es, changed)"
    by fastforce
  let ?es = "map check_config es"
  have s: "list_all2 started cs ?es"
    using build_entries_restored [OF assms(1), of h seeds cf "max_id (given_ids cs) + 1" cache]
    by (auto simp: b list_all2_map2 restored_started elim: list_all2_mono)
  have "distinct (map ce_id ?es)"
    using assms(2) unfolding started_ids [OF s] by (simp only: distinct_some_ids)
  then have "duplicate_ids {} (map ce_id ?es) = []" by (simp only: duplicate_ids_nil) simp
  then have "manager_new h seeds ev ev' cf cs px hp mf file st cff cache
      = Inr (load_stats ev' (write_completed ev ev' changed (initial_manager cf ?es px hp mf file st cff)))"
    by (simp add: manager_new_def b del: map_map)
  moreover have "list_all2 started cs (mg_entries (load_stats ev' (write_completed ev ev' changed
      (initial_manager cf ?es px hp mf file st cff))))"
    by (rule started_load_stats) (simp add: pool_simps initial_manager_def s)
  ultimately show ?thesis by blast
qed

subsection \<open>Reachable states\<close>

text \<open>C10: In every state a run of the program can reach, from a manager built from any credentials, by
  any operations, with any answers of the network and whichever writes fail: the ids are distinct, a
  credential is disabled exactly when a reason is recorded, an enabled one is below both failure
  limits, and no failure counter has passed its limit.\<close>

theorem pool_reachable_inv:
  assumes "manager_new h seeds ev ev' cf creds px hp mf file st cff cache = Inr m0" and "pool_reaches m0 m"
  shows "distinct (map ce_id (mg_entries m)) \<and>
    (\<forall>e \<in> set (mg_entries m). (ce_disabled e \<longleftrightarrow> ce_disabled_reason e \<noteq> None)
       \<and> (ce_disabled e \<or> unat (failure_count e) < 3 \<and> unat (refresh_failure_count e) < 3)
       \<and> unat (failure_count e) \<le> 3 \<and> unat (refresh_failure_count e) \<le> 3)"
proof -
  have "pool_inv m" using pool_reaches_inv [OF assms(2) manager_new_ok [OF assms(1)]] .
  then show ?thesis
    by (auto simp: pool_inv_def list_all_iff entry_ok_def MAX_FAILURES_PER_CREDENTIAL_def
        word_less_nat_alt word_le_nat_alt)
qed

definition sample_start :: "manager_error + manager" where
  "sample_start = manager_new id (\<lambda>_. ''seed'') sample_outside sample_outside sample_config
     [sample_key 1 5, sample_key 2 3] None True True None None None (\<lambda>_. None)"

lemma sample_start_ok: "\<exists>m. sample_start = Inr m \<and> map ce_id (mg_entries m) = [1, 2]"
proof -
  let ?cs = "[sample_key 1 5, sample_key 2 3]"
  have "\<exists>m. sample_start = Inr m \<and> list_all2 started ?cs (mg_entries m)"
    unfolding sample_start_def by (rule manager_new_started) (simp_all add: sample_key_def)
  then obtain m where m: "sample_start = Inr m" and s: "list_all2 started ?cs (mg_entries m)"
    by (elim exE conjE)
  have "map (\<lambda>e. Some (ce_id e)) (mg_entries m) = [Some 1, Some 2]"
    using started_ids [OF s] by (simp add: sample_key_def)
  then have "map ce_id (mg_entries m) = [1, 2]" by (auto simp: map_eq_Cons_conv)
  with m show ?thesis by (intro exI conjI)
qed

theorem pool_reachable_inv_witness:
  "\<exists>m0. sample_start = Inr m0 \<and> distinct (map ce_id (mg_entries (pool_step (Failure sample_outside 1) m0)))"
proof -
  from sample_start_ok obtain m0 where m0: "sample_start = Inr m0" "map ce_id (mg_entries m0) = [1, 2]"
    by (elim exE conjE)
  have "id_left m0" by (simp add: id_left_def m0(2) max_id_def)
  then have "pool_reaches m0 (pool_step (Failure sample_outside 1) m0)"
    by (intro reaches_step reaches_start)
  note inv = pool_reachable_inv [OF m0(1) [unfolded sample_start_def] this]
  show ?thesis by (intro exI conjI) (rule m0(1), rule conjunct1 [OF inv])
qed


subsection \<open>A restart\<close>

lemma canonical_entry [simp]: "canonicalize_auth_method (entry_for_file e) = entry_for_file e"
proof -
  have "canonicalize_auth_method (c\<lparr>cr_disabled := d\<rparr>) = (canonicalize_auth_method c)\<lparr>cr_disabled := d\<rparr>" for c d
    by (simp add: canonicalize_auth_method_def Let_def split: option.split)
  then show ?thesis by (simp add: entry_for_file_def canonicalize_idem)
qed

text \<open>C26: What a restart brings back: after the credentials have been written, a manager built from the file
  has exactly the credentials of the old one, with their ids, tokens, keys, priorities and all other
  fields but the profile and the machine id, which are filled in; the same ones are disabled (and those
  that lack their API key); but every recorded reason has become the manual one, so that a credential
  that failures disabled is not healed any more, and the failure counts and cooldowns are gone.\<close>

theorem restart_restores:
  assumes "pool_inv m" and "\<forall>e \<in> set (mg_entries m). cr_id (ce_credentials e) = Some (ce_id e)"
    and "mg_has_path m" and "mg_multiple_format m" and "ev_write ev = Written"
    and "mg_file (fst (persist_credentials ev m)) = Some saved"
  shows "\<exists>m'. manager_new h seeds ev1 ev2 cf (into_sorted_credentials saved) px True (is_multiple saved) (Some saved)
        st cff cache = Inr m'
      \<and> set (map ce_id (mg_entries m')) = set (map ce_id (mg_entries m))
      \<and> (\<forall>e \<in> set (mg_entries m). \<exists>e'. find_entry (ce_id e) m' = Some e'
          \<and> kept (entry_for_file e) (ce_credentials e')
          \<and> ce_disabled_reason e' = (if lacks_key (ce_credentials e') then Some InvalidConfig
                else if ce_disabled e then Some Manual else None)
          \<and> (ce_disabled e' \<longleftrightarrow> ce_disabled_reason e' \<noteq> None)
          \<and> failure_count e' = 0 \<and> throttled_until e' = None \<and> rate_limited_until e' = None)"
proof -
  let ?fs = "map entry_for_file (mg_entries m)" let ?cs = "into_sorted_credentials (Multiple ?fs)"
  have saved: "saved = Multiple ?fs" using assms(3-6) by (simp add: persist_credentials_def)
  have f: "cr_id (entry_for_file e) = Some (ce_id e)" if "e \<in> set (mg_entries m)" for e
    using that assms(2) by (simp add: entry_for_file_def)
  have some: "list_all (\<lambda>c. cr_id c \<noteq> None) ?cs" by (auto simp: list_all_iff f)
  have "distinct (map cr_id ?fs)"
    using assms(1) f by (simp add: pool_inv_def comp_def distinct_some_ids [symmetric] cong: map_cong)
  moreover have "mset (map cr_id ?cs) = mset (map cr_id ?fs)"
    by (simp add: image_mset.compositionality comp_def del: map_map)
  ultimately have "distinct (map cr_id ?cs)" by (metis mset_eq_imp_distinct_iff)
  from manager_new_started [OF some this] obtain m' where
    m': "manager_new h seeds ev1 ev2 cf ?cs px True True (Some saved) st cff cache = Inr m'"
    and s: "list_all2 started ?cs (mg_entries m')" by blast
  have inv: "pool_inv m'" using manager_new_ok [OF m'] .
  have "set (map (\<lambda>e. Some (ce_id e)) (mg_entries m')) = set (map cr_id ?cs)"
    by (simp only: started_ids [OF s])
  also have "\<dots> = Some ` ce_id ` set (mg_entries m)" by (auto simp: f image_iff)
  finally have "Some ` ce_id ` set (mg_entries m') = Some ` ce_id ` set (mg_entries m)" by (simp add: image_image)
  then have ids: "ce_id ` set (mg_entries m') = ce_id ` set (mg_entries m)"
    by (simp only: inj_image_eq_iff [OF inj_Some])
  have one: "\<exists>e'. find_entry (ce_id e) m' = Some e' \<and> started (canonicalize_auth_method (entry_for_file e)) e'"
    if e: "e \<in> set (mg_entries m)" for e
  proof -
    let ?c = "canonicalize_auth_method (entry_for_file e)"
    have "?c \<in> set ?cs" using e by (simp add: image_image)
    from started_found [OF inv s this] obtain e' where e': "cr_id ?c = Some (ce_id e')"
      "find_entry (ce_id e') m' = Some e'" "started ?c e'" by blast
    have "ce_id e' = ce_id e" using e'(1) f [OF e] by simp
    from e'(2) [unfolded this] e'(3) show ?thesis by (intro exI conjI)
  qed
  show ?thesis
  proof (rule exI [of _ m'], intro conjI ballI)
    show "manager_new h seeds ev1 ev2 cf (into_sorted_credentials saved) px True (is_multiple saved) (Some saved)
        st cff cache = Inr m'" using m' by (simp add: saved)
    show "set (map ce_id (mg_entries m')) = set (map ce_id (mg_entries m))" using ids by simp
    fix e assume "e \<in> set (mg_entries m)"
    from one [OF this] obtain e' where e': "find_entry (ce_id e) m' = Some e'"
      "started (canonicalize_auth_method (entry_for_file e)) e'" by blast
    moreover have "entry_ok e'" using find_entry_ok [OF inv e'(1)] .
    ultimately show "\<exists>e'. find_entry (ce_id e) m' = Some e' \<and> kept (entry_for_file e) (ce_credentials e')
        \<and> ce_disabled_reason e' = (if lacks_key (ce_credentials e') then Some InvalidConfig
              else if ce_disabled e then Some Manual else None)
        \<and> (ce_disabled e' \<longleftrightarrow> ce_disabled_reason e' \<noteq> None)
        \<and> failure_count e' = 0 \<and> throttled_until e' = None \<and> rate_limited_until e' = None"
      by (simp add: started_def entry_ok_def) (simp add: entry_for_file_def)
  qed
qed

theorem restart_restores_witness:
  "\<exists>m'. manager_new id (\<lambda>_. ''seed'') sample_outside sample_outside sample_config
      (into_sorted_credentials (Multiple (map entry_for_file (mg_entries sample_pool)))) None True
      (is_multiple (Multiple (map entry_for_file (mg_entries sample_pool))))
      (Some (Multiple (map entry_for_file (mg_entries sample_pool)))) None None (\<lambda>_. None) = Inr m'
    \<and> set (map ce_id (mg_entries m')) = set (map ce_id (mg_entries sample_pool))"
proof -
  have a: "\<forall>e \<in> set (mg_entries sample_pool). cr_id (ce_credentials e) = Some (ce_id e)"
    "mg_has_path sample_pool" "mg_multiple_format sample_pool" "ev_write sample_outside = Written"
    by (simp_all add: sample_pool_def initial_manager_def new_entry_def sample_key_def sample_outside_def)
  then have "mg_file (fst (persist_credentials sample_outside sample_pool))
      = Some (Multiple (map entry_for_file (mg_entries sample_pool)))"
    by (simp add: persist_credentials_def)
  from restart_restores [OF sample_pool_inv a this, where h = id and seeds = "\<lambda>_. ''seed''"
      and ?ev1.0 = sample_outside and ?ev2.0 = sample_outside and cf = sample_config and px = None
      and st = None and cff = None and cache = "\<lambda>_. None"]
  show ?thesis by (elim exE conjE) (intro exI conjI)
qed

end
