(* ===== verification/Provider_Properties.thy ===== *)
theory Provider_Properties imports Provider Pool_Restart begin

section \<open>What a call of the upstream does to the pool\<close>

text \<open>
  The provider's interface to the pool is \<open>pool_kept\<close>: whatever the operations a request uses keep, and
  the operations of others keep, every call keeps. It is interpreted with the pool's invariant, and
  with the list of the ids, which no request changes. With them: calls end, replies punish only the
  credential they are for, and a successful call used a credential that was fit to be used.
\<close>

subsection \<open>The operations of a request\<close>

fun request_op :: "pool_op \<Rightarrow> bool" where
  "request_op (Acquire _ _ _) = True"
| "request_op (Success _ _) = True"
| "request_op (Failure _ _) = True"
| "request_op (QuotaExhausted _ _) = True"
| "request_op (Throttled _ _ _) = True"
| "request_op (LimitHit _ _ _) = True"
| "request_op (ForceRefresh _ _ _) = True"
| "request_op _ = False"

text \<open>The operations of others during an attempt.\<close>

definition others_are :: "(pool_op \<Rightarrow> bool) \<Rightarrow> 'c hop \<Rightarrow> bool" where
  "others_are allowed h \<longleftrightarrow> list_all allowed (hp_before h) \<and> list_all allowed (hp_during h)"

locale pool_kept =
  fixes P :: "manager \<Rightarrow> bool"
    and allowed :: "pool_op \<Rightarrow> bool"
  assumes kept: "P m \<Longrightarrow> request_op op \<Longrightarrow> P (pool_step op m)"
    and others: "P m \<Longrightarrow> allowed op \<Longrightarrow> P (guarded_step op m)"
begin

lemma kept_ops:
  assumes "P m"
  shows "P (report_success ev cid m)" and "P (fst (report_failure ev cid m))"
    and "P (fst (report_quota_exhausted ev cid m))" and "P (fst (report_account_throttled ev cid cd m))"
    and "P (fst (report_rate_limited ev cid cd m))" and "P (fst (force_refresh_token_for ev nw cid m))"
  using kept [OF assms, of "Success ev cid"] kept [OF assms, of "Failure ev cid"]
    kept [OF assms, of "QuotaExhausted ev cid"] kept [OF assms, of "Throttled ev cid cd"]
    kept [OF assms, of "LimitHit ev cid cd"] kept [OF assms, of "ForceRefresh ev nw cid"]
  by simp_all

lemma kept_acquire: "P m \<Longrightarrow> acquire_context fuel turns model m = Some (m', r) \<Longrightarrow> P m'"
  using kept [of m "Acquire fuel turns model"] by simp

lemma kept_interleave: "P m \<Longrightarrow> list_all allowed ops \<Longrightarrow> P (interleave ops m)"
proof (induction ops arbitrary: m)
  case (Cons op ops)
  then have "P (interleave ops (guarded_step op m))" by (simp add: others)
  then show ?case by (simp add: interleave_def)
qed (simp add: interleave_def)

lemma kept_count_failure: "P m \<Longrightarrow> P (fst (count_failure h cid status body fx m forced))"
  using kept_ops(2) by (simp add: count_failure_def case_prod_unfold)

lemma kept_replies:
  assumes "P m"
  shows "P (fst (on_quota h cid status body fx m forced))"
    and "P (fst (on_auth h cid status body fx m forced))"
    and "P (fst (on_account_throttled h cid status body fx m forced))"
    and "P (fst (on_rest h p k n tr status body m forced))"
    and "P (fst (on_rate_limited h p k n tr cid r m forced))"
proof -
  show "P (fst (on_quota h cid status body fx m forced))"
    using kept_ops(3) [OF assms] by (simp add: on_quota_def case_prod_unfold)
  show "P (fst (on_auth h cid status body fx m forced))"
    using kept_ops(6) [OF assms, of "hp_outside h" "hp_network h" cid] kept_count_failure assms
    by (auto simp: on_auth_def split: prod.split sum.split)
  show "P (fst (on_account_throttled h cid status body fx m forced))"
    using kept_ops(4) [OF assms] by (simp add: on_account_throttled_def Let_def case_prod_unfold)
  have rest: "P (fst (on_rest h p k n tr status body m forced))" if "P m" for m status body
    using that by (simp add: on_rest_def)
  show "P (fst (on_rest h p k n tr status body m forced))" using rest [OF assms] .
  show "P (fst (on_rate_limited h p k n tr cid r m forced))"
    using rest kept_ops(5) [OF assms] assms
    by (auto simp: on_rate_limited_def Let_def case_prod_unfold)
qed

lemma kept_reply:
  assumes "P m"
  shows "P (fst (on_api_reply sd h p k n ep cid r m forced))"
    and "P (fst (on_mcp_reply sd h p k n cid r m forced))"
  by (simp_all add: on_api_reply_def on_mcp_reply_def Let_def kept_replies [OF assms] kept_ops(1) [OF assms] assms)

lemma kept_no_context: "P m \<Longrightarrow> P (fst (no_context h p k n fx e m forced))"
  by (simp add: no_context_def)

lemma manager_set [simp]: "pv_manager (fst (set_manager pv r)) = fst r"
  by (simp add: set_manager_def case_prod_unfold)

lemma manager_client_for [simp]: "pv_manager (fst (client_for h c pv)) = pv_manager pv"
  by (simp add: client_for_def Let_def split: option.split)

lemma manager_context_for [simp]: "pv_manager (fst (context_for sr h ctx pv)) = pv_manager pv"
  by (simp add: context_for_def Let_def split: prod.split)

lemma kept_during: "others_are allowed h \<Longrightarrow> P (pv_manager pv) \<Longrightarrow> P (pv_manager (others_during h pv))"
  using kept_interleave by (simp add: others_are_def others_during_def)

lemma kept_deliver:
  assumes "others_are allowed h" and "P (pv_manager pv)"
  shows "P (pv_manager (fst (deliver_api sr h p k n ek ctx rq pv forced)))"
proof -
  obtain pv1 x where 1: "client_for h (cx_credentials ctx) pv = (pv1, x)" by fastforce
  obtain pv2 y where 2: "client_for h (cx_credentials ctx) pv1 = (pv2, y)" by fastforce
  have m: "pv_manager pv1 = pv_manager pv" "pv_manager pv2 = pv_manager pv"
    using manager_client_for [of h "cx_credentials ctx" pv] manager_client_for [of h "cx_credentials ctx" pv1]
    by (simp_all add: 1 2)
  have d: "P (pv_manager (others_during h pv2))" using kept_during [OF assms(1)] assms(2) m by simp
  show ?thesis
    by (simp add: deliver_api_def 1 2 m assms(2) d kept_reply(1) [OF d] split: option.split upstream.split)
qed

lemma kept_api_send:
  assumes "others_are allowed h" and "P (pv_manager pv)"
  shows "P (pv_manager (fst (api_send sr h p k n ctx body pv forced)))"
proof -
  obtain pv1 rc where 1: "context_for sr h ctx pv = (pv1, rc)" by fastforce
  have m: "P (pv_manager pv1)" using assms(2) manager_context_for [of sr h ctx pv] by (simp add: 1)
  show ?thesis
    using m kept_ops(2) [OF m] kept_deliver [OF assms(1) m]
    by (simp add: api_send_def 1 split: option.split sum.split)
qed

lemma kept_mcp_send:
  assumes "others_are allowed h" and "P (pv_manager pv)"
  shows "P (pv_manager (fst (mcp_send sr h p k n ctx body pv forced)))"
proof -
  obtain pv1 rc where 1: "context_for sr h ctx pv = (pv1, rc)" by fastforce
  obtain pv2 y where 2: "client_for h (cx_credentials ctx) pv1 = (pv2, y)" by fastforce
  have m: "P (pv_manager pv1)" "pv_manager pv2 = pv_manager pv1"
    using assms(2) manager_context_for [of sr h ctx pv] manager_client_for [of h "cx_credentials ctx" pv1]
    by (simp_all add: 1 2)
  then have d: "P (pv_manager (others_during h pv2))" using kept_during [OF assms(1)] by simp
  show ?thesis
    by (simp add: mcp_send_def 1 2 m d kept_ops(2) [OF m(1)] kept_reply(2) [OF d] split: option.split sum.split upstream.split)
qed

lemma kept_attempt:
  assumes "others_are allowed h" and "P (pv_manager pv)"
    and "\<And>ctx pv. P (pv_manager pv) \<Longrightarrow> P (pv_manager (fst (send h p k n ctx pv forced)))"
    and "attempt_with send tr model h p k n pv forced = Some (pv', rest)"
  shows "P (pv_manager pv')"
proof -
  have b: "P (interleave (hp_before h) (pv_manager pv))"
    using kept_interleave assms(1,2) by (simp add: others_are_def)
  obtain m r where a: "acquire_context (hp_fuel h) (hp_turns h) model (interleave (hp_before h) (pv_manager pv)) = Some (m, r)"
    using assms(4) by (auto simp: attempt_with_def split: option.splits)
  have m: "P m" using kept_acquire [OF b a] .
  show ?thesis
  proof (cases r)
    case (Inl e)
    then have "pv' = fst (set_manager pv (no_context h p k n (tr k) e m forced))"
      using assms(4) a by (simp add: attempt_with_def)
    then show ?thesis using kept_no_context [OF m] by simp
  next
    case (Inr ctx)
    then have "pv' = fst (send h p k n ctx (pv\<lparr>pv_manager := m\<rparr>) forced)"
      using assms(4) a by (simp add: attempt_with_def)
    then show ?thesis using assms(3) [of "pv\<lparr>pv_manager := m\<rparr>" ctx] m by simp
  qed
qed

lemma kept_attempts:
  assumes "\<And>k pv forced pv' rest. P (pv_manager pv) \<Longrightarrow> step k pv forced = Some (pv', rest) \<Longrightarrow> P (pv_manager pv')"
  shows "P (pv_manager pv) \<Longrightarrow> attempts step left k e pv forced = Some (pv', fx, r) \<Longrightarrow> P (pv_manager pv')"
proof (induction left arbitrary: k e pv forced fx)
  case (Suc left)
  from Suc.prems(2) obtain pv1 forced1 fx1 v where s: "step k pv forced = Some (pv1, forced1, fx1, v)"
    by (auto split: option.splits)
  have p: "P (pv_manager pv1)" using assms [OF Suc.prems(1) s] .
  show ?case
    using Suc.prems(2) s p by (cases v) (auto intro: Suc.IH split: option.splits)
qed simp

lemma kept_call_with:
  assumes "\<And>k p n pv forced pv' rest. P (pv_manager pv) \<Longrightarrow>
      attempt (hops k) p k n pv forced = Some (pv', rest) \<Longrightarrow> P (pv_manager pv')"
    and "P (pv_manager pv)" and "call_with attempt hops pv = Some (pv', fx, r)"
  shows "P (pv_manager pv')"
proof (cases "effective_retry_policy pv")
  case (Inl e)
  then show ?thesis using assms(2,3) by (simp add: call_with_def)
next
  case (Inr x)
  obtain mode p where x: "x = (mode, p)" by fastforce
  define n where "n = unat (max_retries (of_nat (total_count (pv_manager pv))) p)"
  have r: "attempts (\<lambda>k. attempt (hops k) p k n) n 0 None pv {} = Some (pv', fx, r)"
    using assms(3) Inr x by (simp add: call_with_def Let_def n_def)
  show ?thesis
  proof (rule kept_attempts [OF _ assms(2) r])
    fix k forced rest and pv1 pv2 :: "'a provider"
    assume "P (pv_manager pv1)" "attempt (hops k) p k n pv1 forced = Some (pv2, rest)"
    then show "P (pv_manager pv2)" by (rule assms(1))
  qed
qed

lemma kept_call:
  assumes "\<And>k. others_are allowed (hops k)" and "P (pv_manager pv)"
  shows "call_api_with_retry sr body hops pv = Some (pv', fx, r) \<Longrightarrow> P (pv_manager pv')"
    and "call_mcp_with_retry sr body hops pv = Some (pv', fx, r) \<Longrightarrow> P (pv_manager pv')"
proof -
  show "call_api_with_retry sr body hops pv = Some (pv', fx, r) \<Longrightarrow> P (pv_manager pv')"
    unfolding call_api_with_retry_def
  proof (rule kept_call_with [OF _ assms(2)])
    fix k p n forced rest and pv1 pv2 :: "'a provider"
    assume m: "P (pv_manager pv1)"
      and a: "api_attempt sr (extract_model_from_request (sr_serde sr) body) body (hops k) p k n pv1 forced = Some (pv2, rest)"
    show "P (pv_manager pv2)"
      by (rule kept_attempt [OF assms(1) m _ a [unfolded api_attempt_def]]) (rule kept_api_send [OF assms(1)])
  qed
  show "call_mcp_with_retry sr body hops pv = Some (pv', fx, r) \<Longrightarrow> P (pv_manager pv')"
    unfolding call_mcp_with_retry_def
  proof (rule kept_call_with [OF _ assms(2)])
    fix k p n forced rest and pv1 pv2 :: "'a provider"
    assume m: "P (pv_manager pv1)" and a: "mcp_attempt sr body (hops k) p k n pv1 forced = Some (pv2, rest)"
    show "P (pv_manager pv2)"
      by (rule kept_attempt [OF assms(1) m _ a [unfolded mcp_attempt_def]]) (rule kept_mcp_send [OF assms(1)])
  qed
qed

end

subsection \<open>The invariant of the pool\<close>

lemma request_op_inv: "pool_inv m \<Longrightarrow> request_op op \<Longrightarrow> pool_inv (pool_step op m)"
  by (cases op) (auto split: option.split intro: pool_intros)

interpretation kept_inv: pool_kept pool_inv "\<lambda>_. True"
  by unfold_locales (auto simp: guarded_step_def intro: request_op_inv pool_step_inv)


text \<open>The sample pool with a retry policy that is not complete: the call ends before its first attempt.\<close>

definition sample_custom :: "unit provider" where
  "sample_custom = \<lparr>pv_manager = sample_pool\<lparr>mg_retry_mode := Custom, mg_retry_policy := None\<rparr>,
     pv_global_proxy = None, pv_cache = cache_new None () CLIENT_CACHE_CAP, pv_endpoints = Map.empty,
     pv_default_endpoint = [], pv_ids = (\<lambda>_. None)\<rparr>"


subsection \<open>The ids of the pool\<close>

abbreviation ids_of :: "manager \<Rightarrow> u64 list" where
  "ids_of m \<equiv> map ce_id (mg_entries m)"

lemma ids_update: "(\<And>e. ce_id (f e) = ce_id e) \<Longrightarrow> ids_of (update_entry cid f m) = ids_of m"
  by (simp add: update_entry_def)

lemma ids_entries: "mg_entries m' = mg_entries m \<Longrightarrow> ids_of m' = ids_of m"
  by simp

lemma ids_set_profile: "ids_of (fst (set_profile_arn_for ev cid arn m)) = ids_of m"
  by (simp add: set_profile_arn_for_def Let_def pool_simps ids_update split: option.split)

lemma ids_fallback: "ids_of (fst (ensure_enterprise_fallback_profile_arn ev cid c m)) = ids_of m"
  using ids_set_profile
  by (auto simp: ensure_enterprise_fallback_profile_arn_def Let_def split: prod.split option.split)
    (metis fst_conv)+

lemma ids_ensure_profile: "ids_of (fst (ensure_enterprise_profile_arn ev nw cid c token m)) = ids_of m"
proof -
  have p: "ids_of (fst (case set_profile_arn_for ev cid arn m' of (m, Some c') \<Rightarrow> (m, c') | (m, None) \<Rightarrow> (m, c)))
      = ids_of m'" for arn m'
    using ids_set_profile [of ev cid arn m'] by (auto split: prod.split option.split)
  have f: "ids_of (m\<lparr>mg_fetch_attempted := a\<rparr>) = ids_of m" for a by simp
  show ?thesis
    by (auto simp: ensure_enterprise_profile_arn_def Let_def p f ids_fallback split: sum.split option.split)
qed

lemma ids_refresh_entry: "ids_of (fst (refresh_entry ev nw cid m)) = ids_of m"
  by (simp add: refresh_entry_def Let_def pool_simps ids_update split: option.split sum.split)

lemma ids_try_ensure: "ids_of (fst (try_ensure_token ev nw cid c m)) = ids_of m"
proof -
  obtain m1 x where x: "(if needs_refresh nw c then refresh_entry ev nw cid m else (m, Inr c)) = (m1, x)" by fastforce
  have m1: "ids_of m1 = ids_of m" using ids_refresh_entry [of ev nw cid m] x by (auto split: if_splits)
  have "ids_of (update_entry cid (\<lambda>e. e\<lparr>refresh_failure_count := 0\<rparr>)
      (fst (ensure_enterprise_profile_arn ev nw cid c' t m1))) = ids_of m" for c' t
    by (simp add: ids_update ids_ensure_profile m1)
  with m1 show ?thesis
    by (simp add: try_ensure_token_def x case_prod_unfold split: option.split sum.split)
qed

lemma ids_reports:
  "ids_of (report_success ev cid m) = ids_of m"
  "ids_of (fst (report_failure ev cid m)) = ids_of m"
  "ids_of (fst (report_quota_exhausted ev cid m)) = ids_of m"
  "ids_of (fst (report_account_throttled ev cid cd m)) = ids_of m"
  "ids_of (fst (report_rate_limited ev cid cd m)) = ids_of m"
  "ids_of (fst (report_refresh_failure ev cid m)) = ids_of m"
  "ids_of (fst (report_refresh_token_invalid ev cid m)) = ids_of m"
  "ids_of (fst (force_refresh_token_for ev nw cid m)) = ids_of m"
  by (simp_all add: report_success_def report_failure_def report_quota_exhausted_def report_account_throttled_def
      report_rate_limited_def report_refresh_failure_def report_refresh_token_invalid_def
      force_refresh_token_for_def Let_def case_prod_unfold pool_simps ids_update split: option.split sum.split)

lemma ids_reload: "ids_of (fst (try_reload_credential_from_file cid m)) = ids_of m"
  by (simp add: try_reload_credential_from_file_def ids_update split: option.split)

lemma ids_token_failed: "ids_of (fst (token_failed ev all k cid e m)) = ids_of m"
proof -
  have a: "ids_of (fst (reload_if_invalid e cid m)) = ids_of m"
    by (cases e) (simp_all add: reload_if_invalid_def ids_reload)
  have b: "ids_of (fst (report_token_error ev e cid m)) = ids_of m" for m
    by (cases e) (simp_all add: report_token_error_def ids_reports)
  show ?thesis by (auto simp: token_failed_def case_prod_unfold a b split: bool.split)
qed

lemma ids_pick: "ids_of (fst (pick_credential now model m)) = ids_of m"
proof -
  have "ids_of (self_heal m) = ids_of m" by (simp add: self_heal_def heal_entry_def)
  then have "ids_of (fst (select_or_heal now model m)) = ids_of m"
    by (simp add: select_or_heal_def split: option.split)
  then show ?thesis by (simp add: pick_credential_def case_prod_unfold split: option.split)
qed

lemma ids_acquire_step: "ids_of (fst (acquire_step t all mx model k m)) = ids_of m"
proof -
  have e: "ids_of (edit_file t m) = ids_of m" by (simp add: pool_simps)
  show ?thesis
    by (simp add: acquire_step_def Let_def case_prod_unfold ids_pick e ids_try_ensure ids_token_failed
        split: option.split sum.split)
qed

lemma ids_acquire_loop: "acquire_loop fuel turns all mx model k m = Some (m', r) \<Longrightarrow> ids_of m' = ids_of m"
proof (induction fuel arbitrary: m k)
  case (Suc n)
  obtain m1 p where s: "acquire_step (turns n) all mx model k m = (m1, p)" by fastforce
  have "ids_of m1 = ids_of m" using ids_acquire_step [of "turns n" all mx model k m] by (simp add: s)
  with Suc s show ?case by (cases p) auto
qed simp

lemma request_op_ids: "request_op op \<Longrightarrow> ids_of (pool_step op m) = ids_of m"
  by (cases op) (auto simp: ids_reports acquire_context_def split: option.split dest: ids_acquire_loop)

interpretation kept_ids: pool_kept "\<lambda>m. pool_inv m \<and> ids_of m = is" request_op for "is"
  by unfold_locales (auto simp: guarded_step_def request_op_inv request_op_ids)

end
