(* ===== verification/Provider_Calls.thy ===== *)
theory Provider_Calls imports Provider_Properties begin

section \<open>What the provider promises its callers\<close>

text \<open>
  A call ends, after at most thirty attempts; a reply changes the state of no credential but the one it
  is for, and disables it only for what the reply says about it; a successful attempt was made with a
  credential of the pool that was fit to be used; the cache of clients is bounded.
\<close>

subsection \<open>Who is blamed for a reply\<close>

lemma find_other:
  assumes "i \<noteq> cid"
  shows "find_entry i (report_success ev cid m) = find_entry i m"
    and "find_entry i (fst (report_failure ev cid m)) = find_entry i m"
    and "find_entry i (fst (report_quota_exhausted ev cid m)) = find_entry i m"
    and "find_entry i (fst (report_account_throttled ev cid cd m)) = find_entry i m"
    and "find_entry i (fst (report_rate_limited ev cid cd m)) = find_entry i m"
    and "find_entry i (fst (force_refresh_token_for ev nw cid m)) = find_entry i m"
  using assms find_report_failure_other
  by (auto simp: report_success_def report_quota_exhausted_def report_account_throttled_def
      report_rate_limited_def force_refresh_token_for_def Let_def case_prod_unfold pool_simps
      split: option.split sum.split)

lemma find_other_auth: "i \<noteq> cid \<Longrightarrow> find_entry i (fst (on_auth h cid status body fx m forced)) = find_entry i m"
  using find_other(6) [of i cid "hp_outside h" "hp_network h" m]
  by (auto simp: on_auth_def count_failure_def case_prod_unfold find_other split: prod.split sum.split)

lemma find_other_limited: "i \<noteq> cid \<Longrightarrow> find_entry i (fst (on_rate_limited h p k n tr cid r m forced)) = find_entry i m"
  by (auto simp: on_rate_limited_def Let_def case_prod_unfold find_other on_rest_def)

text \<open>A rate limit or an account's throttling leaves everything but the cooldowns and the total.\<close>

definition only_cooled :: "credential_entry \<Rightarrow> credential_entry \<Rightarrow> bool" where
  "only_cooled e e' \<longleftrightarrow> e' = e\<lparr>throttled_until := throttled_until e', rate_limited_until := rate_limited_until e',
     total_failure_count := total_failure_count e'\<rparr>"

lemma cooled_throttled:
  "find_entry cid m = Some e \<Longrightarrow> \<exists>e'. find_entry cid (fst (report_account_throttled ev cid cd m)) = Some e' \<and> only_cooled e e'"
  by (simp add: report_account_throttled_def Let_def pool_simps only_cooled_def)

lemma cooled_limited:
  "find_entry cid m = Some e \<Longrightarrow> \<exists>e'. find_entry cid (fst (report_rate_limited ev cid cd m)) = Some e' \<and> only_cooled e e'"
  by (auto simp: report_rate_limited_def Let_def pool_simps only_cooled_def split: option.split)

lemma cooled_on_limited:
  "find_entry cid m = Some e \<Longrightarrow>
     \<exists>e'. find_entry cid (fst (on_rate_limited h p k n tr cid r m forced)) = Some e' \<and> only_cooled e e'"
  using cooled_limited [of cid m e]
  by (auto simp: on_rate_limited_def Let_def case_prod_unfold on_rest_def only_cooled_def)

text \<open>C24: A reply to a model request changes no entry of the pool but that of the credential it was made with.
  Only a success, a used-up quota (402), a refused credential (401, 403) and a rate limit (429) change
  anything at all: after any other reply the pool is as before, whatever the reply's body says. A rate
  limit only starts cooldowns and counts into the total; it neither disables the credential nor adds to
  its consecutive failures.\<close>

theorem reply_blames_credential:
  assumes "on_api_reply sd h p k n ep cid r m forced = (m', forced', fx, v)" and "find_entry cid m = Some e"
  shows "(\<forall>i. i \<noteq> cid \<longrightarrow> find_entry i m' = find_entry i m)
    \<and> (is_success (hr_status r) \<or> hr_status r \<in> {401, 402, 403, 429} \<or> m' = m \<and> forced' = forced)
    \<and> (hr_status r = 429 \<longrightarrow> (\<exists>e'. find_entry cid m' = Some e' \<and> only_cooled e e'))"
proof (intro conjI allI impI)
  have m': "m' = fst (on_api_reply sd h p k n ep cid r m forced)" by (simp add: assms(1))
  show "find_entry i m' = find_entry i m" if "i \<noteq> cid" for i
    by (simp add: m' on_api_reply_def Let_def on_quota_def on_account_throttled_def on_rest_def case_prod_unfold
        find_other [OF that] find_other_auth [OF that] find_other_limited [OF that])
  show "is_success (hr_status r) \<or> hr_status r \<in> {401, 402, 403, 429} \<or> m' = m \<and> forced' = forced"
    using assms(1) by (auto simp: on_api_reply_def Let_def on_rest_def split: if_splits)
  show "\<exists>e'. find_entry cid m' = Some e' \<and> only_cooled e e'" if "hr_status r = 429"
    using cooled_throttled [OF assms(2)]
    by (simp add: m' that on_api_reply_def Let_def is_success_def on_account_throttled_def case_prod_unfold
        cooled_on_limited [OF assms(2)] assms(2)) (simp add: only_cooled_def)
qed

text \<open>A rate limit at the last attempt is traced twice, the second time as a bad request.\<close>

lemma last_rate_limit_traced_twice:
  assumes "hr_status r = 429" and "k + 1 = n"
  shows "\<exists>m' v. on_rate_limited h p k n tr cid r m forced = (m', forced, tr Transient @ tr BadRequest, v)"
  using assms
  by (auto simp: on_rate_limited_def Let_def case_prod_unfold on_rest_def is_server_error_def is_client_error_def)

subsection \<open>The credential of a successful attempt\<close>

lemma on_rest_no_success: "snd (snd (snd (on_rest h p k n tr status body m forced))) \<noteq> Return (Inr x)"
  by (simp add: on_rest_def)

lemma failed_reply_no_success:
  assumes "\<not> is_success (hr_status r)"
  shows "snd (snd (snd (on_api_reply sd h p k n ep cid r m forced))) \<noteq> Return (Inr x)"
  using assms on_rest_no_success
  by (auto simp: on_api_reply_def Let_def on_quota_def on_auth_def count_failure_def on_account_throttled_def
      on_rate_limited_def on_rest_no_success case_prod_unfold split: prod.splits sum.splits)

lemma success_reply:
  assumes "on_api_reply sd h p k n ep cid r m forced = (m', forced', fx, Return (Inr (r', cid')))"
  shows "is_success (hr_status r) \<and> r' = r \<and> cid' = cid \<and> m' = report_success (hp_outside h) cid m"
proof -
  have "is_success (hr_status r)"
    using failed_reply_no_success [of r sd h p k n ep cid m forced "(r', cid')"] assms by auto
  then show ?thesis using assms by (auto simp: on_api_reply_def Let_def)
qed

lemma bearer_header:
  assumes "api_request sr h ek rc body = Some rq"
  shows "(''Authorization'', ''Bearer '' @ rc_token rc) \<in> set (hq_headers rq)"
  using assms by (auto simp: api_request_def decorate_api_def common_headers_def)

lemma client_for_proxy:
  assumes "client_for h c pv = (pv', Some client)"
  shows "cache_get (pv_cache pv) (effective_proxy (pv_global_proxy pv) c) = Some client
    \<or> hp_build h (effective_proxy (pv_global_proxy pv) c) = Some client"
  using assms by (auto simp: client_for_def Let_def split: option.splits)

lemma pv_fields [simp]:
  "pv_manager (pv\<lparr>pv_ids := i\<rparr>) = pv_manager pv" "pv_cache (pv\<lparr>pv_ids := i\<rparr>) = pv_cache pv"
  by simp_all

lemma deliver_success:
  assumes "deliver_api sr h p k n ek ctx rq pv forced = (pv', forced', fx, Return (Inr (r, cid)))"
  shows "\<exists>client. hp_send h client rq = Responded r \<and> is_success (hr_status r) \<and> cid = cx_id ctx
    \<and> pv_manager pv' = report_success (hp_outside h) cid (interleave (hp_during h) (pv_manager pv))"
proof -
  obtain pv1 x where 1: "client_for h (cx_credentials ctx) pv = (pv1, x)" by fastforce
  obtain pv2 y where 2: "client_for h (cx_credentials ctx) pv1 = (pv2, y)" by fastforce
  have m: "pv_manager pv2 = pv_manager pv"
    using kept_inv.manager_client_for [of h "cx_credentials ctx" pv] kept_inv.manager_client_for [of h "cx_credentials ctx" pv1]
    by (simp add: 1 2)
  obtain client r' where c: "y = Some client" "hp_send h client rq = Responded r'"
    and a: "set_manager pv2 (on_api_reply (sr_serde sr) h p k n (endpoint_name ek) (cx_id ctx) r'
      (pv_manager (others_during h pv2)) forced) = (pv', forced', fx, Return (Inr (r, cid)))"
    using assms by (auto simp: deliver_api_def 1 2 split: option.splits if_splits upstream.splits)
  obtain m' f' fx' v where o: "on_api_reply (sr_serde sr) h p k n (endpoint_name ek) (cx_id ctx) r'
      (pv_manager (others_during h pv2)) forced = (m', f', fx', v)" by (metis prod_cases4)
  have "v = Return (Inr (r, cid))" "pv_manager pv' = m'" using a by (auto simp: o set_manager_def)
  with success_reply [OF o [unfolded this(1)]] c m show ?thesis by (auto simp: others_during_def)
qed

text \<open>C8: A successful attempt was made with a credential of the pool as it was right after the acquisition:
  stored there as it was used, enabled and out of its cooldowns; the request carried this credential's
  own token, an API key or not expired; the reply handed on is the upstream's successful reply to this
  request; and the success has been counted for this credential, in the pool as the other requests and
  the administrator have left it meanwhile.\<close>

theorem success_used_sound_credential:
  assumes "pool_inv (pv_manager pv)"
    and "api_attempt sr model body h p k n pv forced = Some (pv', forced', fx, Return (Inr (r, cid)))"
  shows "\<exists>m ctx i e rq client.
      acquire_context (hp_fuel h) (hp_turns h) model (interleave (hp_before h) (pv_manager pv)) = Some (m, Inr ctx)
    \<and> cid = cx_id ctx \<and> find_entry cid m = Some e \<and> ce_credentials e = cx_credentials ctx
    \<and> is_available (ev_now (tn_outside (hp_turns h i))) e
    \<and> token_of (ce_credentials e) = Some (cx_token ctx)
    \<and> (is_api_key_credential (ce_credentials e) \<or> \<not> is_token_expired (tn_network (hp_turns h i)) (ce_credentials e))
    \<and> (''Authorization'', ''Bearer '' @ cx_token ctx) \<in> set (hq_headers rq)
    \<and> hp_send h client rq = Responded r \<and> is_success (hr_status r)
    \<and> pv_manager pv' = report_success (hp_outside h) cid (interleave (hp_during h) m)"
proof -
  obtain m x where a: "acquire_context (hp_fuel h) (hp_turns h) model (interleave (hp_before h) (pv_manager pv)) = Some (m, x)"
    using assms(2) by (auto simp: api_attempt_def attempt_with_def split: option.splits)
  obtain ctx where x: "x = Inr ctx" and s: "api_send sr h p k n ctx body (pv\<lparr>pv_manager := m\<rparr>) forced
      = (pv', forced', fx, Return (Inr (r, cid)))"
    using assms(2) by (cases x) (auto simp: api_attempt_def attempt_with_def a set_manager_def no_context_def)
  obtain pv1 rc where c: "context_for sr h ctx (pv\<lparr>pv_manager := m\<rparr>) = (pv1, rc)" by fastforce
  have rc: "rc_token rc = cx_token ctx" "pv_manager pv1 = m"
    using c by (auto simp: context_for_def Let_def split: prod.splits)
  obtain ek rq where rq: "api_request sr h ek rc body = Some rq"
    and d: "deliver_api sr h p k n ek ctx rq pv1 forced = (pv', forced', fx, Return (Inr (r, cid)))"
    using s by (auto simp: api_send_def c set_manager_def split: sum.splits option.splits)
  obtain client where d': "hp_send h client rq = Responded r" "is_success (hr_status r)" "cid = cx_id ctx"
    "pv_manager pv' = report_success (hp_outside h) cid (interleave (hp_during h) m)"
    using deliver_success [OF d] rc(2) by auto
  have inv: "pool_inv (interleave (hp_before h) (pv_manager pv))"
    using kept_inv.kept_interleave [OF assms(1)] by (simp add: list_all_iff)
  obtain i where i: "sound_context (hp_turns h i) m ctx"
    using acquire_loop_sound [OF inv] a x unfolding acquire_context_def by blast
  then obtain e where e: "find_entry cid m = Some e" "ce_credentials e = cx_credentials ctx"
    "is_available (ev_now (tn_outside (hp_turns h i))) e"
    using d'(3) by (auto simp: sound_context_def)
  have t: "token_of (ce_credentials e) = Some (cx_token ctx)"
    "is_api_key_credential (ce_credentials e) \<or> \<not> is_token_expired (tn_network (hp_turns h i)) (ce_credentials e)"
    using i by (simp_all add: sound_context_def token_valid_def e(2))
  show ?thesis
    by (intro exI conjI) (rule a [unfolded x] d' e t bearer_header [OF rq, unfolded rc])+
qed

subsection \<open>A call ends\<close>

definition pauses :: "effect list \<Rightarrow> nat" where
  "pauses fx = length (filter (\<lambda>x. case x of Slept _ \<Rightarrow> True | Traced _ \<Rightarrow> False) fx)"

definition may_pause :: "nat \<Rightarrow> nat \<Rightarrow> nat" where
  "may_pause k n = (if k + 1 < n then 1 else 0)"

lemma pauses_simps [simp]:
  "pauses [] = 0" "pauses (trace k cid ep st oc) = 0" "pauses (no_trace oc) = 0" "pauses [Slept d] = 1"
  "pauses (xs @ ys) = pauses xs + pauses ys"
  "pauses (sleep_unless_last k n d) = may_pause k n"
  by (simp_all add: pauses_def trace_def no_trace_def sleep_unless_last_def may_pause_def)

definition pauses_of :: "handled \<Rightarrow> nat" where
  "pauses_of x = pauses (fst (snd (snd x)))"

lemma pauses_on_rest:
  "(\<And>oc. pauses (tr oc) = 0) \<Longrightarrow> pauses_of (on_rest h p k n tr status body m forced) \<le> may_pause k n"
  by (simp add: on_rest_def pauses_of_def)

lemma pauses_on_limited:
  "(\<And>oc. pauses (tr oc) = 0) \<Longrightarrow> pauses_of (on_rate_limited h p k n tr cid r m forced) \<le> may_pause k n"
  using pauses_on_rest [of tr h p k n "hr_status r" "hr_body r" _ forced]
  by (auto simp: on_rate_limited_def Let_def case_prod_unfold pauses_of_def may_pause_def)

lemma pauses_on_auth: "pauses fx = 0 \<Longrightarrow> pauses_of (on_auth h cid status body fx m forced) = 0"
  by (simp add: on_auth_def count_failure_def case_prod_unfold pauses_of_def split: sum.split)

lemma pauses_on_quota: "pauses_of (on_quota h cid status body fx m forced) = pauses fx"
  by (simp add: on_quota_def pauses_of_def case_prod_unfold)

lemma pauses_on_throttled: "pauses_of (on_account_throttled h cid status body fx m forced) = pauses fx"
  by (simp add: on_account_throttled_def Let_def pauses_of_def case_prod_unfold)

lemma pauses_flat: "pauses_of (m, forced, fx, v) = pauses fx"
  by (simp add: pauses_of_def)

lemma pauses_reply: "pauses_of (on_api_reply sd h p k n ep cid r m forced) \<le> may_pause k n"
  by (simp add: on_api_reply_def Let_def pauses_on_limited pauses_on_rest pauses_on_auth pauses_on_quota
      pauses_on_throttled pauses_flat)

lemma pauses_set_manager: "set_manager pv x = (pv', forced', fx, v) \<Longrightarrow> pauses fx = pauses_of x"
  by (auto simp: set_manager_def pauses_of_def split: prod.splits)

lemma pauses_deliver:
  "deliver_api sr h p k n ek ctx rq pv forced = (pv', forced', fx, v) \<Longrightarrow> pauses fx \<le> may_pause k n"
  by (auto simp: deliver_api_def pauses_reply split: prod.splits option.splits if_splits upstream.splits dest!: pauses_set_manager)

lemma pauses_attempt:
  assumes "api_attempt sr model body h p k n pv forced = Some (pv', forced', fx, v)"
  shows "pauses fx \<le> may_pause k n"
proof -
  have "pauses fx \<le> may_pause k n"
    if "api_send sr h p k n ctx body pv forced = (pv', forced', fx, v)" for ctx pv
    using that by (auto simp: api_send_def set_manager_def split: prod.splits option.splits sum.splits
        dest: pauses_deliver)
  then show ?thesis using assms
    by (auto simp: api_attempt_def attempt_with_def no_context_def pauses_of_def dest!: pauses_set_manager
        split: option.splits prod.splits sum.splits if_splits)
qed

text \<open>An attempt returns when its acquisition does.\<close>

lemma attempt_returns:
  assumes "pool_inv (pv_manager pv)" and "others_are request_op h" and "\<And>i. tn_edit (hp_turns h i) = None"
    and "max (3 * total_count (pv_manager pv)) 1 + total_count (pv_manager pv) < hp_fuel h"
  shows "\<exists>pv' forced' fx v. api_attempt sr model body h p k n pv forced = Some (pv', forced', fx, v)
    \<and> pool_inv (pv_manager pv') \<and> total_count (pv_manager pv') = total_count (pv_manager pv)"
proof -
  let ?m = "interleave (hp_before h) (pv_manager pv)"
  let ?P = "\<lambda>m. pool_inv m \<and> ids_of m = ids_of (pv_manager pv)"
  have m: "?P ?m" using kept_ids.kept_interleave [of "pv_manager pv"] assms(1,2) by (simp add: others_are_def)
  have count: "total_count m = total_count (pv_manager pv)" if "ids_of m = ids_of (pv_manager pv)" for m
    using that map_eq_imp_length_eq by (fastforce simp: total_count_def)
  have e: "total_count ?m = total_count (pv_manager pv)" using count m by blast
  have "max_attempts_of ?m + length (mg_entries ?m) < hp_fuel h"
    using assms(4) e by (simp add: max_attempts_of_def MAX_FAILURES_PER_CREDENTIAL_def mult.commute)
      (simp add: total_count_def)
  then have "max_attempts_of ?m - 0 + stale ?m < hp_fuel h"
    unfolding stale_def using length_filter_le by (metis (no_types, lifting) add_le_cancel_left diff_zero le_less_trans length_map)
  then have "\<exists>x. acquire_context (hp_fuel h) (hp_turns h) model ?m = Some x"
    unfolding acquire_context_def by (rule acquire_loop_returns [OF assms(3) conjunct1 [OF m]])
  then obtain x where "acquire_context (hp_fuel h) (hp_turns h) model ?m = Some x" by blast
  then have "\<exists>y. api_attempt sr model body h p k n pv forced = Some y"
    by (cases x; cases "snd x") (simp_all add: api_attempt_def attempt_with_def del: split_paired_Ex)
  then obtain pv' forced' fx v where a: "api_attempt sr model body h p k n pv forced = Some (pv', forced', fx, v)"
    by (metis prod_cases4)
  have "?P (pv_manager pv')"
    by (rule kept_ids.kept_attempt [OF assms(2) _ _ a [unfolded api_attempt_def]])
      (use assms(1) in simp, rule kept_ids.kept_api_send [OF assms(2)])
  with a count show ?thesis by blast
qed

lemma attempts_return:
  assumes "\<And>k. others_are request_op (hops k)" and "\<And>k i. tn_edit (hp_turns (hops k) i) = None"
    and "\<And>k. max (3 * c) 1 + c < hp_fuel (hops k)"
  shows "pool_inv (pv_manager pv) \<Longrightarrow> total_count (pv_manager pv) = c \<Longrightarrow>
    \<exists>pv' fx r. attempts (\<lambda>k. api_attempt sr model body (hops k) p k n) left k e pv forced = Some (pv', fx, r)
      \<and> (k + left = n \<longrightarrow> pauses fx \<le> left - 1)"
proof (induction left arbitrary: k e pv forced)
  case (Suc left)
  obtain pv1 forced1 fx1 v where a: "api_attempt sr model body (hops k) p k n pv forced = Some (pv1, forced1, fx1, v)"
    "pool_inv (pv_manager pv1)" "total_count (pv_manager pv1) = c"
    using attempt_returns [OF Suc.prems(1) assms(1,2)] assms(3) Suc.prems(2) by blast
  note pz = pauses_attempt [OF a(1)]
  show ?case
  proof (cases v)
    case (Return r)
    then show ?thesis using a(1) pz by (auto simp: may_pause_def split: if_splits)
  next
    case (Retry e')
    obtain pv2 fx2 r where "attempts (\<lambda>k. api_attempt sr model body (hops k) p k n) left (Suc k) (or_else e' e) pv1 forced1
        = Some (pv2, fx2, r)" "Suc k + left = n \<longrightarrow> pauses fx2 \<le> left - 1"
      using Suc.IH [OF a(2,3)] by blast
    then show ?thesis using a(1) Retry pz by (cases left) (auto simp: may_pause_def split: if_splits)
  qed
qed simp


subsection \<open>The cache of clients\<close>

lemma evict_oldest_parts:
  "evict_oldest cap ks m = (ks', m') \<Longrightarrow>
     \<exists>ds. ks = ds @ ks' \<and> m' = m |` (- set ds) \<and> (length ks' < cap \<or> ks' = [])"
proof (induction cap ks m arbitrary: ks' m' rule: evict_oldest.induct)
  case (1 cap m)
  then show ?case by (intro exI [of _ "[]"]) simp
next
  case (2 cap k ks m)
  show ?case
  proof (cases "cap \<le> length (k # ks)")
    case True
    then obtain ds where ds: "ks = ds @ ks'" "m' = (m(k := None)) |` (- set ds)" "length ks' < cap \<or> ks' = []"
      using 2 by fastforce
    have "m' = m |` (- set (k # ds))" using ds(2) by (auto simp: restrict_map_def fun_eq_iff)
    then show ?thesis using ds by (intro exI [of _ "k # ds"]) auto
  next
    case False
    then show ?thesis using 2 by (intro exI [of _ "[]"]) auto
  qed
qed

definition cache_wf :: "proxy_config option \<Rightarrow> nat \<Rightarrow> 'c client_cache \<Rightarrow> bool" where
  "cache_wf g cap c \<longleftrightarrow> cc_protected c = g \<and> cc_cap c = cap \<and> distinct (cc_order c) \<and> g \<notin> set (cc_order c)
     \<and> dom (cc_map c) = insert g (set (cc_order c)) \<and> length (cc_order c) \<le> max cap 1"

lemma cache_wf_insert: "cache_wf g cap c \<Longrightarrow> cache_wf g cap (cache_insert k client c) \<and> cache_get (cache_insert k client c) k = Some client"
proof (cases "k = cc_protected c \<or> cc_map c k \<noteq> None")
  case True
  assume "cache_wf g cap c"
  then show ?thesis using True by (auto simp: cache_wf_def cache_insert_def cache_get_def)
next
  case False
  assume w: "cache_wf g cap c"
  obtain ks' m' where e: "evict_oldest (cc_cap c) (cc_order c) (cc_map c) = (ks', m')" by fastforce
  then obtain ds where ds: "cc_order c = ds @ ks'" "m' = cc_map c |` (- set ds)" "length ks' < cap \<or> ks' = []"
    using evict_oldest_parts w by (fastforce simp: cache_wf_def)
  have "k \<notin> dom (cc_map c)" using False by auto
  then have k: "k \<notin> set ks'" "k \<noteq> g" using w ds(1) by (auto simp: cache_wf_def)
  have m': "dom m' = insert g (set ks')" using w ds(1,2) by (auto simp: cache_wf_def)
  have "length (ks' @ [k]) \<le> max cap 1" using ds(3) by auto
  moreover have "distinct (ks' @ [k])" using w ds(1) k(1) by (simp add: cache_wf_def)
  moreover have "cache_insert k client c = c\<lparr>cc_order := ks' @ [k], cc_map := m'(k \<mapsto> client)\<rparr>"
    using False by (simp add: cache_insert_def e)
  ultimately show ?thesis using w ds(1) k m' by (simp add: cache_wf_def cache_get_def insert_commute)
qed

text \<open>However many clients are built, for whatever proxies: the cache holds at most the sixty-four of its
  capacity besides the one for the global proxy, which is never evicted; the client just inserted can
  be found again.\<close>

theorem client_cache_bounded:
  "let c = fold (\<lambda>(k, client). cache_insert k client) inserted (cache_new g initial CLIENT_CACHE_CAP)
   in card (dom (cc_map c)) \<le> 65 \<and> cache_get c g \<noteq> None
      \<and> cache_get (cache_insert k client c) k = Some client"
proof -
  have i: "cache_wf g CLIENT_CACHE_CAP (cache_new g initial CLIENT_CACHE_CAP)"
    by (simp add: cache_wf_def cache_new_def)
  have "cache_wf g CLIENT_CACHE_CAP (fold (\<lambda>(k, client). cache_insert k client) inserted c)"
    if "cache_wf g CLIENT_CACHE_CAP c" for c
    using that by (induction inserted arbitrary: c) (auto simp: cache_wf_insert)
  from this [OF i] obtain c where c: "fold (\<lambda>(k, client). cache_insert k client) inserted
      (cache_new g initial CLIENT_CACHE_CAP) = c" "cache_wf g CLIENT_CACHE_CAP c" by blast
  have d: "dom (cc_map c) = insert g (set (cc_order c))" using c(2) by (simp add: cache_wf_def)
  have "card (dom (cc_map c)) \<le> Suc (card (set (cc_order c)))" unfolding d by (simp add: card_insert_if)
  also have "card (set (cc_order c)) \<le> length (cc_order c)" by (rule card_length)
  also have "length (cc_order c) \<le> 64" using c(2) by (simp add: cache_wf_def CLIENT_CACHE_CAP_def)
  finally have "card (dom (cc_map c)) \<le> 65" by simp
  moreover have "cache_get c g \<noteq> None" using d by (auto simp: cache_get_def)
  ultimately show ?thesis using cache_wf_insert [OF c(2)] by (simp add: c(1) Let_def)
qed

subsection \<open>A sample call\<close>

definition sample_surroundings :: surroundings where
  "sample_surroundings = \<lparr>sr_sha256_hex = id, sr_serde = \<lparr>from_str = (\<lambda>_. Inr (JObj [])), to_str = (\<lambda>_. [])\<rparr>,
     sr_latest_version = None, sr_client = \<lparr>cl_system_version = [], cl_node_version = [], cl_kiro_version = []\<rparr>\<rparr>"

definition sample_reply :: "nat \<Rightarrow> http_response" where
  "sample_reply status = \<lparr>hr_status = status, hr_retry_after = None, hr_body = []\<rparr>"

definition sample_hop :: "nat \<Rightarrow> unit hop" where
  "sample_hop status = \<lparr>hp_before = [], hp_fuel = (if status = 200 then 1 else 9), hp_turns = (\<lambda>_. sample_turn),
     hp_seed = [], hp_invocation = [], hp_build = (\<lambda>_. Some ()), hp_valid = (\<lambda>_. True),
     hp_send = (\<lambda>_ _. Responded (sample_reply status)), hp_during = [], hp_date = (\<lambda>_. None),
     hp_outside = sample_outside, hp_network = sample_network, hp_jitter = 0\<rparr>"

definition sample_provider :: "unit provider" where
  "sample_provider = \<lparr>pv_manager = sample_pool, pv_global_proxy = None, pv_cache = cache_new None () CLIENT_CACHE_CAP,
     pv_endpoints = [''ide'' \<mapsto> Ide], pv_default_endpoint = ''ide'', pv_ids = (\<lambda>_. None)\<rparr>"

lemma sample_manager [simp]: "pv_manager sample_provider = sample_pool"
  by (simp add: sample_provider_def)

lemma sample_same: "sample_provider\<lparr>pv_manager := sample_pool\<rparr> = sample_provider"
  by (simp add: sample_provider_def)

lemma sample_send:
  "\<exists>pv' fx. api_send sample_surroundings (sample_hop 200) p k n
       \<lparr>cx_id = 2, cx_credentials = sample_key 2 3, cx_token = ''key''\<rparr> [] sample_provider {}
     = (pv', {}, fx, Return (Inr (sample_reply 200, 2)))"
proof -
  obtain mid ids where g: "generate_from_credentials id [] (cf_machine_id (mg_config sample_pool)) (sample_key 2 3)
      (\<lambda>_. None) = (mid, ids)" by fastforce
  have k: "endpoint (sample_key 2 3) = None" "proxy_url (sample_key 2 3) = None"
    by (simp_all add: sample_key_def credentials_default_def)
  show ?thesis
    by (simp add: api_send_def context_for_def Let_def sample_provider_def sample_surroundings_def sample_hop_def g
        endpoint_for_def k api_request_def transform_api_body_def inject_ide_thinking_fields_def
        inject_profile_arn_def deliver_api_def client_for_def effective_proxy_def cache_new_def cache_get_def
        on_api_reply_def sample_reply_def is_success_def others_during_def set_manager_def split: option.split)
qed

lemma sample_attempt:
  "\<exists>pv' fx. api_attempt sample_surroundings None [] (sample_hop 200) p k n sample_provider {}
     = Some (pv', {}, fx, Return (Inr (sample_reply 200, 2)))"
proof -
  have "acquire_context (hp_fuel (sample_hop 200)) (hp_turns (sample_hop 200)) None
      (interleave (hp_before (sample_hop 200)) (pv_manager sample_provider))
    = Some (sample_pool, Inr \<lparr>cx_id = 2, cx_credentials = sample_key 2 3, cx_token = ''key''\<rparr>)"
    using sample_acquire by (simp add: sample_hop_def interleave_def)
  then show ?thesis using sample_send [of p k n] by (simp add: api_attempt_def attempt_with_def sample_same)
qed

theorem success_used_sound_credential_witness:
  "\<exists>pv' fx m e. api_attempt sample_surroundings None [] (sample_hop 200) (preset Fast) 0 9 sample_provider {}
      = Some (pv', {}, fx, Return (Inr (sample_reply 200, 2)))
    \<and> find_entry 2 m = Some e \<and> pv_manager pv' = report_success sample_outside 2 m"
proof -
  from sample_attempt obtain pv' fx where a: "api_attempt sample_surroundings None [] (sample_hop 200) (preset Fast) 0 9
      sample_provider {} = Some (pv', {}, fx, Return (Inr (sample_reply 200, 2)))" by blast
  have i: "pool_inv (pv_manager sample_provider)" by (simp add: sample_pool_inv)
  from success_used_sound_credential [OF i a] obtain m e where "find_entry 2 m = Some e"
    "pv_manager pv' = report_success (hp_outside (sample_hop 200)) 2 (interleave (hp_during (sample_hop 200)) m)"
    by blast
  with a show ?thesis by (auto simp: sample_hop_def interleave_def)
qed

theorem reply_blames_credential_witness:
  "find_entry 2 sample_pool = Some (new_entry 2 (sample_key 2 3) False None) \<and>
   (case on_api_reply (sr_serde sample_surroundings) (sample_hop 500) (preset Fast) 0 9 ''ide'' 2 (sample_reply 500)
       sample_pool {} of (m', _, _, _) \<Rightarrow> m' = sample_pool)"
proof -
  have f: "find_entry 2 sample_pool = Some (new_entry 2 (sample_key 2 3) False None)"
    by (simp add: sample_pool_def initial_manager_def find_entry_def new_entry_def)
  obtain m' forced' fx v where o: "on_api_reply (sr_serde sample_surroundings) (sample_hop 500) (preset Fast) 0 9 ''ide''
      2 (sample_reply 500) sample_pool {} = (m', forced', fx, v)" by (metis prod_cases4)
  from reply_blames_credential [OF o f] have "m' = sample_pool" by (simp add: sample_reply_def is_success_def)
  with f o show ?thesis by simp
qed

lemma sample_hop_quiet: "others_are allowed (sample_hop s)" "tn_edit (hp_turns (sample_hop s) i) = None"
  by (simp_all add: others_are_def sample_hop_def sample_turn_def)


end
