(* ===== verification/Image_Resize.thy ===== *)
theory Image_Resize imports Numbers begin

section \<open>Inbound images (src/src/image_resize.rs)\<close>

text \<open>
  An image of a request is passed on unchanged when it is small, scaled down and encoded again when it is
  not, and refused when it breaks a hard limit; its price in tokens is estimated from its size. The
  base64 and image crates are the parameters of \<open>codecs\<close>, with an image as whatever the decoder
  returns. Sizes are natural numbers: every bound of the code is far below the width of its type except
  where it saturates.
\<close>

datatype image_format = Png | Jpeg | Gif | WebP | Other_Format

record 'i codecs =
  cd_base64_decode :: "string \<Rightarrow> string + byte list"   \<comment> \<open>\<open>Inl\<close>: the error message\<close>
  cd_base64_encode :: "byte list \<Rightarrow> string"
  cd_guess_format :: "byte list \<Rightarrow> image_format option"
  cd_probe :: "byte list \<Rightarrow> string + image_format option"   \<comment> \<open>\<open>with_guessed_format\<close>\<close>
  cd_dimensions :: "image_format option \<Rightarrow> byte list \<Rightarrow> (nat \<times> nat) option"
  cd_decode :: "image_format option \<Rightarrow> byte list \<Rightarrow> string + 'i"
  cd_size :: "'i \<Rightarrow> nat \<times> nat"
  cd_resize :: "nat \<Rightarrow> nat \<Rightarrow> 'i \<Rightarrow> 'i"
  cd_encode_jpeg :: "nat \<Rightarrow> 'i \<Rightarrow> string + byte list"   \<comment> \<open>\<open>to_rgb8\<close>, then the encoder at a quality\<close>

datatype resize_error =
    LimitExceeded string
  | Base64 string
  | Decode string
  | Encode string

subsection \<open>Configuration\<close>

record resize_config =
  rc_enabled :: bool
  rc_max_long_side :: nat
  rc_max_bytes :: nat
  rc_jpeg_quality :: nat
  rc_max_base64_bytes :: nat
  rc_max_decoded_bytes :: nat
  rc_max_pixels :: nat

definition env_uint :: "(string \<Rightarrow> string option) \<Rightarrow> nat \<Rightarrow> string \<Rightarrow> nat \<Rightarrow> nat" where
  "env_uint env w name d =
    (case Option.bind (env name) (parse_uint w) of Some n \<Rightarrow> n | None \<Rightarrow> d)"

definition resize_config_from_env :: "(string \<Rightarrow> string option) \<Rightarrow> resize_config" where
  "resize_config_from_env env =
    \<lparr>rc_enabled =
       map ascii_lower (case env ''KIRO_RS_IMAGE_RESIZE'' of Some v \<Rightarrow> v | None \<Rightarrow> ''1'')
         \<notin> set [''0'', ''false'', ''no'', ''off''],
     rc_max_long_side = env_uint env 32 ''KIRO_RS_IMAGE_MAX_LONG_SIDE'' 1568,
     rc_max_bytes = env_uint env 64 ''KIRO_RS_IMAGE_MAX_BYTES'' 400000,
     rc_jpeg_quality = env_uint env 8 ''KIRO_RS_IMAGE_JPEG_QUALITY'' 85,
     rc_max_base64_bytes = env_uint env 64 ''KIRO_RS_IMAGE_MAX_BASE64_BYTES'' (8 * 1024 * 1024),
     rc_max_decoded_bytes = env_uint env 64 ''KIRO_RS_IMAGE_MAX_DECODED_BYTES'' (6 * 1024 * 1024),
     rc_max_pixels = env_uint env 64 ''KIRO_RS_IMAGE_MAX_PIXELS'' 40000000\<rparr>"

record request_image_limits =
  il_max_count :: nat
  il_max_total_base64_bytes :: nat

definition image_limits_from_env :: "(string \<Rightarrow> string option) \<Rightarrow> request_image_limits" where
  "image_limits_from_env env =
    \<lparr>il_max_count = env_uint env 64 ''KIRO_RS_IMAGE_MAX_COUNT'' 32,
     il_max_total_base64_bytes = env_uint env 64 ''KIRO_RS_IMAGE_MAX_TOTAL_BASE64_BYTES'' (24 * 1024 * 1024)\<rparr>"

definition validate_image_limits :: "request_image_limits \<Rightarrow> nat \<Rightarrow> nat \<Rightarrow> resize_error + unit" where
  "validate_image_limits l n total_base64_bytes =
    (if il_max_count l < n then
       Inl (LimitExceeded (''too many inline images: '' @ nat_to_string n @ '' > '' @ nat_to_string (il_max_count l)))
     else if il_max_total_base64_bytes l < total_base64_bytes then
       Inl (LimitExceeded (''inline image payload too large: '' @ nat_to_string total_base64_bytes @ '' > ''
         @ nat_to_string (il_max_total_base64_bytes l) @ '' base64 bytes''))
     else Inr ())"

subsection \<open>Hard limits\<close>

definition saturating_mul :: "nat \<Rightarrow> nat \<Rightarrow> nat" where
  "saturating_mul a b = min (a * b) (2 ^ 64 - 1)"

definition estimated_decoded_len :: "string \<Rightarrow> nat" where
  "estimated_decoded_len data =
     saturating_mul (length (rev (dropWhile (\<lambda>c. c = CHR ''='') (rev data)))) 3 div 4"

definition decoded_too_large :: "resize_config \<Rightarrow> nat \<Rightarrow> resize_error" where
  "decoded_too_large cfg n = LimitExceeded (''decoded image too large: '' @ nat_to_string n @ '' > ''
     @ nat_to_string (rc_max_decoded_bytes cfg) @ '' bytes'')"

definition validate_base64_limits :: "resize_config \<Rightarrow> string \<Rightarrow> resize_error + unit" where
  "validate_base64_limits cfg data =
    (if rc_max_base64_bytes cfg < length data then
       Inl (LimitExceeded (''image base64 too large: '' @ nat_to_string (length data) @ '' > ''
         @ nat_to_string (rc_max_base64_bytes cfg) @ '' bytes''))
     else if rc_max_decoded_bytes cfg < estimated_decoded_len data then
       Inl (decoded_too_large cfg (estimated_decoded_len data))
     else Inr ())"

definition validate_pixel_count :: "resize_config \<Rightarrow> nat \<Rightarrow> nat \<Rightarrow> resize_error + unit" where
  "validate_pixel_count cfg w h =
    (let pixels = saturating_mul w h
     in if rc_max_pixels cfg < pixels then
          Inl (LimitExceeded (''image pixels too large: '' @ nat_to_string pixels @ '' > ''
            @ nat_to_string (rc_max_pixels cfg)))
        else Inr ())"

subsection \<open>Dimensions\<close>

definition guess_format :: "string \<Rightarrow> image_format option" where
  "guess_format s =
    (if s = ''png'' then Some Png
     else if s = ''jpeg'' \<or> s = ''jpg'' then Some Jpeg
     else if s = ''webp'' then Some WebP
     else if s = ''gif'' then Some Gif
     else None)"

text \<open>The reader with its format: the declared one, otherwise the one guessed from the bytes.\<close>

definition reader_format :: "'i codecs \<Rightarrow> string \<Rightarrow> byte list \<Rightarrow> string + image_format option" where
  "reader_format cd fmt raw =
    (case guess_format fmt of Some f \<Rightarrow> Inr (Some f) | None \<Rightarrow> cd_probe cd raw)"

definition read_dimensions_from_raw ::
  "'i codecs \<Rightarrow> resize_config \<Rightarrow> string \<Rightarrow> byte list \<Rightarrow> resize_error + (nat \<times> nat) option" where
  "read_dimensions_from_raw cd cfg fmt raw =
    (case reader_format cd fmt raw of
       Inl _ \<Rightarrow> Inr None
     | Inr f \<Rightarrow>
         (case cd_dimensions cd f raw of
            None \<Rightarrow> Inr None
          | Some (w, h) \<Rightarrow>
              (case validate_pixel_count cfg w h of Inl e \<Rightarrow> Inl e | Inr _ \<Rightarrow> Inr (Some (w, h)))))"

definition decode_checked :: "'i codecs \<Rightarrow> resize_config \<Rightarrow> string \<Rightarrow> resize_error + byte list" where
  "decode_checked cd cfg data =
    (case validate_base64_limits cfg data of
       Inl e \<Rightarrow> Inl e
     | Inr _ \<Rightarrow>
         (case cd_base64_decode cd data of
            Inl e \<Rightarrow> Inl (Base64 e)
          | Inr raw \<Rightarrow> if rc_max_decoded_bytes cfg < length raw then Inl (decoded_too_large cfg (length raw)) else Inr raw))"

definition peek_dimensions_checked ::
  "'i codecs \<Rightarrow> resize_config \<Rightarrow> string \<Rightarrow> string \<Rightarrow> resize_error + (nat \<times> nat) option" where
  "peek_dimensions_checked cd cfg fmt data =
    (case decode_checked cd cfg data of Inl e \<Rightarrow> Inl e | Inr raw \<Rightarrow> read_dimensions_from_raw cd cfg fmt raw)"

definition validate_passthrough_safe :: "'i codecs \<Rightarrow> resize_config \<Rightarrow> string \<Rightarrow> string \<Rightarrow> resize_error + unit" where
  "validate_passthrough_safe cd cfg fmt data =
    (let unknown = (if length data \<le> rc_max_bytes cfg then Inr ()
                    else Inl (LimitExceeded ''oversized image payload has unknown or invalid dimensions''))
     in case peek_dimensions_checked cd cfg fmt data of
          Inr (Some _) \<Rightarrow> Inr ()
        | Inr None \<Rightarrow> unknown
        | Inl (Base64 _) \<Rightarrow> unknown
        | Inl (Decode _) \<Rightarrow> unknown
        | Inl e \<Rightarrow> Inl e)"

subsection \<open>Passing an image on\<close>

record processed_image =
  pi_format :: string
  pi_data_base64 :: string
  pi_was_resized :: bool
  pi_original_bytes :: nat
  pi_final_bytes :: nat

fun format_name :: "image_format \<Rightarrow> string option" where
  "format_name Png = Some ''png''"
| "format_name Jpeg = Some ''jpeg''"
| "format_name Gif = Some ''gif''"
| "format_name WebP = Some ''webp''"
| "format_name Other_Format = None"

definition detect_format_from_bytes :: "'i codecs \<Rightarrow> string \<Rightarrow> string option" where
  "detect_format_from_bytes cd data =
    (case cd_base64_decode cd (take_chars 24 data) of
       Inl _ \<Rightarrow> None
     | Inr raw \<Rightarrow> Option.bind (cd_guess_format cd raw) format_name)"

definition passthrough :: "'i codecs \<Rightarrow> string \<Rightarrow> string \<Rightarrow> processed_image" where
  "passthrough cd fmt data =
    \<lparr>pi_format = (case detect_format_from_bytes cd data of Some actual \<Rightarrow> if actual \<noteq> fmt then actual else fmt | None \<Rightarrow> fmt),
     pi_data_base64 = data, pi_was_resized = False,
     pi_original_bytes = length data, pi_final_bytes = length data\<rparr>"

subsection \<open>Scaling down\<close>

definition MIN_JPEG_QUALITY :: nat where "MIN_JPEG_QUALITY = 35"
definition MIN_LONG_SIDE :: nat where "MIN_LONG_SIDE = 256"

definition output_fits :: "resize_config \<Rightarrow> byte list \<Rightarrow> bool" where
  "output_fits cfg out \<longleftrightarrow> saturating_mul (length out) 4 div 3 \<le> rc_max_bytes cfg"

text \<open>The inner loop: the quality is lowered until the output fits or the lowest quality is reached.\<close>

function lower_quality :: "'i codecs \<Rightarrow> resize_config \<Rightarrow> 'i \<Rightarrow> nat \<Rightarrow> resize_error + byte list \<times> nat" where
  "lower_quality cd cfg rgb quality =
    (case cd_encode_jpeg cd quality rgb of
       Inl e \<Rightarrow> Inl (Encode e)
     | Inr out \<Rightarrow>
         if output_fits cfg out \<or> quality \<le> MIN_JPEG_QUALITY then Inr (out, quality)
         else lower_quality cd cfg rgb (max (quality - 10) MIN_JPEG_QUALITY))"
  by pat_completeness auto
termination
  by (relation "measure (\<lambda>(cd, cfg, rgb, quality). quality)") (auto simp: MIN_JPEG_QUALITY_def)

text \<open>The image at a long side: \<open>cur_long as f32 / w.max(h) as f32\<close> scales both sides.\<close>

definition scaled_side :: "nat \<Rightarrow> rat \<Rightarrow> nat" where
  "scaled_side w scale = float_as_u32 (max (of_int (round_away (f32 (f32 (of_nat w) * scale)))) 1)"

definition scale_to :: "'i codecs \<Rightarrow> 'i \<Rightarrow> nat \<Rightarrow> nat \<Rightarrow> nat \<Rightarrow> 'i" where
  "scale_to cd img w h cur_long =
    (if cur_long < max w h then
       let scale = f32 (f32 (of_nat cur_long) / f32 (of_nat (max w h)))
       in cd_resize cd (scaled_side w scale) (scaled_side h scale) img
     else img)"

definition next_long_side :: "nat \<Rightarrow> nat" where
  "next_long_side cur_long = max (float_as_u32 (f32 (f32 (of_nat cur_long) * f32 (8 / 10)))) MIN_LONG_SIDE"

lemma f32_upper: "0 \<le> r \<Longrightarrow> f32 r \<le> r * (101 / 100)"
proof -
  assume r: "0 \<le> r"
  have "1 + pow2 (- int 24) \<le> 101 / 100" by (simp add: pow2_def)
  then have "r * (1 + pow2 (- int 24)) \<le> r * (101 / 100)" by (rule mult_left_mono [OF _ r])
  with fl_upper [OF r, of 24] show ?thesis by linarith
qed

lemma next_long_side_less:
  assumes "MIN_LONG_SIDE < n"
  shows "next_long_side n < n"
proof -
  have a: "f32 (of_nat n) \<le> of_nat n * (101 / 100)" by (rule f32_upper) simp
  have b: "f32 (8 / 10) \<le> (8 / 10) * (101 / 100 :: rat)" by (rule f32_upper) simp
  have "f32 (of_nat n) * f32 (8 / 10) \<le> (of_nat n * (101 / 100)) * ((8 / 10) * (101 / 100))"
    by (rule mult_mono [OF a b]) simp_all
  then have "f32 (of_nat n) * f32 (8 / 10) * (101 / 100) \<le> of_nat n * (9 / 10)" by simp
  moreover have "f32 (f32 (of_nat n) * f32 (8 / 10)) \<le> f32 (of_nat n) * f32 (8 / 10) * (101 / 100)"
    by (rule f32_upper) simp
  ultimately have c: "f32 (f32 (of_nat n) * f32 (8 / 10)) \<le> of_nat n * (9 / 10)" by linarith
  from assms have "(of_nat n :: rat) * (9 / 10) < of_nat n" by (simp add: MIN_LONG_SIDE_def)
  with c have "f32 (f32 (of_nat n) * f32 (8 / 10)) < of_nat n" by linarith
  then have "nat \<lfloor>f32 (f32 (of_nat n) * f32 (8 / 10))\<rfloor> < n"
    using assms by (simp add: floor_less_iff nat_less_iff)
  with assms show ?thesis by (simp add: next_long_side_def float_as_u32_def)
qed

text \<open>The outer loop: the long side is lowered while the lowest quality is still too large.\<close>

function lower_long_side ::
  "'i codecs \<Rightarrow> resize_config \<Rightarrow> 'i \<Rightarrow> nat \<Rightarrow> nat \<Rightarrow> nat \<Rightarrow> resize_error + byte list" where
  "lower_long_side cd cfg img w h cur_long =
    (case lower_quality cd cfg (scale_to cd img w h cur_long) (rc_jpeg_quality cfg) of
       Inl e \<Rightarrow> Inl e
     | Inr (out, _) \<Rightarrow>
         if output_fits cfg out \<or> cur_long \<le> MIN_LONG_SIDE then Inr out
         else lower_long_side cd cfg img w h (next_long_side cur_long))"
  by pat_completeness auto
termination
  by (relation "measure (\<lambda>(cd, cfg, img, w, h, cur_long). cur_long)") (auto intro: next_long_side_less)

declare lower_quality.simps [simp del] lower_long_side.simps [simp del]

definition shrink_static_image ::
  "'i codecs \<Rightarrow> resize_config \<Rightarrow> string \<Rightarrow> string \<Rightarrow> resize_error + processed_image" where
  "shrink_static_image cd cfg fmt data =
    (case decode_checked cd cfg data of
       Inl e \<Rightarrow> Inl e
     | Inr raw \<Rightarrow>
         (case read_dimensions_from_raw cd cfg fmt raw of
            Inl e \<Rightarrow> Inl e
          | Inr None \<Rightarrow> Inl (Decode ''image dimensions are unavailable'')
          | Inr (Some (w, h)) \<Rightarrow>
              (case reader_format cd fmt raw of
                 Inl e \<Rightarrow> Inl (Decode e)
               | Inr f \<Rightarrow>
                   (case cd_decode cd f raw of
                      Inl e \<Rightarrow> Inl (Decode e)
                    | Inr img \<Rightarrow>
                        let w = max w (fst (cd_size cd img));
                            h = max h (snd (cd_size cd img));
                            cur_long = max (min (max w h) (rc_max_long_side cfg)) 1
                        in case lower_long_side cd cfg img w h cur_long of
                             Inl e \<Rightarrow> Inl e
                           | Inr out \<Rightarrow>
                               Inr \<lparr>pi_format = ''jpeg'', pi_data_base64 = cd_base64_encode cd out,
                                 pi_was_resized = True, pi_original_bytes = length data,
                                 pi_final_bytes = length (cd_base64_encode cd out)\<rparr>))))"

definition maybe_shrink_image ::
  "'i codecs \<Rightarrow> resize_config \<Rightarrow> string \<Rightarrow> string \<Rightarrow> resize_error + processed_image" where
  "maybe_shrink_image cd cfg fmt data =
    (let format_lc = map ascii_lower fmt;
         reencode =
           (if format_lc = ''gif'' then
              (case validate_passthrough_safe cd cfg format_lc data of
                 Inl e \<Rightarrow> Inl e
               | Inr _ \<Rightarrow>
                   if rc_max_bytes cfg < length data then
                     Inl (LimitExceeded (''gif image too large for passthrough: '' @ nat_to_string (length data)
                       @ '' > '' @ nat_to_string (rc_max_bytes cfg) @ '' base64 bytes''))
                   else Inr (passthrough cd format_lc data))
            else shrink_static_image cd cfg format_lc data)
     in case validate_base64_limits cfg data of
          Inl e \<Rightarrow> Inl e
        | Inr _ \<Rightarrow>
            if \<not> rc_enabled cfg then
              (case validate_passthrough_safe cd cfg format_lc data of
                 Inl e \<Rightarrow> Inl e | Inr _ \<Rightarrow> Inr (passthrough cd format_lc data))
            else if length data \<le> rc_max_bytes cfg then
              (case peek_dimensions_checked cd cfg format_lc data of
                 Inl e \<Rightarrow> Inl e
               | Inr None \<Rightarrow> Inr (passthrough cd format_lc data)
               | Inr (Some (w, h)) \<Rightarrow>
                   if max w h \<le> rc_max_long_side cfg then Inr (passthrough cd format_lc data) else reencode)
            else reencode)"

subsection \<open>The price of an image\<close>

definition IMAGE_TOKEN_MAX_LONG_SIDE :: nat where "IMAGE_TOKEN_MAX_LONG_SIDE = 1568"
definition IMAGE_TOKEN_FALLBACK :: nat where "IMAGE_TOKEN_FALLBACK = 1600"

text \<open>\<open>rsplit('/').next()\<close>: what follows the last slash.\<close>

definition after_last_slash :: "string \<Rightarrow> string" where
  "after_last_slash s = rev (takeWhile (\<lambda>c. c \<noteq> CHR ''/'') (rev s))"

definition dimension_tokens :: "nat \<Rightarrow> nat \<Rightarrow> nat" where
  "dimension_tokens w h =
    (let fw = of_nat w; fh = of_nat h;
         long = max fw fh;
         cap = of_nat IMAGE_TOKEN_MAX_LONG_SIDE;
         scale = f64 (cap / long);
         (fw, fh) = (if cap < long then (f64 (fw * scale), f64 (fh * scale)) else (fw, fh))
     in max (float_as_u32 (of_int (round_away (f64 (f64 (fw * fh) / 750))))) 1)"

definition estimate_image_tokens :: "'i codecs \<Rightarrow> resize_config \<Rightarrow> string \<Rightarrow> string \<Rightarrow> nat" where
  "estimate_image_tokens cd cfg media_type data =
    (case peek_dimensions_checked cd cfg (map ascii_lower (after_last_slash media_type)) data of
       Inr (Some (w, h)) \<Rightarrow> if w = 0 \<or> h = 0 then IMAGE_TOKEN_FALLBACK else dimension_tokens w h
     | _ \<Rightarrow> IMAGE_TOKEN_FALLBACK)"

end
