(* ===== verification/Image_Limits.thy ===== *)
theory Image_Limits imports Image_Resize begin

section \<open>What the image processing guarantees\<close>

text \<open>
  No image is passed on unless it is small or its size is known and within the limit; a scaled image fits the
  byte budget, or is at the lowest quality and size the loops go down to; the estimated price of an image
  is bounded. The codecs are arbitrary: only the length of base64 text is assumed where it is
  needed.
\<close>

subsection \<open>The two loops\<close>

lemma lower_quality_result:
  "lower_quality cd cfg rgb q = Inr (out, q') \<Longrightarrow>
     cd_encode_jpeg cd q' rgb = Inr out \<and> q' \<le> max q MIN_JPEG_QUALITY \<and> (output_fits cfg out \<or> q' \<le> MIN_JPEG_QUALITY)"
proof (induction cd cfg rgb q rule: lower_quality.induct)
  case (1 cd cfg rgb q)
  show ?case
  proof (cases "cd_encode_jpeg cd q rgb")
    case (Inl e)
    with 1(2) show ?thesis by (simp add: lower_quality.simps [of cd cfg rgb q])
  next
    case (Inr out0)
    with 1 show ?thesis
      by (cases "output_fits cfg out0 \<or> q \<le> MIN_JPEG_QUALITY")
        (auto simp add: lower_quality.simps [of cd cfg rgb q] max_def split: if_splits)
  qed
qed

lemma lower_long_side_result:
  "lower_long_side cd cfg img w h cur = Inr out \<Longrightarrow>
     \<exists>n q. n \<le> max cur MIN_LONG_SIDE \<and> cd_encode_jpeg cd q (scale_to cd img w h n) = Inr out \<and>
       (output_fits cfg out \<or> q \<le> MIN_JPEG_QUALITY \<and> n \<le> MIN_LONG_SIDE)"
proof (induction cd cfg img w h cur rule: lower_long_side.induct)
  case (1 cd cfg img w h cur)
  show ?case
  proof (cases "lower_quality cd cfg (scale_to cd img w h cur) (rc_jpeg_quality cfg)")
    case (Inl e)
    with 1(2) show ?thesis by (simp add: lower_long_side.simps [of cd cfg img w h cur])
  next
    case (Inr r)
    obtain out0 q where r: "r = (out0, q)" by (cases r)
    from lower_quality_result [OF Inr [unfolded r]]
    have lq: "cd_encode_jpeg cd q (scale_to cd img w h cur) = Inr out0" "output_fits cfg out0 \<or> q \<le> MIN_JPEG_QUALITY"
      by auto
    show ?thesis
    proof (cases "output_fits cfg out0 \<or> cur \<le> MIN_LONG_SIDE")
      case True
      with 1(2) Inr r have "out = out0" by (auto simp add: lower_long_side.simps [of cd cfg img w h cur])
      with lq True show ?thesis by (intro exI [of _ cur] exI [of _ q]) auto
    next
      case False
      with 1(2) Inr r have "lower_long_side cd cfg img w h (next_long_side cur) = Inr out"
        by (simp add: lower_long_side.simps [of cd cfg img w h cur])
      with 1(1) [OF Inr] r False obtain n p where
        "n \<le> max (next_long_side cur) MIN_LONG_SIDE" "cd_encode_jpeg cd p (scale_to cd img w h n) = Inr out"
        "output_fits cfg out \<or> p \<le> MIN_JPEG_QUALITY \<and> n \<le> MIN_LONG_SIDE" by blast
      moreover from False have "next_long_side cur \<le> cur" by (simp add: next_long_side_less less_imp_le)
      ultimately show ?thesis by (intro exI [of _ n] exI [of _ p]) auto
    qed
  qed
qed

text \<open>The measure of the code is a third of four times the length, rounded down; base64 rounds up.\<close>

lemma output_fits_encoded:
  assumes "output_fits cfg out" and "rc_max_bytes cfg < 2 ^ 62"
  shows "4 * ((length out + 2) div 3) \<le> 4 * ((rc_max_bytes cfg + 3) div 4)"
proof -
  define k where "k = (length out + 2) div 3"
  have le: "length out * 4 div 3 \<le> rc_max_bytes cfg"
  proof (cases "length out * 4 \<le> 2 ^ 64 - 1")
    case True
    with assms(1) show ?thesis by (simp add: output_fits_def saturating_mul_def)
  next
    case False
    with assms show ?thesis by (simp add: output_fits_def saturating_mul_def)
  qed
  have "3 * k \<le> length out + 2" by (simp add: k_def)
  moreover from le have "length out * 4 \<le> 3 * rc_max_bytes cfg + 2" by linarith
  ultimately have "4 * k \<le> rc_max_bytes cfg + 3" by linarith
  then have "k \<le> (rc_max_bytes cfg + 3) div 4" by linarith
  then show ?thesis by (simp add: k_def)
qed

subsection \<open>What is passed on\<close>

text \<open>The size of an image was read and is within the limit.\<close>

definition measured :: "'i codecs \<Rightarrow> resize_config \<Rightarrow> string \<Rightarrow> bool" where
  "measured cd cfg data \<longleftrightarrow>
     (\<exists>raw f w h. cd_base64_decode cd data = Inr raw \<and> length raw \<le> rc_max_decoded_bytes cfg \<and>
        cd_dimensions cd f raw = Some (w, h) \<and> saturating_mul w h \<le> rc_max_pixels cfg)"

lemma validated_limits:
  "validate_base64_limits cfg data = Inr u \<Longrightarrow>
     length data \<le> rc_max_base64_bytes cfg \<and> estimated_decoded_len data \<le> rc_max_decoded_bytes cfg"
  by (auto simp: validate_base64_limits_def split: if_splits)

lemma read_dimensions_within:
  "read_dimensions_from_raw cd cfg fmt raw = Inr (Some (w, h)) \<Longrightarrow>
     saturating_mul w h \<le> rc_max_pixels cfg \<and> (\<exists>f. cd_dimensions cd f raw = Some (w, h))"
  by (auto simp: read_dimensions_from_raw_def validate_pixel_count_def Let_def split: sum.splits option.splits if_splits)

lemma decode_checked_raw:
  "decode_checked cd cfg data = Inr raw \<Longrightarrow>
     cd_base64_decode cd data = Inr raw \<and> length raw \<le> rc_max_decoded_bytes cfg"
  by (auto simp: decode_checked_def split: sum.splits if_splits)

lemma peek_measured: "peek_dimensions_checked cd cfg fmt data = Inr (Some (w, h)) \<Longrightarrow> measured cd cfg data"
  unfolding measured_def
  by (auto simp: peek_dimensions_checked_def split: sum.splits
      dest!: read_dimensions_within decode_checked_raw)

lemma passthrough_safe:
  "validate_passthrough_safe cd cfg fmt data = Inr u \<Longrightarrow> length data \<le> rc_max_bytes cfg \<or> measured cd cfg data"
  by (auto simp: validate_passthrough_safe_def Let_def
      split: sum.splits option.splits resize_error.splits if_splits dest: peek_measured)

lemma passthrough_fields [simp]:
  "pi_data_base64 (passthrough cd fmt data) = data" "pi_was_resized (passthrough cd fmt data) = False"
  by (simp_all add: passthrough_def)

lemma shrunk:
  assumes "shrink_static_image cd cfg fmt data = Inr p"
  obtains img w h cur out where
    "measured cd cfg data" "pi_was_resized p" "pi_format p = ''jpeg''"
    "pi_data_base64 p = cd_base64_encode cd out" "pi_final_bytes p = length (cd_base64_encode cd out)"
    "lower_long_side cd cfg img w h cur = Inr out" "cur \<le> max 1 (rc_max_long_side cfg)"
proof -
  from assms obtain raw where raw: "decode_checked cd cfg data = Inr raw"
    by (auto simp: shrink_static_image_def split: sum.splits)
  with assms obtain w h where wh: "read_dimensions_from_raw cd cfg fmt raw = Inr (Some (w, h))"
    by (auto simp: shrink_static_image_def split: sum.splits option.splits)
  with assms raw obtain f where f: "reader_format cd fmt raw = Inr f"
    by (auto simp: shrink_static_image_def split: sum.splits)
  with assms raw wh obtain img where img: "cd_decode cd f raw = Inr img"
    by (auto simp: shrink_static_image_def split: sum.splits)
  let ?w = "max w (fst (cd_size cd img))" and ?h = "max h (snd (cd_size cd img))"
  let ?cur = "max (min (max ?w ?h) (rc_max_long_side cfg)) 1"
  from assms raw wh f img obtain out where out: "lower_long_side cd cfg img ?w ?h ?cur = Inr out"
    and p: "p = \<lparr>pi_format = ''jpeg'', pi_data_base64 = cd_base64_encode cd out, pi_was_resized = True,
      pi_original_bytes = length data, pi_final_bytes = length (cd_base64_encode cd out)\<rparr>"
    by (auto simp: shrink_static_image_def Let_def split: sum.splits)
  have m: "measured cd cfg data"
    unfolding measured_def using decode_checked_raw [OF raw] read_dimensions_within [OF wh] by auto
  from that [OF m _ _ _ _ out] p show thesis by auto
qed

text \<open>The two ways to accept an image.\<close>

lemma maybe_shrink_cases:
  assumes "maybe_shrink_image cd cfg fmt data = Inr p"
  shows "p = passthrough cd (map ascii_lower fmt) data \<and>
           (length data \<le> rc_max_bytes cfg \<or> (\<not> rc_enabled cfg \<and> measured cd cfg data))
       \<or> rc_enabled cfg \<and> shrink_static_image cd cfg (map ascii_lower fmt) data = Inr p"
  using assms
  by (auto simp: maybe_shrink_image_def Let_def not_less
      split: sum.splits option.splits if_splits dest: passthrough_safe)

lemma maybe_shrink_limits:
  "maybe_shrink_image cd cfg fmt data = Inr p \<Longrightarrow> \<exists>u. validate_base64_limits cfg data = Inr u"
  by (auto simp: maybe_shrink_image_def Let_def split: sum.splits)

subsection \<open>Properties\<close>

text \<open>An image that was scaled down is a JPEG whose base64 text is at most the byte budget, rounded up to a
  multiple of four, unless the encoder was already at the lowest quality (35, or a lower one that was configured) and the
  image at a long side of at most 256. The image that was encoded is never larger than the configured long side, or 256.\<close>

theorem resized_image_fits:
  assumes "maybe_shrink_image cd cfg fmt data = Inr p" and "pi_was_resized p"
    and "\<And>bs. length (cd_base64_encode cd bs) = 4 * ((length bs + 2) div 3)" and "rc_max_bytes cfg < 2 ^ 62"
  shows "\<exists>img w h n q out.
    pi_format p = ''jpeg'' \<and> pi_data_base64 p = cd_base64_encode cd out \<and>
    cd_encode_jpeg cd q (scale_to cd img w h n) = Inr out \<and>
    n \<le> max (max 1 (rc_max_long_side cfg)) 256 \<and>
    (pi_final_bytes p \<le> 4 * ((rc_max_bytes cfg + 3) div 4) \<or> q \<le> 35 \<and> n \<le> 256)"
proof -
  from maybe_shrink_cases [OF assms(1)] assms(2)
  have "shrink_static_image cd cfg (map ascii_lower fmt) data = Inr p" by auto
  then obtain img w h cur out where p: "pi_format p = ''jpeg''" "pi_data_base64 p = cd_base64_encode cd out"
      "pi_final_bytes p = length (cd_base64_encode cd out)"
    and out: "lower_long_side cd cfg img w h cur = Inr out" and cur: "cur \<le> max 1 (rc_max_long_side cfg)"
    by (rule shrunk)
  from lower_long_side_result [OF out] obtain n q where n: "n \<le> max cur MIN_LONG_SIDE"
    and e: "cd_encode_jpeg cd q (scale_to cd img w h n) = Inr out"
    and f: "output_fits cfg out \<or> q \<le> MIN_JPEG_QUALITY \<and> n \<le> MIN_LONG_SIDE" by blast
  from f output_fits_encoded [OF _ assms(4), of out] assms(3) p(3)
  have "pi_final_bytes p \<le> 4 * ((rc_max_bytes cfg + 3) div 4) \<or> q \<le> 35 \<and> n \<le> 256"
    by (auto simp: MIN_JPEG_QUALITY_def MIN_LONG_SIDE_def)
  moreover from n cur have "n \<le> max (max 1 (rc_max_long_side cfg)) 256" by (auto simp: MIN_LONG_SIDE_def)
  ultimately show ?thesis using p e by blast
qed

text \<open>A sample: images are their size, an encoded image has a byte for every pixel.\<close>

definition sample_codecs :: "(nat \<times> nat) codecs" where
  "sample_codecs =
    \<lparr>cd_base64_decode = \<lambda>s. if s = [] then Inl ''empty'' else Inr (map (\<lambda>c. of_nat (byte_of c)) s),
     cd_base64_encode = \<lambda>bs. replicate (4 * ((length bs + 2) div 3)) CHR ''A'',
     cd_guess_format = \<lambda>_. None, cd_probe = \<lambda>_. Inr None,
     cd_dimensions = \<lambda>_ _. Some (6, 2), cd_decode = \<lambda>_ _. Inr (6, 2),
     cd_size = \<lambda>i. i, cd_resize = \<lambda>w h i. (w, h),
     cd_encode_jpeg = \<lambda>q i. Inr (replicate (fst i * snd i) 0)\<rparr>"

definition sample_resize_config :: resize_config where
  "sample_resize_config =
    \<lparr>rc_enabled = True, rc_max_long_side = 8, rc_max_bytes = 5, rc_jpeg_quality = 85, rc_max_base64_bytes = 100,
     rc_max_decoded_bytes = 100, rc_max_pixels = 1000\<rparr>"

definition sample_shrunk :: processed_image where
  "sample_shrunk =
    \<lparr>pi_format = ''jpeg'', pi_data_base64 = replicate 16 CHR ''A'', pi_was_resized = True,
     pi_original_bytes = 6, pi_final_bytes = 16\<rparr>"

lemma sample_shrink: "maybe_shrink_image sample_codecs sample_resize_config ''png'' ''abcdef'' = Inr sample_shrunk"
proof -
  let ?img = "(6, 2) :: nat \<times> nat"
  have enc: "cd_encode_jpeg sample_codecs n ?img = Inr (replicate 12 0)" for n
    by (simp add: sample_codecs_def)
  have f: "\<not> output_fits sample_resize_config (replicate 12 0)"
    by (simp add: output_fits_def saturating_mul_def sample_resize_config_def)
  have stop: "lower_quality sample_codecs sample_resize_config ?img 35 = Inr (replicate 12 0, 35)"
    by (subst lower_quality.simps) (simp only: enc sum.case, simp add: MIN_JPEG_QUALITY_def)
  have "lower_quality sample_codecs sample_resize_config ?img n
      = lower_quality sample_codecs sample_resize_config ?img (max (n - 10) 35)" if "35 < n" for n
    using that f by (subst lower_quality.simps) (simp only: enc sum.case, simp add: MIN_JPEG_QUALITY_def)
  from this [of 85] this [of 75] this [of 65] this [of 55] this [of 45] stop
  have lq: "lower_quality sample_codecs sample_resize_config ?img 85 = Inr (replicate 12 0, 35)" by simp
  have q: "rc_jpeg_quality sample_resize_config = 85" by (simp add: sample_resize_config_def)
  have "lower_long_side sample_codecs sample_resize_config ?img 6 2 6 = Inr (replicate 12 0)"
    by (subst lower_long_side.simps)
      (simp only: scale_to_def max_def refl if_True if_False q lq sum.case prod.case, simp add: lq MIN_LONG_SIDE_def)
  then show ?thesis
    by (simp add: maybe_shrink_image_def shrink_static_image_def decode_checked_def validate_base64_limits_def
        estimated_decoded_len_def read_dimensions_from_raw_def reader_format_def guess_format_def ascii_lower_def
        validate_pixel_count_def saturating_mul_def sample_codecs_def sample_resize_config_def sample_shrunk_def byte_of_def)
qed

theorem resized_image_fits_witness:
  "\<exists>img w h n q out.
    pi_format sample_shrunk = ''jpeg'' \<and> pi_data_base64 sample_shrunk = cd_base64_encode sample_codecs out \<and>
    cd_encode_jpeg sample_codecs q (scale_to sample_codecs img w h n) = Inr out \<and>
    n \<le> max (max 1 (rc_max_long_side sample_resize_config)) 256 \<and>
    (pi_final_bytes sample_shrunk \<le> 4 * ((rc_max_bytes sample_resize_config + 3) div 4) \<or> q \<le> 35 \<and> n \<le> 256)"
  by (rule resized_image_fits [OF sample_shrink])
    (simp_all add: sample_shrunk_def sample_codecs_def sample_resize_config_def)

text \<open>C38: Whatever the decoders do, an image is only accepted when its text and its decoded size are within the
  hard limits. If it is passed on unchanged it is small, or the processing is switched off and its number of
  pixels was read and is within the limit; if it was encoded again its number of pixels was read before it
  was decoded.\<close>

theorem accepted_image_safe:
  assumes "maybe_shrink_image cd cfg fmt data = Inr p"
  shows "length data \<le> rc_max_base64_bytes cfg \<and> estimated_decoded_len data \<le> rc_max_decoded_bytes cfg \<and>
    (if pi_was_resized p then measured cd cfg data
     else pi_data_base64 p = data \<and>
       (length data \<le> rc_max_bytes cfg \<or> \<not> rc_enabled cfg \<and> measured cd cfg data))"
  using maybe_shrink_cases [OF assms] maybe_shrink_limits [OF assms]
  by (auto dest!: validated_limits elim: shrunk)

theorem accepted_image_safe_witness:
  "length ''abcdef'' \<le> rc_max_base64_bytes sample_resize_config \<and>
   estimated_decoded_len ''abcdef'' \<le> rc_max_decoded_bytes sample_resize_config \<and>
   (if pi_was_resized sample_shrunk then measured sample_codecs sample_resize_config ''abcdef''
    else pi_data_base64 sample_shrunk = ''abcdef'' \<and>
      (length ''abcdef'' \<le> rc_max_bytes sample_resize_config \<or>
       \<not> rc_enabled sample_resize_config \<and> measured sample_codecs sample_resize_config ''abcdef''))"
  by (rule accepted_image_safe [OF sample_shrink])

text \<open>An image whose base64 text cannot be decoded is refused while the processing is on, and passed on as it
  is when it is off.\<close>

theorem undecodable_image:
  assumes "validate_base64_limits cfg data = Inr ()" and "cd_base64_decode cd data = Inl e"
    and "length data \<le> rc_max_bytes cfg"
  shows "maybe_shrink_image cd cfg fmt data =
    (if rc_enabled cfg then Inl (Base64 e) else Inr (passthrough cd (map ascii_lower fmt) data))"
  using assms
  by (simp add: maybe_shrink_image_def peek_dimensions_checked_def decode_checked_def
      validate_passthrough_safe_def Let_def)

subsection \<open>The price\<close>

lemma f64_upper: "0 \<le> r \<Longrightarrow> f64 r \<le> r * (1000001 / 1000000)"
proof -
  assume r: "0 \<le> r"
  have "1 + pow2 (- int 53) \<le> 1000001 / 1000000" by (simp add: pow2_def)
  then have "r * (1 + pow2 (- int 53)) \<le> r * (1000001 / 1000000)" by (rule mult_left_mono [OF _ r])
  with fl_upper [OF r, of 53] show ?thesis by linarith
qed

lemma scaled_down:
  fixes a b :: rat
  assumes "0 < b" and "0 \<le> a" and "a \<le> b"
  shows "f64 (a * f64 (1568 / b)) \<le> 156801 / 100"
proof -
  let ?k = "1000001 / 1000000 :: rat"
  from assms(1) have s: "f64 (1568 / b) \<le> 1568 / b * ?k" by (intro f64_upper) simp
  have "a * f64 (1568 / b) \<le> b * (1568 / b * ?k)" by (rule mult_mono [OF assms(3) s]) (use assms in auto)
  then have "a * f64 (1568 / b) \<le> 1568 * ?k" using assms(1) by simp
  moreover have "f64 (a * f64 (1568 / b)) \<le> a * f64 (1568 / b) * ?k" by (rule f64_upper) (use assms in simp)
  ultimately show ?thesis by linarith
qed

lemma area_tokens:
  fixes a b :: rat
  assumes "0 \<le> a" "a \<le> 156801 / 100" "0 \<le> b" "b \<le> 156801 / 100"
  shows "float_as_u32 (of_int (round_away (f64 (f64 (a * b) / 750)))) \<le> 3278"
proof -
  let ?k = "1000001 / 1000000 :: rat"
  have "a * b \<le> (156801 / 100) * (156801 / 100)" by (rule mult_mono) (use assms in auto)
  moreover have "f64 (a * b) \<le> a * b * ?k" by (rule f64_upper) (use assms in simp)
  moreover have "f64 (f64 (a * b) / 750) \<le> f64 (a * b) / 750 * ?k" by (rule f64_upper) simp
  ultimately have "f64 (f64 (a * b) / 750) < 32785 / 10" by (simp add: power2_eq_square)
  then have "\<lfloor>f64 (f64 (a * b) / 750) + 1 / 2\<rfloor> \<le> 3278" by linarith
  then have "nat \<lfloor>f64 (f64 (a * b) / 750) + 1 / 2\<rfloor> \<le> 3278" by linarith
  then show ?thesis by (simp add: float_as_u32_def round_away_def)
qed

text \<open>The estimated price of an image is at least one token and at most 3278, whatever its size is and
  whether or not it can be read.\<close>

theorem image_tokens_bounded:
  "1 \<le> estimate_image_tokens cd cfg media_type data \<and> estimate_image_tokens cd cfg media_type data \<le> 3278"
proof -
  have "1 \<le> dimension_tokens w h \<and> dimension_tokens w h \<le> 3278" for w h
  proof -
    let ?s = "f64 (1568 / max (of_nat w) (of_nat h))"
    show ?thesis
    proof (cases "1568 < max (of_nat w) (of_nat h :: rat)")
      case True
      then have "f64 (of_nat w * ?s) \<le> 156801 / 100" "f64 (of_nat h * ?s) \<le> 156801 / 100"
        by (intro scaled_down; simp)+
      with True area_tokens [of "f64 (of_nat w * ?s)" "f64 (of_nat h * ?s)"]
      show ?thesis by (simp add: dimension_tokens_def IMAGE_TOKEN_MAX_LONG_SIDE_def Let_def)
    next
      case False
      then have "(of_nat w :: rat) \<le> 1568" "(of_nat h :: rat) \<le> 1568" by auto
      with False area_tokens [of "of_nat w" "of_nat h"]
      show ?thesis by (simp add: dimension_tokens_def IMAGE_TOKEN_MAX_LONG_SIDE_def Let_def)
    qed
  qed
  then show ?thesis
    by (auto simp: estimate_image_tokens_def IMAGE_TOKEN_FALLBACK_def split: sum.splits option.splits)
qed

end
