(* ===== verification/Api_Types.thy ===== *)
theory Api_Types imports Json begin

section \<open>Requests of the Anthropic API (src/src/anthropic/types.rs)\<close>

text \<open>
  The body of a request for messages, as the JSON deriver reads it. Deriving a reader from a type is the
  work of the serde crate; what the source adds to it, the readers of the system prompt and of the
  thinking budget and the normal form of the effort, is defined here.
\<close>

record cache_control =
  ctl_type :: string
  ctl_ttl :: "string option"

record system_message =
  sm_text :: string
  sm_cache_control :: "cache_control option"

record tool =
  tl_type :: "string option"
  tl_name :: string
  tl_description :: string
  tl_input_schema :: json_map
  tl_max_uses :: "int option"
  tl_cache_control :: "cache_control option"

record chat_message =
  cm_role :: string
  cm_content :: json

record thinking =
  th_type :: string
  th_budget_tokens :: int

record output_config =
  oc_effort :: string

record metadata =
  md_user_id :: "string option"

record messages_request =
  mr_model :: string
  mr_max_tokens :: int
  mr_messages :: "chat_message list"
  mr_stream :: bool
  mr_system :: "system_message list option"
  mr_tools :: "tool list option"
  mr_tool_choice :: "json option"
  mr_thinking :: "thinking option"
  mr_output_config :: "output_config option"
  mr_metadata :: "metadata option"

subsection \<open>Thinking\<close>

definition MAX_BUDGET_TOKENS :: int where "MAX_BUDGET_TOKENS = 24576"

definition thinking_is_enabled :: "thinking \<Rightarrow> bool" where
  "thinking_is_enabled t \<longleftrightarrow> th_type t = ''enabled'' \<or> th_type t = ''adaptive''"

definition default_budget_tokens :: int where "default_budget_tokens = 20000"

definition deserialize_budget_tokens :: "int \<Rightarrow> int" where
  "deserialize_budget_tokens v = min v MAX_BUDGET_TOKENS"

definition DEFAULT_THINKING_EFFORT :: string where "DEFAULT_THINKING_EFFORT = ''high''"

definition normalize_thinking_effort :: "string \<Rightarrow> string" where
  "normalize_thinking_effort effort =
    (let e = map ascii_lower (trim effort)
     in if e \<in> set [''low'', ''medium'', ''high'', ''xhigh'', ''max''] then e else DEFAULT_THINKING_EFFORT)"

subsection \<open>The system prompt\<close>

text \<open>
  \<open>deserialize_system\<close> asks for any value: the visitor answers for a string and for a sequence. A \<open>null\<close>
  is a unit value for the JSON reader, for which the visitor has no method, so it is an error like
  every other value; \<open>visit_none\<close> and \<open>visit_some\<close> are never called.
\<close>

fun read_all :: "('a \<Rightarrow> 'e + 'b) \<Rightarrow> 'a list \<Rightarrow> 'e + 'b list" where
  "read_all f [] = Inr []"
| "read_all f (x # xs) =
     (case f x of Inl e \<Rightarrow> Inl e | Inr y \<Rightarrow> (case read_all f xs of Inl e \<Rightarrow> Inl e | Inr ys \<Rightarrow> Inr (y # ys)))"

fun deserialize_system ::
  "(json \<Rightarrow> string + system_message) \<Rightarrow> json \<Rightarrow> string + system_message list option" where
  "deserialize_system read (JStr v) = Inr (Some [\<lparr>sm_text = v, sm_cache_control = None\<rparr>])"
| "deserialize_system read (JArr vs) =
     (case read_all read vs of
        Inl e \<Rightarrow> Inl e
      | Inr messages \<Rightarrow> Inr (if messages = [] then None else Some messages))"
| "deserialize_system read _ = Inl ''invalid type, expected a string or an array of system messages''"

lemma normalize_thinking_effort_range:
  "normalize_thinking_effort e \<in> {''low'', ''medium'', ''high'', ''xhigh'', ''max''}"
  by (auto simp: normalize_thinking_effort_def DEFAULT_THINKING_EFFORT_def Let_def)

end
