(* ===== verification/Cache_Meter.thy ===== *)
theory Cache_Meter imports Prelude begin

section \<open>The table of cached prompt prefixes (src/src/anthropic/cache_metering.rs, CacheMeter)\<close>

text \<open>
  The relay imitates the prompt cache of the API: a table of the prefixes of earlier prompts, by a 64
  bit fingerprint, each with its tokens, the second it expires at and the second of its last use. The
  time is an argument of every operation. The file is the list of the entries that the last write left:
  turning it into JSON and back is the work of the serde crate.
\<close>

definition DEFAULT_CAPACITY :: nat where "DEFAULT_CAPACITY = 4096"
definition MAX_TTL_SECS :: int where "MAX_TTL_SECS = 3600"
definition DEFAULT_TTL_SECS :: int where "DEFAULT_TTL_SECS = 5 * 60"

record cache_entry =
  me_tokens :: nat
  me_expires_at :: int
  me_last_hit_at :: int

type_synonym cache_entries = "(u64, cache_entry) hash_map"

record cache_meter =
  mt_entries :: cache_entries
  mt_dirty :: bool
  mt_persist :: bool   \<comment> \<open>whether there is a path to write to\<close>

text \<open>\<open>new\<close>: what the file holds, in the order the reader's map is visited, without the expired entries.\<close>

definition insert_live :: "int \<Rightarrow> u64 \<times> cache_entry \<Rightarrow> cache_entries \<Rightarrow> cache_entries" where
  "insert_live now kv es = (if now < me_expires_at (snd kv) then hm_insert (fst kv) (snd kv) es else es)"

definition cache_meter_new ::
  "(u64 list \<Rightarrow> u64 \<Rightarrow> nat) \<Rightarrow> int \<Rightarrow> (u64 \<times> cache_entry) list option \<Rightarrow> bool \<Rightarrow> cache_meter" where
  "cache_meter_new rank now file persist =
    \<lparr>mt_entries = (case file of
         Some kvs \<Rightarrow> if persist then fold (insert_live now) kvs (hm_empty rank) else hm_empty rank
       | None \<Rightarrow> hm_empty rank),
     mt_dirty = False, mt_persist = persist\<rparr>"

text \<open>\<open>lookup\<close>: which of the prefixes are known, and their last use becomes now.\<close>

record segment_result =
  sr_hit :: bool
  sr_tokens :: nat

definition live :: "cache_entries \<Rightarrow> int \<Rightarrow> u64 \<Rightarrow> bool" where
  "live es now h = (case hm_get es h of Some e \<Rightarrow> now < me_expires_at e | None \<Rightarrow> False)"

definition touch :: "int \<Rightarrow> u64 \<Rightarrow> cache_entries \<Rightarrow> cache_entries" where
  "touch now h es =
    (case hm_get es h of
       Some e \<Rightarrow> if now < me_expires_at e then hm_insert h (e\<lparr>me_last_hit_at := now\<rparr>) es else es
     | None \<Rightarrow> es)"

fun lookup_loop :: "int \<Rightarrow> (u64 \<times> nat) list \<Rightarrow> cache_entries \<Rightarrow> cache_entries \<times> segment_result list" where
  "lookup_loop now [] es = (es, [])"
| "lookup_loop now ((h, t) # r) es =
     (case lookup_loop now r (touch now h es) of
        (es', out) \<Rightarrow> (es', \<lparr>sr_hit = live es now h, sr_tokens = t\<rparr> # out))"

definition meter_lookup :: "int \<Rightarrow> u64 list \<Rightarrow> nat list \<Rightarrow> cache_meter \<Rightarrow> cache_meter \<times> segment_result list" where
  "meter_lookup now hashes tokens m =
    (case lookup_loop now (zip hashes tokens) (mt_entries m) of
       (es, out) \<Rightarrow> (m\<lparr>mt_entries := es\<rparr>, out))"

text \<open>\<open>record\<close>: the prefixes are entered or renewed, and the least recently used entries beyond the capacity go.\<close>

definition hm_len :: "('k, 'v) hash_map \<Rightarrow> nat" where
  "hm_len m = length (hm_entries m)"

definition evict_over_capacity :: "cache_entries \<Rightarrow> cache_entries" where
  "evict_over_capacity es =
    (if DEFAULT_CAPACITY < hm_len es then
       let drop_n = hm_len es - DEFAULT_CAPACITY;
           victims = sort_key snd (map (\<lambda>(k, v). (k, me_last_hit_at v)) (hm_iter es))
       in fold hm_remove (map fst (take drop_n victims)) es
     else es)"

definition clamp_ttl :: "int \<Rightarrow> int" where
  "clamp_ttl ttl_secs = max 60 (min MAX_TTL_SECS ttl_secs)"

definition enter :: "int \<Rightarrow> int \<Rightarrow> u64 \<times> nat \<Rightarrow> cache_entries \<Rightarrow> cache_entries" where
  "enter now expires_at ht es =
     hm_insert (fst ht) \<lparr>me_tokens = snd ht, me_expires_at = expires_at, me_last_hit_at = now\<rparr> es"

definition meter_record :: "int \<Rightarrow> u64 list \<Rightarrow> nat list \<Rightarrow> int \<Rightarrow> cache_meter \<Rightarrow> cache_meter" where
  "meter_record now hashes tokens ttl_secs m =
    m\<lparr>mt_entries := evict_over_capacity
         (fold (enter now (now + clamp_ttl ttl_secs)) (zip hashes tokens) (mt_entries m)),
       mt_dirty := True\<rparr>"

text \<open>
  \<open>flush_to_disk\<close>: the entries to write, if any; the flag is cleared before the write, whose failure only
  leaves a line in the log.
\<close>

definition flush_to_disk :: "cache_meter \<Rightarrow> cache_meter \<times> (u64 \<times> cache_entry) list option" where
  "flush_to_disk m =
    (if \<not> mt_persist m \<or> \<not> mt_dirty m then (m, None)
     else (m\<lparr>mt_dirty := False\<rparr>, Some (hm_iter (mt_entries m))))"

definition evict_expired :: "int \<Rightarrow> cache_meter \<Rightarrow> cache_meter" where
  "evict_expired now m =
    (let kept = (mt_entries m)\<lparr>hm_entries := filter (\<lambda>(k, v). now < me_expires_at v) (hm_entries (mt_entries m))\<rparr>
     in m\<lparr>mt_entries := kept, mt_dirty := (hm_len kept \<noteq> hm_len (mt_entries m) \<or> mt_dirty m)\<rparr>)"

text \<open>One turn of the background task.\<close>

definition background_turn :: "int \<Rightarrow> cache_meter \<Rightarrow> cache_meter \<times> (u64 \<times> cache_entry) list option" where
  "background_turn now m = flush_to_disk (evict_expired now m)"

end
