(* ===== verification/Cache_Segments.thy ===== *)
theory Cache_Segments
  imports Api_Types Cache_Meter Image_Resize Headers Stream_Context "HOL-Library.List_Lexorder" "HOL-Library.Char_ord"
begin

section \<open>Prefixes of a prompt (src/src/anthropic/cache_metering.rs)\<close>

text \<open>
  How a request is cut into prefixes, each with a fingerprint and its tokens, and how the table of prefixes
  turns them into the reported usage: tools, the system prompt, then the messages are fed into one
  running hash, and a prefix ends behind the system prompt, behind every message but the last, and behind
  every content block that asks for it. A hasher is the bytes it was fed; SHA-256, printing JSON and the
  codecs of images are the parameters of \<open>metering\<close>.
\<close>

record 'i metering =
  mx_sha256 :: "string \<Rightarrow> byte list"
  mx_serde :: serde
  mx_codecs :: "'i codecs"
  mx_images :: resize_config

subsection \<open>Signatures and texts\<close>

definition parse_ttl :: "string option \<Rightarrow> int" where
  "parse_ttl ttl =
    (case ttl of
       Some s \<Rightarrow> if eq_ignore_ascii_case s ''1h'' then 3600
                 else if eq_ignore_ascii_case s ''5m'' then 300 else DEFAULT_TTL_SECS
     | None \<Rightarrow> DEFAULT_TTL_SECS)"

text \<open>\<open>v.get(key).and_then(as_str).unwrap_or("")\<close>\<close>

definition str_field :: "json \<Rightarrow> string \<Rightarrow> string" where
  "str_field v key = (case Option.bind (json_get v key) json_as_str of Some s \<Rightarrow> s | None \<Rightarrow> [])"

text \<open>JSON with the keys of objects in the order of their bytes.\<close>

lemma size_in_object: "kv \<in> set kvs \<Longrightarrow> size (snd kv) < Suc (size_list (size_prod (\<lambda>s. 0) size) kvs)"
  by (induction kvs) auto

function canonical_json :: "serde \<Rightarrow> json \<Rightarrow> string" where
  "canonical_json sd (JObj kvs) =
     ''{'' @ join_strings '','' (map (\<lambda>kv. to_str sd (JStr (fst kv)) @ '':'' @ canonical_json sd (snd kv)) (sort_key fst kvs)) @ ''}''"
| "canonical_json sd (JArr vs) = ''['' @ join_strings '','' (map (canonical_json sd) vs) @ '']''"
| "canonical_json sd JNull = to_str sd JNull"
| "canonical_json sd (JBool b) = to_str sd (JBool b)"
| "canonical_json sd (JInt i) = to_str sd (JInt i)"
| "canonical_json sd (JFloat r) = to_str sd (JFloat r)"
| "canonical_json sd (JStr s) = to_str sd (JStr s)"
  by pat_completeness auto

termination
proof (relation "measure (\<lambda>(sd, v). size v)")
  fix sd :: serde and kvs and kv :: "string \<times> json"
  assume "kv \<in> set (sort_key fst kvs)"
  then have "kv \<in> set kvs" by simp
  then have "size (snd kv) < size (JObj kvs)"
    by (induction kvs) auto
  then show "((sd, snd kv), (sd, JObj kvs)) \<in> measure (\<lambda>(sd, v). size v)" by simp
next
  fix sd :: serde and vs and v :: json
  assume "v \<in> set vs"
  then have "size v < size (JArr vs)" by (induction vs) auto
  then show "((sd, v), (sd, JArr vs)) \<in> measure (\<lambda>(sd, v). size v)" by simp
qed simp

definition tool_signature :: "serde \<Rightarrow> tool \<Rightarrow> string" where
  "tool_signature sd t =
     ''tool:'' @ tl_name t @ ''|'' @ tl_description t @ ''|'' @ to_str sd (JObj (tl_input_schema t))"

definition tool_token_text :: "serde \<Rightarrow> tool \<Rightarrow> string" where
  "tool_token_text sd t = tl_name t @ '' '' @ tl_description t @ '' '' @ to_str sd (JObj (tl_input_schema t))"

definition system_signature :: "system_message \<Rightarrow> string" where
  "system_signature s = ''sys:'' @ sm_text s"

definition image_source_parts :: "json \<Rightarrow> string \<times> string" where
  "image_source_parts v =
    (case json_get v ''source'' of
       Some src \<Rightarrow> (str_field src ''media_type'', str_field src ''data'')
     | None \<Rightarrow> ([], []))"

definition image_signature_value :: "serde \<Rightarrow> json \<Rightarrow> string" where
  "image_signature_value sd v =
    (case image_source_parts v of (media_type, data) \<Rightarrow>
       ''block:image|'' @ media_type @ ''|'' @ (if data = [] then canonical_json sd v else data))"

definition canonical_field :: "serde \<Rightarrow> json \<Rightarrow> string \<Rightarrow> string" where
  "canonical_field sd v key = (case json_get v key of Some x \<Rightarrow> canonical_json sd x | None \<Rightarrow> [])"

definition block_signature_value :: "serde \<Rightarrow> json \<Rightarrow> string" where
  "block_signature_value sd v =
    (let ty = str_field v ''type'' in
     if ty = ''text'' then ''block:text|'' @ str_field v ''text''
     else if ty = ''thinking'' then ''block:thinking|'' @ str_field v ''thinking''
     else if ty = ''redacted_thinking'' then ''block:redacted_thinking|'' @ str_field v ''data''
     else if ty = ''tool_use'' then ''block:tool_use|'' @ str_field v ''name'' @ ''|'' @ canonical_field sd v ''input''
     else if ty = ''tool_result'' then
       ''block:tool_result|''
         @ (case Option.bind (json_get v ''is_error'') json_as_bool of Some True \<Rightarrow> ''true'' | _ \<Rightarrow> ''false'')
         @ ''|'' @ canonical_field sd v ''content''
     else if ty = ''image'' then image_signature_value sd v
     else ''block:'' @ ty @ ''|'' @ canonical_json sd v)"

text \<open>\<open>block_token_text\<close> and \<open>block_content_token_text\<close> call each other along the nesting of blocks.\<close>

definition is_image_block :: "json \<Rightarrow> bool" where
  "is_image_block v \<longleftrightarrow> Option.bind (json_get v ''type'') json_as_str = Some ''image''"

lemma size_json_get: "json_get v k = Some x \<Longrightarrow> size x < size v"
proof (cases v)
  case (JObj kvs)
  assume "json_get v k = Some x"
  with JObj have "(k, x) \<in> set kvs" by (auto dest: map_of_SomeD)
  then have "size x < size (JObj kvs)" by (induction kvs) auto
  with JObj show ?thesis by simp
qed simp_all

function block_token_text :: "serde \<Rightarrow> json \<Rightarrow> string"
  and block_content_token_text :: "serde \<Rightarrow> json \<Rightarrow> string" where
  "block_token_text sd v =
    (let ty = str_field v ''type'' in
     if ty = ''text'' then str_field v ''text''
     else if ty = ''thinking'' then str_field v ''thinking''
     else if ty = ''redacted_thinking'' then str_field v ''data''
     else if ty = ''tool_use'' then
       (let inp = canonical_field sd v ''input''
        in if str_field v ''name'' = [] then inp else str_field v ''name'' @ '' '' @ inp)
     else if ty = ''tool_result'' then
       (case json_get v ''content'' of Some x \<Rightarrow> block_content_token_text sd x | None \<Rightarrow> [])
     else if ty = ''image'' then []
     else canonical_json sd v)"
| "block_content_token_text sd v =
    (case v of
       JStr s \<Rightarrow> s
     | JArr arr \<Rightarrow> join_strings '' '' (filter (\<lambda>s. s \<noteq> [])
         (map (\<lambda>item. if is_image_block item then [] else block_token_text sd item) arr))
     | _ \<Rightarrow> canonical_json sd v)"
  by pat_completeness auto

termination
proof (relation "measure (\<lambda>c. case c of Inl (sd, v) \<Rightarrow> size v | Inr (sd, v) \<Rightarrow> size v)")
  fix sd :: serde and v arr and item :: json
  assume "v = JArr arr" "item \<in> set arr"
  then have "size item < size v" by (induction arr arbitrary: v) auto
  then show "(Inl (sd, item), Inr (sd, v)) \<in> measure (\<lambda>c. case c of Inl (sd, v) \<Rightarrow> size v | Inr (sd, v) \<Rightarrow> size v)"
    by simp
qed (auto dest: size_json_get)

declare block_token_text.simps [simp del] block_content_token_text.simps [simp del]

definition block_has_cache_control :: "json \<Rightarrow> bool" where
  "block_has_cache_control v \<longleftrightarrow> json_get v ''cache_control'' \<noteq> None"

subsection \<open>The seed and the time to live\<close>

definition metering_session_id :: "string \<Rightarrow> string option" where
  "metering_session_id user_id =
    (case find_sub user_id ''_session_'' of
       None \<Rightarrow> None
     | Some i \<Rightarrow> let sid = trim (drop (i + length ''_session_'') user_id) in if sid = [] then None else Some sid)"

definition isolation_seed :: "messages_request \<Rightarrow> nat \<Rightarrow> string option" where
  "isolation_seed req key_id =
    (case Option.bind (Option.bind (mr_metadata req) md_user_id) metering_session_id of
       Some session \<Rightarrow> Some (''sess:'' @ session)
     | None \<Rightarrow> if key_id = 0 then None else Some (''key:'' @ nat_to_string key_id))"

definition bump :: "cache_control option \<Rightarrow> int \<Rightarrow> int" where
  "bump cc ttl = (case cc of Some c \<Rightarrow> max ttl (parse_ttl (ctl_ttl c)) | None \<Rightarrow> ttl)"

definition bump_block :: "json \<Rightarrow> int \<Rightarrow> int" where
  "bump_block v ttl =
    (case Option.bind (Option.bind (json_get v ''cache_control'') (\<lambda>cc. json_get cc ''ttl'')) json_as_str of
       Some t \<Rightarrow> max ttl (parse_ttl (Some t)) | None \<Rightarrow> ttl)"

definition bump_message :: "chat_message \<Rightarrow> int \<Rightarrow> int" where
  "bump_message msg ttl = (case cm_content msg of JArr arr \<Rightarrow> fold bump_block arr ttl | _ \<Rightarrow> ttl)"

definition given :: "'a list option \<Rightarrow> 'a list" where
  "given x = (case x of Some xs \<Rightarrow> xs | None \<Rightarrow> [])"

definition detect_max_ttl :: "messages_request \<Rightarrow> int" where
  "detect_max_ttl req =
     fold bump_message (mr_messages req)
       (fold bump (map sm_cache_control (given (mr_system req)))
         (fold bump (map tl_cache_control (given (mr_tools req))) DEFAULT_TTL_SECS))"

subsection \<open>Feeding the hash\<close>

record segment =
  sg_hash :: u64
  sg_tokens :: nat
  sg_ttl :: int

text \<open>The variables of \<open>extract_segments\<close>: the hasher, the two token counters and the segments so far.\<close>

record feeder =
  fd_hashed :: string
  fd_cache_tokens :: nat
  fd_prompt_tokens :: nat
  fd_segments :: "segment list"

text \<open>\<open>feed\<close>, whose last argument says whether the text belongs to the cached prefix.\<close>

definition feed_text :: "bool \<Rightarrow> string \<Rightarrow> string \<Rightarrow> feeder \<Rightarrow> feeder" where
  "feed_text cached hash_text token_text f =
    (let f = (if cached then f\<lparr>fd_hashed := fd_hashed f @ hash_text\<rparr> else f)
     in if token_text = [] then f
        else
          let tokens = nat (max (estimate_tokens token_text) 0);
              f = f\<lparr>fd_prompt_tokens := saturating_add_u32 (fd_prompt_tokens f) tokens\<rparr>
          in if cached then f\<lparr>fd_cache_tokens := saturating_add_u32 (fd_cache_tokens f) tokens\<rparr> else f)"

definition fingerprint :: "'i metering \<Rightarrow> string \<Rightarrow> u64" where
  "fingerprint mx hashed = from_be_bytes (take 8 (mx_sha256 mx hashed))"

text \<open>\<open>commit\<close>: a prefix ends here, unless it is the same as the last one.\<close>

definition commit :: "'i metering \<Rightarrow> bool \<Rightarrow> int \<Rightarrow> feeder \<Rightarrow> feeder" where
  "commit mx enabled ttl f =
    (if \<not> enabled \<or> fd_cache_tokens f = 0 then f
     else
       let h = fingerprint mx (fd_hashed f); segs = fd_segments f
       in if segs \<noteq> [] \<and> sg_hash (last segs) = h \<and> sg_tokens (last segs) = fd_cache_tokens f
          then f\<lparr>fd_segments := butlast segs @ [(last segs)\<lparr>sg_ttl := max (sg_ttl (last segs)) ttl\<rparr>]\<rparr>
          else f\<lparr>fd_segments := segs @ [\<lparr>sg_hash = h, sg_tokens = fd_cache_tokens f, sg_ttl = ttl\<rparr>]\<rparr>)"

definition feed_image :: "'i metering \<Rightarrow> bool \<Rightarrow> json \<Rightarrow> feeder \<Rightarrow> feeder" where
  "feed_image mx enabled v f =
    (case image_source_parts v of (media_type, data) \<Rightarrow>
       let f = (if enabled then f\<lparr>fd_hashed := fd_hashed f @ image_signature_value (mx_serde mx) v\<rparr> else f);
           tokens = estimate_image_tokens (mx_codecs mx) (mx_images mx) media_type data;
           f = f\<lparr>fd_prompt_tokens := saturating_add_u32 (fd_prompt_tokens f) tokens\<rparr>
       in if enabled then f\<lparr>fd_cache_tokens := saturating_add_u32 (fd_cache_tokens f) tokens\<rparr> else f)"

definition feed_block :: "'i metering \<Rightarrow> bool \<Rightarrow> int \<Rightarrow> json \<Rightarrow> feeder \<Rightarrow> feeder" where
  "feed_block mx enabled ttl v f =
    (let f = (if is_image_block v then feed_image mx enabled v f
              else feed_text enabled (block_signature_value (mx_serde mx) v) (block_token_text (mx_serde mx) v) f)
     in if block_has_cache_control v then commit mx enabled ttl f else f)"

definition feed_message :: "'i metering \<Rightarrow> bool \<Rightarrow> int \<Rightarrow> chat_message \<Rightarrow> feeder \<Rightarrow> feeder" where
  "feed_message mx enabled ttl msg f =
    (let f = feed_text enabled (cm_role msg) [] f
     in case cm_content msg of
          JStr s \<Rightarrow> feed_text enabled s s f
        | JArr arr \<Rightarrow> fold (feed_block mx enabled ttl) arr f
        | _ \<Rightarrow> f)"

text \<open>Every message but the last ends a prefix.\<close>

fun feed_messages :: "'i metering \<Rightarrow> bool \<Rightarrow> int \<Rightarrow> chat_message list \<Rightarrow> feeder \<Rightarrow> feeder" where
  "feed_messages mx enabled ttl [] f = f"
| "feed_messages mx enabled ttl [msg] f = feed_message mx enabled ttl msg f"
| "feed_messages mx enabled ttl (msg # m2 # ms) f =
     feed_messages mx enabled ttl (m2 # ms) (commit mx enabled ttl (feed_message mx enabled ttl msg f))"

definition feed_tools :: "'i metering \<Rightarrow> bool \<Rightarrow> tool list \<Rightarrow> feeder \<Rightarrow> feeder" where
  "feed_tools mx enabled tools f =
     fold (\<lambda>t. feed_text enabled (tool_signature (mx_serde mx) t) (tool_token_text (mx_serde mx) t)) tools f"

text \<open>
  The system blocks in front of the first one with a cache control change with every request: they are
  counted but not hashed.
\<close>

definition feed_system :: "bool \<Rightarrow> system_message list \<Rightarrow> feeder \<Rightarrow> feeder" where
  "feed_system enabled systems f =
    (let marked = (\<lambda>s. sm_cache_control s \<noteq> None);
         skip_until = (if list_ex marked systems then length (takeWhile (\<lambda>s. \<not> marked s) systems) else 0)
     in fold (\<lambda>s. feed_text enabled (system_signature s) (sm_text s)) (drop skip_until systems)
          (fold (\<lambda>s. feed_text False [] (sm_text s)) (take skip_until systems) f))"

definition extract_segments :: "'i metering \<Rightarrow> messages_request \<Rightarrow> nat \<Rightarrow> segment list \<times> nat \<times> bool" where
  "extract_segments mx req key_id =
    (let cache_seed = isolation_seed req key_id;
         enabled = (cache_seed \<noteq> None);
         f = \<lparr>fd_hashed = (case cache_seed of Some s \<Rightarrow> s | None \<Rightarrow> ''uncacheable:key:0''),
              fd_cache_tokens = 0, fd_prompt_tokens = 0, fd_segments = []\<rparr>;
         ttl = detect_max_ttl req;
         f = feed_tools mx enabled (given (mr_tools req)) f;
         f = feed_system enabled (given (mr_system req)) f;
         f = (if 0 < fd_cache_tokens f then commit mx enabled ttl f else f);
         f = feed_messages mx enabled ttl (mr_messages req) f
     in (fd_segments f, fd_prompt_tokens f, enabled))"

subsection \<open>The usage\<close>

text \<open>The plan of a request, with what a success will enter into the table.\<close>

record cache_commit =
  cm_hashes :: "u64 list"
  cm_tokens :: "nat list"
  cm_ttl_secs :: int

record cache_plan =
  pl_usage :: cache_usage
  pl_commit :: "cache_commit option"

definition deepest_hit :: "segment_result list \<Rightarrow> nat option" where
  "deepest_hit results =
    (let hits = filter (\<lambda>i. sr_hit (results ! i)) [0..<length results]
     in if hits = [] then None else Some (last hits))"

definition compute_cache_usage ::
  "'i metering \<Rightarrow> int \<Rightarrow> messages_request \<Rightarrow> nat \<Rightarrow> cache_meter \<Rightarrow> cache_meter \<times> cache_plan" where
  "compute_cache_usage mx now req key_id m =
    (case extract_segments mx req key_id of (segments, prompt_total_est, enabled) \<Rightarrow>
       if segments = [] then
         (m, \<lparr>pl_usage = \<lparr>cu_read = 0, cu_covered_est = 0, cu_prompt_total_est = as_i32 prompt_total_est\<rparr>, pl_commit = None\<rparr>)
       else
         let hashes = map sg_hash segments; cum_tokens = map sg_tokens segments in
         case meter_lookup now hashes cum_tokens m of (m, results) \<Rightarrow>
           let cache_read = (case deepest_hit results of Some i \<Rightarrow> cum_tokens ! i | None \<Rightarrow> 0) in
           (m, \<lparr>pl_usage = \<lparr>cu_read = as_i32 cache_read, cu_covered_est = as_i32 (last cum_tokens),
                  cu_prompt_total_est = as_i32 prompt_total_est\<rparr>,
                pl_commit = (if enabled then Some \<lparr>cm_hashes = hashes, cm_tokens = cum_tokens,
                  cm_ttl_secs = sg_ttl (hd segments)\<rparr> else None)\<rparr>))"

definition commit_success :: "int \<Rightarrow> cache_plan \<Rightarrow> cache_meter \<Rightarrow> cache_meter" where
  "commit_success now p m =
    (case pl_commit p of Some c \<Rightarrow> meter_record now (cm_hashes c) (cm_tokens c) (cm_ttl_secs c) m | None \<Rightarrow> m)"

end
