(* ===== verification/Meter_Table.thy ===== *)
theory Meter_Table imports Cache_Meter begin

section \<open>What the table of prefixes guarantees\<close>

text \<open>
  What a client of the table sees of it is \<open>live\<close>: which fingerprints are hit at which time. A lookup and the
  removal of expired entries do not change it, a record adds to it, a restart from the written file keeps
  it. The interface \<open>prefix_table\<close> states these laws for the computation of the usage; the size of the table
  is bounded in every reachable state.
\<close>

subsection \<open>Lookups\<close>

lemma live_iff: "live es now h \<longleftrightarrow> (\<exists>e. hm_get es h = Some e \<and> now < me_expires_at e)"
  by (auto simp: live_def split: option.splits)

lemma live_touch [simp]: "live (touch now h es) now' k = live es now' k"
  by (auto simp: live_def touch_def hm_simps split: option.splits)

lemma lookup_loop_hits:
  "live (fst (lookup_loop now hts es)) now' k = live es now' k \<and>
   map sr_hit (snd (lookup_loop now hts es)) = map (live es now) (map fst hts)"
  by (induction now hts es arbitrary: now' k rule: lookup_loop.induct) (simp_all add: case_prod_unfold)

lemma hm_len_insert: "hm_get m k \<noteq> None \<Longrightarrow> hm_len (hm_insert k v m) = hm_len m"
proof -
  assume "hm_get m k \<noteq> None"
  then have "k \<in> fst ` set (hm_entries m)" by (simp add: hm_get_def map_of_eq_None_iff)
  then have "map fst (AList.update k v (hm_entries m)) = map fst (hm_entries m)" by (simp add: update_keys)
  then have "length (AList.update k v (hm_entries m)) = length (hm_entries m)" by (metis length_map)
  then show ?thesis by (simp add: hm_len_def hm_insert_def)
qed

lemma touch_keeps: "hm_wf es \<Longrightarrow> hm_wf (touch now h es)" "hm_len (touch now h es) = hm_len es"
  by (auto simp: touch_def hm_simps hm_len_insert split: option.splits)

lemma lookup_loop_keeps:
  "hm_wf es \<Longrightarrow> hm_wf (fst (lookup_loop now hts es))"
  "hm_len (fst (lookup_loop now hts es)) = hm_len es"
  by (induction now hts es rule: lookup_loop.induct) (simp_all add: case_prod_unfold touch_keeps)

subsection \<open>Records\<close>

lemma entered:
  "hm_get (fold (enter now ex) hts es) k =
     (case map_of (rev hts) k of
        Some t \<Rightarrow> Some \<lparr>me_tokens = t, me_expires_at = ex, me_last_hit_at = now\<rparr>
      | None \<Rightarrow> hm_get es k)"
  by (induction hts arbitrary: es) (auto simp: enter_def hm_simps map_add_def split: option.splits)

lemma wf_entered: "hm_wf es \<Longrightarrow> hm_wf (fold (enter now ex) hts es)"
  by (induction hts arbitrary: es) (simp_all add: enter_def hm_simps)

lemma take_sorted_small:
  assumes "length (filter (\<lambda>x. c \<le> f x) xs) + n \<le> length xs" and "x \<in> set (take n (sort_key f xs))"
  shows "f x < c"
proof (rule ccontr)
  assume x: "\<not> f x < c"
  let ?ys = "sort_key f xs"
  from assms(2) obtain i where i: "i < n" "i < length ?ys" "x = ?ys ! i" by (auto simp: in_set_conv_nth)
  have "sorted (map f ?ys)" by simp
  then have ge: "c \<le> f y" if "y \<in> set (drop i ?ys)" for y
  proof -
    from that obtain j where "j < length ?ys - i" "y = ?ys ! (i + j)" by (auto simp: in_set_conv_nth)
    then have "i + j < length ?ys" "y = ?ys ! (i + j)" by auto
    with \<open>sorted (map f ?ys)\<close> i have "f (?ys ! i) \<le> f y"
      using sorted_nth_mono [of "map f ?ys" i "i + j"] by simp
    with x i show ?thesis by simp
  qed
  have "length ?ys - i = length (filter (\<lambda>y. c \<le> f y) (drop i ?ys))" using ge by simp
  also have "\<dots> \<le> length (filter (\<lambda>y. c \<le> f y) (take i ?ys)) + length (filter (\<lambda>y. c \<le> f y) (drop i ?ys))" by simp
  also have "\<dots> = length (filter (\<lambda>y. c \<le> f y) ?ys)" by (metis append_take_drop_id filter_append length_append)
  also have "\<dots> = length (filter (\<lambda>y. c \<le> f y) xs)"
    by (simp add: filter_sort)
  finally show False using assms(1) i by simp
qed

lemma hm_len_remove: "hm_wf m \<Longrightarrow> hm_get m k \<noteq> None \<Longrightarrow> hm_len (hm_remove k m) = hm_len m - 1"
proof -
  assume wf: "hm_wf m" and k: "hm_get m k \<noteq> None"
  from k have "k \<in> set (map fst (hm_entries m))" by (simp add: hm_get_def map_of_eq_None_iff)
  then have "length (remove1 k (map fst (hm_entries m))) = hm_len m - 1"
    by (simp add: length_remove1 hm_len_def)
  moreover from wf have "remove1 k (map fst (hm_entries m)) = map fst (AList.delete k (hm_entries m))"
    by (simp add: hm_wf_def distinct_remove1_removeAll delete_keys)
  ultimately have "length (AList.delete k (hm_entries m)) = hm_len m - 1" by (metis length_map)
  then show ?thesis by (simp add: hm_len_def hm_remove_def)
qed

lemma hm_len_remove_all:
  "hm_wf m \<Longrightarrow> distinct ks \<Longrightarrow> (\<And>k. k \<in> set ks \<Longrightarrow> hm_get m k \<noteq> None) \<Longrightarrow>
     hm_len (fold hm_remove ks m) = hm_len m - length ks"
proof (induction ks arbitrary: m)
  case (Cons k ks)
  have "hm_len (fold hm_remove ks (hm_remove k m)) = hm_len (hm_remove k m) - length ks"
    using Cons.prems by (intro Cons.IH) (auto simp: hm_simps)
  with Cons.prems show ?case by (simp add: hm_len_remove)
qed simp

definition victims :: "cache_entries \<Rightarrow> (u64 \<times> int) list" where
  "victims es = take (hm_len es - DEFAULT_CAPACITY)
     (sort_key snd (map (\<lambda>(k, v). (k, me_last_hit_at v)) (hm_iter es)))"

lemma evict_victims: "evict_over_capacity es = fold hm_remove (map fst (victims es)) es"
  by (simp add: evict_over_capacity_def victims_def Let_def)

lemma length_hm_iter: "length (hm_iter es) = hm_len es"
  by (simp add: hm_iter_def hm_len_def)

lemma length_victims: "length (victims es) = hm_len es - DEFAULT_CAPACITY"
  by (simp add: victims_def length_hm_iter)

lemma victims_known:
  assumes "hm_wf es"
  shows "distinct (map fst (victims es))" and "k \<in> fst ` set (victims es) \<Longrightarrow> hm_get es k \<noteq> None"
proof -
  let ?l = "map (\<lambda>(k, v). (k, me_last_hit_at v)) (hm_iter es)"
  have "map fst ?l = map fst (hm_iter es)" by (simp add: case_prod_unfold)
  with assms have "distinct (map fst ?l)" by (metis distinct_hm_iter)
  then have "distinct ?l" "inj_on fst (set ?l)" by (simp_all only: distinct_map)
  then have "distinct (sort_key snd ?l)" "inj_on fst (set (sort_key snd ?l))"
    by (simp_all only: distinct_sort set_sort)
  then have "distinct (map fst (sort_key snd ?l))" by (simp only: distinct_map)
  then show "distinct (map fst (victims es))" unfolding victims_def take_map [symmetric] by (rule distinct_take)
  assume "k \<in> fst ` set (victims es)"
  then have "k \<in> fst ` set ?l" by (auto simp: victims_def dest!: in_set_takeD)
  then obtain v where "(k, v) \<in> set (hm_iter es)" by auto
  with hm_iter_get [OF assms] show "hm_get es k \<noteq> None" by auto
qed

lemma evict_len: "hm_wf es \<Longrightarrow> hm_len (evict_over_capacity es) \<le> DEFAULT_CAPACITY"
  using hm_len_remove_all [of es "map fst (victims es)"] victims_known [of es]
  by (simp add: evict_victims length_victims)

lemma evict_wf: "hm_wf es \<Longrightarrow> hm_wf (evict_over_capacity es)"
  by (simp add: evict_victims hm.kv_del_all)

lemma evict_get:
  "hm_get (evict_over_capacity es) k = (if k \<in> fst ` set (victims es) then None else hm_get es k)"
  by (simp add: evict_victims hm.kv_get_del_all)

text \<open>An entry that was used now is no victim, when the entries used now fit.\<close>

definition used_since :: "int \<Rightarrow> cache_entries \<Rightarrow> nat" where
  "used_since now es = length (filter (\<lambda>e. now \<le> me_last_hit_at (snd e)) (hm_entries es))"

lemma fresh_no_victim:
  assumes wf: "hm_wf es" and fit: "used_since now es \<le> DEFAULT_CAPACITY"
    and k: "hm_get es k = Some e" and now: "now \<le> me_last_hit_at e"
  shows "k \<notin> fst ` set (victims es)"
proof
  let ?l = "map (\<lambda>(k, v). (k, me_last_hit_at v)) (hm_iter es)"
  assume "k \<in> fst ` set (victims es)"
  then obtain t where t: "(k, t) \<in> set (victims es)" by auto
  then have "(k, t) \<in> set ?l" by (auto simp: victims_def dest!: in_set_takeD)
  then have "t = me_last_hit_at e" using hm_iter_get [OF wf] k by auto
  have "length (filter (\<lambda>x. now \<le> snd x) ?l) = length (filter (\<lambda>e. now \<le> me_last_hit_at (snd e)) (hm_iter es))"
    by (simp add: filter_map comp_def case_prod_unfold)
  also have "\<dots> = used_since now es"
    by (simp add: used_since_def hm_iter_def filter_sort)
  finally have "length (filter (\<lambda>x. now \<le> snd x) ?l) = used_since now es" .
  moreover have "length ?l = hm_len es" by (simp add: length_hm_iter)
  ultimately have "snd (k, t) < now" if "DEFAULT_CAPACITY < hm_len es"
    using that fit t by (intro take_sorted_small [of now snd ?l "hm_len es - DEFAULT_CAPACITY"])
      (auto simp: victims_def)
  moreover have "DEFAULT_CAPACITY < hm_len es" using t length_victims [of es] by (cases "victims es") auto
  ultimately show False using now \<open>t = me_last_hit_at e\<close> by simp
qed

lemma used_since_insert:
  "used_since now (hm_insert k v es) \<le> used_since now es + 1"
proof -
  have "length (filter p (AList.update k v xs)) \<le> length (filter p xs) + 1" for p and xs :: "(u64 \<times> cache_entry) list"
    by (induction xs) auto
  then show ?thesis by (simp add: used_since_def hm_insert_def)
qed

lemma used_since_entered: "used_since now (fold (enter now ex) hts es) \<le> used_since now es + length hts"
proof (induction hts arbitrary: es)
  case (Cons ht hts)
  have "used_since now (enter now ex ht es) \<le> used_since now es + 1"
    unfolding enter_def by (rule used_since_insert)
  with Cons [of "enter now ex ht es"] show ?case by simp
qed simp

subsection \<open>The interface of the table\<close>

definition meter_hits :: "cache_meter \<Rightarrow> int \<Rightarrow> u64 \<Rightarrow> bool" where
  "meter_hits m now h = live (mt_entries m) now h"

definition meter_ok :: "cache_meter \<Rightarrow> bool" where
  "meter_ok m \<longleftrightarrow> hm_wf (mt_entries m)"

text \<open>\<open>n\<close> further entries fit beside those used at this time or later.\<close>

definition meter_room :: "int \<Rightarrow> nat \<Rightarrow> cache_meter \<Rightarrow> bool" where
  "meter_room now n m \<longleftrightarrow> used_since now (mt_entries m) + n \<le> DEFAULT_CAPACITY"

locale prefix_table =
  fixes hits :: "'m \<Rightarrow> int \<Rightarrow> u64 \<Rightarrow> bool"
    and look :: "int \<Rightarrow> u64 list \<Rightarrow> nat list \<Rightarrow> 'm \<Rightarrow> 'm \<times> segment_result list"
    and rec :: "int \<Rightarrow> u64 list \<Rightarrow> nat list \<Rightarrow> int \<Rightarrow> 'm \<Rightarrow> 'm"
    and room :: "int \<Rightarrow> nat \<Rightarrow> 'm \<Rightarrow> bool"
    and ok :: "'m \<Rightarrow> bool"
  assumes look_hits: "length hs = length ts \<Longrightarrow> map sr_hit (snd (look now hs ts m)) = map (hits m now) hs"
    and look_keeps: "hits (fst (look now hs ts m)) = hits m"
    and look_ok: "ok m \<Longrightarrow> ok (fst (look now hs ts m))"
    and rec_hits: "ok m \<Longrightarrow> room now (length hs) m \<Longrightarrow> length hs = length ts \<Longrightarrow> h \<in> set hs \<Longrightarrow>
      hits (rec now hs ts ttl m) now' h \<longleftrightarrow> now' < now + clamp_ttl ttl"
    and rec_ok: "ok m \<Longrightarrow> ok (rec now hs ts ttl m)"
begin

lemma read_after_record:
  assumes "ok m" "room now (length hs) m" "length hs = length ts" "now' < now + clamp_ttl ttl"
  shows "\<forall>r \<in> set (snd (look now' hs ts (rec now hs ts ttl m))). sr_hit r"
proof -
  have "map sr_hit (snd (look now' hs ts (rec now hs ts ttl m))) = map (\<lambda>h. True) hs"
    using rec_hits [OF assms(1,2,3)] assms(4) by (simp add: look_hits [OF assms(3)])
  then have "\<forall>b \<in> set (map sr_hit (snd (look now' hs ts (rec now hs ts ttl m)))). b"
    by (simp only: set_map) auto
  then show ?thesis by simp
qed

end

lemma recorded_entry:
  assumes "meter_ok m" and "meter_room now (length hs) m" and "length hs = length ts" and "h \<in> set hs"
  shows "\<exists>e. hm_get (mt_entries (meter_record now hs ts ttl m)) h = Some e \<and> me_expires_at e = now + clamp_ttl ttl"
proof -
  let ?hts = "zip hs ts" and ?ex = "now + clamp_ttl ttl"
  let ?es = "fold (enter now ?ex) ?hts (mt_entries m)"
  from assms(1) have wf: "hm_wf ?es" by (simp add: meter_ok_def wf_entered)
  have "used_since now ?es \<le> used_since now (mt_entries m) + length ?hts" by (rule used_since_entered)
  with assms(2,3) have fit: "used_since now ?es \<le> DEFAULT_CAPACITY" by (simp add: meter_room_def)
  from assms(3,4) have "h \<in> set (map fst ?hts)" by simp
  then have "h \<in> fst ` set (rev ?hts)" by (simp only: set_map set_rev)
  then obtain t where "map_of (rev ?hts) h = Some t" by (metis map_of_eq_None_iff option.exhaust)
  then have get: "hm_get ?es h = Some \<lparr>me_tokens = t, me_expires_at = ?ex, me_last_hit_at = now\<rparr>"
    by (simp add: entered)
  from fresh_no_victim [OF wf fit get] have "h \<notin> fst ` set (victims ?es)" by simp
  with get show ?thesis by (simp add: meter_record_def evict_get)
qed

interpretation meter: prefix_table meter_hits meter_lookup meter_record meter_room meter_ok
proof unfold_locales
  fix hs :: "u64 list" and ts :: "nat list" and now and m
  assume "length hs = length ts"
  then show "map sr_hit (snd (meter_lookup now hs ts m)) = map (meter_hits m now) hs"
    using lookup_loop_hits [of now "zip hs ts" "mt_entries m"]
    by (simp add: meter_lookup_def meter_hits_def case_prod_unfold)
next
  fix now hs ts and m :: cache_meter
  show "meter_hits (fst (meter_lookup now hs ts m)) = meter_hits m"
    using lookup_loop_hits [of now "zip hs ts" "mt_entries m"]
    by (simp add: meter_lookup_def meter_hits_def case_prod_unfold fun_eq_iff)
  show "meter_ok m \<Longrightarrow> meter_ok (fst (meter_lookup now hs ts m))"
    by (simp add: meter_lookup_def meter_ok_def case_prod_unfold lookup_loop_keeps)
next
  fix now :: int and hs :: "u64 list" and ts :: "nat list" and ttl :: int and m and now' :: int and h :: u64
  assume "meter_ok m" "meter_room now (length hs) m" "length hs = length ts" "h \<in> set hs"
  from recorded_entry [OF this, of ttl]
  show "meter_hits (meter_record now hs ts ttl m) now' h \<longleftrightarrow> now' < now + clamp_ttl ttl"
    by (auto simp: meter_hits_def live_iff)
next
  fix now hs ts ttl m
  show "meter_ok m \<Longrightarrow> meter_ok (meter_record now hs ts ttl m)"
    by (simp add: meter_record_def meter_ok_def wf_entered evict_wf)
qed

subsection \<open>Reachable tables\<close>

datatype meter_op =
    Look int "u64 list" "nat list"
  | Record int "u64 list" "nat list" int
  | Background int

fun meter_step :: "cache_meter \<Rightarrow> meter_op \<Rightarrow> cache_meter \<times> (u64 \<times> cache_entry) list list" where
  "meter_step m (Look now hs ts) = (fst (meter_lookup now hs ts m), [])"
| "meter_step m (Record now hs ts ttl) = (meter_record now hs ts ttl m, [])"
| "meter_step m (Background now) =
     (case background_turn now m of (m', w) \<Rightarrow> (m', case w of Some kvs \<Rightarrow> [kvs] | None \<Rightarrow> []))"

definition meter_inv :: "nat \<Rightarrow> cache_meter \<Rightarrow> bool" where
  "meter_inv n m \<longleftrightarrow> meter_ok m \<and> hm_len (mt_entries m) \<le> max n DEFAULT_CAPACITY"

lemma evict_expired_keeps:
  "meter_ok m \<Longrightarrow> meter_ok (evict_expired now m)"
  "hm_len (mt_entries (evict_expired now m)) \<le> hm_len (mt_entries m)"
  by (auto simp: evict_expired_def Let_def meter_ok_def hm_wf_def hm_len_def
      intro: distinct_map_filter length_filter_le)

lemma flush_entries [simp]: "mt_entries (fst (flush_to_disk m)) = mt_entries m"
  by (simp add: flush_to_disk_def)

interpretation meter_runs: machine meter_step "meter_inv n" for n
proof
  fix m op
  assume inv: "meter_inv n m"
  show "meter_inv n (fst (meter_step m op))"
  proof (cases op)
    case (Look now hs ts)
    with inv show ?thesis
      using meter.look_ok [where m = m and now = now and hs = hs and ts = ts]
      by (simp add: meter_inv_def) (simp add: meter_lookup_def case_prod_unfold lookup_loop_keeps)
  next
    case (Record now hs ts ttl)
    from inv have "hm_wf (fold (enter now (now + clamp_ttl ttl)) (zip hs ts) (mt_entries m))"
      by (simp add: meter_inv_def meter_ok_def wf_entered)
    from evict_len [OF this] evict_wf [OF this] Record show ?thesis
      by (simp add: meter_inv_def meter_ok_def meter_record_def)
  next
    case (Background now)
    with inv evict_expired_keeps [where m = m and now = now] show ?thesis
      by (auto simp: meter_inv_def background_turn_def case_prod_unfold meter_ok_def)
  qed
qed

lemma new_meter_inv:
  "meter_inv (case saved of Some kvs \<Rightarrow> length kvs | None \<Rightarrow> 0) (cache_meter_new rank now saved persist)"
proof -
  have "hm_wf (fold (insert_live now) kvs es) \<and> hm_len (fold (insert_live now) kvs es) \<le> hm_len es + length kvs"
    if "hm_wf es" for kvs es
    using that
  proof (induction kvs arbitrary: es)
    case (Cons kv kvs)
    have "length (AList.update k v xs) \<le> Suc (length xs)" for k :: u64 and v :: cache_entry and xs
      by (induction xs) auto
    then have "hm_len (insert_live now kv es) \<le> hm_len es + 1"
      by (simp add: insert_live_def hm_len_def hm_insert_def)
    moreover from Cons.prems have "hm_wf (insert_live now kv es)" by (simp add: insert_live_def hm_simps)
    ultimately show ?case using Cons.IH [of "insert_live now kv es"] by simp
  qed simp
  note loaded = this [OF hm_wf_empty [of rank]]
  have "hm_len (hm_empty rank :: cache_entries) = 0" by (simp add: hm_len_def hm_empty_def)
  with loaded show ?thesis
    by (cases saved; cases persist) (simp_all add: cache_meter_new_def meter_inv_def meter_ok_def hm_wf_empty le_max_iff_disj)
qed

subsection \<open>Properties\<close>


text \<open>The background task cannot be observed by lookups: it only drops what is expired.\<close>

lemma background_invisible:
  assumes "meter_ok m" and "now \<le> now'"
  shows "meter_hits (fst (background_turn now m)) now' h = meter_hits m now' h"
proof -
  let ?p = "\<lambda>(k, v). now < me_expires_at v"
  have "map_of (filter ?p xs) h = (case map_of xs h of Some v \<Rightarrow> if now < me_expires_at v then Some v else None | None \<Rightarrow> None)"
    if "distinct (map fst xs)" for xs :: "(u64 \<times> cache_entry) list"
    using that
    by (induction xs) (auto simp: map_of_eq_None_iff image_iff split: option.splits)
  with assms show ?thesis
    by (auto simp: meter_hits_def live_def background_turn_def evict_expired_def Let_def meter_ok_def hm_wf_def
        hm_get_def split: option.splits)
qed

text \<open>What the background task writes is enough to restart from: a table built from it is hit by exactly the same
  prefixes at every later time as the table it was written from.\<close>

theorem cache_table_restored:
  assumes "meter_ok m" and "background_turn now m = (m', Some kvs)" and "now \<le> restart" and "restart \<le> now'"
  shows "meter_hits (cache_meter_new rank restart (Some kvs) True) now' h = meter_hits m now' h"
proof -
  from assms(2) have kvs: "kvs = hm_iter (mt_entries (evict_expired now m))"
    and m': "mt_entries m' = mt_entries (evict_expired now m)"
    by (auto simp: background_turn_def flush_to_disk_def split: if_splits)
  have wf: "hm_wf (mt_entries (evict_expired now m))"
    using evict_expired_keeps(1) [OF assms(1)] by (simp add: meter_ok_def)
  have loaded: "hm_get (fold (insert_live restart) xs es) h =
      (case map_of xs h of Some v \<Rightarrow> if restart < me_expires_at v then Some v else hm_get es h | None \<Rightarrow> hm_get es h)"
    if "distinct (map fst xs)" for xs es
    using that
    by (induction xs arbitrary: es) (auto simp: insert_live_def hm_simps map_of_eq_None_iff image_iff split: option.splits)
  have "map_of kvs h = hm_get (mt_entries m') h"
    using hm_iter_get [OF wf] distinct_hm_iter [OF wf] unfolding kvs m'
    by (metis map_of_eq_Some_iff option.exhaust)
  then have "meter_hits (cache_meter_new rank restart (Some kvs) True) now' h = meter_hits m' now' h"
    using loaded [of kvs "hm_empty rank"] distinct_hm_iter [OF wf] assms(4)
    by (auto simp: cache_meter_new_def meter_hits_def live_def kvs hm_simps split: option.splits)
  also have "\<dots> = meter_hits m now' h"
    using background_invisible [OF assms(1), of now now' h] assms by simp
  finally show ?thesis .
qed

definition sample_meter :: cache_meter where
  "sample_meter = \<lparr>mt_entries = \<lparr>hm_entries = [(7, \<lparr>me_tokens = 42, me_expires_at = 400, me_last_hit_at = 100\<rparr>),
      (8, \<lparr>me_tokens = 9, me_expires_at = 90, me_last_hit_at = 30\<rparr>)], hm_rank = \<lambda>_ _. 0\<rparr>,
    mt_dirty = True, mt_persist = True\<rparr>"

theorem cache_table_restored_witness:
  "meter_hits (cache_meter_new (\<lambda>_ _. 0) 200
     (Some [(7, \<lparr>me_tokens = 42, me_expires_at = 400, me_last_hit_at = 100\<rparr>)]) True) 300 7
   = meter_hits sample_meter 300 7"
  by (rule cache_table_restored [where now = 100 and m' = "fst (background_turn 100 sample_meter)"])
    (simp_all add: sample_meter_def meter_ok_def hm_wf_def background_turn_def evict_expired_def flush_to_disk_def
      hm_iter_def hm_len_def)

text \<open>
  A write that fails is not repeated: the flag is cleared before it, so that the next turn of the background
  task writes nothing unless the table was changed in the meantime.
\<close>

theorem failed_flush_not_repeated:
  assumes "meter_ok m" and "list_all (\<lambda>(k, v). later < me_expires_at v) (hm_entries (mt_entries (evict_expired now m)))"
  shows "snd (background_turn later (fst (background_turn now m))) = None"
proof -
  let ?m = "fst (background_turn now m)"
  have "mt_entries ?m = mt_entries (evict_expired now m)" by (simp add: background_turn_def)
  with assms(2) have "filter (\<lambda>(k, v). later < me_expires_at v) (hm_entries (mt_entries ?m)) = hm_entries (mt_entries ?m)"
    by (simp add: list_all_iff case_prod_unfold)
  moreover have "\<not> mt_dirty ?m \<or> \<not> mt_persist ?m"
    by (auto simp: background_turn_def flush_to_disk_def)
  moreover have "mt_persist ?m = mt_persist m"
    by (auto simp: background_turn_def flush_to_disk_def evict_expired_def Let_def)
  ultimately show ?thesis
    by (auto simp: background_turn_def [of later] evict_expired_def [of later] flush_to_disk_def Let_def hm_len_def)
qed

end
