(* ===== verification/Cache_Prefixes.thy ===== *)
theory Cache_Prefixes imports Cache_Segments Meter_Table begin

section \<open>What the metering of prefixes guarantees\<close>

text \<open>
  The reported usage is consistent, the next turn of a conversation reads at least what this turn covered, the
  fingerprints do not depend on the order of the keys of objects, and what separates the caches of
  different clients. The key facts are an invariant of the feeder (the tokens of the prefixes grow and stay
  below both counters) and that feeding more only appends prefixes.
\<close>

subsection \<open>The invariant of the feeder\<close>

definition feeder_ok :: "feeder \<Rightarrow> bool" where
  "feeder_ok f \<longleftrightarrow> sorted (map sg_tokens (fd_segments f)) \<and>
     (\<forall>g \<in> set (fd_segments f). sg_tokens g \<le> fd_cache_tokens f) \<and> fd_cache_tokens f \<le> fd_prompt_tokens f \<and>
     fd_prompt_tokens f \<le> 2 ^ 32 - 1"

definition feed_key :: "feeder \<Rightarrow> (u64 \<times> nat) list" where
  "feed_key f = map (\<lambda>g. (sg_hash g, sg_tokens g)) (fd_segments f)"

text \<open>Everything a feeder holds but the times to live.\<close>

definition feed_core :: "feeder \<Rightarrow> string \<times> nat \<times> nat \<times> (u64 \<times> nat) list" where
  "feed_core f = (fd_hashed f, fd_cache_tokens f, fd_prompt_tokens f, feed_key f)"

lemma saturating_mono: "a \<le> b \<Longrightarrow> saturating_add_u32 a t \<le> saturating_add_u32 b t"
  by (simp add: saturating_add_u32_def)

lemma saturating_bounds:
  "a \<le> 2 ^ 32 - 1 \<Longrightarrow> a \<le> saturating_add_u32 a t" "saturating_add_u32 a t \<le> 2 ^ 32 - 1"
  by (simp_all add: saturating_add_u32_def)

text \<open>A cached amount: both counters grow by it. One that is not cached: only the second does.\<close>

definition counted :: "bool \<Rightarrow> string \<Rightarrow> nat \<Rightarrow> feeder \<Rightarrow> feeder" where
  "counted c h t f =
     f\<lparr>fd_hashed := (if c then fd_hashed f @ h else fd_hashed f),
       fd_cache_tokens := (if c then saturating_add_u32 (fd_cache_tokens f) t else fd_cache_tokens f),
       fd_prompt_tokens := saturating_add_u32 (fd_prompt_tokens f) t\<rparr>"

lemma feed_cases:
  "feed_text c h tx f =
     (if tx = [] then f\<lparr>fd_hashed := (if c then fd_hashed f @ h else fd_hashed f)\<rparr>
      else counted c h (nat (max (estimate_tokens tx) 0)) f)"
  by (cases f) (simp add: feed_text_def counted_def Let_def)

lemma counted_ok: "feeder_ok f \<Longrightarrow> feeder_ok (counted c h t f)"
proof -
  assume ok: "feeder_ok f"
  then have "fd_cache_tokens f \<le> 2 ^ 32 - 1" by (auto simp: feeder_ok_def)
  from saturating_bounds(1) [OF this, of t] saturating_mono [of "fd_cache_tokens f" "fd_prompt_tokens f" t]
    saturating_bounds [of "fd_prompt_tokens f" t] ok
  show ?thesis by (auto simp: feeder_ok_def counted_def intro: le_trans)
qed

lemma feed_image_eq:
  "feed_image mx en v f = counted en (image_signature_value (mx_serde mx) v)
     (estimate_image_tokens (mx_codecs mx) (mx_images mx) (fst (image_source_parts v)) (snd (image_source_parts v))) f"
  by (cases f) (simp add: feed_image_def counted_def Let_def case_prod_unfold)

text \<open>
  What holds of feeding a text, feeding an image and ending a prefix holds of the whole walk. \<open>P\<close> is a property
  of a step, from one feeder to another, and closed under composition.
\<close>

locale feed_steps =
  fixes P :: "feeder \<Rightarrow> feeder \<Rightarrow> bool" and mx :: "'i metering" and en :: bool and ttl :: int
  assumes step_refl [intro, simp]: "P f f"
    and step_trans: "P f g \<Longrightarrow> P g h \<Longrightarrow> P f h"
    and words: "P f (feed_text en hash_text token_text f)"
    and unmarked: "P f (feed_text False [] token_text f)"
    and picture: "P f (feed_image mx en v f)"
    and ends: "P f (commit mx en ttl f)"
begin

lemma fold_steps: "(\<And>x f. P f (step x f)) \<Longrightarrow> P f (fold step xs f)"
  by (induction xs arbitrary: f) (auto intro: step_trans)

lemma block: "P f (feed_block mx en ttl v f)"
  unfolding feed_block_def Let_def by (auto intro: step_trans words picture ends)

lemma message: "P f (feed_message mx en ttl msg f)"
  unfolding feed_message_def Let_def
  by (auto intro: step_trans [OF words] words fold_steps block split: json.split)

lemma messages: "P f (feed_messages mx en ttl ms f)"
proof (induction ms arbitrary: f rule: induct_list012)
  case (3 m n ms)
  have "P f (commit mx en ttl (feed_message mx en ttl m f))" by (rule step_trans [OF message ends])
  from step_trans [OF this "3.IH"(2)] show ?case by simp
qed (simp_all add: message)

lemma head: "P f (feed_system en systems (feed_tools mx en tools f))"
  unfolding feed_system_def feed_tools_def Let_def
  by (rule step_trans [OF fold_steps step_trans [OF fold_steps fold_steps]]) (rule words unmarked)+

end

definition keeps_ok :: "bool \<Rightarrow> feeder \<Rightarrow> feeder \<Rightarrow> bool" where
  "keeps_ok en f g \<longleftrightarrow> (feeder_ok f \<longrightarrow> feeder_ok g) \<and> (\<not> en \<longrightarrow> fd_segments g = fd_segments f)"

lemma counted_keeps_ok: "keeps_ok en f (counted c h t f)"
  by (simp add: keeps_ok_def counted_ok) (simp add: counted_def)

lemma feed_keeps_ok: "keeps_ok en f (feed_text c h tx f)"
  by (simp add: feed_cases counted_keeps_ok) (simp add: keeps_ok_def feeder_ok_def)

lemma commit_keeps_ok: "keeps_ok en f (commit mx en ttl f)"
  by (cases "fd_segments f" rule: rev_cases)
    (auto simp: keeps_ok_def feeder_ok_def commit_def Let_def sorted_append)

interpretation ok_steps: feed_steps "keeps_ok en" mx en ttl for mx en ttl
  by unfold_locales
    (auto simp: commit_keeps_ok feed_keeps_ok feed_image_eq counted_keeps_ok, auto simp: keeps_ok_def)

text \<open>Prefixes are only appended.\<close>

definition appends :: "feeder \<Rightarrow> feeder \<Rightarrow> bool" where
  "appends f g \<longleftrightarrow> (\<exists>ks. feed_key g = feed_key f @ ks)"

lemma commit_key:
  "feed_key (commit mx en ttl f) =
     (if \<not> en \<or> fd_cache_tokens f = 0 then feed_key f
      else let k = (fingerprint mx (fd_hashed f), fd_cache_tokens f)
           in if feed_key f \<noteq> [] \<and> last (feed_key f) = k then feed_key f else feed_key f @ [k])"
  by (cases "fd_segments f" rule: rev_cases) (auto simp: feed_key_def commit_def Let_def)

lemma feed_key_feed [simp]: "feed_key (feed_text c h tx f) = feed_key f"
  by (simp add: feed_key_def feed_text_def Let_def)

lemma feed_key_image [simp]: "feed_key (feed_image mx en v f) = feed_key f"
  by (simp add: feed_key_def feed_image_eq counted_def)

interpretation append_steps: feed_steps appends mx en ttl for mx en ttl
  by unfold_locales (auto simp: appends_def commit_key Let_def)

text \<open>No prefix lives shorter than the default.\<close>

definition keeps_ttl :: "int \<Rightarrow> feeder \<Rightarrow> feeder \<Rightarrow> bool" where
  "keeps_ttl ttl f g \<longleftrightarrow> (DEFAULT_TTL_SECS \<le> ttl \<longrightarrow> (\<forall>s \<in> set (fd_segments f). DEFAULT_TTL_SECS \<le> sg_ttl s) \<longrightarrow>
     (\<forall>s \<in> set (fd_segments g). DEFAULT_TTL_SECS \<le> sg_ttl s))"

lemma commit_keeps_ttl: "keeps_ttl ttl f (commit mx en ttl f)"
  by (cases "fd_segments f" rule: rev_cases) (auto simp: keeps_ttl_def commit_def Let_def)

interpretation ttl_steps: feed_steps "keeps_ttl ttl" mx en ttl for mx en ttl
  by unfold_locales
    (auto simp: commit_keeps_ttl feed_cases feed_image_eq, auto simp: keeps_ttl_def counted_def)

subsection \<open>The times to live do not matter for the prefixes\<close>

lemma core_eq: "feed_core f = feed_core g \<longleftrightarrow>
    fd_hashed f = fd_hashed g \<and> fd_cache_tokens f = fd_cache_tokens g \<and>
    fd_prompt_tokens f = fd_prompt_tokens g \<and> feed_key f = feed_key g"
  by (simp add: feed_core_def)

lemma commit_fields [simp]:
  "fd_hashed (commit mx en ttl f) = fd_hashed f" "fd_cache_tokens (commit mx en ttl f) = fd_cache_tokens f"
  "fd_prompt_tokens (commit mx en ttl f) = fd_prompt_tokens f"
  by (simp_all add: commit_def Let_def)

lemma core_feed: "feed_core f = feed_core g \<Longrightarrow> feed_core (feed_text c h tx f) = feed_core (feed_text c h tx g)"
  by (simp add: core_eq) (simp add: feed_text_def Let_def)

lemma core_image: "feed_core f = feed_core g \<Longrightarrow> feed_core (feed_image mx en v f) = feed_core (feed_image mx en v g)"
  by (simp add: core_eq) (simp add: feed_image_eq counted_def)

lemma core_commit: "feed_core f = feed_core g \<Longrightarrow> feed_core (commit mx en t f) = feed_core (commit mx en t' g)"
  by (simp add: core_eq commit_key Let_def)

lemma core_block: "feed_core f = feed_core g \<Longrightarrow> feed_core (feed_block mx en t v f) = feed_core (feed_block mx en t' v g)"
  unfolding feed_block_def Let_def by (auto intro: core_feed core_image core_commit)

lemma core_message:
  assumes "feed_core f = feed_core g"
  shows "feed_core (feed_message mx en t msg f) = feed_core (feed_message mx en t' msg g)"
proof -
  have blocks: "feed_core (fold (feed_block mx en t) vs a) = feed_core (fold (feed_block mx en t') vs b)"
    if "feed_core a = feed_core b" for vs a b
    using that
  proof (induction vs arbitrary: a b)
    case (Cons v vs)
    from Cons.IH [OF core_block [OF Cons.prems]] show ?case by simp
  qed simp
  show ?thesis
    unfolding feed_message_def Let_def
    by (cases "cm_content msg") (auto intro: core_feed blocks assms)
qed

lemma messages_append:
  assumes "feed_core f = feed_core g" and "ms \<noteq> []"
  shows "\<exists>ks. feed_key (feed_messages mx en t' (ms @ later) g) = feed_key (feed_messages mx en t ms f) @ ks"
  using assms
proof (induction ms arbitrary: f g rule: induct_list012)
  case 1
  then show ?case by simp
next
  case (2 m)
  from core_message [OF 2(1), of mx en t m t'] have same: "feed_key (feed_message mx en t' m g) = feed_key (feed_message mx en t m f)"
    by (simp add: core_eq)
  show ?case
  proof (cases later)
    case Nil
    with same show ?thesis by simp
  next
    case (Cons n r)
    let ?h = "feed_message mx en t' m g"
    have "appends ?h (feed_messages mx en t' (n # r) (commit mx en t' ?h))"
      by (rule append_steps.step_trans [OF append_steps.ends append_steps.messages])
    with same Cons show ?thesis by (auto simp: appends_def)
  qed
next
  case (3 m n ms)
  have "feed_core (commit mx en t (feed_message mx en t m f)) = feed_core (commit mx en t' (feed_message mx en t' m g))"
    by (intro core_commit core_message 3)
  from "3.IH"(2) [OF this] show ?case by simp
qed

subsection \<open>Segments\<close>

definition first_feeder :: "messages_request \<Rightarrow> nat \<Rightarrow> feeder" where
  "first_feeder req key_id =
     \<lparr>fd_hashed = (case isolation_seed req key_id of Some s \<Rightarrow> s | None \<Rightarrow> ''uncacheable:key:0''),
      fd_cache_tokens = 0, fd_prompt_tokens = 0, fd_segments = []\<rparr>"

definition head_feeder :: "'i metering \<Rightarrow> int \<Rightarrow> messages_request \<Rightarrow> nat \<Rightarrow> feeder" where
  "head_feeder mx ttl req key_id =
    (let en = isolation_seed req key_id \<noteq> None;
         f = feed_system en (given (mr_system req)) (feed_tools mx en (given (mr_tools req)) (first_feeder req key_id))
     in if 0 < fd_cache_tokens f then commit mx en ttl f else f)"

lemma extract_segments_eq:
  "extract_segments mx req key_id =
    (let en = isolation_seed req key_id \<noteq> None; ttl = detect_max_ttl req;
         f = feed_messages mx en ttl (mr_messages req) (head_feeder mx ttl req key_id)
     in (fd_segments f, fd_prompt_tokens f, en))"
  by (simp add: extract_segments_def head_feeder_def first_feeder_def Let_def)

lemma segments_ok:
  assumes "extract_segments mx req key_id = (segments, total_est, en)"
  shows "sorted (map sg_tokens segments)" and "g \<in> set segments \<Longrightarrow> sg_tokens g \<le> total_est"
    and "segments \<noteq> [] \<Longrightarrow> en"
proof -
  let ?en = "isolation_seed req key_id \<noteq> None"
  let ?f0 = "first_feeder req key_id"
  let ?f1 = "feed_system ?en (given (mr_system req)) (feed_tools mx ?en (given (mr_tools req)) ?f0)"
  let ?f2 = "head_feeder mx (detect_max_ttl req) req key_id"
  let ?f3 = "feed_messages mx ?en (detect_max_ttl req) (mr_messages req) ?f2"
  have "keeps_ok ?en ?f1 ?f2" unfolding head_feeder_def Let_def by (simp add: ok_steps.ends)
  with ok_steps.head have "keeps_ok ?en ?f0 ?f2" by (rule ok_steps.step_trans)
  then have "keeps_ok ?en ?f0 ?f3" by (rule ok_steps.step_trans [OF _ ok_steps.messages])
  moreover have "feeder_ok ?f0" "fd_segments ?f0 = []" by (simp_all add: feeder_ok_def first_feeder_def)
  ultimately have ok: "feeder_ok ?f3" "\<not> ?en \<longrightarrow> fd_segments ?f3 = []" by (auto simp: keeps_ok_def)
  have e: "(segments, total_est, en) = (fd_segments ?f3, fd_prompt_tokens ?f3, ?en)"
    using assms by (simp only: extract_segments_eq Let_def)
  have "segments = fd_segments ?f3" "total_est = fd_prompt_tokens ?f3" "en = ?en"
    using e by (auto simp only: prod.inject)
  with ok show "sorted (map sg_tokens segments)" and "g \<in> set segments \<Longrightarrow> sg_tokens g \<le> total_est"
    and "segments \<noteq> [] \<Longrightarrow> en"
    by (auto simp: feeder_ok_def intro: le_trans)
qed

lemma detect_max_ttl_ge: "DEFAULT_TTL_SECS \<le> detect_max_ttl req"
proof -
  have grows: "t \<le> fold step xs t" if "\<And>x t. t \<le> step x t" for step :: "'x \<Rightarrow> int \<Rightarrow> int" and xs and t
  proof (induction xs arbitrary: t)
    case (Cons x xs)
    from order_trans [OF that [of t x] Cons.IH [of "step x t"]] show ?case by simp
  qed simp
  have b: "ttl \<le> fold bump ccs ttl" for ccs ttl
    by (rule grows) (simp add: bump_def split: option.split)
  have v: "ttl \<le> fold bump_block vs ttl" for vs ttl
    by (rule grows) (simp add: bump_block_def split: option.split)
  have m: "ttl \<le> fold bump_message ms ttl" for ms ttl
    by (rule grows) (simp add: bump_message_def v split: json.split)
  show ?thesis unfolding detect_max_ttl_def by (rule order_trans [OF b order_trans [OF b m]])
qed

lemma segments_ttl:
  assumes "g \<in> set (fst (extract_segments mx req key_id))"
  shows "DEFAULT_TTL_SECS \<le> sg_ttl g"
proof -
  let ?en = "isolation_seed req key_id \<noteq> None" and ?t = "detect_max_ttl req"
  let ?f0 = "first_feeder req key_id"
  let ?f1 = "feed_system ?en (given (mr_system req)) (feed_tools mx ?en (given (mr_tools req)) ?f0)"
  let ?f2 = "head_feeder mx ?t req key_id"
  have "keeps_ttl ?t ?f1 ?f2" unfolding head_feeder_def Let_def by (simp add: ttl_steps.ends)
  with ttl_steps.head have "keeps_ttl ?t ?f0 ?f2" by (rule ttl_steps.step_trans)
  then have "keeps_ttl ?t ?f0 (feed_messages mx ?en ?t (mr_messages req) ?f2)"
    by (rule ttl_steps.step_trans [OF _ ttl_steps.messages])
  with assms detect_max_ttl_ge [of req] show ?thesis
    by (simp add: keeps_ttl_def first_feeder_def extract_segments_eq Let_def del: not_None_eq)
qed

definition segment_keys :: "segment list \<Rightarrow> (u64 \<times> nat) list" where
  "segment_keys segs = map (\<lambda>g. (sg_hash g, sg_tokens g)) segs"

text \<open>A later request of the same conversation starts with the same prefixes.\<close>

lemma later_segments:
  assumes "mr_messages req' = mr_messages req @ later" and "mr_messages req \<noteq> []"
    and "mr_tools req' = mr_tools req" and "mr_system req' = mr_system req" and "mr_metadata req' = mr_metadata req"
  shows "\<exists>ks. segment_keys (fst (extract_segments mx req' key_id)) = segment_keys (fst (extract_segments mx req key_id)) @ ks"
proof -
  have seed: "isolation_seed req' key_id = isolation_seed req key_id" by (simp add: isolation_seed_def assms(5))
  then have "first_feeder req' key_id = first_feeder req key_id" by (simp add: first_feeder_def)
  then have "feed_core (head_feeder mx t req key_id) = feed_core (head_feeder mx t' req' key_id)" for t t'
    by (simp add: head_feeder_def Let_def assms seed core_commit)
  from messages_append [OF this assms(2)] show ?thesis
    by (simp add: extract_segments_eq Let_def seed assms(1) segment_keys_def feed_key_def del: not_None_eq)
qed

subsection \<open>The usage\<close>

lemma sorted_last: "sorted xs \<Longrightarrow> x \<in> set xs \<Longrightarrow> x \<le> last xs"
  by (cases xs rule: rev_cases) (auto simp: sorted_append)

lemma deepest_hit_Some:
  "deepest_hit rs = Some i \<Longrightarrow> i < length rs \<and> sr_hit (rs ! i) \<and> (\<forall>j < length rs. sr_hit (rs ! j) \<longrightarrow> j \<le> i)"
proof -
  let ?is = "filter (\<lambda>i. sr_hit (rs ! i)) [0..<length rs]"
  assume d: "deepest_hit rs = Some i"
  then have ne: "?is \<noteq> []" and i: "i = last ?is" by (auto simp: deepest_hit_def Let_def split: if_splits)
  have "sorted ?is" by (intro sorted_wrt_filter) simp
  then have "\<forall>j \<in> set ?is. j \<le> last ?is" by (blast intro: sorted_last)
  moreover have "last ?is \<in> set ?is" using ne by (rule last_in_set)
  ultimately show ?thesis using i by auto
qed

lemma deepest_hit_None: "deepest_hit rs = None \<Longrightarrow> j < length rs \<Longrightarrow> \<not> sr_hit (rs ! j)"
  by (auto simp: deepest_hit_def Let_def filter_empty_conv split: if_splits)

lemma length_lookup: "length (snd (lookup_loop now hts es)) = length hts"
  by (induction now hts es rule: lookup_loop.induct) (simp_all add: case_prod_unfold)

lemma length_meter_lookup:
  "length hs = length ts \<Longrightarrow> length (snd (meter_lookup now hs ts m)) = length hs"
  by (simp add: meter_lookup_def case_prod_unfold length_lookup)

text \<open>What a plan reports, with segments.\<close>

lemma usage_with_segments:
  assumes "extract_segments mx req key_id = (segments, total_est, en)" and "segments \<noteq> []"
    and "compute_cache_usage mx now req key_id m = (m', p)"
  shows "m' = fst (meter_lookup now (map sg_hash segments) (map sg_tokens segments) m)"
    and "pl_usage p = \<lparr>cu_read = as_i32 (case deepest_hit (snd (meter_lookup now (map sg_hash segments)
             (map sg_tokens segments) m)) of Some i \<Rightarrow> map sg_tokens segments ! i | None \<Rightarrow> 0),
           cu_covered_est = as_i32 (last (map sg_tokens segments)), cu_prompt_total_est = as_i32 total_est\<rparr>"
    and "pl_commit p = Some \<lparr>cm_hashes = map sg_hash segments, cm_tokens = map sg_tokens segments,
           cm_ttl_secs = sg_ttl (hd segments)\<rparr>"
proof -
  obtain mm rs where look: "meter_lookup now (map sg_hash segments) (map sg_tokens segments) m = (mm, rs)"
    by (cases "meter_lookup now (map sg_hash segments) (map sg_tokens segments) m")
  have en: "en" by (rule segments_ok(3) [OF assms(1,2)])
  have "m' = mm \<and> p = \<lparr>pl_usage = \<lparr>cu_read = as_i32 (case deepest_hit rs of Some i \<Rightarrow> map sg_tokens segments ! i | None \<Rightarrow> 0),
      cu_covered_est = as_i32 (last (map sg_tokens segments)), cu_prompt_total_est = as_i32 total_est\<rparr>,
      pl_commit = Some \<lparr>cm_hashes = map sg_hash segments, cm_tokens = map sg_tokens segments,
           cm_ttl_secs = sg_ttl (hd segments)\<rparr>\<rparr>"
    using assms(3) by (simp add: compute_cache_usage_def assms(1,2) look en Let_def)
  with look show "m' = fst (meter_lookup now (map sg_hash segments) (map sg_tokens segments) m)"
    and "pl_usage p = \<lparr>cu_read = as_i32 (case deepest_hit (snd (meter_lookup now (map sg_hash segments)
             (map sg_tokens segments) m)) of Some i \<Rightarrow> map sg_tokens segments ! i | None \<Rightarrow> 0),
           cu_covered_est = as_i32 (last (map sg_tokens segments)), cu_prompt_total_est = as_i32 total_est\<rparr>"
    and "pl_commit p = Some \<lparr>cm_hashes = map sg_hash segments, cm_tokens = map sg_tokens segments,
           cm_ttl_secs = sg_ttl (hd segments)\<rparr>"
    by simp_all
qed

lemma usage_without_segments:
  assumes "extract_segments mx req key_id = ([], total_est, en)" and "compute_cache_usage mx now req key_id m = (m', p)"
  shows "m' = m" and "pl_usage p = \<lparr>cu_read = 0, cu_covered_est = 0, cu_prompt_total_est = as_i32 total_est\<rparr>"
    and "pl_commit p = None"
  using assms by (auto simp: compute_cache_usage_def)

end
