(* ===== verification/Cache_Turns.thy ===== *)
theory Cache_Turns imports Cache_Prefixes "HOL-Library.Multiset" begin

section \<open>Turns of a conversation and the reported usage\<close>

text \<open>
  The properties of the metering as a whole: the usage of one request is consistent, the next turn of the
  same conversation reads what this turn covered, signatures do not depend on the order of keys, and what
  does and does not separate the caches of different clients.
\<close>

subsection \<open>One request\<close>

text \<open>C39: The reported usage is consistent: what is read from the cache is a part of the covered prefix, and the
  covered prefix a part of the prompt, as long as the prompt has fewer than 2^31 tokens.\<close>

theorem usage_consistent:
  assumes "compute_cache_usage mx now req key_id m = (m', p)"
    and "fst (snd (extract_segments mx req key_id)) < 2 ^ 31"
  shows "0 \<le> cu_read (pl_usage p) \<and> cu_read (pl_usage p) \<le> cu_covered_est (pl_usage p) \<and>
    cu_covered_est (pl_usage p) \<le> cu_prompt_total_est (pl_usage p)"
proof -
  obtain segments total_est en where ex: "extract_segments mx req key_id = (segments, total_est, en)"
    by (cases "extract_segments mx req key_id")
  with assms(2) have t: "total_est < 2 ^ 31" by simp
  show ?thesis
  proof (cases "segments = []")
    case True
    with ex usage_without_segments(2) [OF _ assms(1)] t show ?thesis by (simp add: as_i32_id)
  next
    case False
    let ?ts = "map sg_tokens segments"
    let ?rs = "snd (meter_lookup now (map sg_hash segments) ?ts m)"
    from segments_ok(2) [OF ex] False have l: "last ?ts \<le> total_est" by (simp add: last_map)
    have r: "(case deepest_hit ?rs of Some i \<Rightarrow> ?ts ! i | None \<Rightarrow> 0) \<le> last ?ts"
    proof (cases "deepest_hit ?rs")
      case (Some i)
      from deepest_hit_Some [OF this] have "i < length ?ts" by (simp add: length_meter_lookup)
      then have "?ts ! i \<in> set ?ts" by (rule nth_mem)
      from sorted_last [OF segments_ok(1) [OF ex] this] Some show ?thesis by simp
    qed simp
    with l t usage_with_segments(2) [OF ex False assms(1)] show ?thesis by (simp add: as_i32_id)
  qed
qed

subsection \<open>The next turn\<close>

text \<open>C20: The next turn of a conversation reads at least what this turn covered: after the success of a request was
  entered into the table, a request that adds messages to it reads, within the default time to live, all of
  the prefix that the first one covered.\<close>

theorem next_turn_reads:
  assumes "mr_messages req' = mr_messages req @ later" and "mr_messages req \<noteq> []"
    and "mr_tools req' = mr_tools req" and "mr_system req' = mr_system req" and "mr_metadata req' = mr_metadata req"
    and "meter_ok m" and "compute_cache_usage mx t1 req key_id m = (m1, p1)"
    and "meter_room t2 (length (fst (extract_segments mx req key_id))) m1"
    and "compute_cache_usage mx t3 req' key_id (commit_success t2 p1 m1) = (m3, p3)" and "t3 < t2 + 300"
    and "fst (snd (extract_segments mx req' key_id)) < 2 ^ 31"
  shows "cu_covered_est (pl_usage p1) \<le> cu_read (pl_usage p3)"
proof -
  obtain segs tot en where ex: "extract_segments mx req key_id = (segs, tot, en)"
    by (cases "extract_segments mx req key_id")
  obtain segs' tot' en' where ex': "extract_segments mx req' key_id = (segs', tot', en')"
    by (cases "extract_segments mx req' key_id")
  show ?thesis
  proof (cases "segs = []")
    case True
    with ex usage_without_segments(2) [OF _ assms(7)] usage_consistent [OF assms(9,11)] show ?thesis by simp
  next
    case False
    let ?hs = "map sg_hash segs" and ?ts = "map sg_tokens segs"
    let ?hs' = "map sg_hash segs'" and ?ts' = "map sg_tokens segs'"
    let ?m2 = "commit_success t2 p1 m1"
    let ?n = "length segs - 1"
    from later_segments [OF assms(1-5), of mx key_id] ex ex'
    obtain ks where ks: "segment_keys segs' = segment_keys segs @ ks" by auto
    from arg_cong [OF ks, of "map snd"] arg_cong [OF ks, of "map fst"]
    have ts: "?ts' = ?ts @ map snd ks" and hs: "?hs' = ?hs @ map fst ks"
      by (simp_all add: segment_keys_def comp_def)
    have n: "?n < length segs" "last ?ts = ?ts' ! ?n" "?hs' ! ?n \<in> set ?hs"
      using False by (simp_all add: ts hs last_conv_nth nth_append)
    have len: "length segs \<le> length segs'" using arg_cong [OF ts, of length] by simp
    have ok1: "meter_ok m1"
      unfolding usage_with_segments(1) [OF ex False assms(7)] by (rule meter.look_ok [OF assms(6)])
    have "DEFAULT_TTL_SECS \<le> sg_ttl (hd segs)" using segments_ttl [of "hd segs" mx req key_id] ex False by simp
    then have "t3 < t2 + clamp_ttl (sg_ttl (hd segs))"
      using assms(10) by (simp add: clamp_ttl_def DEFAULT_TTL_SECS_def MAX_TTL_SECS_def)
    moreover have "?m2 = meter_record t2 ?hs ?ts (sg_ttl (hd segs)) m1"
      using usage_with_segments(3) [OF ex False assms(7)] by (simp add: commit_success_def)
    ultimately have hit: "meter_hits ?m2 t3 (?hs' ! ?n)"
      using meter.rec_hits [OF ok1, of t2 ?hs ?ts] assms(8) ex n(3) by simp
    let ?rs = "snd (meter_lookup t3 ?hs' ?ts' ?m2)"
    have "map sr_hit ?rs = map (meter_hits ?m2 t3) ?hs'" by (rule meter.look_hits) simp
    from arg_cong [OF this, of "\<lambda>l. l ! ?n"] n(1) len hit have "sr_hit (?rs ! ?n)"
      by (simp add: length_meter_lookup)
    moreover have l: "?n < length ?rs" using n(1) len by (simp add: length_meter_lookup)
    ultimately obtain i where i: "deepest_hit ?rs = Some i"
      using deepest_hit_None [of ?rs ?n] by (cases "deepest_hit ?rs") auto
    from deepest_hit_Some [OF i] l \<open>sr_hit (?rs ! ?n)\<close> have "?n \<le> i" "i < length ?ts'"
      by (auto simp: length_meter_lookup)
    with sorted_nth_mono [OF segments_ok(1) [OF ex'], of ?n i] n(2) have le: "last ?ts \<le> ?ts' ! i" by simp
    have ne: "segs' \<noteq> []" using len False by auto
    have "?ts' ! i \<le> tot'" using segments_ok(2) [OF ex', of "segs' ! i"] \<open>i < length ?ts'\<close> by simp
    with assms(11) ex' have "?ts' ! i < 2 ^ 31" by simp
    with le i usage_with_segments(2) [OF ex False assms(7)] usage_with_segments(2) [OF ex' ne assms(9)]
    show ?thesis by (simp add: as_i32_id)
  qed
qed

subsection \<open>A sample conversation\<close>

definition sample_metering :: "nat metering" where
  "sample_metering =
    \<lparr>mx_sha256 = \<lambda>s. map (\<lambda>c. of_nat (byte_of c)) (take 8 (rev s)) @ replicate 8 0,
     mx_serde = \<lparr>from_str = \<lambda>_. Inl ''x'', to_str = \<lambda>_. ''{}''\<rparr>,
     mx_codecs = \<lparr>cd_base64_decode = \<lambda>_. Inl ''x'', cd_base64_encode = \<lambda>_. [], cd_guess_format = \<lambda>_. None,
       cd_probe = \<lambda>_. Inr None, cd_dimensions = \<lambda>_ _. None, cd_decode = \<lambda>_ _. Inl ''x'', cd_size = \<lambda>_. (0, 0),
       cd_resize = \<lambda>_ _ i. i, cd_encode_jpeg = \<lambda>_ _. Inl ''x''\<rparr>,
     mx_images = resize_config_from_env (\<lambda>_. None)\<rparr>"

definition sample_turn :: "string list \<Rightarrow> messages_request" where
  "sample_turn ts =
    \<lparr>mr_model = ''m'', mr_max_tokens = 1, mr_messages = map (\<lambda>t. \<lparr>cm_role = ''user'', cm_content = JStr t\<rparr>) ts,
     mr_stream = True, mr_system = None, mr_tools = None, mr_tool_choice = None, mr_thinking = None,
     mr_output_config = None, mr_metadata = None\<rparr>"

definition empty_meter :: cache_meter where
  "empty_meter = cache_meter_new (\<lambda>_ _. 0) 0 None False"

lemma empty_meter_ok: "meter_ok empty_meter" "meter_room t n empty_meter \<longleftrightarrow> n \<le> DEFAULT_CAPACITY"
  by (simp_all add: empty_meter_def cache_meter_new_def meter_ok_def hm_wf_empty meter_room_def used_since_def hm_empty_def hm_wf_def)

lemma sample_estimates: "estimate_tokens ''a'' = 1" "estimate_tokens ''b'' = 1" "estimate_tokens ''c'' = 1"
  by (simp_all add: estimate_tokens_def utf8_chars.simps utf8_step.simps byte_of_def Let_def)

lemma sample_seed: "isolation_seed (sample_turn ts) 7 = Some ''key:7''"
proof -
  have "nat_to_string 7 = ''7''" by code_simp
  then show ?thesis by (simp add: isolation_seed_def sample_turn_def)
qed

text \<open>The first message is a prefix of one token.\<close>

lemma sample_extract:
  "extract_segments sample_metering (sample_turn [''a'', ''b'']) 7
   = ([\<lparr>sg_hash = fingerprint sample_metering ''key:7usera'', sg_tokens = 1, sg_ttl = 300\<rparr>], 2, True)"
  "fst (snd (extract_segments sample_metering (sample_turn [''a'', ''b'', ''c'']) 7)) = 3"
  by (simp_all add: extract_segments_eq head_feeder_def first_feeder_def sample_seed Let_def)
     (simp_all add: sample_turn_def feed_system_def feed_tools_def given_def detect_max_ttl_def
      bump_message_def feed_message_def feed_text_def commit_def Let_def sample_estimates saturating_add_u32_def
      DEFAULT_TTL_SECS_def)

definition first_plan :: "cache_meter \<times> cache_plan" where
  "first_plan = compute_cache_usage sample_metering 100 (sample_turn [''a'', ''b'']) 7 empty_meter"

definition second_plan :: "cache_meter \<times> cache_plan" where
  "second_plan = compute_cache_usage sample_metering 200 (sample_turn [''a'', ''b'', ''c'']) 7
     (commit_success 150 (snd first_plan) (fst first_plan))"

theorem usage_consistent_witness:
  "0 \<le> cu_read (pl_usage (snd first_plan)) \<and> cu_read (pl_usage (snd first_plan)) \<le> cu_covered_est (pl_usage (snd first_plan)) \<and>
    cu_covered_est (pl_usage (snd first_plan)) \<le> cu_prompt_total_est (pl_usage (snd first_plan))"
  by (rule usage_consistent [where mx = sample_metering and now = 100 and req = "sample_turn [''a'', ''b'']"
        and key_id = 7 and m = empty_meter and m' = "fst first_plan"])
    (simp_all add: first_plan_def sample_extract)

lemma first_plan_table: "fst first_plan = empty_meter"
  by (simp add: first_plan_def compute_cache_usage_def sample_extract Let_def meter_lookup_def)
    (simp add: empty_meter_def cache_meter_new_def touch_def hm_simps)

theorem next_turn_reads_witness:
  "cu_covered_est (pl_usage (snd first_plan)) \<le> cu_read (pl_usage (snd second_plan))"
proof (rule next_turn_reads)
  show "mr_messages (sample_turn [''a'', ''b'', ''c'']) = mr_messages (sample_turn [''a'', ''b'']) @
      [\<lparr>cm_role = ''user'', cm_content = JStr ''c''\<rparr>]" by (simp add: sample_turn_def)
  show "mr_messages (sample_turn [''a'', ''b'']) \<noteq> []" by (simp add: sample_turn_def)
  show "compute_cache_usage sample_metering 100 (sample_turn [''a'', ''b'']) 7 empty_meter = (fst first_plan, snd first_plan)"
    by (simp add: first_plan_def)
  show "compute_cache_usage sample_metering 200 (sample_turn [''a'', ''b'', ''c'']) 7
      (commit_success 150 (snd first_plan) (fst first_plan)) = (fst second_plan, snd second_plan)"
    by (simp add: second_plan_def)
  show "meter_room 150 (length (fst (extract_segments sample_metering (sample_turn [''a'', ''b'']) 7))) (fst first_plan)"
    by (simp add: first_plan_table empty_meter_ok sample_extract DEFAULT_CAPACITY_def)
  show "fst (snd (extract_segments sample_metering (sample_turn [''a'', ''b'', ''c'']) 7)) < 2 ^ 31"
    by (simp add: sample_extract)
qed (simp_all add: empty_meter_ok sample_turn_def)

subsection \<open>Signatures\<close>

text \<open>Two values that differ in the order of the fields of objects only, at any depth.\<close>

inductive same_json :: "json \<Rightarrow> json \<Rightarrow> bool" where
  same_refl: "same_json v v"
| same_trans: "same_json u v \<Longrightarrow> same_json v w \<Longrightarrow> same_json u w"
| same_fields: "distinct (map fst kvs) \<Longrightarrow> mset kvs = mset kvs' \<Longrightarrow> same_json (JObj kvs) (JObj kvs')"
| same_in_field: "same_json v v' \<Longrightarrow> same_json (JObj (a @ (k, v) # b)) (JObj (a @ (k, v') # b))"
| same_in_item: "same_json v v' \<Longrightarrow> same_json (JArr (a @ v # b)) (JArr (a @ v' # b))"

text \<open>Sorting by key and a change of the values commute.\<close>

lemma insort_map_values:
  "insort_key fst (fst x, h (snd x)) (map (\<lambda>kv. (fst kv, h (snd kv))) xs)
   = map (\<lambda>kv. (fst kv, h (snd kv))) (insort_key fst x xs)"
  by (induction xs) auto

lemma sort_map_values:
  "sort_key fst (map (\<lambda>kv. (fst kv, h (snd kv))) kvs) = map (\<lambda>kv. (fst kv, h (snd kv))) (sort_key fst kvs)"
  by (induction kvs) (simp_all add: insort_map_values)

lemma short_mset_eq: "mset xs = mset ys \<Longrightarrow> length ys \<le> 1 \<Longrightarrow> xs = ys"
  by (cases ys) auto

lemma canonical_object:
  "canonical_json sd (JObj kvs) = ''{'' @ join_strings '','' (map (\<lambda>kc. to_str sd (JStr (fst kc)) @ '':'' @ snd kc)
     (sort_key fst (map (\<lambda>kv. (fst kv, canonical_json sd (snd kv))) kvs))) @ ''}''"
  by (simp add: sort_map_values comp_def)

text \<open>The text that stands for a tool input or a tool result in a fingerprint does not depend on the order in
  which the client wrote the fields of objects.\<close>

theorem canonical_json_order:
  assumes "same_json v w"
  shows "canonical_json sd v = canonical_json sd w"
  using assms
proof (induction v w rule: same_json.induct)
  case (same_fields kvs kvs')
  have "sort_key fst kvs = sort_key fst kvs'"
  proof (rule properties_for_sort_key)
    show "mset (sort_key fst kvs') = mset kvs" using same_fields by simp
    from same_fields have "distinct (map fst kvs')" by (metis distinct_map mset_eq_imp_distinct_iff set_mset_mset)
    with same_fields have single: "length (filter (\<lambda>x. fst x = k) zs) \<le> 1" if "mset zs = mset kvs" for k zs
    proof -
      from that same_fields(1) have "distinct (map fst zs)" by (metis distinct_map mset_eq_imp_distinct_iff set_mset_mset)
      then show ?thesis by (induction zs) (auto simp: filter_empty_conv image_iff)
    qed
    fix x
    have "mset (filter (\<lambda>y. fst x = fst y) (sort_key fst kvs')) = mset (filter (\<lambda>y. fst x = fst y) kvs)"
      using same_fields by simp
    moreover have "length (filter (\<lambda>y. fst x = fst y) kvs) \<le> 1"
      using single [of kvs "fst x"] by (simp add: eq_commute)
    ultimately show "filter (\<lambda>y. fst x = fst y) (sort_key fst kvs') = filter (\<lambda>y. fst x = fst y) kvs"
      by (rule short_mset_eq)
  qed simp
  then show ?case by simp
next
  case (same_in_field v v' a k b)
  then show ?case by (simp only: canonical_object) simp
qed simp_all

theorem canonical_json_order_witness:
  "\<forall>sd. canonical_json sd (JObj [(''b'', JInt 1), (''a'', JNull)]) = canonical_json sd (JObj [(''a'', JNull), (''b'', JInt 1)])"
  by (rule allI, rule canonical_json_order) (rule same_fields; simp)

subsection \<open>Separation of clients\<close>

text \<open>Every fingerprint is the hash of a text that begins with the seed of the client.\<close>

definition seeded :: "'i metering \<Rightarrow> string \<Rightarrow> feeder \<Rightarrow> bool" where
  "seeded mx seed f \<longleftrightarrow> (\<exists>r. fd_hashed f = seed @ r) \<and>
     (\<forall>g \<in> set (fd_segments f). \<exists>r. sg_hash g = fingerprint mx (seed @ r))"

lemma seeded_counted: "seeded mx seed f \<Longrightarrow> seeded mx seed (counted c h t f)"
  by (auto simp: seeded_def counted_def)

lemma seeded_feed: "seeded mx seed f \<Longrightarrow> seeded mx seed (feed_text c h tx f)"
  by (auto simp: feed_cases seeded_counted) (auto simp: seeded_def)

lemma seeded_commit: "seeded mx seed f \<Longrightarrow> seeded mx seed (commit mx en ttl f)"
  by (cases "fd_segments f" rule: rev_cases) (auto simp: seeded_def commit_def Let_def)

interpretation seed_steps: feed_steps "\<lambda>f g. seeded mx seed f \<longrightarrow> seeded mx seed g" mx en ttl for mx seed en ttl
  by unfold_locales (auto simp: seeded_feed seeded_commit feed_image_eq seeded_counted)

lemma segments_hash_seed:
  assumes "isolation_seed req key_id = Some seed" and "g \<in> set (fst (extract_segments mx req key_id))"
  shows "\<exists>r. sg_hash g = fingerprint mx (seed @ r)"
proof -
  let ?t = "detect_max_ttl req"
  let ?f1 = "feed_system True (given (mr_system req)) (feed_tools mx True (given (mr_tools req)) (first_feeder req key_id))"
  have "seeded mx seed (first_feeder req key_id)" by (simp add: seeded_def first_feeder_def assms(1))
  with seed_steps.head have "seeded mx seed ?f1" by blast
  then have "seeded mx seed (head_feeder mx ?t req key_id)"
    by (simp add: head_feeder_def Let_def assms(1) seeded_commit)
  with seed_steps.messages have "seeded mx seed (feed_messages mx True ?t (mr_messages req) (head_feeder mx ?t req key_id))"
    by blast
  with assms show ?thesis by (simp add: seeded_def extract_segments_eq Let_def)
qed

text \<open>
  The session of the metadata is all that separates clients: two keys that name the same session share their
  prefixes.
\<close>

lemma session_shared_by_keys:
  assumes "isolation_seed req 0 \<noteq> None"
  shows "extract_segments mx req key_id = extract_segments mx req key_id'"
proof -
  from assms have "isolation_seed req key_id = isolation_seed req key_id'"
    by (auto simp: isolation_seed_def split: option.splits)
  then show ?thesis by (simp add: extract_segments_def)
qed

definition keyed_request :: "string \<Rightarrow> json list \<Rightarrow> messages_request" where
  "keyed_request r contents =
    \<lparr>mr_model = ''m'', mr_max_tokens = 1, mr_messages = map (\<lambda>c. \<lparr>cm_role = r, cm_content = c\<rparr>) contents,
     mr_stream = True, mr_system = None, mr_tools = None, mr_tool_choice = None, mr_thinking = None,
     mr_output_config = None, mr_metadata = None\<rparr>"

definition with_first_role :: "string \<Rightarrow> messages_request \<Rightarrow> messages_request" where
  "with_first_role r req = req\<lparr>mr_messages :=
     (case mr_messages req of [] \<Rightarrow> [] | msg # ms \<Rightarrow> msg\<lparr>cm_role := r @ cm_role msg\<rparr> # ms)\<rparr>"

lemma seed_of_keys: "nat_to_string (Suc 0) = ''1''" "nat_to_string 12 = ''12''"
  by code_simp+

text \<open>Without a session the key of the client is the seed, and nothing separates it from what follows: the
  client with key 1 can share the prefixes of the client with key 12, by a first message whose role starts
  with a 2.\<close>

theorem keys_not_separated:
  "extract_segments mx (with_first_role ''2'' (keyed_request r (c # cs))) 1
   = extract_segments mx (keyed_request r (c # cs)) 12"
proof -
  let ?r1 = "with_first_role ''2'' (keyed_request r (c # cs))" and ?r2 = "keyed_request r (c # cs)"
  let ?rest = "map (\<lambda>c. \<lparr>cm_role = r, cm_content = c\<rparr>) cs"
  have seeds: "isolation_seed ?r1 1 = Some ''key:1''" "isolation_seed ?r2 12 = Some ''key:12''"
    by (simp_all add: isolation_seed_def keyed_request_def with_first_role_def seed_of_keys)
  have ttl: "detect_max_ttl ?r1 = detect_max_ttl ?r2"
    by (simp add: detect_max_ttl_def keyed_request_def with_first_role_def given_def bump_message_def)
  have head: "head_feeder mx t ?r1 1 = \<lparr>fd_hashed = ''key:1'', fd_cache_tokens = 0, fd_prompt_tokens = 0, fd_segments = []\<rparr>"
    "head_feeder mx t ?r2 12 = \<lparr>fd_hashed = ''key:12'', fd_cache_tokens = 0, fd_prompt_tokens = 0, fd_segments = []\<rparr>" for t
    by (simp_all only: head_feeder_def first_feeder_def seeds Let_def option.case)
      (simp_all add: feed_system_def feed_tools_def keyed_request_def with_first_role_def given_def)
  have m: "feed_message mx True t \<lparr>cm_role = ''2'' @ r, cm_content = c\<rparr> (head_feeder mx t ?r1 1)
      = feed_message mx True t \<lparr>cm_role = r, cm_content = c\<rparr> (head_feeder mx t ?r2 12)" for t
  proof -
    have "feed_text True (''2'' @ r) [] \<lparr>fd_hashed = ''key:1'', fd_cache_tokens = 0, fd_prompt_tokens = 0, fd_segments = []\<rparr>
        = feed_text True r [] \<lparr>fd_hashed = ''key:12'', fd_cache_tokens = 0, fd_prompt_tokens = 0, fd_segments = []\<rparr>"
      by (simp add: feed_text_def)
    then show ?thesis unfolding feed_message_def Let_def head by (simp only: chat_message.simps)
  qed
  have "feed_messages mx True t (\<lparr>cm_role = ''2'' @ r, cm_content = c\<rparr> # ?rest) (head_feeder mx t ?r1 1)
      = feed_messages mx True t (\<lparr>cm_role = r, cm_content = c\<rparr> # ?rest) (head_feeder mx t ?r2 12)" for t
    by (cases ?rest) (simp_all only: feed_messages.simps m)
  moreover have "mr_messages ?r1 = \<lparr>cm_role = ''2'' @ r, cm_content = c\<rparr> # ?rest"
    and "mr_messages ?r2 = \<lparr>cm_role = r, cm_content = c\<rparr> # ?rest"
    by (simp_all add: keyed_request_def with_first_role_def)
  ultimately show ?thesis
    by (simp only: extract_segments_eq Let_def seeds ttl option.distinct not_False_eq_True simp_thms)
qed

end
