(* ===== verification/Tool_Schemas.thy ===== *)
theory Tool_Schemas imports Events Tool_Mapping Tool_Pairing Api_Types begin

section \<open>Definitions of tools (src/src/anthropic/converter.rs)\<close>

text \<open>
  The tools a client offers become definitions the upstream accepts: their schemas are brought into the
  older dialect it knows, the built-in tools of the client get the names, schemas and descriptions of the
  upstream's own, long names are shortened, and of several tools with the same name only the first is
  kept. The lower-case mapping and SHA-256 are parameters.
\<close>

subsection \<open>Schemas\<close>

definition map_remove :: "string \<Rightarrow> json_map \<Rightarrow> json_map" where
  "map_remove k obj = AList.delete k obj"

lemma map_of_map_remove [simp]: "map_of (map_remove k obj) = (map_of obj)(k := None)"
  by (simp add: map_remove_def delete_conv fun_eq_iff)

lemma set_map_remove: "set (map_remove k obj) \<subseteq> set obj"
  by (auto simp: map_remove_def AList.delete_eq)

definition is_object_variant :: "json \<Rightarrow> bool" where
  "is_object_variant v \<longleftrightarrow> (case v of JObj m \<Rightarrow> Option.bind (map_of m ''type'') json_as_str = Some ''object'' | _ \<Rightarrow> False)"

text \<open>What the first variant that is an object adds: four of its fields, where they are missing.\<close>

definition adopt_field :: "json_map \<Rightarrow> string \<Rightarrow> json_map \<Rightarrow> json_map" where
  "adopt_field m key obj = (case map_of m key of Some v \<Rightarrow> or_insert key v obj | None \<Rightarrow> obj)"

definition adopt_variant :: "json list \<Rightarrow> json_map \<Rightarrow> json_map" where
  "adopt_variant variants obj =
    (case find is_object_variant variants of
       Some (JObj m) \<Rightarrow> fold (adopt_field m) [''properties'', ''required'', ''additionalProperties'', ''description''] obj
     | _ \<Rightarrow> obj)"

definition strip_combinator :: "bool \<Rightarrow> string \<Rightarrow> json_map \<Rightarrow> json_map" where
  "strip_combinator has_properties_initially combinator obj =
    (case map_of obj combinator of
       Some (JArr variants) \<Rightarrow>
         (let obj = map_remove combinator obj
          in if has_properties_initially \<or> map_of obj ''properties'' \<noteq> None then obj else adopt_variant variants obj)
     | _ \<Rightarrow> map_remove combinator obj)"

definition strip_top_level_combinators :: "json_map \<Rightarrow> json_map" where
  "strip_top_level_combinators obj =
     fold (strip_combinator (map_of obj ''properties'' \<noteq> None)) [''oneOf'', ''anyOf'', ''allOf''] obj"

text \<open>The constraints of one property that the older dialect does not know.\<close>

definition drop_numeric :: "string \<Rightarrow> json_map \<Rightarrow> json_map" where
  "drop_numeric key obj = (if Option.bind (map_of obj key) json_as_f64 \<noteq> None then map_remove key obj else obj)"

definition drop_large :: "string \<Rightarrow> json_map \<Rightarrow> json_map" where
  "drop_large key obj =
    (case Option.bind (map_of obj key) json_as_f64 of
       Some v \<Rightarrow> if 2147483647 < v \<or> v < - 2147483648 then map_remove key obj else obj
     | None \<Rightarrow> obj)"

definition drop_constraints :: "json_map \<Rightarrow> json_map" where
  "drop_constraints obj =
     drop_large ''minimum'' (drop_large ''maximum''
       (drop_numeric ''exclusiveMaximum'' (drop_numeric ''exclusiveMinimum'' (map_remove ''$schema'' obj))))"

lemma set_drop_constraints: "set (drop_constraints obj) \<subseteq> set obj"
proof -
  have "set (drop_numeric k o1) \<subseteq> set o1" and "set (drop_large k o1) \<subseteq> set o1" for k o1
    using set_map_remove [of k o1] by (auto simp: drop_numeric_def drop_large_def split: option.splits)
  then show ?thesis unfolding drop_constraints_def using set_map_remove [of "''$schema''" obj] by (meson subset_trans)
qed

lemma size_of_field: "map_of (drop_constraints obj) k = Some v \<Longrightarrow> size v < size (JObj obj)"
proof -
  assume "map_of (drop_constraints obj) k = Some v"
  then have "(k, v) \<in> set obj" using set_drop_constraints by (auto dest: map_of_SomeD)
  then show ?thesis by (induction obj) auto
qed

text \<open>The values of nested properties and of items are normalised too; \<open>properties\<close> that are no object go.\<close>

lemma size_in_object_fields: "kv \<in> set props \<Longrightarrow> size (snd kv) < size (JObj props)"
  by (induction props) auto

definition put_properties :: "json_map option \<Rightarrow> json_map \<Rightarrow> json_map" where
  "put_properties props obj =
    (case props of
       Some p \<Rightarrow> map_insert ''properties'' (JObj p) (map_remove ''properties'' obj)
     | None \<Rightarrow> map_remove ''properties'' obj)"

definition put_items :: "json option \<Rightarrow> json_map \<Rightarrow> json_map" where
  "put_items items obj = (case items of Some i \<Rightarrow> map_insert ''items'' i (map_remove ''items'' obj) | None \<Rightarrow> obj)"

function normalize_property_schema :: "json \<Rightarrow> json" where
  "normalize_property_schema v =
    (case v of
       JObj obj \<Rightarrow>
         JObj (put_items
           (case map_of (drop_constraints obj) ''items'' of Some i \<Rightarrow> Some (normalize_property_schema i) | None \<Rightarrow> None)
           (put_properties
             (case map_of (drop_constraints obj) ''properties'' of
                Some (JObj props) \<Rightarrow> Some (map (\<lambda>kv. (fst kv, normalize_property_schema (snd kv))) props)
              | _ \<Rightarrow> None)
             (drop_constraints obj)))
     | _ \<Rightarrow> v)"
  by pat_completeness auto
termination
proof (relation "measure size", goal_cases)
  case 1
  show ?case by simp
next
  case (2 v obj i)
  then show ?case using size_of_field by simp
next
  case (3 v obj p props kv)
  then have "size (snd kv) < size (JObj props)" by (intro size_in_object_fields)
  also have "\<dots> < size v" using size_of_field [of obj "''properties''" "JObj props"] 3 by simp
  finally show ?case by simp
qed

declare normalize_property_schema.simps [simp del]

definition only_strings :: "json list \<Rightarrow> json list" where
  "only_strings arr = map JStr (List.map_filter json_as_str arr)"

definition normalize_json_schema :: "json \<Rightarrow> json" where
  "normalize_json_schema schema =
    (case schema of
       JObj obj \<Rightarrow>
         let obj = strip_top_level_combinators (map_remove ''$schema'' obj);
             obj = (if Option.bind (map_of obj ''type'') json_as_str \<noteq> Some ''object''
                    then map_insert ''type'' (JStr ''object'') obj else obj);
             properties = (case map_of obj ''properties'' of
                 Some (JObj props) \<Rightarrow> map (\<lambda>kv. (fst kv, normalize_property_schema (snd kv))) props | _ \<Rightarrow> []);
             obj = map_insert ''properties'' (JObj properties) (map_remove ''properties'' obj);
             required = (case map_of obj ''required'' of Some (JArr arr) \<Rightarrow> only_strings arr | _ \<Rightarrow> []);
             obj = map_insert ''required'' (JArr required) (map_remove ''required'' obj)
         in (case map_of obj ''additionalProperties'' of
               Some (JBool _) \<Rightarrow> JObj obj
             | Some (JObj _) \<Rightarrow> JObj obj
             | _ \<Rightarrow> JObj (map_insert ''additionalProperties'' (JBool True) obj))
     | _ \<Rightarrow> JObj [(''type'', JStr ''object''), (''properties'', JObj []), (''required'', JArr []),
              (''additionalProperties'', JBool True)])"

subsection \<open>The tools of the upstream\<close>

definition WRITE_TOOL_DESCRIPTION_SUFFIX :: string where
  "WRITE_TOOL_DESCRIPTION_SUFFIX =
     ''- IMPORTANT: The upstream Kiro API can truncate one assistant response before a large tool argument '' @
     ''is complete. If the content to write exceeds 150 lines, 8,000 characters, or roughly 4,000 tokens, '' @
     ''you MUST NOT write it all at once. Write only a small skeleton or first chunk using this tool (no '' @
     ''more than 50 lines and no more than 4,000 characters), leave a unique placeholder if needed, then '' @
     ''use `Edit` to append or replace the remaining content in chunks of no more than 50 lines and no '' @
     ''more than 4,000 characters each. If a Write/Edit attempt fails, do not retry the same large '' @
     ''payload; split it smaller.''"

definition EDIT_TOOL_DESCRIPTION_SUFFIX :: string where
  "EDIT_TOOL_DESCRIPTION_SUFFIX =
     ''- IMPORTANT: The upstream Kiro API can truncate one assistant response before a large tool argument '' @
     ''is complete. If `old_string` or `new_string` exceeds 50 lines, 8,000 characters, or roughly 4,000 '' @
     ''tokens, you MUST split the modification into multiple Edit calls, each replacing no more than 50 '' @
     ''lines and no more than 4,000 characters at a time. If used to append content, leave a unique '' @
     ''placeholder to help append content. On the final chunk, do NOT include the placeholder. If an Edit '' @
     ''attempt fails, do not retry the same large payload; split it smaller.''"

definition BASH_TOOL_DESCRIPTION_SUFFIX :: string where
  "BASH_TOOL_DESCRIPTION_SUFFIX =
     ''- IMPORTANT: Do not send very large commands, inline scripts, or heredocs through Bash. If a '' @
     ''command would exceed 100 lines, 8,000 characters, or roughly 4,000 tokens, create or modify a '' @
     ''script/file with chunked Write/Edit calls first, then run a short Bash command that executes it. If '' @
     ''a Bash attempt fails due to argument size or truncation, do not retry the same large command; split '' @
     ''it smaller.''"

definition kiro_builtin_tool_description :: "string \<Rightarrow> string \<Rightarrow> string" where
  "kiro_builtin_tool_description name fallback =
    (if name = ''fs_write'' then ''Write text content to a file.'' @ [CHR 0x0A] @ WRITE_TOOL_DESCRIPTION_SUFFIX
     else if name = ''str_replace'' then ''Replace an exact string in a file.'' @ [CHR 0x0A] @ EDIT_TOOL_DESCRIPTION_SUFFIX
     else if name = ''execute_bash'' then ''Execute the specified bash command.'' @ [CHR 0x0A] @ BASH_TOOL_DESCRIPTION_SUFFIX
     else if name = ''read_file'' then ''Read a single file with optional line range specification.''
     else if name = ''file_search'' then ''Search for files by fuzzy file path query.''
     else if name = ''grep_search'' then ''Search file contents using a regex pattern.''
     else if name = ''list_directory'' then ''List directory contents.''
     else if name = ''web_search'' then ''Search the web for up-to-date information.''
     else if is_blank fallback then name
     else fallback)"

definition optional_schema :: "json \<Rightarrow> json" where
  "optional_schema schema = JObj [(''anyOf'', JArr [schema, JObj [(''type'', JStr ''null'')]])]"

definition kiro_builtin_tool_schema :: "string \<Rightarrow> json option" where
  "kiro_builtin_tool_schema name =
    (if name = ''fs_write'' then Some (JObj [(''type'', JStr ''object''),
        (''properties'', JObj [
          (''path'', JObj [(''type'', JStr ''string''), (''description'', JStr ''Absolute path to file.'')]),
          (''text'', JObj [(''type'', JStr ''string''), (''description'', JStr ''Contents to write into the file.'')])]),
        (''required'', JArr [JStr ''path'', JStr ''text'']), (''additionalProperties'', JBool False)])
     else if name = ''str_replace'' then Some (JObj [(''type'', JStr ''object''),
        (''properties'', JObj [
          (''path'', JObj [(''type'', JStr ''string''), (''description'', JStr ''Absolute path to file.'')]),
          (''oldStr'', JObj [(''type'', JStr ''string''), (''description'', JStr ''Exact string to replace.'')]),
          (''newStr'', JObj [(''type'', JStr ''string''), (''description'', JStr ''Replacement string.'')])]),
        (''required'', JArr [JStr ''path'', JStr ''oldStr'', JStr ''newStr'']), (''additionalProperties'', JBool False)])
     else if name = ''execute_bash'' then Some (JObj [(''type'', JStr ''object''),
        (''properties'', JObj [
          (''command'', JObj [(''type'', JStr ''string''), (''description'', JStr ''Bash command to execute.'')]),
          (''timeout'', optional_schema (JObj [(''type'', JStr ''number''), (''description'', JStr ''Optional timeout in milliseconds.'')]))]),
        (''required'', JArr [JStr ''command'']), (''additionalProperties'', JBool False)])
     else if name = ''read_file'' then Some (JObj [(''type'', JStr ''object''),
        (''properties'', JObj [
          (''path'', JObj [(''type'', JStr ''string''), (''description'', JStr ''Path to file to read.'')]),
          (''start_line'', optional_schema (JObj [(''type'', JStr ''number''), (''description'', JStr ''Starting line number.'')])),
          (''end_line'', optional_schema (JObj [(''type'', JStr ''number''), (''description'', JStr ''Ending line number.'')])),
          (''explanation'', JObj [(''type'', JStr ''string''), (''description'', JStr ''Why this file is being read.'')])]),
        (''required'', JArr [JStr ''path'', JStr ''explanation'']), (''additionalProperties'', JBool False)])
     else if name = ''file_search'' then Some (JObj [(''type'', JStr ''object''),
        (''properties'', JObj [
          (''query'', JObj [(''type'', JStr ''string''), (''description'', JStr ''Fuzzy filename query.'')]),
          (''explanation'', JObj [(''type'', JStr ''string''), (''description'', JStr ''Why this search is being performed.'')]),
          (''excludePattern'', optional_schema (JObj [(''type'', JStr ''string''), (''description'', JStr ''Glob pattern for files to exclude.'')])),
          (''includeIgnoredFiles'', optional_schema (JObj [(''type'', JStr ''string''), (''description'', JStr ''Whether to include ignored files, yes or no.'')]))]),
        (''required'', JArr [JStr ''query'', JStr ''explanation'']), (''additionalProperties'', JBool False)])
     else if name = ''grep_search'' then Some (JObj [(''type'', JStr ''object''),
        (''properties'', JObj [
          (''query'', JObj [(''type'', JStr ''string''), (''minLength'', JInt 1), (''description'', JStr ''Regex pattern to search for.'')]),
          (''caseSensitive'', optional_schema (JObj [(''type'', JStr ''boolean''), (''description'', JStr ''Whether the search should be case sensitive.'')])),
          (''includePattern'', optional_schema (JObj [(''type'', JStr ''string''), (''description'', JStr ''Glob pattern for files to include.'')])),
          (''excludePattern'', optional_schema (JObj [(''type'', JStr ''string''), (''description'', JStr ''Glob pattern for files to exclude.'')])),
          (''explanation'', optional_schema (JObj [(''type'', JStr ''string''), (''description'', JStr ''Why this search is being performed.'')]))]),
        (''required'', JArr [JStr ''query'']), (''additionalProperties'', JBool False)])
     else if name = ''list_directory'' then Some (JObj [(''type'', JStr ''object''),
        (''properties'', JObj [
          (''path'', JObj [(''type'', JStr ''string''), (''description'', JStr ''Path to directory.'')]),
          (''depth'', optional_schema (JObj [(''type'', JStr ''number''), (''description'', JStr ''Depth of recursive listing.'')])),
          (''explanation'', JObj [(''type'', JStr ''string''), (''description'', JStr ''Why this directory is being listed.'')])]),
        (''required'', JArr [JStr ''path'', JStr ''explanation'']), (''additionalProperties'', JBool False)])
     else if name = ''web_search'' then Some (JObj [(''type'', JStr ''object''),
        (''properties'', JObj [
          (''query'', JObj [(''type'', JStr ''string''), (''description'', JStr ''Search query.'')])]),
        (''required'', JArr [JStr ''query'']), (''additionalProperties'', JBool False)])
     else None)"

subsection \<open>Conversion\<close>

text \<open>Errors of the conversion; for an unsupported tool the model keeps its name in place of the message.\<close>

datatype conversion_error =
    UnsupportedModel string
  | EmptyMessages
  | UnsupportedMapping string
  | InvalidImage string

definition truncate_chars :: "nat \<Rightarrow> string \<Rightarrow> string" where
  "truncate_chars n s = (case char_offset n s of Some i \<Rightarrow> take i s | None \<Rightarrow> s)"

definition tool_suffix :: "string \<Rightarrow> string" where
  "tool_suffix name =
    (if name = ''Write'' then WRITE_TOOL_DESCRIPTION_SUFFIX
     else if name = ''Edit'' then EDIT_TOOL_DESCRIPTION_SUFFIX
     else if name = ''Bash'' then BASH_TOOL_DESCRIPTION_SUFFIX
     else [])"

definition is_builtin_tool :: "tool_compatibility_mode \<Rightarrow> string \<Rightarrow> bool" where
  "is_builtin_tool mode name \<longleftrightarrow> is_claude_code_mode mode \<and> claude_code_tool_name_to_kiro name \<noteq> None"

definition tool_description :: "tool_compatibility_mode \<Rightarrow> tool \<Rightarrow> string \<Rightarrow> string" where
  "tool_description mode t mapped_name =
    truncate_chars 10000
      (if is_builtin_tool mode (tl_name t) then kiro_builtin_tool_description mapped_name (tl_description t)
       else
         let suffix = tool_suffix (tl_name t);
             description = (if suffix \<noteq> [] then tl_description t @ [CHR 0x0A] @ suffix else tl_description t)
         in if is_blank description then tl_name t else description)"

definition tool_schema :: "tool_compatibility_mode \<Rightarrow> tool \<Rightarrow> string \<Rightarrow> conversion_error + json" where
  "tool_schema mode t mapped_name =
    (if is_builtin_tool mode (tl_name t) then
       (case kiro_builtin_tool_schema mapped_name of
          Some s \<Rightarrow> Inr s | None \<Rightarrow> Inl (UnsupportedMapping (tl_name t)))
     else Inr (normalize_json_schema (JObj (tl_input_schema t))))"

text \<open>The loop, with the lower-case names seen so far and the map of shortened and renamed names.\<close>

fun convert_tool_list ::
  "(string \<Rightarrow> string) \<Rightarrow> (string \<Rightarrow> string) \<Rightarrow> tool_compatibility_mode \<Rightarrow> tool list \<Rightarrow> string set \<Rightarrow> name_map
     \<Rightarrow> conversion_error + tool_definition list \<times> name_map" where
  "convert_tool_list lower sha mode [] seen names = Inr ([], names)"
| "convert_tool_list lower sha mode (t # ts) seen names =
    (if is_claude_code_mode mode \<and> tl_name t = ''fs_append'' then convert_tool_list lower sha mode ts seen names
     else
       case map_client_tool_name_to_kiro sha (tl_name t) names mode of
         (mapped_name, names) \<Rightarrow>
           if lower mapped_name \<in> seen then convert_tool_list lower sha mode ts seen names
           else
             (case tool_schema mode t mapped_name of
                Inl e \<Rightarrow> Inl e
              | Inr schema \<Rightarrow>
                  (case convert_tool_list lower sha mode ts (insert (lower mapped_name) seen) names of
                     Inl e \<Rightarrow> Inl e
                   | Inr (out, names) \<Rightarrow>
                       Inr (\<lparr>td_name = mapped_name, td_description = tool_description mode t mapped_name, td_schema = schema\<rparr> # out, names))))"

definition convert_tools ::
  "(string \<Rightarrow> string) \<Rightarrow> (string \<Rightarrow> string) \<Rightarrow> tool list option \<Rightarrow> name_map \<Rightarrow> tool_compatibility_mode
     \<Rightarrow> conversion_error + tool_definition list \<times> name_map" where
  "convert_tools lower sha tools names mode =
    (case tools of None \<Rightarrow> Inr ([], names) | Some ts \<Rightarrow> convert_tool_list lower sha mode ts {} names)"

subsection \<open>The schemas that reach the upstream\<close>

text \<open>A property without anything the older dialect does not know, at every depth.\<close>

inductive property_ok :: "json \<Rightarrow> bool" where
  no_object: "\<not> is_object v \<Longrightarrow> property_ok v"
| property: "map_of obj ''$schema'' = None \<Longrightarrow>
    Option.bind (map_of obj ''exclusiveMinimum'') json_as_f64 = None \<Longrightarrow>
    Option.bind (map_of obj ''exclusiveMaximum'') json_as_f64 = None \<Longrightarrow>
    (\<forall>v. Option.bind (map_of obj ''maximum'') json_as_f64 = Some v \<longrightarrow> - 2147483648 \<le> v \<and> v \<le> 2147483647) \<Longrightarrow>
    (\<forall>v. Option.bind (map_of obj ''minimum'') json_as_f64 = Some v \<longrightarrow> - 2147483648 \<le> v \<and> v \<le> 2147483647) \<Longrightarrow>
    (\<forall>p. map_of obj ''properties'' = Some p \<longrightarrow> (\<exists>props. p = JObj props \<and> (\<forall>kv \<in> set props. property_ok (snd kv)))) \<Longrightarrow>
    (\<forall>i. map_of obj ''items'' = Some i \<longrightarrow> property_ok i) \<Longrightarrow> property_ok (JObj obj)"

text \<open>A tool schema: an object type without combinators, with properties, required names and a closing rule.\<close>

definition tool_schema_ok :: "json \<Rightarrow> bool" where
  "tool_schema_ok s \<longleftrightarrow> (\<exists>obj props required.
     s = JObj obj \<and> map_of obj ''type'' = Some (JStr ''object'') \<and> map_of obj ''$schema'' = None \<and>
     (\<forall>c \<in> {''oneOf'', ''anyOf'', ''allOf''}. map_of obj c = None) \<and>
     map_of obj ''properties'' = Some (JObj props) \<and> (\<forall>kv \<in> set props. property_ok (snd kv)) \<and>
     map_of obj ''required'' = Some (JArr required) \<and> (\<forall>r \<in> set required. \<exists>n. r = JStr n) \<and>
     (\<exists>a. map_of obj ''additionalProperties'' = Some a \<and> ((\<exists>b. a = JBool b) \<or> is_object a)))"

definition too_large :: "json_map \<Rightarrow> string \<Rightarrow> bool" where
  "too_large obj key \<longleftrightarrow> (case Option.bind (map_of obj key) json_as_f64 of
     Some v \<Rightarrow> 2147483647 < v \<or> v < - 2147483648 | None \<Rightarrow> False)"

lemma drop_numeric_get:
  "map_of (drop_numeric key obj) k =
     (if k = key \<and> Option.bind (map_of obj key) json_as_f64 \<noteq> None then None else map_of obj k)"
  by (auto simp: drop_numeric_def)

lemma drop_large_get:
  "map_of (drop_large key obj) k = (if k = key \<and> too_large obj key then None else map_of obj k)"
  by (simp add: drop_large_def too_large_def split: option.split)

lemma too_large_cong: "map_of a k = map_of b k \<Longrightarrow> too_large a k = too_large b k"
  by (simp add: too_large_def)

lemma within_range: "\<not> too_large obj key \<Longrightarrow> Option.bind (map_of obj key) json_as_f64 = Some v \<Longrightarrow>
    - 2147483648 \<le> v \<and> v \<le> 2147483647"
  by (auto simp: too_large_def)

lemma drop_large_range: "\<not> too_large (drop_large key obj) key"
  by (simp add: too_large_def [of "drop_large key obj"] drop_large_get) (simp add: too_large_def)

lemma drop_numeric_none: "Option.bind (map_of (drop_numeric key obj) key) json_as_f64 = None"
  by (simp add: drop_numeric_get)

lemma drop_constraints_get:
  "map_of (drop_constraints obj) ''$schema'' = None"
  "Option.bind (map_of (drop_constraints obj) ''exclusiveMinimum'') json_as_f64 = None"
  "Option.bind (map_of (drop_constraints obj) ''exclusiveMaximum'') json_as_f64 = None"
  "\<not> too_large (drop_constraints obj) ''maximum''" "\<not> too_large (drop_constraints obj) ''minimum''"
proof -
  let ?a = "drop_numeric ''exclusiveMinimum'' (map_remove ''$schema'' obj)"
  let ?b = "drop_numeric ''exclusiveMaximum'' ?a"
  let ?c = "drop_large ''maximum'' ?b"
  have e: "drop_constraints obj = drop_large ''minimum'' ?c" by (simp add: drop_constraints_def)
  show "map_of (drop_constraints obj) ''$schema'' = None" by (simp add: e drop_large_get drop_numeric_get)
  have "map_of (drop_constraints obj) ''exclusiveMinimum'' = map_of ?a ''exclusiveMinimum''"
    by (simp add: e drop_large_get drop_numeric_get [of "''exclusiveMaximum''"])
  then show "Option.bind (map_of (drop_constraints obj) ''exclusiveMinimum'') json_as_f64 = None"
    by (simp only: drop_numeric_none)
  have "map_of (drop_constraints obj) ''exclusiveMaximum'' = map_of ?b ''exclusiveMaximum''"
    by (simp add: e drop_large_get)
  then show "Option.bind (map_of (drop_constraints obj) ''exclusiveMaximum'') json_as_f64 = None"
    by (simp only: drop_numeric_none)
  have "map_of (drop_constraints obj) ''maximum'' = map_of ?c ''maximum''" by (simp add: e drop_large_get [of "''minimum''"])
  from too_large_cong [OF this] drop_large_range [of "''maximum''" ?b]
  show "\<not> too_large (drop_constraints obj) ''maximum''" by blast
  show "\<not> too_large (drop_constraints obj) ''minimum''" unfolding e by (rule drop_large_range)
qed

lemma normalize_non_object: "\<not> is_object v \<Longrightarrow> normalize_property_schema v = v"
  by (subst normalize_property_schema.simps) (simp add: is_object_def split: json.splits)

lemma normalized_property: "property_ok (normalize_property_schema v)"
proof (induction v rule: normalize_property_schema.induct)
  case (1 v)
  show ?case
  proof (cases v)
    case (JObj obj0)
    let ?obj = "drop_constraints obj0"
    let ?items = "case map_of ?obj ''items'' of Some i \<Rightarrow> Some (normalize_property_schema i) | None \<Rightarrow> None"
    let ?props = "case map_of ?obj ''properties'' of
       Some (JObj props) \<Rightarrow> Some (map (\<lambda>kv. (fst kv, normalize_property_schema (snd kv))) props) | _ \<Rightarrow> None"
    define obj where "obj = put_items ?items (put_properties ?props ?obj)"
    have n: "normalize_property_schema v = JObj obj"
      unfolding JObj normalize_property_schema.simps [of "JObj obj0"] obj_def by simp
    have same: "map_of obj k = map_of ?obj k" if "k \<noteq> ''properties''" "k \<noteq> ''items''" for k
      using that by (simp add: obj_def put_items_def put_properties_def split: option.split)
    have props: "map_of obj ''properties'' = map_option JObj ?props"
      unfolding obj_def put_items_def put_properties_def by (cases ?items; cases ?props) simp_all
    have items: "map_of obj ''items'' = ?items"
      unfolding obj_def put_items_def put_properties_def
      by (cases "map_of ?obj ''items''"; cases ?props) simp_all
    have large: "too_large obj k = too_large ?obj k" if "k \<noteq> ''properties''" "k \<noteq> ''items''" for k
      by (rule too_large_cong [OF same [OF that]])
    have "property_ok (JObj obj)"
    proof (rule property)
      show "\<forall>p. map_of obj ''properties'' = Some p \<longrightarrow> (\<exists>props. p = JObj props \<and> (\<forall>kv \<in> set props. property_ok (snd kv)))"
        using 1(2) [OF JObj] by (auto simp: props split: option.splits json.splits)
      show "\<forall>i. map_of obj ''items'' = Some i \<longrightarrow> property_ok i"
        using 1(1) [OF JObj] by (auto simp: items split: option.splits)
      show "\<forall>v. Option.bind (map_of obj ''maximum'') json_as_f64 = Some v \<longrightarrow> - 2147483648 \<le> v \<and> v \<le> 2147483647"
        using within_range [of obj "''maximum''"] drop_constraints_get(4) [of obj0] large [of "''maximum''"] by simp
      show "\<forall>v. Option.bind (map_of obj ''minimum'') json_as_f64 = Some v \<longrightarrow> - 2147483648 \<le> v \<and> v \<le> 2147483647"
        using within_range [of obj "''minimum''"] drop_constraints_get(5) [of obj0] large [of "''minimum''"] by simp
    qed (simp_all add: same drop_constraints_get)
    with n show ?thesis by simp
  qed (simp_all add: normalize_non_object no_object is_object_def)
qed

subsubsection \<open>Tool schemas\<close>

lemma or_insert_get: "map_of (or_insert key v out) k = (if k = key \<and> map_of out key = None then Some v else map_of out k)"
  by (auto simp: or_insert_def split: option.split)

lemma adopted_get:
  "k \<notin> {''properties'', ''required'', ''additionalProperties'', ''description''} \<Longrightarrow>
     map_of (adopt_variant variants obj) k = map_of obj k"
  by (auto simp: adopt_variant_def adopt_field_def or_insert_get split: option.split json.split)

lemma strip_combinator_get:
  "k \<notin> {''properties'', ''required'', ''additionalProperties'', ''description''} \<Longrightarrow>
     map_of (strip_combinator b c obj) k = (if k = c then None else map_of obj k)"
  by (auto simp: strip_combinator_def Let_def adopted_get split: option.split json.split)

lemma stripped_get:
  "k \<notin> {''properties'', ''required'', ''additionalProperties'', ''description''} \<Longrightarrow>
     map_of (strip_top_level_combinators obj) k = (if k \<in> {''oneOf'', ''anyOf'', ''allOf''} then None else map_of obj k)"
  by (simp add: strip_top_level_combinators_def strip_combinator_get)

text \<open>The steps behind the combinators, each by what it leaves at a key.\<close>

definition with_object_type :: "json_map \<Rightarrow> json_map" where
  "with_object_type obj =
    (if Option.bind (map_of obj ''type'') json_as_str \<noteq> Some ''object''
     then map_insert ''type'' (JStr ''object'') obj else obj)"

lemma with_object_type_get:
  "map_of (with_object_type obj) k = (if k = ''type'' then Some (JStr ''object'') else map_of obj k)"
proof -
  have "Option.bind x json_as_str = Some s \<Longrightarrow> x = Some (JStr s)" for x s
    by (cases x) (auto elim: json_as_str.elims)
  then show ?thesis by (auto simp: with_object_type_def)
qed

definition schema_properties :: "json_map \<Rightarrow> json_map" where
  "schema_properties obj = (case map_of obj ''properties'' of
     Some (JObj props) \<Rightarrow> map (\<lambda>kv. (fst kv, normalize_property_schema (snd kv))) props | _ \<Rightarrow> [])"

definition schema_required :: "json_map \<Rightarrow> json list" where
  "schema_required obj = (case map_of obj ''required'' of Some (JArr arr) \<Rightarrow> only_strings arr | _ \<Rightarrow> [])"

definition with_required :: "json_map \<Rightarrow> json_map" where
  "with_required obj =
     map_insert ''required'' (JArr (schema_required (map_insert ''properties'' (JObj (schema_properties obj)) (map_remove ''properties'' obj))))
       (map_remove ''required'' (map_insert ''properties'' (JObj (schema_properties obj)) (map_remove ''properties'' obj)))"

lemma with_required_get:
  "map_of (with_required obj) k =
     (if k = ''required'' then Some (JArr (schema_required obj))
      else if k = ''properties'' then Some (JObj (schema_properties obj)) else map_of obj k)"
  by (simp add: with_required_def schema_required_def)

lemma normalize_json_schema_eq:
  "normalize_json_schema (JObj obj) =
    (let obj = with_required (with_object_type (strip_top_level_combinators (map_remove ''$schema'' obj)))
     in case map_of obj ''additionalProperties'' of
          Some (JBool _) \<Rightarrow> JObj obj
        | Some (JObj _) \<Rightarrow> JObj obj
        | _ \<Rightarrow> JObj (map_insert ''additionalProperties'' (JBool True) obj))"
  unfolding normalize_json_schema_def with_required_def with_object_type_def schema_properties_def schema_required_def Let_def
  by simp

lemma properties_ok: "\<forall>kv \<in> set (schema_properties obj). property_ok (snd kv)"
  by (auto simp: schema_properties_def normalized_property split: option.split json.split)

lemma required_names: "\<forall>r \<in> set (schema_required obj). \<exists>n. r = JStr n"
  by (auto simp: schema_required_def only_strings_def split: option.split json.split)

text \<open>Whatever schema a client gives for a tool, the upstream gets an object schema of the older dialect: no
  combinators and no dialect at the top, properties that are normal at every depth, a list of required
  names, and a rule for additional properties.\<close>

lemma normalize_json_schema_ok: "tool_schema_ok (normalize_json_schema schema)"
proof (cases schema)
  case (JObj obj0)
  let ?o = "strip_top_level_combinators (map_remove ''$schema'' obj0)"
  let ?r = "with_required (with_object_type ?o)"
  have combinators: "map_of ?o c = None" if "c \<in> {''$schema'', ''oneOf'', ''anyOf'', ''allOf''}" for c
    using that by (subst stripped_get) auto
  obtain obj where n: "normalize_json_schema schema = JObj obj"
    and obj: "\<And>k. k \<noteq> ''additionalProperties'' \<Longrightarrow> map_of obj k = map_of ?r k"
    and a: "\<exists>a. map_of obj ''additionalProperties'' = Some a \<and> ((\<exists>b. a = JBool b) \<or> is_object a)"
  proof (cases "\<exists>a. map_of ?r ''additionalProperties'' = Some a \<and> ((\<exists>b. a = JBool b) \<or> is_object a)")
    case True
    then obtain v where v: "map_of ?r ''additionalProperties'' = Some v"
      "(\<exists>b. v = JBool b) \<or> is_object v" by blast
    then have "normalize_json_schema schema = JObj ?r"
      by (cases v) (simp_all add: JObj normalize_json_schema_eq Let_def is_object_def)
    with True that show thesis by blast
  next
    case False
    then have "normalize_json_schema schema = JObj (map_insert ''additionalProperties'' (JBool True) ?r)"
      by (auto simp: JObj normalize_json_schema_eq Let_def is_object_def split: option.splits json.splits)
    with that show thesis by (auto intro: that)
  qed
  have "map_of obj ''type'' = Some (JStr ''object'')" "map_of obj ''$schema'' = None"
    "\<forall>c \<in> {''oneOf'', ''anyOf'', ''allOf''}. map_of obj c = None"
    "map_of obj ''properties'' = Some (JObj (schema_properties (with_object_type ?o)))"
    "map_of obj ''required'' = Some (JArr (schema_required (with_object_type ?o)))"
    by (simp_all add: obj with_required_get with_object_type_get combinators)
  with n a show ?thesis unfolding tool_schema_ok_def using properties_ok required_names by blast
qed (auto simp: normalize_json_schema_def tool_schema_ok_def)


subsection \<open>The definitions that reach the upstream\<close>

text \<open>A built-in tool has a schema of its own; it is a normal one too, and plain fields are normal.\<close>

definition plain_field :: "json \<Rightarrow> bool" where
  "plain_field v \<longleftrightarrow> (case v of
     JObj obj \<Rightarrow> list_all (\<lambda>kv. fst kv \<in> set [''type'', ''description'', ''minLength'', ''anyOf'']) obj | _ \<Rightarrow> False)"

lemma plain_property:
  assumes "plain_field v" shows "property_ok v"
proof -
  obtain obj where v: "v = JObj obj" and
    keys: "fst ` set obj \<subseteq> {''type'', ''description'', ''minLength'', ''anyOf''}"
    using assms by (auto simp: plain_field_def list_all_iff split: json.splits)
  have none: "map_of obj k = None" if "k \<notin> {''type'', ''description'', ''minLength'', ''anyOf''}" for k
    using keys that by (auto simp: map_of_eq_None_iff)
  show ?thesis unfolding v by (rule property) (simp_all add: none)
qed

lemma builtin_schema: "claude_code_tool_name_to_kiro name = Some k \<Longrightarrow> \<exists>s. kiro_builtin_tool_schema k = Some s"
  by (auto simp: claude_code_tool_name_to_kiro_def kiro_builtin_tool_schema_def split: if_splits)

lemma plain_schema_ok:
  assumes "list_all (\<lambda>kv. plain_field (snd kv)) props" and "list_all (\<lambda>r. json_as_str r \<noteq> None) req"
  shows "tool_schema_ok (JObj [(''type'', JStr ''object''), (''properties'', JObj props), (''required'', JArr req),
    (''additionalProperties'', JBool b)])"
proof -
  have "\<forall>r \<in> set req. \<exists>n. r = JStr n"
    using assms(2) by (fastforce simp: list_all_iff elim: json_as_str.elims)
  moreover have "\<forall>kv \<in> set props. property_ok (snd kv)"
    using assms(1) by (auto simp: list_all_iff intro: plain_property)
  ultimately show ?thesis unfolding tool_schema_ok_def by simp
qed

lemma builtin_schemas_ok:
  assumes "kiro_builtin_tool_schema k = Some s" shows "tool_schema_ok s"
proof -
  note [simp] = kiro_builtin_tool_schema_def optional_schema_def
  consider "k = ''fs_write''" | "k = ''str_replace''" | "k = ''execute_bash''" | "k = ''read_file''"
    | "k = ''file_search''" | "k = ''grep_search''" | "k = ''list_directory''" | "k = ''web_search''"
    using assms by (auto split: if_splits)
  then show ?thesis using assms
    by cases (auto intro!: plain_schema_ok simp: plain_field_def)
qed

lemma schema_of_tool:
  "\<exists>s. tool_schema mode t (fst (map_client_tool_name_to_kiro sha (tl_name t) names mode)) = Inr s \<and> tool_schema_ok s"
proof (cases "is_builtin_tool mode (tl_name t)")
  case True
  then obtain k where k: "claude_code_tool_name_to_kiro (tl_name t) = Some k" "is_claude_code_mode mode"
    by (auto simp: is_builtin_tool_def)
  with builtin_schema obtain s where "kiro_builtin_tool_schema k = Some s" by blast
  with True k show ?thesis
    by (auto simp: tool_schema_def map_client_tool_name_to_kiro_def intro: builtin_schemas_ok)
next
  case False
  then show ?thesis by (simp add: tool_schema_def normalize_json_schema_ok)
qed

text \<open>The names a list of tools is offered under, and the tools of the client that are left out.\<close>

definition offered :: "tool_compatibility_mode \<Rightarrow> tool list \<Rightarrow> tool list" where
  "offered mode ts = filter (\<lambda>t. \<not> (is_claude_code_mode mode \<and> tl_name t = ''fs_append'')) ts"

definition upstream_name :: "(string \<Rightarrow> string) \<Rightarrow> tool_compatibility_mode \<Rightarrow> string \<Rightarrow> string" where
  "upstream_name sha mode name = fst (map_client_tool_name_to_kiro sha name (hm_empty (\<lambda>_ _. 0)) mode)"

lemma upstream_name_eq: "fst (map_client_tool_name_to_kiro sha name names mode) = upstream_name sha mode name"
  by (simp add: upstream_name_def map_client_tool_name_to_kiro_def map_tool_name_def Let_def split: option.split)

lemma convert_tool_list_spec:
  "\<exists>out names'. convert_tool_list lower sha mode ts seen names = Inr (out, names') \<and>
     distinct (map (lower \<circ> td_name) out) \<and> (\<forall>d \<in> set out. lower (td_name d) \<notin> seen \<and> tool_schema_ok (td_schema d)) \<and>
     (lower \<circ> upstream_name sha mode \<circ> tl_name) ` set (offered mode ts) - seen = (lower \<circ> td_name) ` set out"
proof (induction ts arbitrary: seen names)
  case Nil
  then show ?case by (simp add: offered_def)
next
  case (Cons t ts)
  let ?n = "upstream_name sha mode (tl_name t)"
  obtain names1 where m: "map_client_tool_name_to_kiro sha (tl_name t) names mode = (?n, names1)"
    using upstream_name_eq [of sha "tl_name t" names mode] by (metis prod.collapse)
  consider (skip) "is_claude_code_mode mode \<and> tl_name t = ''fs_append''"
    | (seen) "\<not> (is_claude_code_mode mode \<and> tl_name t = ''fs_append'')" "lower ?n \<in> seen"
    | (new) "\<not> (is_claude_code_mode mode \<and> tl_name t = ''fs_append'')" "lower ?n \<notin> seen" by blast
  then show ?case
  proof cases
    case skip
    then show ?thesis using Cons.IH [of seen names] by (simp add: offered_def)
  next
    case seen
    then have "(lower \<circ> upstream_name sha mode \<circ> tl_name) ` set (offered mode (t # ts)) - seen
        = (lower \<circ> upstream_name sha mode \<circ> tl_name) ` set (offered mode ts) - seen"
      by (auto simp: offered_def)
    moreover have "convert_tool_list lower sha mode (t # ts) seen names = convert_tool_list lower sha mode ts seen names1"
      using seen m by auto
    ultimately show ?thesis using Cons.IH [of seen names1] by simp
  next
    case new
    obtain s where s: "tool_schema mode t ?n = Inr s" "tool_schema_ok s"
      using schema_of_tool [of mode t sha names] m by auto
    obtain out names2 where
      r: "convert_tool_list lower sha mode ts (insert (lower ?n) seen) names1 = Inr (out, names2)" and
      d: "distinct (map (lower \<circ> td_name) out)" and
      ok: "\<forall>d \<in> set out. lower (td_name d) \<notin> insert (lower ?n) seen \<and> tool_schema_ok (td_schema d)" and
      n: "(lower \<circ> upstream_name sha mode \<circ> tl_name) ` set (offered mode ts) - insert (lower ?n) seen = (lower \<circ> td_name) ` set out"
      using Cons.IH [of "insert (lower ?n) seen" names1] by blast
    let ?d = "\<lparr>td_name = ?n, td_description = tool_description mode t ?n, td_schema = s\<rparr>"
    have "convert_tool_list lower sha mode (t # ts) seen names = Inr (?d # out, names2)"
      using new m s r by auto
    moreover have "(lower \<circ> upstream_name sha mode \<circ> tl_name) ` set (offered mode (t # ts)) - seen
        = insert (lower ?n) ((lower \<circ> upstream_name sha mode \<circ> tl_name) ` set (offered mode ts) - insert (lower ?n) seen)"
      using new by (auto simp: offered_def)
    ultimately show ?thesis using d ok s new n by (auto simp: image_iff comp_def)
  qed
qed

text \<open>The tools of a request always convert: every definition that reaches the upstream has a schema of
  the older dialect, their names are distinct without regard to case, and every tool the client offers
  (except fs_append, which the upstream keeps for itself) is there under its mapped name.\<close>

theorem tools_converted:
  "\<exists>out names'. convert_tools lower sha (Some ts) names mode = Inr (out, names') \<and>
     distinct (map (lower \<circ> td_name) out) \<and> (\<forall>d \<in> set out. tool_schema_ok (td_schema d)) \<and>
     (lower \<circ> td_name) ` set out = (lower \<circ> upstream_name sha mode \<circ> tl_name) ` set (offered mode ts)"
  using convert_tool_list_spec [of lower sha mode ts "{}" names] by (auto simp: convert_tools_def)

definition sample_tools :: "tool list" where
  "sample_tools = map (\<lambda>n. \<lparr>tl_type = None, tl_name = n, tl_description = [], tl_input_schema = [], tl_max_uses = None,
     tl_cache_control = None\<rparr>) [''Write'', ''fs_append'', ''f'', ''Write'']"

theorem tools_converted_witness:
  "\<exists>out names'. convert_tools id (\<lambda>_. []) (Some sample_tools) (hm_empty (\<lambda>_ _. 0)) ClaudeCode = Inr (out, names') \<and>
     distinct (map td_name out) \<and> (\<forall>d \<in> set out. tool_schema_ok (td_schema d)) \<and> td_name ` set out = {''fs_write'', ''f''}"
proof -
  have "(upstream_name (\<lambda>_. []) ClaudeCode \<circ> tl_name) ` set (offered ClaudeCode sample_tools) = {''fs_write'', ''f''}"
    by (simp add: sample_tools_def offered_def upstream_name_def map_client_tool_name_to_kiro_def is_claude_code_mode_def
        claude_code_tool_name_to_kiro_def map_tool_name_def TOOL_NAME_MAX_LEN_def hm_simps insert_commute)
  then show ?thesis
    using tools_converted [of id "\<lambda>_. []" sample_tools "hm_empty (\<lambda>_ _. 0)" ClaudeCode] by simp
qed

lemma converted_definitions:
  assumes "convert_tools lower sha tools names mode = Inr (out, names')"
  shows "list_all (\<lambda>d. tool_schema_ok (td_schema d)) out \<and> distinct (map (lower \<circ> td_name) out)"
  using assms convert_tool_list_spec [of lower sha mode "the tools" "{}" names]
  by (cases tools) (auto simp: convert_tools_def list_all_iff)

lemma convert_tools_total: "\<exists>out names'. convert_tools lower sha tools names mode = Inr (out, names')"
  using convert_tool_list_spec [of lower sha mode "the tools" "{}" names]
  by (cases tools) (auto simp: convert_tools_def)

end
