(* ===== verification/Message_Content.thy ===== *)
theory Message_Content imports Tool_Schemas Image_Limits begin

section \<open>Contents of messages (src/src/anthropic/converter.rs, kiro/model/requests)\<close>

text \<open>
  What the upstream gets for the content of one message and for a run of messages of the same role:
  texts are joined, images checked, scaled and lifted out of tool results, tool results and tool calls
  collected. The reader of content blocks (derived by serde from \<open>ContentBlock\<close>), printing of JSON, SHA-256,
  the lower-case mapping and the image codecs are the fields of \<open>conversion\<close>.
\<close>

record image_source =
  is_type :: string
  is_media_type :: string
  is_data :: string

record content_block =
  cb_type :: string
  cb_text :: "string option"
  cb_thinking :: "string option"
  cb_tool_use_id :: "string option"
  cb_content :: "json option"
  cb_name :: "string option"
  cb_input :: "json option"
  cb_id :: "string option"
  cb_is_error :: "bool option"
  cb_source :: "image_source option"
  cb_cache_control :: "cache_control option"

record 'i conversion =
  cv_lower :: "string \<Rightarrow> string"
  cv_sha256_hex :: "string \<Rightarrow> string"
  cv_serde :: serde
  cv_read_block :: "json \<Rightarrow> content_block option"
  cv_codecs :: "'i codecs"
  cv_images :: resize_config
  cv_mode :: tool_compatibility_mode

subsection \<open>Loops that may fail\<close>

text \<open>A loop whose body changes a state and may leave the function with an error.\<close>

fun each :: "('a \<Rightarrow> 's \<Rightarrow> 'e + 's) \<Rightarrow> 'a list \<Rightarrow> 's \<Rightarrow> 'e + 's" where
  "each f [] s = Inr s"
| "each f (x # xs) s = (case f x s of Inl e \<Rightarrow> Inl e | Inr s1 \<Rightarrow> each f xs s1)"

lemma each_append:
  "each f (xs @ ys) s = (case each f xs s of Inl e \<Rightarrow> Inl e | Inr s1 \<Rightarrow> each f ys s1)"
  by (induction xs arbitrary: s) (auto split: sum.splits)

text \<open>A property of the state that the body keeps, and so does the loop.\<close>

locale loop_invariant =
  fixes body :: "'a \<Rightarrow> 's \<Rightarrow> 'e + 's" and inv :: "'s \<Rightarrow> bool"
  assumes keeps: "body x s = Inr s1 \<Longrightarrow> inv s \<Longrightarrow> inv s1"
begin

lemma loop: "each body xs s = Inr s1 \<Longrightarrow> inv s \<Longrightarrow> inv s1"
  by (induction xs arbitrary: s) (auto split: sum.splits intro: keeps)

end

lemma each_error: "each f xs s = Inl e \<Longrightarrow> \<exists>x \<in> set xs. \<exists>s1. f x s1 = Inl e"
  by (induction xs arbitrary: s) (auto split: sum.splits)

subsection \<open>Images\<close>

definition get_image_format :: "string \<Rightarrow> string option" where
  "get_image_format media_type =
    (if media_type = ''image/jpeg'' then Some ''jpeg''
     else if media_type = ''image/png'' then Some ''png''
     else if media_type = ''image/gif'' then Some ''gif''
     else if media_type = ''image/webp'' then Some ''webp''
     else None)"

text \<open>
  What a function that collects images carries along: the digests seen in the history, when it
  removes duplicates, and the images lifted so far, each with its format.
\<close>

record images_state =
  im_seen :: "string set option"
  im_images :: "(string \<times> string) list"

definition resize_error_text :: "resize_error \<Rightarrow> string" where
  "resize_error_text e = (case e of
     LimitExceeded s \<Rightarrow> ''image rejected: '' @ s
   | Base64 s \<Rightarrow> ''base64 decode: '' @ s
   | Decode s \<Rightarrow> ''image decode: '' @ s
   | Encode s \<Rightarrow> ''image encode: '' @ s)"

definition push_image :: "'i conversion \<Rightarrow> image_source \<Rightarrow> string \<Rightarrow> images_state \<Rightarrow> conversion_error + string option \<times> images_state" where
  "push_image cv source fmt im =
    (case maybe_shrink_image (cv_codecs cv) (cv_images cv) fmt (is_data source) of
       Inl e \<Rightarrow> Inl (InvalidImage (is_media_type source @ '' image rejected by safety limits: '' @ resize_error_text e))
     | Inr processed \<Rightarrow>
         Inr (None, im\<lparr>im_images := im_images im @ [(pi_format processed, pi_data_base64 processed)]\<rparr>))"

definition extract_kiro_image :: "'i conversion \<Rightarrow> image_source \<Rightarrow> images_state \<Rightarrow> conversion_error + string option \<times> images_state" where
  "extract_kiro_image cv source im =
    (case get_image_format (is_media_type source) of
       None \<Rightarrow> Inr (None, im)
     | Some fmt \<Rightarrow>
         (case im_seen im of
            None \<Rightarrow> push_image cv source fmt im
          | Some seen \<Rightarrow>
              let digest = cv_sha256_hex cv (is_data source)
              in if digest \<in> seen then Inr (Some ''[image omitted: identical to an earlier screenshot]'', im)
                 else push_image cv source fmt (im\<lparr>im_seen := Some (insert digest seen)\<rparr>)))"

subsection \<open>Tool results\<close>

record result_state =
  rs_parts :: "string list"
  rs_had_image :: bool
  rs_images :: images_state

definition result_item :: "'i conversion \<Rightarrow> json \<Rightarrow> result_state \<Rightarrow> conversion_error + result_state" where
  "result_item cv item st =
    (case Option.bind (json_get item ''text'') json_as_str of
       Some text \<Rightarrow> Inr (st\<lparr>rs_parts := rs_parts st @ [text]\<rparr>)
     | None \<Rightarrow>
         (case (if Option.bind (json_get item ''type'') json_as_str = Some ''image''
                then Option.bind (cv_read_block cv item) cb_source else None) of
            None \<Rightarrow> Inr st
          | Some source \<Rightarrow>
              (case extract_kiro_image cv source (rs_images st) of
                 Inl e \<Rightarrow> Inl e
               | Inr (placeholder, im) \<Rightarrow>
                   Inr \<lparr>rs_parts = rs_parts st @ (case placeholder of Some p \<Rightarrow> [p] | None \<Rightarrow> []),
                        rs_had_image = True, rs_images = im\<rparr>)))"

definition extract_tool_result_content ::
  "'i conversion \<Rightarrow> json option \<Rightarrow> images_state \<Rightarrow> conversion_error + string \<times> images_state" where
  "extract_tool_result_content cv content im =
    (case content of
       None \<Rightarrow> Inr ([], im)
     | Some (JStr s) \<Rightarrow> Inr (s, im)
     | Some (JArr arr) \<Rightarrow>
         (case each (result_item cv) arr \<lparr>rs_parts = [], rs_had_image = False, rs_images = im\<rparr> of
            Inl e \<Rightarrow> Inl e
          | Inr st \<Rightarrow>
              Inr (if rs_parts st = [] \<and> rs_had_image st then ''[image attached]''
                   else join_strings [CHR 0x0A] (rs_parts st), rs_images st))
     | Some v \<Rightarrow> Inr (to_str (cv_serde cv) v, im))"

definition tool_result_success :: "string \<Rightarrow> string \<Rightarrow> tool_result" where
  "tool_result_success i content =
     \<lparr>tr_tool_use_id = i, tr_content = [[(''text'', JStr content)]], tr_status = Some ''success'', tr_is_error = False\<rparr>"

definition tool_result_error :: "string \<Rightarrow> string \<Rightarrow> tool_result" where
  "tool_result_error i error_message =
     \<lparr>tr_tool_use_id = i, tr_content = [[(''text'', JStr error_message)]], tr_status = Some ''error'', tr_is_error = True\<rparr>"

subsection \<open>Messages of the user\<close>

record content_state =
  cs_texts :: "string list"
  cs_images :: images_state
  cs_results :: "tool_result list"

definition block_text :: "'i conversion \<Rightarrow> content_block \<Rightarrow> content_state \<Rightarrow> content_state" where
  "block_text cv block st =
    (case cb_text block of Some t \<Rightarrow> st\<lparr>cs_texts := cs_texts st @ [t]\<rparr> | None \<Rightarrow> st)"

definition block_image :: "'i conversion \<Rightarrow> content_block \<Rightarrow> content_state \<Rightarrow> conversion_error + content_state" where
  "block_image cv block st =
    (case cb_source block of
       None \<Rightarrow> Inr st
     | Some source \<Rightarrow>
         (case extract_kiro_image cv source (cs_images st) of
            Inl e \<Rightarrow> Inl e
          | Inr (placeholder, im) \<Rightarrow>
              Inr (st\<lparr>cs_texts := cs_texts st @ (case placeholder of Some p \<Rightarrow> [p] | None \<Rightarrow> []), cs_images := im\<rparr>)))"

definition block_tool_result :: "'i conversion \<Rightarrow> content_block \<Rightarrow> content_state \<Rightarrow> conversion_error + content_state" where
  "block_tool_result cv block st =
    (case cb_tool_use_id block of
       None \<Rightarrow> Inr st
     | Some use_id \<Rightarrow>
         (case extract_tool_result_content cv (cb_content block) (cs_images st) of
            Inl e \<Rightarrow> Inl e
          | Inr (result_content, im) \<Rightarrow>
              let is_error = (case cb_is_error block of Some b \<Rightarrow> b | None \<Rightarrow> False);
                  result = (if is_error then tool_result_error use_id result_content
                            else tool_result_success use_id result_content)
              in Inr (st\<lparr>cs_images := im,
                   cs_results := cs_results st @ [result\<lparr>tr_status := Some (if is_error then ''error'' else ''success'')\<rparr>]\<rparr>)))"

definition content_item :: "'i conversion \<Rightarrow> json \<Rightarrow> content_state \<Rightarrow> conversion_error + content_state" where
  "content_item cv item st =
    (case cv_read_block cv item of
       None \<Rightarrow> Inr st
     | Some block \<Rightarrow>
         if cb_type block = ''text'' then Inr (block_text cv block st)
         else if cb_type block = ''image'' then block_image cv block st
         else if cb_type block = ''tool_result'' then block_tool_result cv block st
         else Inr st)"

definition process_message_content_dedup ::
  "'i conversion \<Rightarrow> json \<Rightarrow> string set option \<Rightarrow> conversion_error + string \<times> images_state \<times> tool_result list" where
  "process_message_content_dedup cv content seen =
    (let im = \<lparr>im_seen = seen, im_images = []\<rparr> in
     case content of
       JStr s \<Rightarrow> Inr (s, im, [])
     | JArr arr \<Rightarrow>
         (case each (content_item cv) arr \<lparr>cs_texts = [], cs_images = im, cs_results = []\<rparr> of
            Inl e \<Rightarrow> Inl e
          | Inr st \<Rightarrow> Inr (join_strings [CHR 0x0A] (cs_texts st), cs_images st, cs_results st))
     | _ \<Rightarrow> Inr ([], im, []))"

definition process_message_content :: "'i conversion \<Rightarrow> json \<Rightarrow> conversion_error + string \<times> images_state \<times> tool_result list" where
  "process_message_content cv content = process_message_content_dedup cv content None"

text \<open>A run of messages of the user becomes one message.\<close>

record user_state =
  us_parts :: "string list"
  us_images :: "(string \<times> string) list"
  us_results :: "tool_result list"
  us_seen :: "string set"

definition user_part :: "'i conversion \<Rightarrow> chat_message \<Rightarrow> user_state \<Rightarrow> conversion_error + user_state" where
  "user_part cv msg st =
    (case process_message_content_dedup cv (cm_content msg) (Some (us_seen st)) of
       Inl e \<Rightarrow> Inl e
     | Inr (text, im, results) \<Rightarrow>
         Inr \<lparr>us_parts = us_parts st @ (if text = [] then [] else [text]),
              us_images = us_images st @ im_images im,
              us_results = us_results st @ results,
              us_seen = (case im_seen im of Some seen \<Rightarrow> seen | None \<Rightarrow> us_seen st)\<rparr>)"

definition merge_user_messages ::
  "'i conversion \<Rightarrow> string \<Rightarrow> chat_message list \<Rightarrow> string set \<Rightarrow> conversion_error + user_message \<times> string set" where
  "merge_user_messages cv model_id messages seen =
    (case each (user_part cv) messages \<lparr>us_parts = [], us_images = [], us_results = [], us_seen = seen\<rparr> of
       Inl e \<Rightarrow> Inl e
     | Inr st \<Rightarrow>
         Inr (\<lparr>um_content = join_strings [CHR 0x0A] (us_parts st), um_model_id = model_id,
               um_origin = Some ''AI_EDITOR'', um_images = us_images st,
               um_tool_results = us_results st, um_tools = []\<rparr>, us_seen st))"

subsection \<open>Messages of the assistant\<close>

record assistant_state =
  as_text :: string
  as_tool_uses :: "tool_use_entry list"
  as_names :: name_map

definition assistant_item :: "'i conversion \<Rightarrow> json \<Rightarrow> assistant_state \<Rightarrow> conversion_error + assistant_state" where
  "assistant_item cv item st =
    (case cv_read_block cv item of
       None \<Rightarrow> Inr st
     | Some block \<Rightarrow>
         if cb_type block = ''text'' then
           Inr (case cb_text block of Some t \<Rightarrow> st\<lparr>as_text := as_text st @ t\<rparr> | None \<Rightarrow> st)
         else if cb_type block = ''tool_use'' then
           (case (cb_id block, cb_name block) of
              (Some i, Some name) \<Rightarrow>
                let input = (case cb_input block of Some v \<Rightarrow> v | None \<Rightarrow> JObj [])
                in (case map_client_tool_name_to_kiro (cv_sha256_hex cv) name (as_names st) (cv_mode cv) of
                      (mapped_name, names) \<Rightarrow>
                        (case map_tool_input_to_kiro name input (cv_mode cv) of
                           Inl (UnsupportedToolMapping n) \<Rightarrow> Inl (UnsupportedMapping n)
                         | Inr input \<Rightarrow>
                             Inr (st\<lparr>as_names := names,
                               as_tool_uses := as_tool_uses st @
                                 [\<lparr>tu_entry_id = i, tu_entry_name = mapped_name, tu_entry_input = input\<rparr>]\<rparr>)))
            | _ \<Rightarrow> Inr st)
         else Inr st)"

definition convert_assistant_message ::
  "'i conversion \<Rightarrow> chat_message \<Rightarrow> name_map \<Rightarrow> conversion_error + assistant_message \<times> name_map" where
  "convert_assistant_message cv msg names =
    (case (case cm_content msg of
             JStr s \<Rightarrow> Inr \<lparr>as_text = s, as_tool_uses = [], as_names = names\<rparr>
           | JArr arr \<Rightarrow> each (assistant_item cv) arr \<lparr>as_text = [], as_tool_uses = [], as_names = names\<rparr>
           | _ \<Rightarrow> Inr \<lparr>as_text = [], as_tool_uses = [], as_names = names\<rparr>) of
       Inl e \<Rightarrow> Inl e
     | Inr st \<Rightarrow>
         Inr (\<lparr>am_content = (if as_text st = [] \<and> as_tool_uses st \<noteq> [] then '' '' else as_text st),
               am_tool_uses = (if as_tool_uses st \<noteq> [] then Some (as_tool_uses st) else None)\<rparr>, as_names st))"

text \<open>A run of messages of the assistant becomes one message; the code asserts that it is not empty.\<close>

record merge_state =
  ms_parts :: "string list"
  ms_tool_uses :: "tool_use_entry list"
  ms_names :: name_map

definition merge_part :: "'i conversion \<Rightarrow> chat_message \<Rightarrow> merge_state \<Rightarrow> conversion_error + merge_state" where
  "merge_part cv msg st =
    (case convert_assistant_message cv msg (ms_names st) of
       Inl e \<Rightarrow> Inl e
     | Inr (am, names) \<Rightarrow>
         Inr \<lparr>ms_parts = ms_parts st @ (if is_blank (am_content am) then [] else [am_content am]),
              ms_tool_uses = ms_tool_uses st @ opt_list (am_tool_uses am), ms_names = names\<rparr>)"

definition merge_assistant_messages ::
  "'i conversion \<Rightarrow> chat_message list \<Rightarrow> name_map \<Rightarrow> conversion_error + assistant_message \<times> name_map" where
  "merge_assistant_messages cv messages names =
    (case messages of
       [msg] \<Rightarrow> convert_assistant_message cv msg names
     | _ \<Rightarrow>
       (case each (merge_part cv) messages \<lparr>ms_parts = [], ms_tool_uses = [], ms_names = names\<rparr> of
          Inl e \<Rightarrow> Inl e
        | Inr st \<Rightarrow>
            Inr (\<lparr>am_content = (if ms_parts st = [] \<and> ms_tool_uses st \<noteq> [] then '' ''
                               else join_strings [CHR 0x0A, CHR 0x0A] (ms_parts st)),
                  am_tool_uses = (if ms_tool_uses st \<noteq> [] then Some (ms_tool_uses st) else None)\<rparr>, ms_names st)))"

end
