(* ===== verification/Reasoning.thy ===== *)
theory Reasoning imports Api_Types Tool_Mapping begin

section \<open>Reasoning of a request (src/src/anthropic/converter.rs, kiro/model/requests/kiro.rs)\<close>

text \<open>
  How the upstream is told to think: models that know the effort get it as a field of the request, all
  others as tags in front of the system prompt. The two ways exclude each other.
\<close>

subsection \<open>The field of the request\<close>

datatype native_reasoning_schema_path = OutputConfigPath | ReasoningPath

record native_reasoning =
  nr_path :: native_reasoning_schema_path
  nr_efforts :: "string list"

record additional_fields =
  af_thinking :: "(string \<times> string option) option"   \<comment> \<open>type and display\<close>
  af_output_config :: "string option"
  af_reasoning :: "string option"

definition EFFORTS_WITH_XHIGH :: "string list" where
  "EFFORTS_WITH_XHIGH = [''low'', ''medium'', ''high'', ''xhigh'', ''max'']"

definition EFFORTS_WITHOUT_XHIGH :: "string list" where
  "EFFORTS_WITHOUT_XHIGH = [''low'', ''medium'', ''high'', ''max'']"

definition native_reasoning_schema :: "string \<Rightarrow> native_reasoning option" where
  "native_reasoning_schema model_id =
    (if model_id = ''claude-opus-4.8'' \<or> model_id = ''claude-opus-4.7''
     then Some \<lparr>nr_path = OutputConfigPath, nr_efforts = EFFORTS_WITH_XHIGH\<rparr>
     else if model_id = ''claude-opus-4.6'' \<or> model_id = ''claude-sonnet-4.6''
     then Some \<lparr>nr_path = OutputConfigPath, nr_efforts = EFFORTS_WITHOUT_XHIGH\<rparr>
     else None)"

definition requested_native_reasoning :: "messages_request \<Rightarrow> bool" where
  "requested_native_reasoning req \<longleftrightarrow>
     (case mr_thinking req of Some t \<Rightarrow> thinking_is_enabled t | None \<Rightarrow> False) \<or>
     (case mr_output_config req of Some oc \<Rightarrow> trim (oc_effort oc) \<noteq> [] | None \<Rightarrow> False)"

definition effort_from_budget_tokens :: "int \<Rightarrow> string" where
  "effort_from_budget_tokens tokens =
    (if tokens \<le> 4000 then ''low'' else if tokens \<le> 16000 then ''medium''
     else if tokens \<le> 64000 then ''high'' else ''xhigh'')"

definition requested_effort :: "messages_request \<Rightarrow> string" where
  "requested_effort req =
    (case mr_output_config req of
       Some oc \<Rightarrow> normalize_thinking_effort (oc_effort oc)
     | None \<Rightarrow>
         (case mr_thinking req of
            Some t \<Rightarrow> if th_type t = ''enabled'' then effort_from_budget_tokens (th_budget_tokens t)
                      else normalize_thinking_effort []
          | None \<Rightarrow> normalize_thinking_effort []))"

definition select_native_reasoning_effort :: "messages_request \<Rightarrow> native_reasoning \<Rightarrow> string" where
  "select_native_reasoning_effort req schema =
    (if requested_effort req \<in> set (nr_efforts schema) then requested_effort req
     else if nr_efforts schema = [] then ''high'' else last (nr_efforts schema))"

definition build_additional_model_request_fields :: "messages_request \<Rightarrow> string \<Rightarrow> additional_fields option" where
  "build_additional_model_request_fields req model_id =
    (if (case mr_thinking req of Some t \<Rightarrow> th_type t = ''disabled'' | None \<Rightarrow> False) then None
     else
       case native_reasoning_schema model_id of
         None \<Rightarrow> None
       | Some schema \<Rightarrow>
           if \<not> requested_native_reasoning req then None
           else
             let effort = select_native_reasoning_effort req schema
             in Some (case nr_path schema of
                  OutputConfigPath \<Rightarrow> \<lparr>af_thinking = None, af_output_config = Some effort, af_reasoning = None\<rparr>
                | ReasoningPath \<Rightarrow> \<lparr>af_thinking = None, af_output_config = None, af_reasoning = Some effort\<rparr>))"

definition uses_native_reasoning_fields :: "messages_request \<Rightarrow> string \<Rightarrow> bool" where
  "uses_native_reasoning_fields req model_id \<longleftrightarrow> build_additional_model_request_fields req model_id \<noteq> None"

subsection \<open>The tags of the prompt\<close>

definition int_to_string :: "int \<Rightarrow> string" where
  "int_to_string i = (if i < 0 then CHR ''-'' # nat_to_string (nat (- i)) else nat_to_string (nat i))"

definition generate_thinking_prefix :: "messages_request \<Rightarrow> string option" where
  "generate_thinking_prefix req =
    (case mr_thinking req of
       None \<Rightarrow> None
     | Some t \<Rightarrow>
         if th_type t = ''enabled'' then
           Some (''<thinking_mode>enabled</thinking_mode><max_thinking_length>''
             @ int_to_string (th_budget_tokens t) @ ''</max_thinking_length>'')
         else if th_type t = ''adaptive'' then
           Some (''<thinking_mode>adaptive</thinking_mode><thinking_effort>''
             @ (case mr_output_config req of Some c \<Rightarrow> normalize_thinking_effort (oc_effort c) | None \<Rightarrow> ''high'')
             @ ''</thinking_effort>'')
         else None)"

definition generate_thinking_prefix_for_model :: "messages_request \<Rightarrow> string \<Rightarrow> string option" where
  "generate_thinking_prefix_for_model req model_id =
    (if uses_native_reasoning_fields req model_id then None else generate_thinking_prefix req)"

definition has_thinking_tags :: "string \<Rightarrow> bool" where
  "has_thinking_tags content \<longleftrightarrow> contains content ''<thinking_mode>'' \<or> contains content ''<max_thinking_length>''"

subsection \<open>What the upstream is told\<close>

lemma native_schema_cases:
  assumes "native_reasoning_schema m = Some s"
  shows "nr_path s = OutputConfigPath \<and> (nr_efforts s = EFFORTS_WITH_XHIGH \<or> nr_efforts s = EFFORTS_WITHOUT_XHIGH)"
proof -
  have "s \<in> {\<lparr>nr_path = OutputConfigPath, nr_efforts = EFFORTS_WITH_XHIGH\<rparr>,
      \<lparr>nr_path = OutputConfigPath, nr_efforts = EFFORTS_WITHOUT_XHIGH\<rparr>}"
    using assms unfolding native_reasoning_schema_def by (simp only: option.inject option.distinct insert_iff split: if_split_asm) blast+
  then show ?thesis by auto
qed

lemma selected_effort:
  assumes "native_reasoning_schema m = Some s"
  shows "select_native_reasoning_effort req s \<in> set (nr_efforts s)"
proof -
  have "nr_efforts s \<noteq> []"
    using native_schema_cases [OF assms] by (auto simp only: EFFORTS_WITH_XHIGH_def EFFORTS_WITHOUT_XHIGH_def list.simps)
  then show ?thesis by (simp add: select_native_reasoning_effort_def)
qed

lemma additional_fields_Some:
  "build_additional_model_request_fields req m = Some f \<longleftrightarrow>
     (\<forall>t. mr_thinking req = Some t \<longrightarrow> th_type t \<noteq> ''disabled'') \<and> requested_native_reasoning req \<and>
     (\<exists>s. native_reasoning_schema m = Some s \<and>
       f = \<lparr>af_thinking = None, af_output_config = Some (select_native_reasoning_effort req s), af_reasoning = None\<rparr>)"
proof (cases "native_reasoning_schema m")
  case None
  then show ?thesis by (simp add: build_additional_model_request_fields_def)
next
  case (Some s)
  moreover have "nr_path s = OutputConfigPath" using native_schema_cases [OF Some] by blast
  ultimately show ?thesis
    by (cases "mr_thinking req") (auto simp: build_additional_model_request_fields_def Let_def)
qed

text \<open>A request for thinking reaches the upstream by exactly one of two ways: as an effort field, whose value
  is one of the efforts the model offers, or as tags in the prompt. A request that does not ask for
  thinking never gets the tags, and one that disables it gets neither.\<close>

theorem thinking_by_one_way:
  assumes "mr_thinking req = Some t"
  shows "(thinking_is_enabled t \<longrightarrow>
      (build_additional_model_request_fields req m \<noteq> None) \<noteq> (generate_thinking_prefix_for_model req m \<noteq> None)) \<and>
    (\<not> thinking_is_enabled t \<longrightarrow> generate_thinking_prefix_for_model req m = None) \<and>
    (th_type t = ''disabled'' \<longrightarrow> build_additional_model_request_fields req m = None) \<and>
    (\<forall>f. build_additional_model_request_fields req m = Some f \<longrightarrow>
       (\<exists>s e. native_reasoning_schema m = Some s \<and> e \<in> set (nr_efforts s) \<and>
          f = \<lparr>af_thinking = None, af_output_config = Some e, af_reasoning = None\<rparr>))"
proof -
  have tags: "generate_thinking_prefix req = None \<longleftrightarrow> \<not> thinking_is_enabled t"
    using assms by (simp add: generate_thinking_prefix_def thinking_is_enabled_def)
  have disabled: "build_additional_model_request_fields req m = None" if "th_type t = ''disabled''"
    using assms that by (simp add: build_additional_model_request_fields_def)
  have "\<exists>s e. native_reasoning_schema m = Some s \<and> e \<in> set (nr_efforts s) \<and>
      f = \<lparr>af_thinking = None, af_output_config = Some e, af_reasoning = None\<rparr>"
    if "build_additional_model_request_fields req m = Some f" for f
    using that selected_effort [of m] by (auto simp: additional_fields_Some)
  with tags disabled show ?thesis
    by (simp add: generate_thinking_prefix_for_model_def uses_native_reasoning_fields_def)
qed

definition sample_thinking_request :: messages_request where
  "sample_thinking_request =
    \<lparr>mr_model = ''claude-opus-4.6'', mr_max_tokens = 100, mr_messages = [], mr_stream = False, mr_system = None,
     mr_tools = None, mr_tool_choice = None, mr_thinking = Some \<lparr>th_type = ''enabled'', th_budget_tokens = 20000\<rparr>,
     mr_output_config = None, mr_metadata = None\<rparr>"

theorem thinking_by_one_way_witness:
  "(build_additional_model_request_fields sample_thinking_request ''claude-opus-4.6'' \<noteq> None)
     \<noteq> (generate_thinking_prefix_for_model sample_thinking_request ''claude-opus-4.6'' \<noteq> None)"
  using thinking_by_one_way [of sample_thinking_request "\<lparr>th_type = ''enabled'', th_budget_tokens = 20000\<rparr>" "''claude-opus-4.6''"]
  by (simp add: sample_thinking_request_def thinking_is_enabled_def)

text \<open>The budget is cut to \<open>MAX_BUDGET_TOKENS\<close> when the request is read, so the highest effort that a budget
  can name is never chosen.\<close>

lemma budget_effort: "effort_from_budget_tokens (deserialize_budget_tokens v) \<in> {''low'', ''medium'', ''high''}"
  by (auto simp: effort_from_budget_tokens_def deserialize_budget_tokens_def MAX_BUDGET_TOKENS_def)

end
