(* ===== verification/Conversion.thy ===== *)
theory Conversion imports Message_Content Reasoning begin

section \<open>Conversion of a request (src/src/anthropic/converter.rs, kiro/model/requests/conversation.rs)\<close>

text \<open>
  A request of the client becomes a conversation of the upstream: the system prompt and the earlier
  messages its history, the last message of the user its current message, with the definitions of the
  tools. Random ids and the working directory are arguments; everything foreign comes with the
  record \<open>conversion\<close>.
\<close>

subsection \<open>Conversations of the upstream\<close>

record env_state =
  es_operating_system :: string
  es_current_working_directory :: string

record input_context =
  ic_env_state :: env_state
  ic_tool_results :: "tool_result list"
  ic_tools :: "tool_definition list"

record user_input_message =
  ui_context :: input_context
  ui_content :: string
  ui_model_id :: string
  ui_images :: "(string \<times> string) list"
  ui_origin :: "string option"

record conversation_state =
  cs_agent_continuation_id :: "string option"
  cs_agent_task_type :: "string option"
  cs_chat_trigger_type :: "string option"
  cs_current_message :: user_input_message
  cs_conversation_id :: string
  cs_history :: "message list"

record conversion_result =
  cr_conversation_state :: conversation_state
  cr_tool_name_map :: name_map
  cr_additional_fields :: "additional_fields option"

definition history_user :: "string \<Rightarrow> string \<Rightarrow> message" where
  "history_user content model_id =
     User \<lparr>um_content = content, um_model_id = model_id, um_origin = Some ''AI_EDITOR'', um_images = [],
           um_tool_results = [], um_tools = []\<rparr>"

definition history_assistant :: "string \<Rightarrow> message" where
  "history_assistant content = Assistant \<lparr>am_content = content, am_tool_uses = None\<rparr>"

subsection \<open>The history\<close>

definition SYSTEM_CHUNKED_POLICY :: string where
  "SYSTEM_CHUNKED_POLICY =
     ''Single tool arguments can be truncated by the upstream Kiro API when a response is too large. '' @
     ''Always chunk large Write/Edit/Bash payloads before they approach 8,000 characters, 150 Write lines, '' @
     ''50 Edit lines, or roughly 4,000 tokens. Never retry the same oversized tool payload after a '' @
     ''failure. Never bypass these limits with a large Bash heredoc or inline script. Never ask the user '' @
     ''whether to switch approaches. Complete all chunked operations without commentary.''"

definition system_pair :: "string \<Rightarrow> string \<Rightarrow> message list" where
  "system_pair content model_id = [history_user content model_id, history_assistant ''I will follow these instructions.'']"

definition system_history :: "messages_request \<Rightarrow> string \<Rightarrow> message list" where
  "system_history req model_id =
    (let thinking_prefix = generate_thinking_prefix_for_model req model_id in
     case mr_system req of
       Some system \<Rightarrow>
         let system_content = join_strings [CHR 0x0A] (map sm_text system)
         in if system_content = [] then []
            else
              let system_content = system_content @ [CHR 0x0A] @ SYSTEM_CHUNKED_POLICY
              in system_pair
                   (case thinking_prefix of
                      Some p \<Rightarrow> if \<not> has_thinking_tags system_content then p @ [CHR 0x0A] @ system_content
                                else system_content
                    | None \<Rightarrow> system_content) model_id
     | None \<Rightarrow> (case thinking_prefix of Some p \<Rightarrow> system_pair p model_id | None \<Rightarrow> []))"

text \<open>The messages collected so far, and the runs of messages of one role that are still open.\<close>

record history_state =
  hs_history :: "message list"
  hs_users :: "chat_message list"
  hs_assistants :: "chat_message list"
  hs_names :: name_map
  hs_seen :: "string set"

definition flush_assistants :: "'i conversion \<Rightarrow> history_state \<Rightarrow> conversion_error + history_state" where
  "flush_assistants cv st =
    (if hs_assistants st = [] then Inr st
     else
       case merge_assistant_messages cv (hs_assistants st) (hs_names st) of
         Inl e \<Rightarrow> Inl e
       | Inr (merged, names) \<Rightarrow>
           Inr (st\<lparr>hs_history := hs_history st @ [Assistant merged], hs_assistants := [], hs_names := names\<rparr>))"

definition flush_users :: "'i conversion \<Rightarrow> string \<Rightarrow> history_state \<Rightarrow> conversion_error + history_state" where
  "flush_users cv model_id st =
    (if hs_users st = [] then Inr st
     else
       case merge_user_messages cv model_id (hs_users st) (hs_seen st) of
         Inl e \<Rightarrow> Inl e
       | Inr (merged, seen) \<Rightarrow>
           Inr (st\<lparr>hs_history := hs_history st @ [User merged], hs_users := [], hs_seen := seen\<rparr>))"

definition history_step :: "'i conversion \<Rightarrow> string \<Rightarrow> chat_message \<Rightarrow> history_state \<Rightarrow> conversion_error + history_state" where
  "history_step cv model_id msg st =
    (if cm_role msg = ''user'' then
       (case flush_assistants cv st of
          Inl e \<Rightarrow> Inl e | Inr st \<Rightarrow> Inr (st\<lparr>hs_users := hs_users st @ [msg]\<rparr>))
     else if cm_role msg = ''assistant'' then
       (case flush_users cv model_id st of
          Inl e \<Rightarrow> Inl e | Inr st \<Rightarrow> Inr (st\<lparr>hs_assistants := hs_assistants st @ [msg]\<rparr>))
     else Inr st)"

definition history_end :: "'i conversion \<Rightarrow> string \<Rightarrow> history_state \<Rightarrow> conversion_error + history_state" where
  "history_end cv model_id st =
    (case flush_assistants cv st of
       Inl e \<Rightarrow> Inl e
     | Inr st \<Rightarrow>
         if hs_users st = [] then Inr st
         else
           (case flush_users cv model_id st of
              Inl e \<Rightarrow> Inl e
            | Inr st \<Rightarrow> Inr (st\<lparr>hs_history := hs_history st @ [history_assistant ''OK'']\<rparr>)))"

definition build_history ::
  "'i conversion \<Rightarrow> messages_request \<Rightarrow> chat_message list \<Rightarrow> string \<Rightarrow> name_map \<Rightarrow> conversion_error + message list \<times> name_map" where
  "build_history cv req messages model_id names =
    (case each (history_step cv model_id) (butlast messages)
            \<lparr>hs_history = system_history req model_id, hs_users = [], hs_assistants = [], hs_names = names, hs_seen = {}\<rparr> of
       Inl e \<Rightarrow> Inl e
     | Inr st \<Rightarrow>
         (case history_end cv model_id st of
            Inl e \<Rightarrow> Inl e | Inr st \<Rightarrow> Inr (hs_history st, hs_names st)))"

subsection \<open>The request\<close>

text \<open>A final message that is not the user's is dropped with everything behind the last message of the user.\<close>

definition drop_prefill :: "chat_message list \<Rightarrow> chat_message list option" where
  "drop_prefill messages =
    (if messages = [] then None
     else if cm_role (last messages) \<noteq> ''user'' then
       (if \<exists>m \<in> set messages. cm_role m = ''user''
        then Some (rev (dropWhile (\<lambda>m. cm_role m \<noteq> ''user'') (rev messages))) else None)
     else Some messages)"

definition determine_chat_trigger_type :: "messages_request \<Rightarrow> string" where
  "determine_chat_trigger_type req = ''MANUAL''"

definition default_env_state :: "string option \<Rightarrow> env_state" where
  "default_env_state cwd =
     \<lparr>es_operating_system = ''macos'', es_current_working_directory = (case cwd of Some p \<Rightarrow> p | None \<Rightarrow> ''/'')\<rparr>"

datatype converted = Converted conversion_result | Refused conversion_error | Aborted_conversion

text \<open>What the steps behind the ids do; the current message is read before the tools and the history.\<close>

definition assemble ::
  "'i conversion \<Rightarrow> string option \<Rightarrow> messages_request \<Rightarrow> chat_message list \<Rightarrow> string \<Rightarrow> string \<Rightarrow> string \<Rightarrow> converted" where
  "assemble cv cwd req messages model_id conversation_id agent_continuation_id =
    (case process_message_content cv (cm_content (last messages)) of
       Inl e \<Rightarrow> Refused e
     | Inr (text_content, im, tool_results) \<Rightarrow>
     case convert_tools (cv_lower cv) (cv_sha256_hex cv) (mr_tools req) (hm_empty (\<lambda>_ _. 0)) (cv_mode cv) of
       Inl e \<Rightarrow> Refused e
     | Inr (tools, names) \<Rightarrow>
     case build_history cv req messages model_id names of
       Inl e \<Rightarrow> Refused e
     | Inr (history, names) \<Rightarrow>
     case pair_tools (cv_lower cv) history tool_results tools of
       (history, validated, tools) \<Rightarrow>
         Converted
           \<lparr>cr_conversation_state =
              \<lparr>cs_agent_continuation_id = Some agent_continuation_id, cs_agent_task_type = Some ''vibe'',
               cs_chat_trigger_type = Some (determine_chat_trigger_type req),
               cs_current_message =
                 \<lparr>ui_context = \<lparr>ic_env_state = default_env_state cwd, ic_tool_results = validated, ic_tools = tools\<rparr>,
                  ui_content = text_content, ui_model_id = model_id, ui_images = im_images im,
                  ui_origin = Some ''AI_EDITOR''\<rparr>,
               cs_conversation_id = conversation_id, cs_history = history\<rparr>,
            cr_tool_name_map = names,
            cr_additional_fields = build_additional_model_request_fields req model_id\<rparr>)"

definition request_session :: "'i conversion \<Rightarrow> messages_request \<Rightarrow> session_result" where
  "request_session cv req =
    (case Option.bind (mr_metadata req) md_user_id of
       Some user_id \<Rightarrow> extract_session_id (cv_serde cv) user_id | None \<Rightarrow> Session None)"

definition convert_request_with_mode ::
  "'i conversion \<Rightarrow> string option \<Rightarrow> string \<Rightarrow> string \<Rightarrow> messages_request \<Rightarrow> converted" where
  "convert_request_with_mode cv cwd fresh_conversation_id agent_continuation_id req =
    (case map_model (mr_model req) of
       None \<Rightarrow> Refused (UnsupportedModel (mr_model req))
     | Some model_id \<Rightarrow>
     case drop_prefill (mr_messages req) of
       None \<Rightarrow> Refused EmptyMessages
     | Some messages \<Rightarrow>
     case request_session cv req of
       Panicked \<Rightarrow> Aborted_conversion
     | Session session \<Rightarrow>
         assemble cv cwd req messages model_id
           (case session of Some i \<Rightarrow> i | None \<Rightarrow> fresh_conversation_id) agent_continuation_id)"

end
