(* ===== verification/Conversion_Properties.thy ===== *)
theory Conversion_Properties imports Conversion begin

section \<open>What a converted request guarantees\<close>

text \<open>
  The upstream refuses a conversation whose turns do not alternate, a tool call without its result and
  a tool that is not defined. Here is what the conversion gives of that, for whole requests, and which
  requests it refuses.
\<close>

subsection \<open>Turns\<close>

text \<open>A history of turns: every message of the user is answered by one of the assistant.\<close>

fun turns :: "message list \<Rightarrow> bool" where
  "turns [] = True"
| "turns (User u # Assistant a # ms) = turns ms"
| "turns ms = False"

lemma turns_append: "turns xs \<Longrightarrow> turns (xs @ ys) = turns ys"
  by (induction xs rule: turns.induct) auto

definition open_turn :: "message list \<Rightarrow> bool" where
  "open_turn ms \<longleftrightarrow> (\<exists>xs u. ms = xs @ [User u] \<and> turns xs)"

lemma turns_snoc_user: "turns xs \<Longrightarrow> open_turn (xs @ [User u])"
  by (auto simp: open_turn_def)

lemma open_turn_answered: "open_turn ms \<Longrightarrow> turns (ms @ [Assistant a])"
  by (auto simp: open_turn_def turns_append)

definition spoken :: "chat_message \<Rightarrow> bool" where
  "spoken m \<longleftrightarrow> cm_role m = ''user'' \<or> cm_role m = ''assistant''"

text \<open>The state between two messages: nothing was said yet, or the user or the assistant is speaking.\<close>

definition turn_state :: "history_state \<Rightarrow> bool" where
  "turn_state st \<longleftrightarrow>
     (turns (hs_history st) \<and> hs_assistants st = [] \<and> hs_users st \<noteq> []) \<or>
     (open_turn (hs_history st) \<and> hs_users st = [] \<and> hs_assistants st \<noteq> [])"

definition silent_state :: "history_state \<Rightarrow> bool" where
  "silent_state st \<longleftrightarrow> turns (hs_history st) \<and> hs_assistants st = [] \<and> hs_users st = []"

lemma flush_assistants_turns:
  "flush_assistants cv st = Inr st1 \<Longrightarrow> turn_state st \<or> silent_state st \<Longrightarrow>
     turns (hs_history st1) \<and> hs_assistants st1 = [] \<and> hs_users st1 = hs_users st"
  by (auto simp: flush_assistants_def turn_state_def silent_state_def open_turn_answered split: if_splits sum.splits)

lemma flush_users_turns:
  "flush_users cv m st = Inr st1 \<Longrightarrow> turn_state st \<Longrightarrow>
     open_turn (hs_history st1) \<and> hs_users st1 = [] \<and> hs_assistants st1 = hs_assistants st"
  by (auto simp: flush_users_def turn_state_def turns_snoc_user split: if_splits sum.splits)

lemma history_step_turns:
  "history_step cv m msg st = Inr st1 \<Longrightarrow> turn_state st \<Longrightarrow> turn_state st1"
  by (auto simp: history_step_def turn_state_def split: if_splits sum.splits
      dest!: flush_assistants_turns flush_users_turns)

interpretation turn_loop: loop_invariant "history_step cv m" turn_state for cv m
  by unfold_locales (rule history_step_turns)

lemma history_steps_turns:
  assumes "each (history_step cv m) msgs st = Inr st1" and "silent_state st"
    and "case filter spoken msgs of [] \<Rightarrow> True | msg # _ \<Rightarrow> cm_role msg = ''user''"
  shows "turn_state st1 \<or> silent_state st1"
  using assms
proof (induction msgs arbitrary: st)
  case Nil
  then show ?case by simp
next
  case (Cons msg msgs)
  from Cons.prems(1) obtain st2 where s: "history_step cv m msg st = Inr st2"
    and r: "each (history_step cv m) msgs st2 = Inr st1" by (auto split: sum.splits)
  show ?case
  proof (cases "spoken msg")
    case True
    then have "cm_role msg = ''user''" using Cons.prems(3) by simp
    then have "turn_state st2"
      using s Cons.prems(2) flush_assistants_turns [of cv st]
      by (auto simp: history_step_def turn_state_def split: sum.splits)
    then have "turn_state st1"
      using turn_loop.loop r by blast
    then show ?thesis ..
  next
    case False
    then have "st2 = st" using s by (simp add: history_step_def spoken_def)
    then show ?thesis using Cons.IH [of st] r Cons.prems False by simp
  qed
qed

lemma history_end_turns:
  "history_end cv m st = Inr st1 \<Longrightarrow> turn_state st \<or> silent_state st \<Longrightarrow> turns (hs_history st1)"
  by (auto simp: history_end_def history_assistant_def flush_users_def turns_append split: if_splits sum.splits dest!: flush_assistants_turns)

lemma system_history_turns: "turns (system_history req m)"
  by (simp add: system_history_def system_pair_def history_user_def history_assistant_def Let_def split: option.split)

text \<open>Orphaned calls leave their message in place.\<close>

lemma turns_removed: "turns history \<Longrightarrow> turns (remove_orphaned_tool_uses history orphaned)"
proof -
  let ?f = "\<lambda>msg. case msg of Assistant m \<Rightarrow> Assistant (retain_tool_uses orphaned m) | User m \<Rightarrow> User m"
  have "turns history \<Longrightarrow> turns (map ?f history)" by (induction history rule: turns.induct) simp_all
  then show "turns history \<Longrightarrow> turns (remove_orphaned_tool_uses history orphaned)"
    by (simp add: remove_orphaned_tool_uses_def)
qed

lemma history_turns:
  assumes "build_history cv req messages m names = Inr (history, names1)"
    and "case filter spoken (butlast messages) of [] \<Rightarrow> True | msg # _ \<Rightarrow> cm_role msg = ''user''"
  shows "turns history"
proof -
  let ?s0 = "\<lparr>hs_history = system_history req m, hs_users = [], hs_assistants = [], hs_names = names, hs_seen = {}\<rparr>"
  obtain st st1 where s: "each (history_step cv m) (butlast messages) ?s0 = Inr st"
    and e: "history_end cv m st = Inr st1" and h: "history = hs_history st1"
    using assms(1) by (auto simp: build_history_def split: sum.splits)
  have "silent_state ?s0" by (simp add: silent_state_def system_history_turns)
  from history_steps_turns [OF s this assms(2)] history_end_turns [OF e] h show ?thesis by blast
qed

subsection \<open>Where the messages of a history come from\<close>

definition built :: "'i conversion \<Rightarrow> messages_request \<Rightarrow> string \<Rightarrow> message \<Rightarrow> bool" where
  "built cv req m msg \<longleftrightarrow> msg \<in> set (system_history req m) \<or> msg = history_assistant ''OK'' \<or>
     (\<exists>msgs seen u seen1. merge_user_messages cv m msgs seen = Inr (u, seen1) \<and> msg = User u) \<or>
     (\<exists>msgs names a names1. merge_assistant_messages cv msgs names = Inr (a, names1) \<and> msg = Assistant a)"

lemma built_user: "merge_user_messages cv m msgs seen = Inr (u, seen1) \<Longrightarrow> built cv req m (User u)"
  unfolding built_def by blast

lemma built_assistant: "merge_assistant_messages cv msgs names = Inr (a, names1) \<Longrightarrow> built cv req m (Assistant a)"
  unfolding built_def by blast

lemma flush_assistants_built:
  "flush_assistants cv st = Inr st1 \<Longrightarrow> \<forall>msg \<in> set (hs_history st). built cv req m msg \<Longrightarrow>
     \<forall>msg \<in> set (hs_history st1). built cv req m msg"
  by (auto simp: flush_assistants_def built_assistant split: if_splits sum.splits)

lemma flush_users_built:
  "flush_users cv m st = Inr st1 \<Longrightarrow> \<forall>msg \<in> set (hs_history st). built cv req m msg \<Longrightarrow>
     \<forall>msg \<in> set (hs_history st1). built cv req m msg"
  by (auto simp: flush_users_def built_user split: if_splits sum.splits)

lemma history_step_built:
  "history_step cv m msg st = Inr st1 \<Longrightarrow> \<forall>msg \<in> set (hs_history st). built cv req m msg \<Longrightarrow>
     \<forall>msg \<in> set (hs_history st1). built cv req m msg"
  unfolding history_step_def
  by (auto split: if_splits sum.splits dest: flush_assistants_built [where req = req and m = m] flush_users_built [where req = req])

interpretation built_loop: loop_invariant "history_step cv m" "\<lambda>st. \<forall>msg \<in> set (hs_history st). built cv req m msg" for cv m req
  by unfold_locales (rule history_step_built)

lemma history_end_built:
  assumes "history_end cv m st = Inr st1" and "\<forall>msg \<in> set (hs_history st). built cv req m msg"
  shows "\<forall>msg \<in> set (hs_history st1). built cv req m msg"
proof -
  obtain st2 where f: "flush_assistants cv st = Inr st2"
    using assms(1) by (auto simp: history_end_def split: sum.splits)
  have b: "\<forall>msg \<in> set (hs_history st2). built cv req m msg" by (rule flush_assistants_built [OF f assms(2)])
  show ?thesis
  proof (cases "hs_users st2 = []")
    case True
    then show ?thesis using assms(1) f b by (simp add: history_end_def)
  next
    case False
    then obtain st3 where u: "flush_users cv m st2 = Inr st3"
      and st1: "st1 = st3\<lparr>hs_history := hs_history st3 @ [history_assistant ''OK'']\<rparr>"
      using assms(1) f by (auto simp: history_end_def split: sum.splits)
    have "built cv req m (history_assistant ''OK'')" by (simp add: built_def)
    with flush_users_built [OF u b] st1 show ?thesis by auto
  qed
qed

lemma history_built:
  assumes "build_history cv req messages m names = Inr (history, names1)"
  shows "\<forall>msg \<in> set history. built cv req m msg"
proof -
  let ?s0 = "\<lparr>hs_history = system_history req m, hs_users = [], hs_assistants = [], hs_names = names, hs_seen = {}\<rparr>"
  obtain st st1 where s: "each (history_step cv m) (butlast messages) ?s0 = Inr st"
    and e: "history_end cv m st = Inr st1" and h: "history = hs_history st1"
    using assms by (auto simp: build_history_def split: sum.splits)
  have "\<forall>msg \<in> set (hs_history st). built cv req m msg"
    by (rule built_loop.loop [OF s]) (simp add: built_def)
  from history_end_built [OF e this] h show ?thesis by simp
qed

subsection \<open>Models and images\<close>

text \<open>An image of the request: accepted by \<open>maybe_shrink_image\<close> and what that made of it.\<close>

definition image_checked :: "'i conversion \<Rightarrow> string \<times> string \<Rightarrow> bool" where
  "image_checked cv img \<longleftrightarrow> (\<exists>t fmt data p. get_image_format t = Some fmt \<and>
     maybe_shrink_image (cv_codecs cv) (cv_images cv) fmt data = Inr p \<and> img = (pi_format p, pi_data_base64 p))"

lemma image_checkedI:
  "get_image_format t = Some fmt \<Longrightarrow> maybe_shrink_image (cv_codecs cv) (cv_images cv) fmt data = Inr p \<Longrightarrow>
     image_checked cv (pi_format p, pi_data_base64 p)"
  unfolding image_checked_def by blast

definition images_checked :: "'i conversion \<Rightarrow> images_state \<Rightarrow> bool" where
  "images_checked cv im \<longleftrightarrow> list_all (image_checked cv) (im_images im)"

lemma images_checked_nil [simp]: "images_checked cv \<lparr>im_seen = seen, im_images = []\<rparr>"
  by (simp add: images_checked_def)

lemma push_image_checked:
  "push_image cv source fmt im = Inr (r, im1) \<Longrightarrow> get_image_format t = Some fmt \<Longrightarrow> images_checked cv im \<Longrightarrow>
     images_checked cv im1"
  unfolding push_image_def by (auto simp: images_checked_def intro: image_checkedI split: sum.splits)

lemma extract_image_checked:
  assumes "extract_kiro_image cv source im = Inr (r, im1)" and "images_checked cv im"
  shows "images_checked cv im1"
proof (cases "get_image_format (is_media_type source)")
  case None
  then show ?thesis using assms by (simp add: extract_kiro_image_def)
next
  case (Some fmt)
  have seen: "images_checked cv (im\<lparr>im_seen := x\<rparr>)" for x using assms(2) by (simp add: images_checked_def)
  show ?thesis
    using assms Some
    by (auto simp: extract_kiro_image_def Let_def split: option.splits if_splits
        elim!: push_image_checked [OF _ Some] intro: seen)
qed

lemma result_item_checked:
  "result_item cv item st = Inr st1 \<Longrightarrow> images_checked cv (rs_images st) \<Longrightarrow> images_checked cv (rs_images st1)"
  unfolding result_item_def by (auto split: option.splits sum.splits if_splits dest: extract_image_checked)

interpretation result_loop: loop_invariant "result_item cv" "\<lambda>st. images_checked cv (rs_images st)" for cv
  by unfold_locales (rule result_item_checked)

lemma result_content_checked:
  assumes "extract_tool_result_content cv content im = Inr (r, im1)" and "images_checked cv im"
  shows "images_checked cv im1"
proof (cases "\<exists>arr. content = Some (JArr arr)")
  case True
  then obtain arr st where "each (result_item cv) arr \<lparr>rs_parts = [], rs_had_image = False, rs_images = im\<rparr> = Inr st"
    and "im1 = rs_images st"
    using assms(1) by (auto simp: extract_tool_result_content_def split: sum.splits)
  then show ?thesis
    using result_loop.loop assms(2) by fastforce
next
  case False
  then show ?thesis using assms
    by (auto simp: extract_tool_result_content_def split: option.splits json.splits)
qed

lemma content_item_checked:
  "content_item cv item st = Inr st1 \<Longrightarrow> images_checked cv (cs_images st) \<Longrightarrow> images_checked cv (cs_images st1)"
  unfolding content_item_def block_text_def block_image_def block_tool_result_def Let_def
  by (auto split: option.splits sum.splits if_splits dest: extract_image_checked result_content_checked)

interpretation content_loop: loop_invariant "content_item cv" "\<lambda>st. images_checked cv (cs_images st)" for cv
  by unfold_locales (rule content_item_checked)

lemma content_checked:
  assumes "process_message_content_dedup cv content seen = Inr (body, im, results)"
  shows "images_checked cv im"
proof (cases "\<exists>arr. content = JArr arr")
  case True
  let ?s0 = "\<lparr>cs_texts = [], cs_images = \<lparr>im_seen = seen, im_images = []\<rparr>, cs_results = []\<rparr>"
  from True obtain arr st where "each (content_item cv) arr ?s0 = Inr st" and "im = cs_images st"
    using assms by (auto simp: process_message_content_dedup_def Let_def split: sum.splits)
  then show ?thesis
    using content_loop.loop [of cv arr ?s0 st] by auto
next
  case False
  then show ?thesis using assms
    by (auto simp: process_message_content_dedup_def Let_def split: json.splits)
qed

lemma user_part_checked:
  "user_part cv msg st = Inr st1 \<Longrightarrow> list_all (image_checked cv) (us_images st) \<Longrightarrow> list_all (image_checked cv) (us_images st1)"
  by (auto simp: user_part_def images_checked_def split: sum.splits dest!: content_checked)

interpretation user_loop: loop_invariant "user_part cv" "\<lambda>st. list_all (image_checked cv) (us_images st)" for cv
  by unfold_locales (rule user_part_checked)

lemma merged_user:
  assumes "merge_user_messages cv m msgs seen = Inr (u, seen1)"
  shows "um_model_id u = m \<and> list_all (image_checked cv) (um_images u)"
proof -
  obtain st where "each (user_part cv) msgs \<lparr>us_parts = [], us_images = [], us_results = [], us_seen = seen\<rparr> = Inr st"
    and "um_images u = us_images st" and "um_model_id u = m"
    using assms by (auto simp: merge_user_messages_def split: sum.splits)
  then show ?thesis
    using user_loop.loop by fastforce
qed

lemma built_user_message:
  "built cv req m (User u) \<Longrightarrow> um_model_id u = m \<and> list_all (image_checked cv) (um_images u)"
  unfolding built_def
  by (auto simp: system_history_def system_pair_def history_user_def history_assistant_def Let_def
      dest: merged_user split: option.splits if_splits)

subsection \<open>Whole requests\<close>

lemma assembled:
  assumes "assemble cv cwd req messages m ci ac = Converted r"
  obtains body im results tools names history
  where "process_message_content cv (cm_content (last messages)) = Inr (body, im, results)"
    and "convert_tools (cv_lower cv) (cv_sha256_hex cv) (mr_tools req) (hm_empty (\<lambda>_ _. 0)) (cv_mode cv) = Inr (tools, names)"
    and "build_history cv req messages m names = Inr (history, cr_tool_name_map r)"
    and "pair_tools (cv_lower cv) history results tools =
      (cs_history (cr_conversation_state r),
       ic_tool_results (ui_context (cs_current_message (cr_conversation_state r))),
       ic_tools (ui_context (cs_current_message (cr_conversation_state r))))"
    and "ui_content (cs_current_message (cr_conversation_state r)) = body"
    and "ui_images (cs_current_message (cr_conversation_state r)) = im_images im"
    and "ui_model_id (cs_current_message (cr_conversation_state r)) = m"
    and "cs_conversation_id (cr_conversation_state r) = ci"
    and "cr_additional_fields r = build_additional_model_request_fields req m"
  using assms unfolding assemble_def by (auto split: sum.splits prod.splits)

lemma converted:
  assumes "convert_request_with_mode cv cwd fresh ac req = Converted r"
  obtains m messages session
  where "map_model (mr_model req) = Some m" and "drop_prefill (mr_messages req) = Some messages"
    and "request_session cv req = Session session"
    and "assemble cv cwd req messages m (case session of Some i \<Rightarrow> i | None \<Rightarrow> fresh) ac = Converted r"
  using assms unfolding convert_request_with_mode_def by (auto split: option.splits session_result.splits)

text \<open>What is left of the messages is a beginning of them that ends with the user.\<close>

lemma drop_prefill_prefix:
  assumes "drop_prefill messages = Some ms"
  shows "(\<exists>dropped. messages = ms @ dropped \<and> (\<forall>m \<in> set dropped. cm_role m \<noteq> ''user'')) \<and> ms \<noteq> [] \<and> cm_role (last ms) = ''user''"
proof (cases "cm_role (last messages) = ''user''")
  case True
  then show ?thesis using assms by (auto simp: drop_prefill_def split: if_splits)
next
  case False
  let ?p = "\<lambda>m. cm_role m \<noteq> ''user''"
  let ?d = "dropWhile ?p (rev messages)"
  have ms: "ms = rev ?d" and ex: "\<exists>m \<in> set messages. \<not> ?p m"
    using assms False by (auto simp: drop_prefill_def split: if_splits)
  have d: "?d \<noteq> []" using ex by simp
  have "messages = rev ?d @ rev (takeWhile ?p (rev messages))"
    by (metis rev_append rev_rev_ident takeWhile_dropWhile_id)
  moreover have "\<forall>m \<in> set (rev (takeWhile ?p (rev messages))). ?p m" by (auto dest: set_takeWhileD)
  moreover have "\<not> ?p (hd ?d)" using hd_dropWhile [OF d] by simp
  ultimately show ?thesis using d by (auto simp: ms last_rev)
qed

lemma drop_prefill_None: "drop_prefill messages = None \<longleftrightarrow> (\<forall>m \<in> set messages. cm_role m \<noteq> ''user'')"
  by (cases messages rule: rev_cases) (auto simp: drop_prefill_def)

lemma pair_history:
  "pair_tools lower h results tools = (h1, validated, tools1) \<Longrightarrow> \<exists>orphaned. h1 = remove_orphaned_tool_uses h orphaned"
  by (auto simp: pair_tools_def Let_def split: prod.splits)

text \<open>C16: In a converted request every earlier message of the user is answered by one of the assistant, whatever
  runs of messages of one role, roles that are neither, and messages behind the last one of the user the
  client sends, as long as the first message of the conversation is the user's.\<close>

theorem converted_turns_alternate:
  assumes "convert_request_with_mode cv cwd fresh ac req = Converted r"
    and "cm_role (hd (filter spoken (mr_messages req))) = ''user''"
  shows "turns (cs_history (cr_conversation_state r))"
proof -
  obtain m messages ci where d: "drop_prefill (mr_messages req) = Some messages"
    and a: "assemble cv cwd req messages m ci ac = Converted r"
    using assms(1) by (elim converted)
  obtain body im results tools names history
    where h: "build_history cv req messages m names = Inr (history, cr_tool_name_map r)"
    and p: "pair_tools (cv_lower cv) history results tools =
      (cs_history (cr_conversation_state r),
       ic_tool_results (ui_context (cs_current_message (cr_conversation_state r))),
       ic_tools (ui_context (cs_current_message (cr_conversation_state r))))"
    using a by (elim assembled)
  obtain dropped where "mr_messages req = messages @ dropped" and "messages \<noteq> []"
    using drop_prefill_prefix [OF d] by blast
  then have "mr_messages req = butlast messages @ [last messages] @ dropped" by simp
  then have "case filter spoken (butlast messages) of [] \<Rightarrow> True | msg # _ \<Rightarrow> cm_role msg = ''user''"
    using assms(2) by (auto split: list.split)
  from history_turns [OF h this] have "turns history" .
  with pair_history [OF p] show ?thesis using turns_removed by auto
qed


definition sample_conversion :: "(nat \<times> nat) conversion" where
  "sample_conversion =
    \<lparr>cv_lower = map ascii_lower, cv_sha256_hex = id, cv_serde = \<lparr>from_str = \<lambda>_. Inl ''no JSON'', to_str = \<lambda>_. []\<rparr>,
     cv_read_block = \<lambda>_. None, cv_codecs = sample_codecs, cv_images = sample_resize_config, cv_mode = ClaudeCode\<rparr>"

definition sample_message :: "string \<Rightarrow> string \<Rightarrow> chat_message" where
  "sample_message who what = \<lparr>cm_role = who, cm_content = JStr what\<rparr>"

definition sample_conversation :: messages_request where
  "sample_conversation =
    \<lparr>mr_model = ''claude-opus-4.6'', mr_max_tokens = 100,
     mr_messages = map (\<lambda>(who, what). sample_message who what)
       [(''user'', ''a''), (''user'', ''b''), (''user'', ''c''), (''assistant'', ''d'')],
     mr_stream = False, mr_system = Some [\<lparr>sm_text = ''s'', sm_cache_control = None\<rparr>],
     mr_tools = None, mr_tool_choice = None, mr_thinking = None, mr_output_config = None, mr_metadata = None\<rparr>"

lemma sample_converted: "\<exists>r. convert_request_with_mode sample_conversion None [] [] sample_conversation = Converted r"
proof -
  have m: "map_model ''claude-opus-4.6'' = Some ''claude-opus-4.6''" by code_simp
  show ?thesis
    by (simp add: convert_request_with_mode_def sample_conversation_def m drop_prefill_def sample_message_def
      request_session_def assemble_def process_message_content_def process_message_content_dedup_def convert_tools_def
      build_history_def history_step_def flush_assistants_def flush_users_def history_end_def merge_user_messages_def
      user_part_def pair_tools_def case_prod_unfold Let_def)
qed

theorem converted_turns_alternate_witness:
  "\<exists>r. convert_request_with_mode sample_conversion None [] [] sample_conversation = Converted r \<and>
     turns (cs_history (cr_conversation_state r))"
proof -
  obtain r where r: "convert_request_with_mode sample_conversion None [] [] sample_conversation = Converted r"
    using sample_converted by blast
  have "turns (cs_history (cr_conversation_state r))"
    by (rule converted_turns_alternate [OF r]) (simp add: sample_conversation_def sample_message_def spoken_def)
  with r show ?thesis by blast
qed

text \<open>When the assistant speaks first its message follows the answer to the system prompt, or opens the
  history: the turns do not alternate.\<close>

lemma assistant_first:
  "build_history cv req [sample_message ''assistant'' a, sample_message ''user'' u] m names =
     Inr (system_history req m @ [history_assistant a], names)"
  by (simp add: build_history_def history_step_def flush_assistants_def flush_users_def history_end_def sample_message_def
      merge_assistant_messages_def convert_assistant_message_def history_assistant_def)

text \<open>An empty system prompt stands in the way of the thinking tags: they are neither put in front of it nor sent
  on their own, so the thinking that a client asks for is lost.\<close>

lemma empty_system_loses_thinking:
  assumes "mr_system req = Some [\<lparr>sm_text = [], sm_cache_control = c\<rparr>]"
  shows "system_history req m = []"
  using assms by (simp add: system_history_def)

subsection \<open>Refused requests\<close>

definition image_refused :: "'i conversion \<Rightarrow> conversion_error \<Rightarrow> bool" where
  "image_refused cv e \<longleftrightarrow> (\<exists>media fmt data err. maybe_shrink_image (cv_codecs cv) (cv_images cv) fmt data = Inl err \<and>
     e = InvalidImage (media @ '' image rejected by safety limits: '' @ resize_error_text err))"

lemma push_image_error: "push_image cv source fmt im = Inl e \<Longrightarrow> image_refused cv e"
  unfolding push_image_def image_refused_def by (auto split: sum.splits)

lemma extract_image_error: "extract_kiro_image cv source im = Inl e \<Longrightarrow> image_refused cv e"
  by (auto simp: extract_kiro_image_def Let_def split: option.splits if_splits dest: push_image_error)

lemma result_item_error: "result_item cv item st = Inl e \<Longrightarrow> image_refused cv e"
  by (auto simp: result_item_def split: option.splits sum.splits if_splits dest: extract_image_error)

lemma result_content_error: "extract_tool_result_content cv content im = Inl e \<Longrightarrow> image_refused cv e"
  by (auto simp: extract_tool_result_content_def split: option.splits json.splits sum.splits
      dest!: each_error dest: result_item_error)

lemma content_item_error: "content_item cv item st = Inl e \<Longrightarrow> image_refused cv e"
  unfolding content_item_def block_image_def block_tool_result_def Let_def
  by (auto split: option.splits sum.splits if_splits dest: extract_image_error result_content_error)

lemma content_error: "process_message_content_dedup cv content seen = Inl e \<Longrightarrow> image_refused cv e"
  by (auto simp: process_message_content_dedup_def Let_def split: json.splits sum.splits
      dest!: each_error dest: content_item_error)

lemma merge_user_error: "merge_user_messages cv m msgs seen = Inl e \<Longrightarrow> image_refused cv e"
  by (auto simp: merge_user_messages_def user_part_def split: sum.splits dest!: each_error dest: content_error)

definition read_refused :: "'i conversion \<Rightarrow> conversion_error \<Rightarrow> bool" where
  "read_refused cv e \<longleftrightarrow> cv_mode cv = ClaudeCode \<and> e = UnsupportedMapping ''Read''"

lemma assistant_item_error: "assistant_item cv item st = Inl e \<Longrightarrow> read_refused cv e"
  unfolding assistant_item_def
  by (auto simp: read_refused_def tool_input_refused Let_def
      split: option.splits sum.splits prod.splits if_splits tool_compatibility_error.splits)

lemma assistant_error: "convert_assistant_message cv msg names = Inl e \<Longrightarrow> read_refused cv e"
  by (auto simp: convert_assistant_message_def split: json.splits sum.splits dest!: each_error dest: assistant_item_error)

lemma merge_assistant_error: "merge_assistant_messages cv msgs names = Inl e \<Longrightarrow> read_refused cv e"
  by (auto simp: merge_assistant_messages_def merge_part_def split: list.splits sum.splits prod.splits if_splits
      dest!: each_error dest: assistant_error)

lemma history_step_error: "history_step cv m msg st = Inl e \<Longrightarrow> read_refused cv e \<or> image_refused cv e"
  by (auto simp: history_step_def flush_assistants_def flush_users_def split: if_splits sum.splits
      dest: merge_assistant_error merge_user_error)

lemma history_end_error: "history_end cv m st = Inl e \<Longrightarrow> read_refused cv e \<or> image_refused cv e"
  by (auto simp: history_end_def flush_assistants_def flush_users_def split: if_splits sum.splits
      dest: merge_assistant_error merge_user_error)

lemma build_history_error: "build_history cv req messages m names = Inl e \<Longrightarrow> read_refused cv e \<or> image_refused cv e"
  by (auto simp: build_history_def split: sum.splits dest!: each_error dest: history_step_error history_end_error)

lemma assemble_cases:
  "case assemble cv cwd req messages m ci ac of
     Refused e \<Rightarrow> read_refused cv e \<or> image_refused cv e | Converted r \<Rightarrow> True | Aborted_conversion \<Rightarrow> False"
proof -
  obtain out names where "convert_tools (cv_lower cv) (cv_sha256_hex cv) (mr_tools req) (hm_empty (\<lambda>_ _. 0)) (cv_mode cv) = Inr (out, names)"
    using convert_tools_total by blast
  then show ?thesis
    by (auto simp: assemble_def process_message_content_def split: sum.splits prod.splits
        dest: content_error build_history_error)
qed



subsection \<open>Contents of a converted request\<close>

text \<open>C15: In a converted request tool calls and results are paired: every call left in the history has a result, in
  the history or in the current message, every result of the current message answers a call of the history
  that the history does not answer, and none twice. Every tool that a call uses is defined, up to letter
  case; the definitions are those of the client's tools, with schemas of the older dialect and distinct
  names, followed by placeholders for the tools the client did not define.\<close>

theorem converted_tools_consistent:
  assumes "convert_request_with_mode cv cwd fresh ac req = Converted r"
  shows "let s = cr_conversation_state r; history = cs_history s;
      results = map tr_tool_use_id (ic_tool_results (ui_context (cs_current_message s)));
      tools = ic_tools (ui_context (cs_current_message s))
    in all_tool_use_ids history \<subseteq> history_tool_result_ids history \<union> set results \<and>
       set results \<subseteq> all_tool_use_ids history - history_tool_result_ids history \<and> distinct results \<and>
       (cv_lower cv \<circ> tu_entry_name) ` set (concat (map message_tool_uses history)) \<subseteq> (cv_lower cv \<circ> td_name) ` set tools \<and>
       (\<exists>own names. tools = own @ map create_placeholder_tool names \<and> list_all (\<lambda>d. tool_schema_ok (td_schema d)) own \<and>
          distinct (map (cv_lower cv \<circ> td_name) own) \<and> distinct names \<and>
          (cv_lower cv \<circ> td_name) ` set own \<inter> cv_lower cv ` set names = {})"
proof -
  obtain m messages ci where a: "assemble cv cwd req messages m ci ac = Converted r"
    using assms by (elim converted)
  obtain results0 tools0 names0 history0
    where t: "convert_tools (cv_lower cv) (cv_sha256_hex cv) (mr_tools req) (hm_empty (\<lambda>_ _. 0)) (cv_mode cv) = Inr (tools0, names0)"
    and p: "pair_tools (cv_lower cv) history0 results0 tools0 =
      (cs_history (cr_conversation_state r),
       ic_tool_results (ui_context (cs_current_message (cr_conversation_state r))),
       ic_tools (ui_context (cs_current_message (cr_conversation_state r))))"
    using a by (elim assembled)
  have own: "list_all (\<lambda>d. tool_schema_ok (td_schema d)) tools0 \<and> distinct (map (cv_lower cv \<circ> td_name) tools0)"
    by (rule converted_definitions [OF t])
  let ?h = "cs_history (cr_conversation_state r)"
  let ?t = "ic_tools (ui_context (cs_current_message (cr_conversation_state r)))"
  from history_tools_defined [OF p] obtain names where d: "\<forall>msg \<in> set ?h. \<forall>tu \<in> set (message_tool_uses msg). \<exists>t \<in> set ?t.
        cv_lower cv (td_name t) = cv_lower cv (tu_entry_name tu)"
    and n: "?t = tools0 @ map create_placeholder_tool names" "distinct names"
      "\<forall>n \<in> set names. \<forall>t \<in> set tools0. cv_lower cv (td_name t) \<noteq> cv_lower cv n" by blast
  have defined: "(cv_lower cv \<circ> tu_entry_name) ` set (concat (map message_tool_uses ?h)) \<subseteq> (cv_lower cv \<circ> td_name) ` set ?t"
  proof
    fix x assume "x \<in> (cv_lower cv \<circ> tu_entry_name) ` set (concat (map message_tool_uses ?h))"
    then obtain msg tu where "msg \<in> set ?h" "tu \<in> set (message_tool_uses msg)" "x = cv_lower cv (tu_entry_name tu)" by auto
    with d show "x \<in> (cv_lower cv \<circ> td_name) ` set ?t" by (force simp: image_iff)
  qed
  have apart: "(cv_lower cv \<circ> td_name) ` set tools0 \<inter> cv_lower cv ` set names = {}" using n(3) by auto
  from tools_paired [OF p] defined own n(1,2) apart show ?thesis
    unfolding Let_def list.map_comp [symmetric] set_map [symmetric] by (intro conjI exI [of _ tools0] exI [of _ names]) auto
qed


lemma tool_ids_append [simp]:
  "all_tool_use_ids (xs @ ys) = all_tool_use_ids xs \<union> all_tool_use_ids ys"
  "history_tool_result_ids (xs @ ys) = history_tool_result_ids xs \<union> history_tool_result_ids ys"
  by (auto simp: all_tool_use_ids_def history_tool_result_ids_def)

lemma tool_ids_system [simp]:
  "all_tool_use_ids (system_history req m) = {}" "history_tool_result_ids (system_history req m) = {}"
  by (auto simp: all_tool_use_ids_def history_tool_result_ids_def system_history_def system_pair_def history_user_def
      history_assistant_def opt_list_def Let_def split: option.splits if_splits)

definition sample_read_block :: "json \<Rightarrow> content_block option" where
  "sample_read_block v =
    (case v of
       JArr [JStr ty, JStr i, JStr n] \<Rightarrow>
         Some \<lparr>cb_type = ty, cb_text = None, cb_thinking = None, cb_tool_use_id = Some i, cb_content = None,
               cb_name = Some n, cb_input = None, cb_id = Some i, cb_is_error = None, cb_source = None,
               cb_cache_control = None\<rparr>
     | _ \<Rightarrow> None)"

definition sample_tool_conversation :: messages_request where
  "sample_tool_conversation = sample_conversation\<lparr>mr_messages :=
     [sample_message ''user'' ''a'',
      \<lparr>cm_role = ''assistant'', cm_content = JArr [JArr [JStr ''tool_use'', JStr ''t1'', JStr ''Write''],
         JArr [JStr ''tool_use'', JStr ''t2'', JStr ''g'']]\<rparr>,
      \<lparr>cm_role = ''user'', cm_content = JArr [JArr [JStr ''tool_result'', JStr ''t1'', JStr ''x'']]\<rparr>]\<rparr>"

definition sample_tool_reader :: "(nat \<times> nat) conversion" where
  "sample_tool_reader = sample_conversion\<lparr>cv_read_block := sample_read_block, cv_mode := Raw\<rparr>"

lemma sample_tools_converted:
  "\<exists>r. convert_request_with_mode sample_tool_reader None [] [] sample_tool_conversation = Converted r \<and>
     all_tool_use_ids (cs_history (cr_conversation_state r)) = {''t1''}"
proof -
  have m: "map_model ''claude-opus-4.6'' = Some ''claude-opus-4.6''" by code_simp
  show ?thesis
    by (simp add: convert_request_with_mode_def sample_conversation_def sample_tool_conversation_def m drop_prefill_def
      sample_message_def sample_tool_reader_def sample_conversion_def sample_read_block_def
      request_session_def assemble_def process_message_content_def process_message_content_dedup_def content_item_def
      block_tool_result_def extract_tool_result_content_def tool_result_success_def convert_tools_def
      build_history_def history_step_def flush_assistants_def flush_users_def history_end_def merge_user_messages_def
      merge_assistant_messages_def convert_assistant_message_def assistant_item_def map_tool_input_to_kiro_def
      map_client_tool_name_to_kiro_def is_claude_code_mode_def map_tool_name_def TOOL_NAME_MAX_LEN_def
      user_part_def pair_tools_def case_prod_unfold Let_def validate_tool_pairing_def all_tool_use_ids_removed)
      (auto simp: all_tool_use_ids_def history_tool_result_ids_def opt_list_def)
qed

theorem converted_tools_consistent_witness:
  "\<exists>r. convert_request_with_mode sample_tool_reader None [] [] sample_tool_conversation = Converted r \<and>
     all_tool_use_ids (cs_history (cr_conversation_state r)) = {''t1''} \<and>
     (map ascii_lower \<circ> tu_entry_name) ` set (concat (map message_tool_uses (cs_history (cr_conversation_state r))))
       \<subseteq> (map ascii_lower \<circ> td_name) ` set (ic_tools (ui_context (cs_current_message (cr_conversation_state r))))"
proof -
  obtain r where r: "convert_request_with_mode sample_tool_reader None [] [] sample_tool_conversation = Converted r"
    "all_tool_use_ids (cs_history (cr_conversation_state r)) = {''t1''}"
    using sample_tools_converted by blast
  from converted_tools_consistent [OF r(1)] r show ?thesis
    by (auto simp: Let_def sample_tool_reader_def sample_conversion_def)
qed

subsection \<open>Models and images of a request\<close>

fun users_of :: "message list \<Rightarrow> user_message list" where
  "users_of [] = []"
| "users_of (User u # ms) = u # users_of ms"
| "users_of (Assistant a # ms) = users_of ms"

lemma users_of_set: "set (users_of ms) = {u. User u \<in> set ms}"
  by (induction ms rule: users_of.induct) auto

lemma users_of_removed: "users_of (remove_orphaned_tool_uses ms orphaned) = users_of ms"
proof -
  let ?f = "\<lambda>msg. case msg of Assistant m \<Rightarrow> Assistant (retain_tool_uses orphaned m) | User m \<Rightarrow> User m"
  have "users_of (map ?f ms) = users_of ms" by (induction ms rule: users_of.induct) simp_all
  then show ?thesis by (simp add: remove_orphaned_tool_uses_def)
qed

text \<open>C19: Every image of a converted request, in the history or in the current message, was accepted by the image
  limits and is what the scaling made of it, in one of the four formats the upstream knows; and every
  message of the user names the model that the client's model is mapped to.\<close>

theorem converted_images_checked:
  assumes "convert_request_with_mode cv cwd fresh ac req = Converted r"
  shows "let s = cr_conversation_state r; current = cs_current_message s; users = users_of (cs_history s)
    in map_model (mr_model req) = Some (ui_model_id current) \<and>
       list_all (\<lambda>u. um_model_id u = ui_model_id current) users \<and>
       list_all (image_checked cv) (ui_images current @ concat (map um_images users))"
proof -
  obtain m messages ci where m: "map_model (mr_model req) = Some m"
    and a: "assemble cv cwd req messages m ci ac = Converted r"
    using assms by (elim converted)
  obtain body im results names names0 tools history
    where c: "process_message_content cv (cm_content (last messages)) = Inr (body, im, results)"
    and h: "build_history cv req messages m names = Inr (history, names0)"
    and p: "pair_tools (cv_lower cv) history results tools =
      (cs_history (cr_conversation_state r),
       ic_tool_results (ui_context (cs_current_message (cr_conversation_state r))),
       ic_tools (ui_context (cs_current_message (cr_conversation_state r))))"
    and i: "ui_images (cs_current_message (cr_conversation_state r)) = im_images im"
    and mi: "ui_model_id (cs_current_message (cr_conversation_state r)) = m"
    using a by (elim assembled)
  have "users_of (cs_history (cr_conversation_state r)) = users_of history"
    using pair_history [OF p] users_of_removed by auto
  then have "um_model_id u = m \<and> list_all (image_checked cv) (um_images u)"
    if "u \<in> set (users_of (cs_history (cr_conversation_state r)))" for u
    using that history_built [OF h] built_user_message [of cv req m u] by (auto simp: users_of_set)
  moreover have "list_all (image_checked cv) (im_images im)"
    using content_checked c by (simp add: process_message_content_def images_checked_def)
  ultimately show ?thesis using m i mi by (auto simp: list_all_iff Let_def)
qed

theorem converted_images_checked_witness:
  "\<exists>r. convert_request_with_mode sample_conversion None [] [] sample_conversation = Converted r \<and>
     list_all (\<lambda>u. um_model_id u = ui_model_id (cs_current_message (cr_conversation_state r)))
       (users_of (cs_history (cr_conversation_state r)))"
proof -
  obtain r where r: "convert_request_with_mode sample_conversion None [] [] sample_conversation = Converted r"
    using sample_converted by blast
  from converted_images_checked [OF r] r show ?thesis by (auto simp: Let_def)
qed


subsection \<open>A plain conversation\<close>

definition user_text :: "string \<Rightarrow> chat_message" where
  "user_text s = \<lparr>cm_role = ''user'', cm_content = JStr s\<rparr>"

definition assistant_text :: "string \<Rightarrow> chat_message" where
  "assistant_text s = \<lparr>cm_role = ''assistant'', cm_content = JStr s\<rparr>"

definition dialogue :: "(string \<times> string) list \<Rightarrow> chat_message list" where
  "dialogue ts = concat (map (\<lambda>(u, a). [user_text u, assistant_text a]) ts)"

definition dialogue_history :: "string \<Rightarrow> (string \<times> string) list \<Rightarrow> message list" where
  "dialogue_history m ts = concat (map (\<lambda>(u, a). [history_user u m, history_assistant a]) ts)"

definition run_history :: "'i conversion \<Rightarrow> string \<Rightarrow> chat_message list \<Rightarrow> history_state \<Rightarrow> conversion_error + history_state" where
  "run_history cv m msgs st =
    (case each (history_step cv m) msgs st of Inl e \<Rightarrow> Inl e | Inr st \<Rightarrow> history_end cv m st)"

lemma run_history_cons:
  "run_history cv m (msg # msgs) st = (case history_step cv m msg st of Inl e \<Rightarrow> Inl e | Inr st \<Rightarrow> run_history cv m msgs st)"
  by (simp add: run_history_def split: sum.split)

text \<open>One turn, with the answer of the turn before still open.\<close>

definition between :: "message list \<Rightarrow> string list \<Rightarrow> name_map \<Rightarrow> string set \<Rightarrow> history_state" where
  "between h answer names seen =
    \<lparr>hs_history = h, hs_users = [], hs_assistants = map assistant_text answer, hs_names = names, hs_seen = seen\<rparr>"

lemma merge_one_user: "merge_user_messages cv m [user_text u] seen =
    Inr (\<lparr>um_content = u, um_model_id = m, um_origin = Some ''AI_EDITOR'', um_images = [], um_tool_results = [], um_tools = []\<rparr>, seen)"
  by (simp add: merge_user_messages_def user_part_def process_message_content_dedup_def user_text_def)

lemma merge_one_assistant:
  "merge_assistant_messages cv [assistant_text a] names = Inr (\<lparr>am_content = a, am_tool_uses = None\<rparr>, names)"
  by (simp add: merge_assistant_messages_def convert_assistant_message_def assistant_text_def)

lemma flush_between:
  "length answer \<le> 1 \<Longrightarrow>
     flush_assistants cv (between h answer names seen) = Inr (between (h @ map history_assistant answer) [] names seen)"
  by (cases answer) (simp_all add: flush_assistants_def between_def merge_one_assistant history_assistant_def)

lemma one_turn:
  assumes "length answer \<le> 1"
  shows "run_history cv m (user_text u # assistant_text a # msgs) (between h answer names seen) =
    run_history cv m msgs (between (h @ map history_assistant answer @ [history_user u m]) [a] names seen)"
  using flush_between [OF assms, of cv h names seen]
  by (simp add: run_history_cons history_step_def user_text_def [of u] assistant_text_def [of a] between_def)
     (simp add: flush_users_def merge_one_user [unfolded user_text_def] history_user_def)

lemma plain_turns:
  "length answer \<le> 1 \<Longrightarrow>
     run_history cv m (dialogue ts) (between h answer names seen) =
       Inr (between (h @ map history_assistant answer @ dialogue_history m ts) [] names seen)"
proof (induction ts arbitrary: h answer)
  case Nil
  have "history_end cv m (between h answer names seen) = Inr (between (h @ map history_assistant answer) [] names seen)"
    using flush_between [OF Nil, of cv h names seen] by (simp add: history_end_def between_def)
  then show ?case by (simp add: run_history_def dialogue_def dialogue_history_def)
next
  case (Cons t ts)
  obtain u a where t: "t = (u, a)" by fastforce
  show ?case
    using Cons.IH [of "[a]" "h @ map history_assistant answer @ [history_user u m]"] one_turn [OF Cons.prems, of cv m u a "dialogue ts" h names seen]
    by (simp add: t dialogue_def dialogue_history_def)
qed

lemma no_tools_paired:
  assumes "\<forall>msg \<in> set h. message_tool_uses msg = []"
  shows "pair_tools lower h [] tools = (h, [], tools)"
proof -
  have "concat (map message_tool_uses h) = []" using assms by (simp add: concat_eq_Nil_conv)
  then have "all_tool_use_ids h = {}" and "collect_history_tool_names h = []"
    by (simp_all only: all_tool_use_ids_def collect_history_tool_names_def) simp_all
  then show ?thesis
    by (simp add: pair_tools_def validate_tool_pairing_def remove_orphaned_tool_uses_def add_placeholder_tools_def)
qed

text \<open>C17: A conversation of plain texts arrives as it is: the history is the system prompt and the turns of the
  client, each text unchanged, the last text is the current message, and nothing is added; the
  conversation keeps the session that the client named.\<close>

theorem plain_conversation_kept:
  assumes "map_model (mr_model req) = Some m" and "request_session cv req = Session session"
    and "mr_messages req = dialogue ts @ [user_text q]" and "mr_tools req = None"
  shows "\<exists>r. convert_request_with_mode cv cwd fresh ac req = Converted r \<and>
    cs_history (cr_conversation_state r) = system_history req m @ dialogue_history m ts \<and>
    cs_conversation_id (cr_conversation_state r) = (case session of Some i \<Rightarrow> i | None \<Rightarrow> fresh) \<and>
    cs_current_message (cr_conversation_state r) =
      \<lparr>ui_context = \<lparr>ic_env_state = default_env_state cwd, ic_tool_results = [], ic_tools = []\<rparr>, ui_content = q,
       ui_model_id = m, ui_images = [], ui_origin = Some ''AI_EDITOR''\<rparr>"
proof -
  let ?names = "hm_empty (\<lambda>_ _. 0) :: name_map"
  have h: "build_history cv req (mr_messages req) m ?names = Inr (system_history req m @ dialogue_history m ts, ?names)"
    using plain_turns [of "[]" cv m ts "system_history req m" ?names "{}"] assms(3)
    by (auto simp: build_history_def run_history_def between_def split: sum.splits)
  have d: "drop_prefill (mr_messages req) = Some (mr_messages req)"
    using assms(3) by (simp add: drop_prefill_def user_text_def)
  have t: "\<forall>msg \<in> set (system_history req m @ dialogue_history m ts). message_tool_uses msg = []"
    by (auto simp: dialogue_history_def system_history_def system_pair_def history_user_def history_assistant_def
        opt_list_def Let_def split: option.splits if_splits)
  have c: "process_message_content cv (cm_content (last (mr_messages req))) = Inr (q, \<lparr>im_seen = None, im_images = []\<rparr>, [])"
    using assms(3) by (simp add: process_message_content_def process_message_content_dedup_def user_text_def)
  show ?thesis
    using assms(1,2,4) by (simp add: convert_request_with_mode_def d assemble_def c convert_tools_def h no_tools_paired [OF t])
qed

theorem plain_conversation_kept_witness:
  "\<exists>r. convert_request_with_mode sample_conversion None ''x'' [] (sample_conversation\<lparr>mr_messages := dialogue [(''a'', ''b'')] @ [user_text ''c'']\<rparr>)
     = Converted r \<and> cs_conversation_id (cr_conversation_state r) = ''x'' \<and>
     ui_content (cs_current_message (cr_conversation_state r)) = ''c''"
proof -
  have m: "map_model ''claude-opus-4.6'' = Some ''claude-opus-4.6''" by code_simp
  show ?thesis
    using plain_conversation_kept [of "sample_conversation\<lparr>mr_messages := dialogue [(''a'', ''b'')] @ [user_text ''c'']\<rparr>"
      "''claude-opus-4.6''" sample_conversion None "[(''a'', ''b'')]" "''c''" None "''x''" "[]"]
    by (auto simp: sample_conversation_def m request_session_def)
qed

end
