(* ===== verification/Client_Keys.thy ===== *)
theory Client_Keys imports Numbers begin

section \<open>Keys of the clients (src/src/admin/client_keys.rs)\<close>

text \<open>
  The keys the proxy hands out to its clients: their creation, the check of a presented key, the counts
  kept for each, and the file they live in. Only a hash of a key is kept. The hash function with its
  secret (\<open>hash_key\<close>) and the older one without (\<open>legacy_hash\<close>) are parameters, as are the random keys and
  the time stamps. A write of the file replaces it or leaves it as it was (\<open>atomic_write\<close> renames a
  complete file over it); the argument \<open>wr\<close> says which. Counts wrap like \<open>u64\<close> in a release build; the
  sum of the credits is rounded to a double.
\<close>

definition CLIENT_KEY_PREFIX :: string where "CLIENT_KEY_PREFIX = ''csk_''"

record client_key =
  ck_id :: nat
  ck_key :: string
  ck_key_hash :: string
  ck_key_prefix :: string
  ck_name :: string
  ck_description :: "string option"
  ck_disabled :: bool
  ck_created_at :: string
  ck_last_used_at :: "string option"
  ck_total_calls :: u64
  ck_total_input_tokens :: u64
  ck_total_output_tokens :: u64
  ck_total_cache_creation_tokens :: u64
  ck_total_cache_read_tokens :: u64
  ck_total_credits :: rat

type_synonym key_map = "(nat, client_key) hash_map"

record key_manager =
  km_entries :: key_map
  km_by_hash :: "(string, nat) hash_map"
  km_next_id :: nat
  km_dirty_usage :: bool
  km_has_path :: bool
  km_file :: "client_key list option"

record key_hashing =
  kh_hash :: "string \<Rightarrow> string"      \<comment> \<open>HMAC-SHA256 with the secret, in hexadecimal\<close>
  kh_legacy :: "string \<Rightarrow> string"    \<comment> \<open>SHA-256, in hexadecimal\<close>

definition hash_key :: "key_hashing \<Rightarrow> string \<Rightarrow> string" where
  "hash_key kh key = ''hmac-sha256'' @ '':'' @ kh_hash kh key"

definition is_legacy_sha256_hash :: "string \<Rightarrow> bool" where
  "is_legacy_sha256_hash v \<longleftrightarrow> length v = 64 \<and>
     list_all (\<lambda>c. c \<in> set ''0123456789abcdefABCDEF'') v"

definition key_prefix :: "string \<Rightarrow> string" where
  "key_prefix key = take_chars 8 key"

definition mask_client_key :: "string \<Rightarrow> string" where
  "mask_client_key key =
    (if key = [] then [] else if length key \<le> 12 then key
     else take 8 key @ ''...'' @ drop (length key - 4) key)"

definition display_client_key :: "client_key \<Rightarrow> string" where
  "display_client_key r =
    (if ck_key r \<noteq> [] then mask_client_key (ck_key r)
     else if ck_key_prefix r \<noteq> [] \<and> 12 \<le> length (ck_key_hash r)
     then ck_key_prefix r @ ''...'' @ take 12 (ck_key_hash r) else [])"

subsection \<open>The file\<close>

definition key_list :: "key_manager \<Rightarrow> client_key list" where
  "key_list m = sort_key ck_id (map snd (hm_iter (km_entries m)))"

text \<open>The plain key is never written.\<close>

definition written_keys :: "key_manager \<Rightarrow> client_key list" where
  "written_keys m = map (\<lambda>k. k\<lparr>ck_key := []\<rparr>) (key_list m)"

definition save_locked :: "bool \<Rightarrow> key_manager \<Rightarrow> key_manager" where
  "save_locked wr m =
    (if \<not> km_has_path m then m
     else m\<lparr>km_file := (if wr then Some (written_keys m) else km_file m), km_dirty_usage := False\<rparr>)"

text \<open>One entry of the file: a plain key of an older file is hashed.\<close>

definition loaded_key :: "key_hashing \<Rightarrow> client_key \<Rightarrow> client_key" where
  "loaded_key kh ck =
    ck\<lparr>ck_key := [],
       ck_key_hash := (if ck_key ck \<noteq> [] then hash_key kh (ck_key ck) else ck_key_hash ck),
       ck_key_prefix := (if ck_key_prefix ck = [] \<and> ck_key ck \<noteq> [] then key_prefix (ck_key ck) else ck_key_prefix ck)\<rparr>"

definition load_entry :: "key_hashing \<Rightarrow> client_key \<Rightarrow> key_manager \<Rightarrow> key_manager" where
  "load_entry kh ck m =
    (let ck = loaded_key kh ck
     in m\<lparr>km_next_id := max (km_next_id m) (ck_id ck + 1),
          km_by_hash := (if ck_key_hash ck \<noteq> [] then hm_insert (ck_key_hash ck) (ck_id ck) (km_by_hash m) else km_by_hash m),
          km_entries := hm_insert (ck_id ck) ck (km_entries m)\<rparr>)"

definition key_manager_new :: "(nat list \<Rightarrow> nat \<Rightarrow> nat) \<Rightarrow> (string list \<Rightarrow> string \<Rightarrow> nat) \<Rightarrow> key_manager" where
  "key_manager_new r1 r2 =
     \<lparr>km_entries = hm_empty r1, km_by_hash = hm_empty r2, km_next_id = 1, km_dirty_usage = False,
      km_has_path = False, km_file = None\<rparr>"

definition load_keys ::
  "(nat list \<Rightarrow> nat \<Rightarrow> nat) \<Rightarrow> (string list \<Rightarrow> string \<Rightarrow> nat) \<Rightarrow> key_hashing \<Rightarrow> bool \<Rightarrow> client_key list option \<Rightarrow> key_manager" where
  "load_keys r1 r2 kh wr content =
    (let entries = (case content of Some es \<Rightarrow> es | None \<Rightarrow> []);
         m = fold (load_entry kh) entries ((key_manager_new r1 r2)\<lparr>km_has_path := True, km_file := content\<rparr>)
     in if list_ex (\<lambda>ck. ck_key ck \<noteq> []) entries then save_locked wr m else m)"

subsection \<open>Administration\<close>

definition create_key ::
  "key_hashing \<Rightarrow> bool \<Rightarrow> string \<Rightarrow> string \<Rightarrow> string \<Rightarrow> string option \<Rightarrow> key_manager \<Rightarrow> key_manager \<times> client_key" where
  "create_key kh wr random_body stamp name description m =
    (let key = CLIENT_KEY_PREFIX @ random_body;
         i = km_next_id m;
         entry = \<lparr>ck_id = i, ck_key = key, ck_key_hash = hash_key kh key, ck_key_prefix = key_prefix key, ck_name = name,
           ck_description = description, ck_disabled = False, ck_created_at = stamp, ck_last_used_at = None,
           ck_total_calls = 0, ck_total_input_tokens = 0, ck_total_output_tokens = 0,
           ck_total_cache_creation_tokens = 0, ck_total_cache_read_tokens = 0, ck_total_credits = 0\<rparr>
     in (save_locked wr (m\<lparr>km_next_id := i + 1, km_by_hash := hm_insert (ck_key_hash entry) i (km_by_hash m),
           km_entries := hm_insert i entry (km_entries m)\<rparr>), entry))"

definition delete_key :: "bool \<Rightarrow> nat \<Rightarrow> key_manager \<Rightarrow> key_manager \<times> bool" where
  "delete_key wr i m =
    (case hm_get (km_entries m) i of
       None \<Rightarrow> (m, False)
     | Some e \<Rightarrow>
         (save_locked wr (m\<lparr>km_entries := hm_remove i (km_entries m),
            km_by_hash := hm_remove (ck_key_hash e) (km_by_hash m)\<rparr>), True))"

text \<open>\<open>set_disabled\<close>, \<open>update_meta\<close> and \<open>reset_stats\<close> change one entry and save.\<close>

definition change_key :: "bool \<Rightarrow> nat \<Rightarrow> (client_key \<Rightarrow> client_key) \<Rightarrow> key_manager \<Rightarrow> key_manager \<times> bool" where
  "change_key wr i f m =
    (case hm_get (km_entries m) i of
       None \<Rightarrow> (m, False)
     | Some e \<Rightarrow> (save_locked wr (m\<lparr>km_entries := hm_insert i (f e) (km_entries m)\<rparr>), True))"

definition set_key_disabled :: "bool \<Rightarrow> nat \<Rightarrow> bool \<Rightarrow> key_manager \<Rightarrow> key_manager \<times> bool" where
  "set_key_disabled wr i disabled = change_key wr i (\<lambda>e. e\<lparr>ck_disabled := disabled\<rparr>)"

definition update_meta ::
  "bool \<Rightarrow> nat \<Rightarrow> string option \<Rightarrow> string option option \<Rightarrow> key_manager \<Rightarrow> key_manager \<times> bool" where
  "update_meta wr i name description = change_key wr i
     (\<lambda>e. e\<lparr>ck_name := (case name of Some n \<Rightarrow> n | None \<Rightarrow> ck_name e),
            ck_description := (case description of Some d \<Rightarrow> d | None \<Rightarrow> ck_description e)\<rparr>)"

definition reset_key_stats :: "bool \<Rightarrow> nat \<Rightarrow> key_manager \<Rightarrow> key_manager \<times> bool" where
  "reset_key_stats wr i = change_key wr i
     (\<lambda>e. e\<lparr>ck_total_calls := 0, ck_total_input_tokens := 0, ck_total_output_tokens := 0,
            ck_total_cache_creation_tokens := 0, ck_total_cache_read_tokens := 0, ck_total_credits := 0\<rparr>)"

subsection \<open>Use\<close>

text \<open>The scan compares every enabled entry and remembers the last hit, and whether it was by the older hash.\<close>

definition scan_key :: "string \<Rightarrow> string \<Rightarrow> nat \<times> client_key \<Rightarrow> nat option \<times> string option \<Rightarrow> nat option \<times> string option" where
  "scan_key presented_hash legacy e hit =
    (let ck = snd e in
     if ck_disabled ck then hit
     else if ck_key_hash ck = presented_hash \<or> ck_key_hash ck = legacy
     then (Some (fst e), if ck_key_hash ck = legacy then Some (ck_key_hash ck) else snd hit)
     else hit)"

definition verify_and_touch ::
  "key_hashing \<Rightarrow> bool \<Rightarrow> string \<Rightarrow> string \<Rightarrow> key_manager \<Rightarrow> key_manager \<times> nat option" where
  "verify_and_touch kh wr stamp presented m =
    (if \<not> starts_with presented CLIENT_KEY_PREFIX then (m, None)
     else
       let presented_hash = hash_key kh presented
       in case fold (scan_key presented_hash (kh_legacy kh presented)) (hm_iter (km_entries m)) (None, None) of
            (None, _) \<Rightarrow> (m, None)
          | (Some i, legacy_hit) \<Rightarrow>
              let m = (case hm_get (km_entries m) i of
                         None \<Rightarrow> m
                       | Some e \<Rightarrow>
                           m\<lparr>km_entries := hm_insert i
                             (e\<lparr>ck_key_hash := (case legacy_hit of Some _ \<Rightarrow> presented_hash | None \<Rightarrow> ck_key_hash e),
                                ck_total_calls := ck_total_calls e + 1, ck_last_used_at := Some stamp\<rparr>) (km_entries m)\<rparr>)
              in ((case legacy_hit of
                     None \<Rightarrow> m
                   | Some old \<Rightarrow>
                       save_locked wr (m\<lparr>km_by_hash := hm_insert presented_hash i (hm_remove old (km_by_hash m))\<rparr>)), Some i))"

text \<open>Credits that are no finite number arrive as \<open>None\<close>.\<close>

definition record_key_usage ::
  "string \<Rightarrow> nat \<Rightarrow> u64 \<Rightarrow> u64 \<Rightarrow> u64 \<Rightarrow> u64 \<Rightarrow> rat option \<Rightarrow> key_manager \<Rightarrow> key_manager" where
  "record_key_usage stamp i input_tokens output_tokens creation cache_reads credits m =
    (case hm_get (km_entries m) i of
       None \<Rightarrow> m
     | Some e \<Rightarrow>
         m\<lparr>km_entries := hm_insert i
           (e\<lparr>ck_total_input_tokens := ck_total_input_tokens e + input_tokens,
              ck_total_output_tokens := ck_total_output_tokens e + output_tokens,
              ck_total_cache_creation_tokens := ck_total_cache_creation_tokens e + creation,
              ck_total_cache_read_tokens := ck_total_cache_read_tokens e + cache_reads,
              ck_total_credits := (case credits of
                 Some c \<Rightarrow> if 0 < c then f64 (ck_total_credits e + c) else ck_total_credits e | None \<Rightarrow> ck_total_credits e),
              ck_last_used_at := Some stamp\<rparr>) (km_entries m)\<rparr>)\<lparr>km_dirty_usage := True\<rparr>"

definition active_count :: "key_manager \<Rightarrow> nat" where
  "active_count m = length (filter (\<lambda>e. \<not> ck_disabled (snd e)) (hm_iter (km_entries m)))"

definition flush_keys :: "bool \<Rightarrow> key_manager \<Rightarrow> key_manager" where
  "flush_keys wr m = (if \<not> km_dirty_usage m then m else save_locked wr m)"

end
