(* ===== verification/Key_Lifecycle.thy ===== *)
theory Key_Lifecycle imports Client_Keys begin

section \<open>The life of a client key\<close>

text \<open>
  A key works from its creation until it is deleted, and not while it is disabled; a restart changes
  nothing of that. The theorems speak of any sequence of operations on the manager, with writes that
  may fail.
\<close>

subsection \<open>Operations and the invariant\<close>

datatype key_op =
    Create_Key bool string string string "string option"
  | Delete_Key bool nat
  | Set_Key_Disabled bool nat bool
  | Update_Meta bool nat "string option" "string option option"
  | Reset_Key_Stats bool nat
  | Verify_Key bool string string
  | Record_Key_Usage string nat u64 u64 u64 u64 "rat option"
  | Flush_Keys bool

fun key_step :: "key_hashing \<Rightarrow> key_op \<Rightarrow> key_manager \<Rightarrow> key_manager" where
  "key_step kh (Create_Key wr body stamp name desc) m = fst (create_key kh wr body stamp name desc m)"
| "key_step kh (Delete_Key wr i) m = fst (delete_key wr i m)"
| "key_step kh (Set_Key_Disabled wr i d) m = fst (set_key_disabled wr i d m)"
| "key_step kh (Update_Meta wr i name desc) m = fst (update_meta wr i name desc m)"
| "key_step kh (Reset_Key_Stats wr i) m = fst (reset_key_stats wr i m)"
| "key_step kh (Verify_Key wr stamp presented) m = fst (verify_and_touch kh wr stamp presented m)"
| "key_step kh (Record_Key_Usage stamp i a b c d e) m = record_key_usage stamp i a b c d e m"
| "key_step kh (Flush_Keys wr) m = flush_keys wr m"

definition km_inv :: "key_manager \<Rightarrow> bool" where
  "km_inv m \<longleftrightarrow> hm_wf (km_entries m) \<and>
     (\<forall>i k. hm_get (km_entries m) i = Some k \<longrightarrow> ck_id k = i \<and> i < km_next_id m)"

lemma save_locked_fields [simp]:
  "km_entries (save_locked wr m) = km_entries m" "km_next_id (save_locked wr m) = km_next_id m"
  "km_by_hash (save_locked wr m) = km_by_hash m" "km_has_path (save_locked wr m) = km_has_path m"
  by (simp_all add: save_locked_def)

text \<open>What every operation does to the entries: it adds a fresh one, removes one or changes one in place.\<close>

inductive key_change :: "key_manager \<Rightarrow> key_manager \<Rightarrow> bool" where
  kept: "km_entries m1 = km_entries m \<Longrightarrow> km_next_id m1 = km_next_id m \<Longrightarrow> key_change m m1"
| added: "km_entries m1 = hm_insert (km_next_id m) k (km_entries m) \<Longrightarrow> ck_id k = km_next_id m \<Longrightarrow>
    km_next_id m1 = km_next_id m + 1 \<Longrightarrow> key_change m m1"
| removed: "km_entries m1 = hm_remove i (km_entries m) \<Longrightarrow> km_next_id m1 = km_next_id m \<Longrightarrow> key_change m m1"
| changed: "km_entries m1 = hm_insert i k (km_entries m) \<Longrightarrow> hm_get (km_entries m) i = Some k0 \<Longrightarrow> ck_id k = ck_id k0 \<Longrightarrow>
    km_next_id m1 = km_next_id m \<Longrightarrow> key_change m m1"

lemma key_change_inv: "key_change m m1 \<Longrightarrow> km_inv m \<Longrightarrow> km_inv m1"
  by (induction rule: key_change.induct)
     (auto simp: km_inv_def hm_simps split: if_splits; fastforce)+

lemma change_key_cases:
  "key_change m (fst (change_key wr i f m))" if "\<And>e. ck_id (f e) = ck_id e"
  using that by (auto simp: change_key_def intro: kept changed split: option.split)

lemma verify_change: "key_change m (fst (verify_and_touch kh wr stamp presented m))"
  unfolding verify_and_touch_def Let_def
  by (auto split: prod.splits option.splits intro: kept changed)

lemma key_step_change: "key_change m (key_step kh op m)"
proof (cases op)
  case (Create_Key wr body stamp name desc)
  then show ?thesis by (auto simp: create_key_def Let_def intro: added)
next
  case (Delete_Key wr i)
  then show ?thesis by (auto simp: delete_key_def intro: kept removed split: option.split)
next
  case (Record_Key_Usage stamp i a b c d e)
  then show ?thesis by (auto simp: record_key_usage_def intro: kept changed split: option.splits)
qed (auto simp: set_key_disabled_def update_meta_def reset_key_stats_def flush_keys_def
      intro: change_key_cases verify_change kept)

interpretation keys: machine "\<lambda>m op. (key_step kh op m, [])" km_inv for kh
  by unfold_locales (simp add: key_change_inv [OF key_step_change])

lemma key_steps_inv: "km_inv m \<Longrightarrow> km_inv (fold (key_step kh) ops m)"
  using keys.run_inv [of m kh ops] by (simp add: run_silent)

lemma new_manager_inv: "km_inv (key_manager_new r1 r2)"
  by (simp add: km_inv_def key_manager_new_def hm_simps)

subsection \<open>The scan\<close>

definition matches :: "key_hashing \<Rightarrow> string \<Rightarrow> client_key \<Rightarrow> bool" where
  "matches kh presented k \<longleftrightarrow> \<not> ck_disabled k \<and> (ck_key_hash k = hash_key kh presented \<or> ck_key_hash k = kh_legacy kh presented)"

lemma scan_result:
  "fst (fold (scan_key (hash_key kh p) (kh_legacy kh p)) es hit) =
    (case filter (\<lambda>e. matches kh p (snd e)) (rev es) of [] \<Rightarrow> fst hit | e # _ \<Rightarrow> Some (fst e))"
proof (induction es arbitrary: hit)
  case (Cons e es)
  then show ?case
    by (cases "filter (\<lambda>e. matches kh p (snd e)) (rev es)") (auto simp: scan_key_def matches_def Let_def)
qed simp

lemma verify_hit:
  assumes "km_inv m" and "verify_and_touch kh wr stamp p m = (m1, Some i)"
  shows "starts_with p CLIENT_KEY_PREFIX \<and> (\<exists>k h. hm_get (km_entries m) i = Some k \<and> matches kh p k \<and>
    (h = ck_key_hash k \<or> h = hash_key kh p) \<and>
    km_entries m1 = hm_insert i (k\<lparr>ck_key_hash := h, ck_total_calls := ck_total_calls k + 1, ck_last_used_at := Some stamp\<rparr>)
      (km_entries m))"
proof -
  have pre: "starts_with p CLIENT_KEY_PREFIX"
    using assms(2) by (auto simp: verify_and_touch_def split: if_splits)
  obtain legacy where f: "fold (scan_key (hash_key kh p) (kh_legacy kh p)) (hm_iter (km_entries m)) (None, None) = (Some i, legacy)"
    using assms(2) pre by (auto simp: verify_and_touch_def Let_def split: prod.splits option.splits)
  from scan_result [of kh p "hm_iter (km_entries m)" "(None, None)"] f
  obtain e es where es: "filter (\<lambda>e. matches kh p (snd e)) (rev (hm_iter (km_entries m))) = e # es" and i: "fst e = i"
    by (auto split: list.splits)
  have "e \<in> set (filter (\<lambda>e. matches kh p (snd e)) (rev (hm_iter (km_entries m))))" by (simp add: es)
  then have "e \<in> set (hm_iter (km_entries m))" and k: "matches kh p (snd e)" by simp_all
  with i assms(1) have g: "hm_get (km_entries m) i = Some (snd e)"
    by (auto simp: km_inv_def hm_iter_get [symmetric])
  show ?thesis
    using assms(2) pre f g k by (cases legacy) (auto simp: verify_and_touch_def Let_def)
qed

lemma verify_miss:
  assumes "km_inv m" and "verify_and_touch kh wr stamp p m = (m1, None)"
  shows "m1 = m \<and> (starts_with p CLIENT_KEY_PREFIX \<longrightarrow> (\<forall>i k. hm_get (km_entries m) i = Some k \<longrightarrow> \<not> matches kh p k))"
proof (cases "starts_with p CLIENT_KEY_PREFIX")
  case False
  then show ?thesis using assms(2) by (simp add: verify_and_touch_def)
next
  case True
  then obtain legacy where f: "fold (scan_key (hash_key kh p) (kh_legacy kh p)) (hm_iter (km_entries m)) (None, None) = (None, legacy)"
    and m1: "m1 = m"
    using assms(2) by (auto simp: verify_and_touch_def Let_def split: prod.splits option.splits)
  from scan_result [of kh p "hm_iter (km_entries m)" "(None, None)"] f
  have "filter (\<lambda>e. matches kh p (snd e)) (rev (hm_iter (km_entries m))) = []"
    by (auto split: list.splits)
  then have "\<forall>e \<in> set (hm_iter (km_entries m)). \<not> matches kh p (snd e)" by (simp add: filter_empty_conv)
  with assms(1) m1 show ?thesis by (auto simp: km_inv_def hm_iter_get [symmetric])
qed

text \<open>A presented key is accepted exactly when it has the prefix of client keys and its hash is that of an entry
  that is not disabled; the entry that is named is such an entry, it is counted and keeps everything else,
  and no other entry changes.\<close>

theorem key_accepted:
  assumes "km_inv m"
  shows "case verify_and_touch kh wr stamp p m of
    (m1, None) \<Rightarrow> m1 = m \<and> \<not> (starts_with p CLIENT_KEY_PREFIX \<and> (\<exists>i k. hm_get (km_entries m) i = Some k \<and> matches kh p k))
  | (m1, Some i) \<Rightarrow> starts_with p CLIENT_KEY_PREFIX \<and>
      (\<exists>k k1. hm_get (km_entries m) i = Some k \<and> matches kh p k \<and> hm_get (km_entries m1) i = Some k1 \<and>
         matches kh p k1 \<and> k1\<lparr>ck_key_hash := ck_key_hash k\<rparr> = k\<lparr>ck_total_calls := ck_total_calls k + 1, ck_last_used_at := Some stamp\<rparr>) \<and>
      (\<lambda>j. if j = i then None else hm_get (km_entries m1) j) = (\<lambda>j. if j = i then None else hm_get (km_entries m) j)"
proof (cases "verify_and_touch kh wr stamp p m")
  case (Pair m1 r)
  show ?thesis
  proof (cases r)
    case None
    then show ?thesis using Pair verify_miss [OF assms, of kh wr stamp p m1] by auto
  next
    case (Some i)
    then show ?thesis using Pair verify_hit [OF assms, of kh wr stamp p m1 i]
      by (auto simp: hm_simps matches_def fun_eq_iff)
  qed
qed


subsection \<open>From creation to deletion\<close>

text \<open>What the operations say of one key: whether it is there, and whether it is disabled.\<close>

fun key_status :: "nat \<Rightarrow> key_op \<Rightarrow> bool option \<Rightarrow> bool option" where
  "key_status i (Delete_Key wr j) s = (if j = i then None else s)"
| "key_status i (Set_Key_Disabled wr j d) s = (if j = i \<and> s \<noteq> None then Some d else s)"
| "key_status i op s = s"

text \<open>The documented form of the older hash, 64 hexadecimal digits, which is never the form of the newer one.\<close>

definition legacy_form :: "key_hashing \<Rightarrow> bool" where
  "legacy_form kh \<longleftrightarrow> (\<forall>s. is_legacy_sha256_hash (kh_legacy kh s))"

lemma hashes_differ:
  assumes "legacy_form kh" shows "kh_legacy kh s \<noteq> hash_key kh t"
proof -
  have "\<not> is_legacy_sha256_hash (hash_key kh t)" by (simp add: is_legacy_sha256_hash_def hash_key_def)
  with assms show ?thesis unfolding legacy_form_def by metis
qed

text \<open>The entry of one key, by its hash: gone, or there and disabled or not.\<close>

definition holds_key :: "string \<Rightarrow> nat \<Rightarrow> bool option \<Rightarrow> key_manager \<Rightarrow> bool" where
  "holds_key h i s m \<longleftrightarrow> i < km_next_id m \<and>
    (case s of
       None \<Rightarrow> hm_get (km_entries m) i = None
     | Some d \<Rightarrow> (\<exists>k. hm_get (km_entries m) i = Some k \<and> ck_key_hash k = h \<and> ck_disabled k = d))"

lemma holds_change:
  assumes "holds_key h i s m" and "\<And>e. ck_key_hash (f e) = ck_key_hash e"
    and "\<And>e. ck_disabled (f e) = (case new of Some d \<Rightarrow> d | None \<Rightarrow> ck_disabled e)"
  shows "holds_key h i (if j = i \<and> s \<noteq> None \<and> new \<noteq> None then new else s) (fst (change_key wr j f m))"
  using assms by (cases s; cases new) (auto simp: holds_key_def change_key_def hm_simps split: option.split)

lemma holds_verify:
  assumes "legacy_form kh" and "km_inv m" and "holds_key (hash_key kh key) i s m"
  shows "holds_key (hash_key kh key) i s (fst (verify_and_touch kh wr stamp p m))"
proof (cases "verify_and_touch kh wr stamp p m")
  case (Pair m1 r)
  show ?thesis
  proof (cases r)
    case None
    then show ?thesis using Pair verify_miss [OF assms(2), of kh wr stamp p m1] assms(3) by simp
  next
    case (Some j)
    have nid: "km_next_id m1 = km_next_id m"
      using Pair by (auto simp: verify_and_touch_def Let_def split: if_splits prod.splits option.splits)
    obtain k h where k: "hm_get (km_entries m) j = Some k" "matches kh p k" "h = ck_key_hash k \<or> h = hash_key kh p"
      and e: "km_entries m1 = hm_insert j (k\<lparr>ck_key_hash := h, ck_total_calls := ck_total_calls k + 1,
        ck_last_used_at := Some stamp\<rparr>) (km_entries m)"
      using verify_hit [OF assms(2)] Pair Some by blast
    have "h = ck_key_hash k" if "ck_key_hash k = hash_key kh key"
      using k(2,3) that hashes_differ [OF assms(1)] unfolding matches_def by metis
    then show ?thesis using assms(3) Pair k e nid
      by (cases s) (auto simp: holds_key_def hm_simps)
  qed
qed

lemma holds_step:
  assumes "legacy_form kh" and "km_inv m" and "holds_key (hash_key kh key) i s m"
  shows "holds_key (hash_key kh key) i (key_status i op s) (key_step kh op m)"
proof (cases op)
  case (Create_Key wr body stamp name desc)
  then show ?thesis using assms(3)
    by (cases s) (auto simp: holds_key_def create_key_def hm_simps Let_def)
next
  case (Delete_Key wr j)
  then show ?thesis using assms(3)
    by (cases s) (auto simp: holds_key_def delete_key_def hm_simps split: option.split)
next
  case (Set_Key_Disabled wr j d)
  then show ?thesis
    using holds_change [OF assms(3), of "\<lambda>e. e\<lparr>ck_disabled := d\<rparr>" "Some d" j wr]
    by (auto simp: set_key_disabled_def split: if_splits)
next
  case (Update_Meta wr j name desc)
  then show ?thesis
    using holds_change [OF assms(3), of _ None] by (simp add: update_meta_def)
next
  case (Reset_Key_Stats wr j)
  then show ?thesis
    using holds_change [OF assms(3), of _ None] by (simp add: reset_key_stats_def)
next
  case (Verify_Key wr stamp p)
  then show ?thesis using holds_verify [OF assms] by simp
next
  case (Record_Key_Usage stamp j a b c d e)
  then show ?thesis using assms(3)
    by (cases s) (auto simp: holds_key_def record_key_usage_def hm_simps split: option.split)
next
  case (Flush_Keys wr)
  then show ?thesis using assms(3) by (auto simp: holds_key_def flush_keys_def split: option.splits)
qed

lemma holds_steps:
  "legacy_form kh \<Longrightarrow> km_inv m \<Longrightarrow> holds_key (hash_key kh key) i s m \<Longrightarrow>
     holds_key (hash_key kh key) i (fold (key_status i) ops s) (fold (key_step kh) ops m)"
proof (induction ops arbitrary: m s)
  case (Cons op ops)
  from Cons.IH [OF Cons.prems(1) _ holds_step [OF Cons.prems]] key_steps_inv [OF Cons.prems(2), of kh "[op]"]
  show ?case by simp
qed simp

text \<open>C29: A key that was created works after any sequence of operations, failed writes included, exactly when it was
  not deleted and was last enabled, as long as no other entry has a hash of it; and it is then that key's
  own id that a check returns.\<close>

theorem key_works_until_deleted:
  assumes "km_inv m" and "legacy_form kh"
    and "create_key kh wr body stamp name description m = (m1, k)"
    and "\<forall>i e. i \<noteq> ck_id k \<longrightarrow> hm_get (km_entries (fold (key_step kh) ops m1)) i = Some e \<longrightarrow>
      ck_key_hash e \<noteq> hash_key kh (ck_key k) \<and> ck_key_hash e \<noteq> kh_legacy kh (ck_key k)"
  shows "snd (verify_and_touch kh wr1 stamp1 (ck_key k) (fold (key_step kh) ops m1)) =
    (if fold (key_status (ck_id k)) ops (Some False) = Some False then Some (ck_id k) else None)"
proof -
  let ?m = "fold (key_step kh) ops m1"
  let ?s = "fold (key_status (ck_id k)) ops (Some False)"
  have m1: "km_inv m1"
    using key_change_inv [OF key_step_change assms(1), of kh "Create_Key wr body stamp name description"] assms(3) by simp
  have "holds_key (hash_key kh (ck_key k)) (ck_id k) (Some False) m1"
    using assms(3) by (auto simp: holds_key_def create_key_def hm_simps Let_def)
  from holds_steps [OF assms(2) m1 this] have h: "holds_key (hash_key kh (ck_key k)) (ck_id k) ?s ?m" .
  have prefix: "starts_with (ck_key k) CLIENT_KEY_PREFIX"
    using assms(3) by (auto simp: create_key_def Let_def starts_with_iff)
  have other: "i = ck_id k" if "hm_get (km_entries ?m) i = Some e" "matches kh (ck_key k) e" for i e
    using assms(4) that by (auto simp: matches_def)
  show ?thesis
  proof (cases "verify_and_touch kh wr1 stamp1 (ck_key k) ?m")
    case (Pair m2 r)
    show ?thesis
    proof (cases r)
      case None
      from verify_miss [OF key_steps_inv [OF m1]] Pair None prefix
      have "\<not> matches kh (ck_key k) e" if "hm_get (km_entries ?m) (ck_id k) = Some e" for e using that by blast
      then have "?s \<noteq> Some False" using h by (auto simp: holds_key_def matches_def)
      then show ?thesis using Pair None by simp
    next
      case (Some i)
      from verify_hit [OF key_steps_inv [OF m1]] Pair Some
      obtain e where e: "hm_get (km_entries ?m) i = Some e" "matches kh (ck_key k) e" by blast
      with other have i: "i = ck_id k" by blast
      then have "?s = Some False" using h e by (auto simp: holds_key_def matches_def split: option.splits)
      then show ?thesis using Pair Some i by simp
    qed
  qed
qed

definition sample_hashing :: key_hashing where
  "sample_hashing = \<lparr>kh_hash = id, kh_legacy = \<lambda>_. replicate 64 (CHR ''0'')\<rparr>"

definition sample_keys :: key_manager where
  "sample_keys = fst (create_key sample_hashing True ''a'' ''t'' ''first'' None (key_manager_new (\<lambda>_ _. 0) (\<lambda>_ _. 0)))"

lemma sample_keys_inv: "km_inv sample_keys"
  using key_steps_inv [OF new_manager_inv, of sample_hashing "[Create_Key True ''a'' ''t'' ''first'' None]"]
  by (simp add: sample_keys_def)

theorem key_accepted_witness:
  "case verify_and_touch sample_hashing True ''t'' ''csk_a'' sample_keys of
     (m1, None) \<Rightarrow> False | (m1, Some i) \<Rightarrow> i = 1 \<and> starts_with ''csk_a'' CLIENT_KEY_PREFIX"
proof -
  have "snd (verify_and_touch sample_hashing True ''t'' ''csk_a'' sample_keys) = Some 1" by code_simp
  then show ?thesis
    using key_accepted [OF sample_keys_inv, where kh = sample_hashing and wr = True and stamp = "''t''" and p = "''csk_a''"] by (auto split: prod.splits)
qed

theorem key_works_until_deleted_witness:
  "snd (verify_and_touch sample_hashing True ''t'' ''csk_b''
     (fold (key_step sample_hashing) [Set_Key_Disabled False 2 True, Verify_Key True ''t'' ''csk_b'', Set_Key_Disabled True 2 False]
        (fst (create_key sample_hashing True ''b'' ''t'' ''second'' None sample_keys)))) = Some 2"
proof -
  let ?ops = "[Set_Key_Disabled False 2 True, Verify_Key True ''t'' ''csk_b'', Set_Key_Disabled True 2 False]"
  let ?c = "create_key sample_hashing True ''b'' ''t'' ''second'' None sample_keys"
  have l: "legacy_form sample_hashing"
    by (simp add: legacy_form_def sample_hashing_def is_legacy_sha256_hash_def list_all_iff)
  have k: "ck_id (snd ?c) = 2" "ck_key (snd ?c) = ''csk_b''" by code_simp+
  have h: "map (\<lambda>e. (fst e, ck_key_hash (snd e))) (hm_entries (km_entries (fold (key_step sample_hashing) ?ops (fst ?c))))
      = [(1, ''hmac-sha256:csk_a''), (2, ''hmac-sha256:csk_b'')]" by code_simp
  let ?m = "km_entries (fold (key_step sample_hashing) ?ops (fst ?c))"
  have mapped: "map_of (map (\<lambda>e. (fst e, f (snd e))) xs) i = map_option f (map_of xs i)" for f :: "client_key \<Rightarrow> string" and xs and i :: nat
    by (induction xs) auto
  have hash: "map_option ck_key_hash (hm_get ?m i) = map_of [(1, ''hmac-sha256:csk_a''), (2, ''hmac-sha256:csk_b'')] i" for i
    unfolding hm_get_def h [symmetric] mapped ..
  have "ck_key_hash e = ''hmac-sha256:csk_a''" if "i \<noteq> 2" "hm_get ?m i = Some e" for i e
    using hash [of i] that by (auto split: if_splits)
  then have "\<forall>i e. i \<noteq> ck_id (snd ?c) \<longrightarrow> hm_get ?m i = Some e \<longrightarrow>
      ck_key_hash e \<noteq> hash_key sample_hashing (ck_key (snd ?c)) \<and> ck_key_hash e \<noteq> kh_legacy sample_hashing (ck_key (snd ?c))"
    unfolding k using hashes_differ [OF l] by (auto simp: hash_key_def sample_hashing_def) (metis hash_key_def)
  from key_works_until_deleted [OF sample_keys_inv l, of True "''b''" "''t''" "''second''" None "fst ?c" "snd ?c" ?ops True "''t''"] this
  show ?thesis by (simp add: k)
qed

subsection \<open>A restart\<close>

lemma load_entries_get:
  "hm_get (km_entries (fold (load_entry kh) es m)) i =
    (case find (\<lambda>k. ck_id k = i) (rev es) of Some k \<Rightarrow> Some (loaded_key kh k) | None \<Rightarrow> hm_get (km_entries m) i)"
proof (induction es arbitrary: m)
  case (Cons e es)
  have "ck_id (loaded_key kh e) = ck_id e" by (simp add: loaded_key_def)
  then show ?case
    unfolding fold_simps Cons.IH by (auto simp: find_append load_entry_def hm_simps Let_def split: option.split)
qed simp

lemma matches_plain [simp]: "matches kh p (k\<lparr>ck_key := []\<rparr>) = matches kh p k"
  by (simp add: matches_def)

lemma in_key_list:
  assumes "km_inv m"
  shows "k \<in> set (key_list m) \<longleftrightarrow> hm_get (km_entries m) (ck_id k) = Some k"
proof -
  have wf: "hm_wf (km_entries m)" using assms by (simp add: km_inv_def)
  have id: "i = ck_id k" if "hm_get (km_entries m) i = Some k" for i using assms that by (simp add: km_inv_def)
  have "k \<in> set (key_list m) \<longleftrightarrow> (\<exists>i. (i, k) \<in> set (hm_iter (km_entries m)))" by (force simp: key_list_def)
  also have "\<dots> \<longleftrightarrow> (\<exists>i. hm_get (km_entries m) i = Some k)" by (simp only: hm_iter_get [OF wf])
  also have "\<dots> \<longleftrightarrow> hm_get (km_entries m) (ck_id k) = Some k" using id by metis
  finally show ?thesis .
qed

lemma in_written_keys:
  assumes "km_inv m"
  shows "k \<in> set (written_keys m) \<longleftrightarrow> (\<exists>k0. hm_get (km_entries m) (ck_id k0) = Some k0 \<and> k = k0\<lparr>ck_key := []\<rparr>)"
  using in_key_list [OF assms] by (auto simp: written_keys_def image_iff)

lemma written_keys_find:
  assumes "km_inv m"
  shows "find (\<lambda>k. ck_id k = i) (rev (written_keys m)) = map_option (\<lambda>k. k\<lparr>ck_key := []\<rparr>) (hm_get (km_entries m) i)"
proof (cases "hm_get (km_entries m) i")
  case None
  then have "\<forall>k \<in> set (written_keys m). ck_id k \<noteq> i" by (auto simp: in_written_keys [OF assms])
  then show ?thesis using None by (simp add: find_None_iff)
next
  case (Some k)
  then have id: "ck_id k = i" using assms by (simp add: km_inv_def)
  have k: "k\<lparr>ck_key := []\<rparr> \<in> set (written_keys m)" unfolding in_written_keys [OF assms] using Some id by blast
  obtain k1 where f: "find (\<lambda>k. ck_id k = i) (rev (written_keys m)) = Some k1"
    using k id by (cases "find (\<lambda>k. ck_id k = i) (rev (written_keys m))") (auto simp: find_None_iff)
  then have "k1 \<in> set (written_keys m)" "ck_id k1 = i" using find_Some_in [OF f] by simp_all
  then have "k1 = k\<lparr>ck_key := []\<rparr>" using Some by (auto simp: in_written_keys [OF assms])
  with f Some show ?thesis by simp
qed

lemma accepted_iff:
  assumes "km_inv m"
  shows "(snd (verify_and_touch kh wr stamp p m) \<noteq> None) \<longleftrightarrow>
    starts_with p CLIENT_KEY_PREFIX \<and> (\<exists>i k. hm_get (km_entries m) i = Some k \<and> matches kh p k)"
proof (cases "verify_and_touch kh wr stamp p m")
  case (Pair m1 r)
  then show ?thesis
    using verify_hit [OF assms, of kh wr stamp p m1] verify_miss [OF assms, of kh wr stamp p m1] by (cases r) auto
qed

lemma next_id_above: "k \<in> set es \<Longrightarrow> ck_id k < km_next_id (fold (load_entry kh) es m)"
proof (induction es rule: rev_induct)
  case (snoc e es)
  then show ?case by (auto simp: load_entry_def loaded_key_def Let_def)
qed simp

text \<open>C30: A manager loaded from the file that another one wrote has the same entries, without the plain keys of
  those created since the last start, hands out fresh ids, and accepts the same keys.\<close>

theorem keys_survive_restart:
  assumes "km_inv m" and "km_has_path m"
  shows "let m1 = load_keys r1 r2 kh wr (km_file (save_locked True m)) in
    km_inv m1 \<and> (\<lambda>i. hm_get (km_entries m1) i) = (\<lambda>i. map_option (\<lambda>k. k\<lparr>ck_key := []\<rparr>) (hm_get (km_entries m) i)) \<and>
    (snd (verify_and_touch kh wr2 stamp p m1) \<noteq> None) = (snd (verify_and_touch kh wr1 stamp p m) \<noteq> None)"
proof -
  let ?m0 = "(key_manager_new r1 r2)\<lparr>km_has_path := True, km_file := Some (written_keys m)\<rparr>"
  let ?m1 = "fold (load_entry kh) (written_keys m) ?m0"
  have plain: "list_all (\<lambda>k. ck_key k = []) (written_keys m)" by (simp add: written_keys_def list_all_iff)
  then have m1: "load_keys r1 r2 kh wr (km_file (save_locked True m)) = ?m1"
    using assms(2) by (simp add: load_keys_def save_locked_def list_ex_iff list_all_iff Let_def)
  have same: "loaded_key kh (k\<lparr>ck_key := []\<rparr>) = k\<lparr>ck_key := []\<rparr>" for k :: client_key
    by (simp add: loaded_key_def)
  have get: "hm_get (km_entries ?m1) i = map_option (\<lambda>k. k\<lparr>ck_key := []\<rparr>) (hm_get (km_entries m) i)" for i
    by (simp add: load_entries_get written_keys_find [OF assms(1)] key_manager_new_def hm_simps same split: option.split)
  have wf: "hm_wf (km_entries (fold (load_entry kh) es m0))" if "hm_wf (km_entries m0)" for es m0
    using that by (induction es arbitrary: m0) (simp_all add: load_entry_def Let_def hm_simps)
  have inv: "km_inv ?m1"
    unfolding km_inv_def
  proof (intro conjI allI impI)
    show "hm_wf (km_entries ?m1)" by (rule wf) (simp add: key_manager_new_def hm_simps)
  next
    fix i k
    assume k: "hm_get (km_entries ?m1) i = Some k"
    then show "ck_id k = i" using assms(1) by (auto simp: get km_inv_def)
    have "k \<in> set (written_keys m)"
      using k written_keys_find [OF assms(1), of i] find_Some_in by (fastforce simp: get)
    then show "i < km_next_id ?m1" using \<open>ck_id k = i\<close> next_id_above by metis
  qed
  have "(snd (verify_and_touch kh wr2 stamp p ?m1) \<noteq> None) = (snd (verify_and_touch kh wr1 stamp p m) \<noteq> None)"
    unfolding accepted_iff [OF inv] accepted_iff [OF assms(1)] get
    by (auto simp: matches_plain simp del: split_paired_Ex) (use matches_plain in blast)+
  with inv get show ?thesis by (simp add: m1 fun_eq_iff Let_def)
qed

theorem keys_survive_restart_witness:
  "km_inv (load_keys (\<lambda>_ _. 0) (\<lambda>_ _. 0) sample_hashing True (km_file (save_locked True (sample_keys\<lparr>km_has_path := True\<rparr>))))"
proof -
  have "km_inv (sample_keys\<lparr>km_has_path := True\<rparr>)" using sample_keys_inv by (simp add: km_inv_def)
  from keys_survive_restart [OF this, where ?r1.0 = "\<lambda>_ _. 0" and ?r2.0 = "\<lambda>_ _. 0" and kh = sample_hashing and wr = True] show ?thesis
    by (simp add: Let_def)
qed

text \<open>A write of the file that fails is not repeated: the flag that asks for one is cleared all the same.\<close>

lemma failed_key_write_not_repeated:
  assumes "km_has_path m"
  shows "flush_keys wr (save_locked False m) = save_locked False m" and "km_file (save_locked False m) = km_file m"
  using assms by (simp_all add: flush_keys_def save_locked_def)

text \<open>A check counts the call without asking for a write, so calls that are only checked are not written.\<close>

lemma checked_calls_not_dirty:
  assumes "verify_and_touch kh wr stamp p m = (m1, Some i)" and "\<not> km_dirty_usage m"
  shows "\<not> km_dirty_usage m1"
  using assms by (auto simp: verify_and_touch_def save_locked_def Let_def split: if_splits prod.splits option.splits)

end
