(* ===== verification/Api_Auth.thy ===== *)
theory Api_Auth imports Key_Lifecycle begin

section \<open>Authentication (src/src/common/auth.rs, anthropic/middleware.rs, admin/middleware.rs)\<close>

text \<open>
  Who may send a request: the key is taken from the headers, compared with the key of the proxy and
  looked up among the keys of the clients; the admin interface counts requests and failed attempts by
  address. Header names are in lower case, as the \<open>http\<close> crate keeps them. A time is a number of
  nanoseconds.
\<close>

record http_request =
  rq_path :: string
  rq_headers :: "(string \<times> string) list"

text \<open>\<open>HeaderValue::to_str\<close>: visible ASCII, blanks and tabs.\<close>

definition header_str :: "string \<Rightarrow> string option" where
  "header_str v = (if list_all (\<lambda>c. (32 \<le> byte_of c \<and> byte_of c < 127) \<or> byte_of c = 9) v then Some v else None)"

definition header :: "http_request \<Rightarrow> string \<Rightarrow> string option" where
  "header rq name = Option.bind (map_of (rq_headers rq) name) header_str"

definition strip_prefix :: "string \<Rightarrow> string \<Rightarrow> string option" where
  "strip_prefix s p = (if starts_with s p then Some (drop (length p) s) else None)"

definition extract_api_key :: "http_request \<Rightarrow> string option" where
  "extract_api_key rq =
    (case header rq ''x-api-key'' of
       Some key \<Rightarrow> Some key
     | None \<Rightarrow> Option.bind (header rq ''authorization'') (\<lambda>v. strip_prefix v ''Bearer ''))"

subsection \<open>Requests of clients\<close>

datatype auth_result = Authorized nat | Unauthorized

definition auth_middleware ::
  "key_hashing \<Rightarrow> bool \<Rightarrow> string \<Rightarrow> string \<Rightarrow> http_request \<Rightarrow> key_manager option \<Rightarrow> key_manager option \<times> auth_result" where
  "auth_middleware kh wr stamp master rq keys =
    (case extract_api_key rq of
       None \<Rightarrow> (keys, Unauthorized)
     | Some presented \<Rightarrow>
         if presented = master then (keys, Authorized 0)
         else
           (case keys of
              None \<Rightarrow> (None, Unauthorized)
            | Some m \<Rightarrow>
                (case verify_and_touch kh wr stamp presented m of
                   (m, Some i) \<Rightarrow> (Some m, Authorized i)
                 | (m, None) \<Rightarrow> (Some m, Unauthorized))))"

subsection \<open>Requests of the administrator\<close>

definition ADMIN_RATE_LIMIT_WINDOW :: nat where "ADMIN_RATE_LIMIT_WINDOW = 60 * 1000000000"
definition ADMIN_AUTH_LIMIT :: nat where "ADMIN_AUTH_LIMIT = 20"
definition ADMIN_SENSITIVE_LIMIT :: nat where "ADMIN_SENSITIVE_LIMIT = 60"

record rate_bucket =
  rb_window_start :: nat
  rb_count :: nat

type_synonym rate_limiter = "string \<Rightarrow> rate_bucket option"

definition admin_rate_key :: "http_request \<Rightarrow> string" where
  "admin_rate_key rq =
    (case (case map_of (rq_headers rq) ''x-forwarded-for'' of
             Some v \<Rightarrow> Some v | None \<Rightarrow> map_of (rq_headers rq) ''x-real-ip'') of
       None \<Rightarrow> ''unknown''
     | Some v \<Rightarrow>
         (case header_str v of
            None \<Rightarrow> ''unknown''
          | Some s \<Rightarrow> let k = trim (takeWhile (\<lambda>c. c \<noteq> CHR '','') s) in if k = [] then ''unknown'' else k))"

definition admin_route_is_sensitive :: "string \<Rightarrow> bool" where
  "admin_route_is_sensitive path \<longleftrightarrow>
     contains path ''/client-keys'' \<or> contains path ''/config'' \<or> contains path ''/credentials'' \<or>
     contains path ''/system/update'' \<or> contains path ''/traces'' \<or> contains path ''/auth/''"

definition admin_rate_limited :: "nat \<Rightarrow> string \<Rightarrow> nat \<Rightarrow> rate_limiter \<Rightarrow> rate_limiter \<times> bool" where
  "admin_rate_limited now key limit buckets =
    (let bucket = (case buckets key of Some b \<Rightarrow> b | None \<Rightarrow> \<lparr>rb_window_start = now, rb_count = 0\<rparr>);
         bucket = (if ADMIN_RATE_LIMIT_WINDOW \<le> now - rb_window_start bucket
                   then \<lparr>rb_window_start = now, rb_count = 0\<rparr> else bucket);
         bucket = bucket\<lparr>rb_count := min (rb_count bucket + 1) (2 ^ 32 - 1)\<rparr>
     in (buckets(key \<mapsto> bucket), limit < rb_count bucket))"

definition admin_rate_is_exceeded :: "nat \<Rightarrow> string \<Rightarrow> nat \<Rightarrow> rate_limiter \<Rightarrow> rate_limiter \<times> bool" where
  "admin_rate_is_exceeded now key limit buckets =
    (case buckets key of
       None \<Rightarrow> (buckets, False)
     | Some bucket \<Rightarrow>
         if ADMIN_RATE_LIMIT_WINDOW \<le> now - rb_window_start bucket
         then (buckets(key \<mapsto> \<lparr>rb_window_start = now, rb_count = 0\<rparr>), False)
         else (buckets, limit \<le> rb_count bucket))"

datatype admin_result = Admin_Passed | Admin_Too_Many | Admin_Unauthorized

text \<open>The clock is read up to three times while a request is checked.\<close>

definition admin_auth_middleware ::
  "nat \<times> nat \<times> nat \<Rightarrow> string \<Rightarrow> http_request \<Rightarrow> rate_limiter \<Rightarrow> rate_limiter \<times> admin_result" where
  "admin_auth_middleware clock admin_key rq buckets =
    (case clock of (t1, t2, t3) \<Rightarrow>
       let rate_key = admin_rate_key rq
       in case (if admin_route_is_sensitive (rq_path rq) then admin_rate_limited t1 rate_key ADMIN_SENSITIVE_LIMIT buckets
                else (buckets, False)) of
            (buckets, True) \<Rightarrow> (buckets, Admin_Too_Many)
          | (buckets, False) \<Rightarrow>
              let auth_rate_key = ''auth:'' @ rate_key
              in case admin_rate_is_exceeded t2 auth_rate_key ADMIN_AUTH_LIMIT buckets of
                   (buckets, True) \<Rightarrow> (buckets, Admin_Too_Many)
                 | (buckets, False) \<Rightarrow>
                     if extract_api_key rq = Some admin_key then (buckets, Admin_Passed)
                     else (fst (admin_rate_limited t3 auth_rate_key ADMIN_AUTH_LIMIT buckets), Admin_Unauthorized))"

fun admin_requests ::
  "string \<Rightarrow> ((nat \<times> nat \<times> nat) \<times> http_request) list \<Rightarrow> rate_limiter \<Rightarrow> rate_limiter \<times> (http_request \<times> admin_result) list" where
  "admin_requests admin_key [] buckets = (buckets, [])"
| "admin_requests admin_key ((ts, rq) # rqs) buckets =
    (case admin_auth_middleware ts admin_key rq buckets of
       (buckets, r) \<Rightarrow> (case admin_requests admin_key rqs buckets of (buckets, rs) \<Rightarrow> (buckets, (rq, r) # rs)))"

subsection \<open>What gets through\<close>

text \<open>C31: A request of a client is let through exactly when it carries the key of the proxy, under the id 0, or a key
  of a client that is not disabled, under that key's id; the keys change only by counting that call.\<close>

theorem request_authorized:
  assumes "km_inv m"
  shows "case auth_middleware kh wr stamp master rq (Some m) of
    (keys1, Authorized i) \<Rightarrow> (\<exists>p. extract_api_key rq = Some p \<and>
       (if p = master then i = 0 \<and> keys1 = Some m
        else starts_with p CLIENT_KEY_PREFIX \<and> (\<exists>k. hm_get (km_entries m) i = Some k \<and> matches kh p k) \<and>
          keys1 = Some (key_step kh (Verify_Key wr stamp p) m)))
  | (keys1, Unauthorized) \<Rightarrow> keys1 = Some m \<and> (case extract_api_key rq of
       None \<Rightarrow> True
     | Some p \<Rightarrow> p \<noteq> master \<and> \<not> (starts_with p CLIENT_KEY_PREFIX \<and> (\<exists>i k. hm_get (km_entries m) i = Some k \<and> matches kh p k)))"
proof (cases "extract_api_key rq")
  case None
  then show ?thesis by (simp add: auth_middleware_def)
next
  case (Some p)
  show ?thesis
  proof (cases "p = master")
    case True
    with Some show ?thesis by (simp add: auth_middleware_def)
  next
    case False
    obtain m1 r where v: "verify_and_touch kh wr stamp p m = (m1, r)" by fastforce
    show ?thesis
    proof (cases r)
      case None
      with Some False v verify_miss [OF assms, of kh wr stamp p m1] show ?thesis
        by (auto simp: auth_middleware_def)
    next
      case r: (Some i)
      with Some False v verify_hit [OF assms, of kh wr stamp p m1 i] show ?thesis
        by (auto simp: auth_middleware_def)
    qed
  qed
qed

text \<open>An empty key of the proxy lets every request with an empty \<open>x-api-key\<close> through.\<close>

lemma empty_master_key:
  assumes "map_of (rq_headers rq) ''x-api-key'' = Some []"
  shows "auth_middleware kh wr stamp [] rq keys = (keys, Authorized 0)"
  using assms by (simp add: auth_middleware_def extract_api_key_def header_def header_str_def)

subsection \<open>Guessing the key of the administrator\<close>

text \<open>How many failed attempts the bucket of an address still allows before the time \<open>T + WINDOW\<close>.\<close>

definition allowance :: "nat \<Rightarrow> rate_bucket option \<Rightarrow> nat" where
  "allowance T b =
    (case b of
       None \<Rightarrow> ADMIN_AUTH_LIMIT
     | Some b \<Rightarrow> (ADMIN_AUTH_LIMIT - rb_count b) + (if T \<le> rb_window_start b then 0 else ADMIN_AUTH_LIMIT))"

definition within_window :: "nat \<Rightarrow> nat \<Rightarrow> bool" where
  "within_window T t \<longleftrightarrow> T \<le> t \<and> t < T + ADMIN_RATE_LIMIT_WINDOW"

lemma exceeded_allowance:
  assumes "within_window T t"
  shows "allowance T (fst (admin_rate_is_exceeded t k limit buckets) k1) \<le> allowance T (buckets k1)"
  using assms by (auto simp: admin_rate_is_exceeded_def allowance_def within_window_def split: option.split)

lemma limited_allowance:
  assumes "within_window T t"
  shows "allowance T (fst (admin_rate_limited t k limit buckets) k1) \<le> allowance T (buckets k1)"
  using assms
  by (auto simp: admin_rate_limited_def allowance_def within_window_def ADMIN_AUTH_LIMIT_def min_def Let_def split: option.split)

text \<open>A failed attempt uses one up, because the bucket was not full.\<close>

lemma attempt_allowance:
  assumes "within_window T t2" and "within_window T t3"
    and "admin_rate_is_exceeded t2 k ADMIN_AUTH_LIMIT buckets = (buckets1, False)"
  shows "allowance T (fst (admin_rate_limited t3 k ADMIN_AUTH_LIMIT buckets1) k) < allowance T (buckets k)"
  using assms
  by (auto simp: admin_rate_is_exceeded_def admin_rate_limited_def allowance_def within_window_def Let_def
      ADMIN_AUTH_LIMIT_def min_def split: option.splits if_splits)

definition failures :: "string \<Rightarrow> (http_request \<times> admin_result) list \<Rightarrow> nat" where
  "failures k rs = length (filter (\<lambda>(rq, r). admin_rate_key rq = k \<and> r = Admin_Unauthorized) rs)"

lemma request_allowance:
  assumes "within_window T t1" and "within_window T t2" and "within_window T t3"
    and "admin_auth_middleware (t1, t2, t3) key rq buckets = (buckets1, r)"
  shows "failures k [(rq, r)] + allowance T (buckets1 (''auth:'' @ k)) \<le> allowance T (buckets (''auth:'' @ k))"
proof -
  let ?k = "admin_rate_key rq"
  obtain b1 limited where s: "(if admin_route_is_sensitive (rq_path rq) then admin_rate_limited t1 ?k ADMIN_SENSITIVE_LIMIT buckets
      else (buckets, False)) = (b1, limited)" by fastforce
  have a1: "allowance T (b1 x) \<le> allowance T (buckets x)" for x
    using limited_allowance [OF assms(1), of ?k ADMIN_SENSITIVE_LIMIT buckets x] s by (auto split: if_splits)
  show ?thesis
  proof (cases limited)
    case True
    then show ?thesis using assms(4) s a1 by (auto simp: admin_auth_middleware_def failures_def Let_def)
  next
    case False
    obtain b2 full where e: "admin_rate_is_exceeded t2 (''auth:'' @ ?k) ADMIN_AUTH_LIMIT b1 = (b2, full)" by fastforce
    have a2: "allowance T (b2 x) \<le> allowance T (b1 x)" for x
      using exceeded_allowance [OF assms(2), of "''auth:'' @ ?k" ADMIN_AUTH_LIMIT b1 x] e by simp
    let ?b3 = "fst (admin_rate_limited t3 (''auth:'' @ ?k) ADMIN_AUTH_LIMIT b2)"
    have a3: "allowance T (?b3 x) \<le> allowance T (b2 x)" for x
      by (rule limited_allowance [OF assms(3)])
    consider "full" | "\<not> full" "extract_api_key rq = Some key" | "\<not> full" "extract_api_key rq \<noteq> Some key" by blast
    then show ?thesis
    proof cases
      case 3
      then have r: "buckets1 = ?b3" "r = Admin_Unauthorized"
        using assms(4) s e False by (auto simp: admin_auth_middleware_def Let_def)
      show ?thesis
      proof (cases "?k = k")
        case True
        have "allowance T (?b3 (''auth:'' @ k)) < allowance T (b1 (''auth:'' @ k))"
          using attempt_allowance [OF assms(2,3), of "''auth:'' @ k" b1 b2] e 3 True by simp
        then show ?thesis using r a1 [of "''auth:'' @ k"] True by (simp add: failures_def)
      next
        case False
        then show ?thesis using r order_trans [OF a3 order_trans [OF a2 a1]] by (simp add: failures_def)
      qed
    qed (use assms(4) s e False order_trans [OF a2 a1] in \<open>auto simp: admin_auth_middleware_def failures_def Let_def\<close>)
  qed
qed

lemma requests_allowance:
  assumes "list_all (\<lambda>((t1, t2, t3), rq). within_window T t1 \<and> within_window T t2 \<and> within_window T t3) rqs"
  shows "failures k (snd (admin_requests key rqs buckets)) + allowance T (fst (admin_requests key rqs buckets) (''auth:'' @ k))
    \<le> allowance T (buckets (''auth:'' @ k))"
  using assms
proof (induction rqs arbitrary: buckets)
  case Nil
  then show ?case by (simp add: failures_def)
next
  case (Cons x rqs)
  obtain t1 t2 t3 rq where x: "x = ((t1, t2, t3), rq)" by (metis prod.collapse)
  obtain b1 r where a: "admin_auth_middleware (t1, t2, t3) key rq buckets = (b1, r)" by fastforce
  obtain b2 rs where b: "admin_requests key rqs b1 = (b2, rs)" by fastforce
  have "failures k ((rq, r) # rs) = failures k [(rq, r)] + failures k rs" by (simp add: failures_def)
  then show ?case
    using Cons.IH [of b1] Cons.prems request_allowance [of T t1 t2 t3 key rq buckets b1 r k] a b by (simp add: x)
qed


definition guess :: "nat \<Rightarrow> (nat \<times> nat \<times> nat) \<times> http_request" where
  "guess t = ((t, t, t), \<lparr>rq_path = ''/x'', rq_headers = [(''x-api-key'', ''guess'')]\<rparr>)"


text \<open>The address is what the client writes into a header: attempts that name different addresses are not limited.\<close>

lemma spoofed_addresses_not_limited:
  assumes "buckets (''auth:'' @ admin_rate_key rq) = None" and "\<not> admin_route_is_sensitive (rq_path rq)"
    and "extract_api_key rq \<noteq> Some key"
  shows "snd (admin_auth_middleware ts key rq buckets) = Admin_Unauthorized"
  using assms by (cases ts) (simp add: admin_auth_middleware_def admin_rate_is_exceeded_def Let_def)

theorem request_authorized_witness:
  "\<exists>keys1. auth_middleware sample_hashing True ''t'' ''master''
     \<lparr>rq_path = ''/v1/messages'', rq_headers = [(''authorization'', ''Bearer csk_a'')]\<rparr> (Some sample_keys) = (keys1, Authorized 1) \<and>
   (\<exists>k. hm_get (km_entries sample_keys) 1 = Some k \<and> matches sample_hashing ''csk_a'' k)"
proof -
  let ?rq = "\<lparr>rq_path = ''/v1/messages'', rq_headers = [(''authorization'', ''Bearer csk_a'')]\<rparr>"
  have "snd (auth_middleware sample_hashing True ''t'' ''master'' ?rq (Some sample_keys)) = Authorized 1" by code_simp
  moreover have "extract_api_key ?rq = Some ''csk_a''" by code_simp
  ultimately show ?thesis
    using request_authorized [OF sample_keys_inv, where kh = sample_hashing and wr = True and stamp = "''t''"
        and master = "''master''" and rq = ?rq]
    by (auto split: prod.splits)
qed

end
