(* ===== verification/Proxy_Pool.thy ===== *)
theory Proxy_Pool imports Text Credential_Pool begin

section \<open>The pool of proxies (src/src/admin/proxy_pool.rs)\<close>

text \<open>
  The proxies the administrator keeps for the credentials: adding, removing and switching them, and
  the health check that probes them and disables those that fail three times in a row. The probe
  itself (a request through the proxy) is a parameter; its outcome arrives as a value, as does the time
  stamp. A check has three parts, the choice of the targets, the probes and their evaluation, and other
  operations run during the probes. The file is written after the lock is released, so a write is a
  step of its own.
\<close>

definition MAX_PROXY_PROBE_FAILURES :: u32 where "MAX_PROXY_PROBE_FAILURES = 3"

datatype proxy_health = Unknown_Health | Healthy | Unhealthy

record proxy_entry =
  pe_id :: nat
  pe_url :: string
  pe_label :: "string option"
  pe_enabled :: bool
  pe_health :: proxy_health
  pe_latency_ms :: "nat option"
  pe_last_checked_at :: "string option"
  pe_consecutive_failures :: u32
  pe_auto_disabled :: bool

datatype get_url_result = Url_Ok string | Url_Not_Found | Url_Disabled

record check_summary =
  cs_healthy :: nat
  cs_unhealthy :: nat
  cs_auto_disabled :: nat

datatype probe_result = Probe_Ok nat | Probe_Err string

datatype proxy_error = Empty_Url | Bad_Scheme string | No_Port string | Duplicate_Url string | No_Proxy nat | Proxy_Write_Failed

text \<open>The file holds what can be read from it, \<open>None\<close> when it is missing or damaged.\<close>

record proxy_pool =
  pp_entries :: "proxy_entry list"
  pp_next_id :: nat
  pp_has_path :: bool
  pp_file :: "proxy_entry list option"

definition valid_schemes :: "string list" where
  "valid_schemes = [''http://'', ''https://'', ''socks5://'', ''socks4://'']"

text \<open>\<open>s.rsplit('@').next()\<close>: what follows the last \<open>@\<close>.\<close>

definition after_last_at :: "string \<Rightarrow> string" where
  "after_last_at s = rev (takeWhile (\<lambda>c. c \<noteq> CHR ''@'') (rev s))"

definition validate_proxy_url :: "string \<Rightarrow> proxy_error option" where
  "validate_proxy_url url =
    (case find (starts_with url) valid_schemes of
       None \<Rightarrow> Some (Bad_Scheme url)
     | Some s \<Rightarrow> if CHR '':'' \<in> set (after_last_at (drop (length s) url)) then None else Some (No_Port url))"

definition proxy_pool_new :: "bool \<Rightarrow> proxy_entry list option \<Rightarrow> proxy_pool" where
  "proxy_pool_new has_path content =
    (let entries = (if has_path then case content of Some es \<Rightarrow> es | None \<Rightarrow> [] else [])
     in \<lparr>pp_entries = entries, pp_next_id = fold max (map pe_id entries) 0 + 1, pp_has_path = has_path, pp_file = content\<rparr>)"

definition persist_proxies :: "proxy_entry list option write_result \<Rightarrow> proxy_pool \<Rightarrow> proxy_pool \<times> bool" where
  "persist_proxies wr m =
    (if \<not> pp_has_path m then (m, True)
     else (case wr of
             Written \<Rightarrow> (m\<lparr>pp_file := Some (pp_entries m)\<rparr>, True)
           | Failed rest \<Rightarrow> (m\<lparr>pp_file := rest\<rparr>, False)))"

definition persist_then :: "proxy_entry list option write_result \<Rightarrow> 'a \<Rightarrow> proxy_pool \<Rightarrow> proxy_pool \<times> (proxy_error + 'a)" where
  "persist_then wr r m = (case persist_proxies wr m of (m, ok) \<Rightarrow> (m, if ok then Inr r else Inl Proxy_Write_Failed))"

definition new_proxy :: "nat \<Rightarrow> string \<Rightarrow> string option \<Rightarrow> proxy_entry" where
  "new_proxy i url label =
    \<lparr>pe_id = i, pe_url = url, pe_label = label, pe_enabled = True, pe_health = Unknown_Health, pe_latency_ms = None,
     pe_last_checked_at = None, pe_consecutive_failures = 0, pe_auto_disabled = False\<rparr>"

text \<open>The common end of \<open>add\<close> and of one turn of \<open>batch_add\<close>, with the lock held.\<close>

definition insert_proxy :: "string \<Rightarrow> string option \<Rightarrow> proxy_pool \<Rightarrow> proxy_pool \<times> (proxy_error + proxy_entry)" where
  "insert_proxy url label m =
    (case validate_proxy_url url of
       Some e \<Rightarrow> (m, Inl e)
     | None \<Rightarrow>
         if list_ex (\<lambda>e. pe_url e = url) (pp_entries m) then (m, Inl (Duplicate_Url url))
         else let entry = new_proxy (pp_next_id m) url label
              in (m\<lparr>pp_next_id := pp_next_id m + 1, pp_entries := pp_entries m @ [entry]\<rparr>, Inr entry))"

definition add_proxy ::
  "proxy_entry list option write_result \<Rightarrow> string \<Rightarrow> string option \<Rightarrow> proxy_pool \<Rightarrow> proxy_pool \<times> (proxy_error + proxy_entry)" where
  "add_proxy wr url label m =
    (let url = trim url
     in if url = [] then (m, Inl Empty_Url)
        else (case insert_proxy url label m of
                (m, Inl e) \<Rightarrow> (m, Inl e)
              | (m, Inr entry) \<Rightarrow> persist_then wr entry m))"

fun batch_insert :: "string list \<Rightarrow> proxy_pool \<Rightarrow> proxy_pool \<times> proxy_entry list \<times> proxy_error list" where
  "batch_insert [] m = (m, [], [])"
| "batch_insert (u # us) m =
    (let url = trim u
     in if url = [] \<or> starts_with url ''#'' then batch_insert us m
        else (case insert_proxy url None m of
                (m, Inl e) \<Rightarrow> (case batch_insert us m of (m, added, errors) \<Rightarrow> (m, added, e # errors))
              | (m, Inr entry) \<Rightarrow> (case batch_insert us m of (m, added, errors) \<Rightarrow> (m, entry # added, errors))))"

definition batch_add ::
  "proxy_entry list option write_result \<Rightarrow> string list \<Rightarrow> proxy_pool \<Rightarrow> proxy_pool \<times> proxy_entry list \<times> proxy_error list" where
  "batch_add wr urls m =
    (case batch_insert urls m of
       (m, added, errors) \<Rightarrow> ((if added \<noteq> [] then fst (persist_proxies wr m) else m), added, errors))"

definition delete_proxy :: "proxy_entry list option write_result \<Rightarrow> nat \<Rightarrow> proxy_pool \<Rightarrow> proxy_pool \<times> (proxy_error + unit)" where
  "delete_proxy wr i m =
    (let rest = filter (\<lambda>e. pe_id e \<noteq> i) (pp_entries m)
     in if length rest = length (pp_entries m) then (m\<lparr>pp_entries := rest\<rparr>, Inl (No_Proxy i))
        else persist_then wr () (m\<lparr>pp_entries := rest\<rparr>))"

definition enable_entry :: "bool \<Rightarrow> proxy_entry \<Rightarrow> proxy_entry" where
  "enable_entry enabled e =
    (let e = e\<lparr>pe_enabled := enabled\<rparr>
     in if enabled then e\<lparr>pe_auto_disabled := False, pe_consecutive_failures := 0\<rparr> else e)"

definition find_proxy :: "nat \<Rightarrow> proxy_pool \<Rightarrow> proxy_entry option" where
  "find_proxy i m = find (\<lambda>e. pe_id e = i) (pp_entries m)"

definition change_proxy :: "nat \<Rightarrow> (proxy_entry \<Rightarrow> proxy_entry) \<Rightarrow> proxy_pool \<Rightarrow> proxy_pool" where
  "change_proxy i f m = m\<lparr>pp_entries := update_first (\<lambda>e. pe_id e = i) f (pp_entries m)\<rparr>"

definition set_enabled ::
  "proxy_entry list option write_result \<Rightarrow> nat \<Rightarrow> bool \<Rightarrow> proxy_pool \<Rightarrow> proxy_pool \<times> (proxy_error + unit)" where
  "set_enabled wr i enabled m =
    (case find_proxy i m of
       None \<Rightarrow> (m, Inl (No_Proxy i))
     | Some _ \<Rightarrow> persist_then wr () (change_proxy i (enable_entry enabled) m))"

definition get_url :: "nat \<Rightarrow> proxy_pool \<Rightarrow> get_url_result" where
  "get_url i m =
    (case find_proxy i m of
       None \<Rightarrow> Url_Not_Found
     | Some e \<Rightarrow> if \<not> pe_enabled e then Url_Disabled else Url_Ok (pe_url e))"

definition assignable_urls :: "proxy_pool \<Rightarrow> string list" where
  "assignable_urls m = map pe_url (filter (\<lambda>e. pe_enabled e \<and> pe_health e \<noteq> Unhealthy) (pp_entries m))"

subsection \<open>The health check\<close>

text \<open>The reply to a probe; \<open>None\<close> stands for a client that could not be built and \<open>Inl\<close> for a request that failed.\<close>

definition probe_one :: "(string + nat \<times> nat) option \<Rightarrow> probe_result" where
  "probe_one reply =
    (case reply of
       None \<Rightarrow> Probe_Err ''client''
     | Some (Inl e) \<Rightarrow> Probe_Err e
     | Some (Inr (status, elapsed_ms)) \<Rightarrow>
         if 200 \<le> status \<and> status < 400 then Probe_Ok (min elapsed_ms (2 ^ 32 - 1))
         else Probe_Err ''status'')"

definition apply_probe_result :: "string \<Rightarrow> probe_result \<Rightarrow> proxy_entry \<Rightarrow> proxy_entry \<times> bool \<times> bool" where
  "apply_probe_result stamp result entry =
    (let entry = entry\<lparr>pe_last_checked_at := Some stamp\<rparr>
     in case result of
          Probe_Ok latency \<Rightarrow>
            (entry\<lparr>pe_health := Healthy, pe_latency_ms := Some latency, pe_consecutive_failures := 0\<rparr>, False, False)
        | Probe_Err _ \<Rightarrow>
            let entry = entry\<lparr>pe_health := Unhealthy, pe_latency_ms := None,
                  pe_consecutive_failures := pe_consecutive_failures entry + 1\<rparr>
            in if MAX_PROXY_PROBE_FAILURES \<le> pe_consecutive_failures entry \<and> pe_enabled entry
               then (entry\<lparr>pe_enabled := False, pe_auto_disabled := True\<rparr>, True, True)
               else (entry, True, False))"

definition check_targets :: "proxy_pool \<Rightarrow> (nat \<times> string) list" where
  "check_targets m = map (\<lambda>e. (pe_id e, pe_url e)) (filter pe_enabled (pp_entries m))"

definition count_probe :: "bool \<times> bool \<Rightarrow> check_summary \<Rightarrow> check_summary" where
  "count_probe r s =
    (let s = (if fst r then s\<lparr>cs_unhealthy := cs_unhealthy s + 1\<rparr> else s\<lparr>cs_healthy := cs_healthy s + 1\<rparr>)
     in if snd r then s\<lparr>cs_auto_disabled := cs_auto_disabled s + 1\<rparr> else s)"

definition apply_result ::
  "nat \<times> string \<times> probe_result \<Rightarrow> proxy_pool \<times> check_summary \<Rightarrow> proxy_pool \<times> check_summary" where
  "apply_result r ms =
    (case r of (i, stamp, result) \<Rightarrow>
      (case find_proxy i (fst ms) of
         None \<Rightarrow> ms
       | Some e \<Rightarrow>
           (change_proxy i (\<lambda>e. fst (apply_probe_result stamp result e)) (fst ms),
            count_probe (snd (apply_probe_result stamp result e)) (snd ms))))"

definition no_checks :: check_summary where
  "no_checks = \<lparr>cs_healthy = 0, cs_unhealthy = 0, cs_auto_disabled = 0\<rparr>"

definition evaluate_checks :: "(nat \<times> string \<times> probe_result) list \<Rightarrow> proxy_pool \<Rightarrow> proxy_pool \<times> check_summary" where
  "evaluate_checks results m = fold apply_result results (m, no_checks)"

text \<open>
  The whole check: \<open>probe\<close> gives the outcome for an id and an address with the stamp of its evaluation,
  \<open>others\<close> is what the other requests do to the pool during the probes, \<open>later\<close> between the evaluation and
  the write.
\<close>

definition check_all ::
  "(nat \<Rightarrow> string \<Rightarrow> string \<times> probe_result) \<Rightarrow> (proxy_pool \<Rightarrow> proxy_pool) \<Rightarrow> (proxy_pool \<Rightarrow> proxy_pool)
     \<Rightarrow> proxy_entry list option write_result \<Rightarrow> proxy_pool \<Rightarrow> proxy_pool \<times> check_summary" where
  "check_all probe others later wr m =
    (let targets = check_targets m
     in if targets = [] then (m, no_checks)
        else (case evaluate_checks (map (\<lambda>t. (fst t, probe (fst t) (snd t))) targets) (others m) of
                (m, s) \<Rightarrow> (fst (persist_proxies wr (later m)), s)))"

definition check_one ::
  "(string \<Rightarrow> string \<times> probe_result) \<Rightarrow> (proxy_pool \<Rightarrow> proxy_pool) \<Rightarrow> (proxy_pool \<Rightarrow> proxy_pool)
     \<Rightarrow> proxy_entry list option write_result \<Rightarrow> nat \<Rightarrow> proxy_pool \<Rightarrow> proxy_pool \<times> (proxy_error + proxy_entry)" where
  "check_one probe others later wr i m =
    (case find_proxy i m of
       None \<Rightarrow> (m, Inl (No_Proxy i))
     | Some e \<Rightarrow>
         (case probe (pe_url e) of
            (stamp, result) \<Rightarrow>
              let m = others m
              in case find_proxy i m of
                   None \<Rightarrow> (m, Inl (No_Proxy i))
                 | Some e \<Rightarrow>
                     persist_then wr (fst (apply_probe_result stamp result e))
                       (later (change_proxy i (\<lambda>e. fst (apply_probe_result stamp result e)) m))))"

end
