(* ===== verification/Proxy_Checks.thy ===== *)
theory Proxy_Checks imports Proxy_Pool begin

section \<open>The health of the proxies\<close>

text \<open>
  The invariant of the pool of proxies, and what becomes of one proxy under any sequence of steps: an
  abstract machine with three kinds of states says when it works, and the pool follows it. The steps
  are the sections that run with the lock held, so that a check is the sequence of its parts with the
  steps of other requests between them.
\<close>

datatype proxy_op =
    Add_Proxy "proxy_entry list option write_result" string "string option"
  | Batch_Proxies "proxy_entry list option write_result" "string list"
  | Delete_Proxy "proxy_entry list option write_result" nat
  | Enable_Proxy "proxy_entry list option write_result" nat bool
  | Evaluate_Checks "(nat \<times> string \<times> probe_result) list"
  | Write_Proxies "proxy_entry list option write_result"

fun proxy_step :: "proxy_op \<Rightarrow> proxy_pool \<Rightarrow> proxy_pool" where
  "proxy_step (Add_Proxy wr url label) m = fst (add_proxy wr url label m)"
| "proxy_step (Batch_Proxies wr urls) m = fst (batch_add wr urls m)"
| "proxy_step (Delete_Proxy wr i) m = fst (delete_proxy wr i m)"
| "proxy_step (Enable_Proxy wr i b) m = fst (set_enabled wr i b m)"
| "proxy_step (Evaluate_Checks results) m = fst (evaluate_checks results m)"
| "proxy_step (Write_Proxies wr) m = fst (persist_proxies wr m)"

subsection \<open>The invariant\<close>

definition proxy_ok :: "proxy_entry \<Rightarrow> bool" where
  "proxy_ok e \<longleftrightarrow> (pe_auto_disabled e \<longrightarrow> \<not> pe_enabled e) \<and>
     (pe_enabled e \<longrightarrow> pe_consecutive_failures e < MAX_PROXY_PROBE_FAILURES)"

definition pp_inv :: "proxy_pool \<Rightarrow> bool" where
  "pp_inv m \<longleftrightarrow> distinct (map pe_id (pp_entries m)) \<and> distinct (map pe_url (pp_entries m)) \<and>
     list_all proxy_ok (pp_entries m) \<and>
     list_all (\<lambda>e. pe_id e < pp_next_id m \<and> validate_proxy_url (pe_url e) = None) (pp_entries m)"

lemma persist_fields [simp]:
  "pp_entries (fst (persist_proxies wr m)) = pp_entries m" "pp_next_id (fst (persist_proxies wr m)) = pp_next_id m"
  by (simp_all add: persist_proxies_def split: write_result.split)

lemma persist_then_state [simp]: "fst (persist_then wr r m) = fst (persist_proxies wr m)"
  by (simp add: persist_then_def case_prod_unfold)

lemma find_proxy_persist [simp]: "find_proxy i (fst (persist_proxies wr m)) = find_proxy i m"
  by (simp add: find_proxy_def)

lemma pp_inv_persist [simp]: "pp_inv (fst (persist_proxies wr m)) = pp_inv m"
  by (simp add: pp_inv_def)

lemma insert_inv: "pp_inv m \<Longrightarrow> pp_inv (fst (insert_proxy url label m))"
  by (fastforce simp: insert_proxy_def pp_inv_def new_proxy_def proxy_ok_def MAX_PROXY_PROBE_FAILURES_def list_ex_iff
      list_all_iff Let_def split: option.split)

lemma batch_inv: "pp_inv m \<Longrightarrow> pp_inv (fst (batch_insert urls m))"
proof (induction urls arbitrary: m)
  case (Cons u us)
  from Cons.IH [OF insert_inv [OF Cons.prems, of "trim u" None]] Cons.IH [OF Cons.prems] show ?case
    by (auto simp: Let_def split: prod.splits sum.splits)
qed simp

lemma change_inv:
  assumes "pp_inv m" and "\<And>e. pe_id (f e) = pe_id e" and "\<And>e. pe_url (f e) = pe_url e"
    and "\<And>e. proxy_ok e \<Longrightarrow> proxy_ok (f e)"
  shows "pp_inv (change_proxy i f m)"
  using assms by (auto simp: pp_inv_def change_proxy_def intro!: list_all_update_first)

lemma enable_fields [simp]: "pe_id (enable_entry b e) = pe_id e" "pe_url (enable_entry b e) = pe_url e"
  by (simp_all add: enable_entry_def Let_def)

lemma enable_ok: "proxy_ok e \<Longrightarrow> proxy_ok (enable_entry b e)"
  by (auto simp: proxy_ok_def enable_entry_def MAX_PROXY_PROBE_FAILURES_def Let_def)

lemma apply_fields [simp]:
  "pe_id (fst (apply_probe_result stamp r e)) = pe_id e" "pe_url (fst (apply_probe_result stamp r e)) = pe_url e"
  by (simp_all add: apply_probe_result_def Let_def split: probe_result.split)

lemma apply_ok: "proxy_ok e \<Longrightarrow> proxy_ok (fst (apply_probe_result stamp r e))"
  by (auto simp: proxy_ok_def apply_probe_result_def MAX_PROXY_PROBE_FAILURES_def Let_def split: probe_result.split)

lemma apply_result_inv: "pp_inv (fst ms) \<Longrightarrow> pp_inv (fst (apply_result r ms))"
  by (auto simp: apply_result_def intro!: change_inv apply_ok split: option.split prod.split)

lemma evaluate_inv: "pp_inv (fst ms) \<Longrightarrow> pp_inv (fst (fold apply_result rs ms))"
  by (induction rs arbitrary: ms) (simp_all add: apply_result_inv)

lemma filter_inv: "pp_inv m \<Longrightarrow> pp_inv (m\<lparr>pp_entries := filter p (pp_entries m)\<rparr>)"
  by (auto simp: pp_inv_def list_all_iff distinct_map_filter)

lemma proxy_step_inv: "pp_inv m \<Longrightarrow> pp_inv (proxy_step op m)"
proof (cases op)
  case (Add_Proxy wr url label)
  then show "pp_inv m \<Longrightarrow> ?thesis"
    using insert_inv [of m "trim url" label] by (auto simp: add_proxy_def Let_def split: prod.split sum.split)
next
  case (Batch_Proxies wr urls)
  then show "pp_inv m \<Longrightarrow> ?thesis"
    using batch_inv [of m urls] by (auto simp: batch_add_def split: prod.split)
next
  case (Delete_Proxy wr i)
  then show "pp_inv m \<Longrightarrow> ?thesis" by (simp add: delete_proxy_def Let_def filter_inv)
next
  case (Enable_Proxy wr i b)
  then show "pp_inv m \<Longrightarrow> ?thesis"
    by (auto simp: set_enabled_def intro!: change_inv enable_ok split: option.split)
qed (simp_all add: evaluate_checks_def evaluate_inv)

interpretation proxies: machine "\<lambda>m op. (proxy_step op m, [])" pp_inv
  by unfold_locales (simp add: proxy_step_inv)

lemma proxy_steps_inv: "pp_inv m \<Longrightarrow> pp_inv (fold proxy_step ops m)"
  using proxies.run_inv [of m ops] by (simp add: run_silent)

subsection \<open>One proxy\<close>

text \<open>
  The abstract machine of one proxy: it works, with the number of probes that failed since the last one
  that passed or since it was switched on; or it was stopped, by the check or by hand.
\<close>

datatype proxy_view = Working nat | Stopped bool

fun probe_view :: "probe_result \<Rightarrow> proxy_view \<Rightarrow> proxy_view" where
  "probe_view (Probe_Ok _) (Working n) = Working 0"
| "probe_view (Probe_Err _) (Working n) = (if 3 \<le> n + 1 then Stopped True else Working (n + 1))"
| "probe_view r (Stopped auto) = Stopped auto"

fun enable_view :: "bool \<Rightarrow> proxy_view \<Rightarrow> proxy_view" where
  "enable_view True v = Working 0"
| "enable_view False (Working n) = Stopped False"
| "enable_view False (Stopped auto) = Stopped auto"

definition results_view :: "nat \<Rightarrow> (nat \<times> string \<times> probe_result) list \<Rightarrow> proxy_view \<Rightarrow> proxy_view" where
  "results_view i rs = fold (\<lambda>(j, _, r). if j = i then probe_view r else id) rs"

fun step_view :: "nat \<Rightarrow> proxy_op \<Rightarrow> proxy_view option \<Rightarrow> proxy_view option" where
  "step_view i (Delete_Proxy wr j) v = (if j = i then None else v)"
| "step_view i (Enable_Proxy wr j b) v = (if j = i then map_option (enable_view b) v else v)"
| "step_view i (Evaluate_Checks rs) v = map_option (results_view i rs) v"
| "step_view i op v = v"

definition view_of :: "proxy_entry \<Rightarrow> proxy_view" where
  "view_of e = (if pe_enabled e then Working (unat (pe_consecutive_failures e)) else Stopped (pe_auto_disabled e))"

definition proxy_state :: "nat \<Rightarrow> proxy_pool \<Rightarrow> proxy_view option" where
  "proxy_state i m = map_option view_of (find_proxy i m)"

lemma apply_view:
  assumes "proxy_ok e" shows "view_of (fst (apply_probe_result stamp r e)) = probe_view r (view_of e)"
proof (cases "pe_enabled e")
  case True
  with assms have "pe_consecutive_failures e < 3" by (simp add: proxy_ok_def MAX_PROXY_PROBE_FAILURES_def)
  then have "unat (pe_consecutive_failures e) \<in> {0, 1, 2}" by (auto simp: word_less_nat_alt)
  then have "pe_consecutive_failures e \<in> {0, 1, 2}"
    by (simp add: word_unat_eq_iff)
  with True show ?thesis
    by (cases r) (auto simp: apply_probe_result_def view_of_def MAX_PROXY_PROBE_FAILURES_def word_le_nat_alt Let_def)
qed (cases r; simp add: apply_probe_result_def view_of_def Let_def)

lemma enable_view_of: "proxy_ok e \<Longrightarrow> view_of (enable_entry b e) = enable_view b (view_of e)"
  by (cases b) (auto simp: enable_entry_def view_of_def proxy_ok_def)

lemma find_proxy_ok: "pp_inv m \<Longrightarrow> find_proxy i m = Some e \<Longrightarrow> proxy_ok e \<and> pe_id e = i \<and> i < pp_next_id m"
  by (auto simp: pp_inv_def find_proxy_def list_all_iff dest!: find_Some_in)

lemma find_change:
  assumes "\<And>e. pe_id (f e) = pe_id e"
  shows "find_proxy i (change_proxy j f m) = (if j = i then map_option f (find_proxy i m) else find_proxy i m)"
  unfolding find_proxy_def change_proxy_def using assms
  by (auto intro: find_update_first find_update_first_other)

lemma find_insert:
  assumes "i < pp_next_id m"
  shows "find_proxy i (fst (insert_proxy url label m)) = find_proxy i m \<and> i < pp_next_id (fst (insert_proxy url label m))"
  using assms
  by (auto simp: insert_proxy_def find_proxy_def new_proxy_def find_append Let_def split: option.split)

lemma find_batch:
  "i < pp_next_id m \<Longrightarrow>
     find_proxy i (fst (batch_insert urls m)) = find_proxy i m \<and> i < pp_next_id (fst (batch_insert urls m))"
proof (induction urls arbitrary: m)
  case (Cons u us)
  from find_insert [OF Cons.prems, of "trim u" None] Cons.IH [OF Cons.prems]
    Cons.IH [of "fst (insert_proxy (trim u) None m)"]
  show ?case by (auto simp: Let_def split: prod.splits sum.splits)
qed simp

lemma find_delete: "find_proxy i (m\<lparr>pp_entries := filter (\<lambda>e. pe_id e \<noteq> j) (pp_entries m)\<rparr>) = (if j = i then None else find_proxy i m)"
proof -
  have "find (\<lambda>e. pe_id e = i) (filter (\<lambda>e. pe_id e \<noteq> j) es) = (if j = i then None else find (\<lambda>e. pe_id e = i) es)" for es :: "proxy_entry list"
    by (induction es) auto
  then show ?thesis by (simp add: find_proxy_def)
qed

lemma results_views:
  assumes "pp_inv m" and "find_proxy i m = Some e"
  shows "map_option view_of (find_proxy i (fst (fold apply_result rs (m, s)))) = Some (results_view i rs (view_of e))"
  using assms
proof (induction rs arbitrary: m s e)
  case (Cons r rs)
  obtain j stamp q where r: "r = (j, stamp, q)" by (metis prod_cases3)
  show ?case
  proof (cases "find_proxy j m")
    case None
    then have "j \<noteq> i" using Cons.prems by auto
    then show ?thesis using Cons None by (simp add: r apply_result_def results_view_def)
  next
    case (Some e0)
    let ?m = "change_proxy j (\<lambda>e. fst (apply_probe_result stamp q e)) m"
    have inv: "pp_inv ?m" using Cons.prems(1) by (auto intro!: change_inv apply_ok)
    have "find_proxy i ?m = Some (if j = i then fst (apply_probe_result stamp q e) else e)"
      using Cons.prems(2) by (simp add: find_change)
    from Cons.IH [OF inv this] have "map_option view_of (find_proxy i (fst (fold apply_result rs (?m, s)))) =
        Some (results_view i rs (view_of (if j = i then fst (apply_probe_result stamp q e) else e)))" for s .
    moreover have "apply_result r (m, s) = (?m, count_probe (snd (apply_probe_result stamp q e0)) s)"
      by (simp add: r apply_result_def Some)
    moreover have "results_view i (r # rs) (view_of e) =
        results_view i rs (view_of (if j = i then fst (apply_probe_result stamp q e) else e))"
      using find_proxy_ok [OF Cons.prems] by (simp add: r results_view_def apply_view)
    ultimately show ?thesis by simp
  qed
qed (simp add: results_view_def)

lemma evaluate_next_id: "pp_next_id (fst (fold apply_result rs ms)) = pp_next_id (fst ms)"
  by (induction rs arbitrary: ms) (auto simp: apply_result_def change_proxy_def split: option.split prod.split)

lemma step_views:
  assumes "pp_inv m" and "i < pp_next_id m"
  shows "proxy_state i (proxy_step op m) = step_view i op (proxy_state i m) \<and> i < pp_next_id (proxy_step op m)"
proof (cases op)
  case (Add_Proxy wr url label)
  then show ?thesis using find_insert [OF assms(2), of "trim url" label] assms(2)
    by (auto simp: proxy_state_def add_proxy_def Let_def split: prod.split sum.split)
next
  case (Batch_Proxies wr urls)
  then show ?thesis using find_batch [OF assms(2), of urls]
    by (auto simp: proxy_state_def batch_add_def split: prod.split)
next
  case (Delete_Proxy wr j)
  then show ?thesis using assms(2) find_delete [of i j m] by (auto simp: proxy_state_def delete_proxy_def Let_def)
next
  case (Enable_Proxy wr j b)
  have "map_option view_of (map_option (enable_entry b) (find_proxy i m)) = map_option (enable_view b) (proxy_state i m)"
    using find_proxy_ok [OF assms(1), of i] by (cases "find_proxy i m") (simp_all add: proxy_state_def enable_view_of)
  then show ?thesis
    using Enable_Proxy assms(2) find_change [of "enable_entry b" i j m]
    by (auto simp: set_enabled_def proxy_state_def split: option.split) (auto simp: change_proxy_def)
next
  case (Evaluate_Checks rs)
  have none: "find_proxy i (fst (fold apply_result rs ms)) = None" if "find_proxy i (fst ms) = None" for ms
    using that
  proof (induction rs arbitrary: ms)
    case (Cons r rs)
    have "find_proxy i (fst (apply_result r ms)) = None"
      using Cons.prems by (auto simp: apply_result_def find_change split: option.split prod.split)
    then show ?case using Cons.IH by simp
  qed simp
  show ?thesis
    using results_views [OF assms(1), of i _ rs no_checks] none [of "(m, no_checks)"] assms(2) Evaluate_Checks
    by (cases "find_proxy i m") (simp_all add: evaluate_checks_def proxy_state_def evaluate_next_id)
qed (use assms(2) in \<open>simp_all add: proxy_state_def\<close>)

text \<open>C33: Whatever happens to the pool, each of its proxies goes through the states of the abstract machine: it works until it
  is switched off by hand or three probes in a row fail, probes that run into a change of the pool included, and
  only the administrator brings it back.\<close>

theorem proxy_follows_view:
  assumes "pp_inv m" and "find_proxy i m = Some e"
  shows "proxy_state i (fold proxy_step ops m) = fold (step_view i) ops (Some (view_of e))"
proof -
  have "proxy_state i (fold proxy_step ops m) = fold (step_view i) ops (proxy_state i m)"
    if "pp_inv m" "i < pp_next_id m" for m
    using that
  proof (induction ops arbitrary: m)
    case (Cons op ops)
    from step_views [OF Cons.prems, of op] Cons.IH [OF proxy_step_inv [OF Cons.prems(1), of op]] show ?case by simp
  qed simp
  then show ?thesis using assms find_proxy_ok [OF assms] by (simp add: proxy_state_def)
qed

definition sample_proxies :: proxy_pool where
  "sample_proxies = \<lparr>pp_entries = [new_proxy 1 ''http://a:1'' None], pp_next_id = 2, pp_has_path = False, pp_file = None\<rparr>"

lemma sample_proxies_inv: "pp_inv sample_proxies"
  by (simp add: pp_inv_def sample_proxies_def new_proxy_def proxy_ok_def MAX_PROXY_PROBE_FAILURES_def
      validate_proxy_url_def valid_schemes_def after_last_at_def)

theorem proxy_follows_view_witness:
  "proxy_state 1 (fold proxy_step (replicate 3 (Evaluate_Checks [(1, ''t'', Probe_Err ''timeout'')])) sample_proxies)
     = Some (Stopped True)"
proof -
  have "find_proxy 1 sample_proxies = Some (new_proxy 1 ''http://a:1'' None)"
    by (simp add: find_proxy_def sample_proxies_def new_proxy_def)
  from proxy_follows_view [OF sample_proxies_inv this, of "replicate 3 (Evaluate_Checks [(1, ''t'', Probe_Err ''timeout'')])"]
  show ?thesis by (simp add: numeral_eq_Suc results_view_def view_of_def new_proxy_def)
qed

subsection \<open>A check of all\<close>

lemma change_at:
  assumes "distinct (map pe_id (ds @ e # es))"
  shows "update_first (\<lambda>x. pe_id x = pe_id e) f (ds @ e # es) = ds @ f e # es"
  using assms by (induction ds) auto

lemma evaluate_all:
  assumes "distinct (map pe_id (ds @ es))"
  shows "fold apply_result (map (\<lambda>t. (fst t, probe (fst t) (snd t))) (map (\<lambda>e. (pe_id e, pe_url e)) (filter pe_enabled es)))
      (m\<lparr>pp_entries := ds @ es\<rparr>, s) =
    (m\<lparr>pp_entries := ds @ map (\<lambda>e. if pe_enabled e
         then fst (case probe (pe_id e) (pe_url e) of (stamp, r) \<Rightarrow> apply_probe_result stamp r e) else e) es\<rparr>,
     fold (\<lambda>e. count_probe (snd (case probe (pe_id e) (pe_url e) of (stamp, r) \<Rightarrow> apply_probe_result stamp r e)))
       (filter pe_enabled es) s)"
  using assms
proof (induction es arbitrary: ds s)
  case (Cons e es)
  show ?case
  proof (cases "pe_enabled e")
    case False
    with Cons.IH [of "ds @ [e]"] Cons.prems show ?thesis by simp
  next
    case True
    obtain stamp r where p: "probe (pe_id e) (pe_url e) = (stamp, r)" by fastforce
    have f: "find (\<lambda>x. pe_id x = pe_id e) (ds @ e # es) = Some e"
      by (rule find_distinct_key [OF Cons.prems]) simp
    have step: "apply_result (pe_id e, stamp, r) (m\<lparr>pp_entries := ds @ e # es\<rparr>, s) =
        (m\<lparr>pp_entries := (ds @ [fst (apply_probe_result stamp r e)]) @ es\<rparr>, count_probe (snd (apply_probe_result stamp r e)) s)"
      by (simp add: apply_result_def find_proxy_def f change_proxy_def change_at [OF Cons.prems])
    have "distinct (map pe_id ((ds @ [fst (apply_probe_result stamp r e)]) @ es))" using Cons.prems by simp
    from Cons.IH [OF this] True p show ?thesis by (simp add: step)
  qed
qed simp

lemma count_probes:
  "cs_healthy (fold (\<lambda>e. count_probe (f e)) es s) = cs_healthy s + length (filter (\<lambda>e. \<not> fst (f e)) es)"
  "cs_unhealthy (fold (\<lambda>e. count_probe (f e)) es s) = cs_unhealthy s + length (filter (\<lambda>e. fst (f e)) es)"
  "cs_auto_disabled (fold (\<lambda>e. count_probe (f e)) es s) = cs_auto_disabled s + length (filter (\<lambda>e. snd (f e)) es)"
  by (induction es arbitrary: s) (auto simp: count_probe_def Let_def)

definition checked :: "(nat \<Rightarrow> string \<Rightarrow> string \<times> probe_result) \<Rightarrow> proxy_entry \<Rightarrow> proxy_entry \<times> bool \<times> bool" where
  "checked probe e = (case probe (pe_id e) (pe_url e) of (stamp, r) \<Rightarrow> apply_probe_result stamp r e)"

text \<open>A check that nobody disturbs gives every proxy that was enabled the outcome of its own probe and leaves the others
  alone; its summary counts every probe once, and the file has the new state.\<close>

theorem check_all_result:
  assumes "pp_inv m"
  shows "case check_all probe id id Written m of (m1, s) \<Rightarrow>
    pp_entries m1 = map (\<lambda>e. if pe_enabled e then fst (checked probe e) else e) (pp_entries m) \<and>
    cs_healthy s + cs_unhealthy s = length (filter pe_enabled (pp_entries m)) \<and>
    cs_unhealthy s = length (filter (\<lambda>e. pe_enabled e \<and> fst (snd (checked probe e))) (pp_entries m)) \<and>
    cs_auto_disabled s = length (filter (\<lambda>e. pe_enabled e \<and> \<not> pe_enabled (fst (checked probe e))) (pp_entries m)) \<and>
    (pp_has_path m \<longrightarrow> filter pe_enabled (pp_entries m) \<noteq> [] \<longrightarrow> pp_file m1 = Some (pp_entries m1))"
proof (cases "filter pe_enabled (pp_entries m) = []")
  case True
  then have off: "\<forall>e \<in> set (pp_entries m). \<not> pe_enabled e" by (simp add: filter_empty_conv)
  then have "map (\<lambda>e. if pe_enabled e then fst (checked probe e) else e) (pp_entries m) = pp_entries m"
    by (simp add: map_idI)
  with True off show ?thesis by (auto simp: check_all_def check_targets_def no_checks_def Let_def filter_empty_conv)
next
  case False
  have d: "distinct (map pe_id ([] @ pp_entries m))" using assms by (simp add: pp_inv_def)
  let ?es = "map (\<lambda>e. if pe_enabled e then fst (checked probe e) else e) (pp_entries m)"
  let ?s = "fold (\<lambda>e. count_probe (snd (checked probe e))) (filter pe_enabled (pp_entries m)) no_checks"
  have e: "evaluate_checks (map (\<lambda>t. (fst t, probe (fst t) (snd t))) (check_targets m)) m = (m\<lparr>pp_entries := ?es\<rparr>, ?s)"
    using evaluate_all [OF d, of probe m no_checks]
    by (simp add: evaluate_checks_def check_targets_def checked_def [abs_def])
  have disabled: "snd (snd (checked probe e)) \<longleftrightarrow> \<not> pe_enabled (fst (checked probe e))" if "pe_enabled e" for e
    using that by (auto simp: checked_def apply_probe_result_def Let_def split: prod.split probe_result.split)
  have "length (filter (\<lambda>e. pe_enabled e \<and> \<not> fst (snd (checked probe e))) es) +
      length (filter (\<lambda>e. pe_enabled e \<and> fst (snd (checked probe e))) es) = length (filter pe_enabled es)" for es
    by (induction es) auto
  then show ?thesis
    using False e
    by (auto simp: check_all_def check_targets_def persist_proxies_def count_probes no_checks_def Let_def disabled
        conj_commute cong: conj_cong filter_cong)
qed

theorem check_all_result_witness:
  "pp_entries (fst (check_all (\<lambda>_ _. (''t'', Probe_Ok 5)) id id Written sample_proxies)) =
     [(new_proxy 1 ''http://a:1'' None)\<lparr>pe_last_checked_at := Some ''t'', pe_health := Healthy, pe_latency_ms := Some 5\<rparr>]"
  using check_all_result [OF sample_proxies_inv, of "\<lambda>_ _. (''t'', Probe_Ok 5)"]
  by (simp add: checked_def apply_probe_result_def sample_proxies_def new_proxy_def case_prod_unfold Let_def)

text \<open>What is offered for an assignment is enabled and did not fail its last probe.\<close>

lemma assignable_ok: "u \<in> set (assignable_urls m) \<longleftrightarrow>
    (\<exists>e \<in> set (pp_entries m). pe_url e = u \<and> pe_enabled e \<and> pe_health e \<noteq> Unhealthy)"
  by (auto simp: assignable_urls_def)

text \<open>
  An addition whose write fails is reported as an error although the proxy stays in the pool, so a second
  attempt is refused as a duplicate.
\<close>

lemma failed_addition_kept:
  assumes "pp_has_path m" and "validate_proxy_url url = None" and "\<forall>e \<in> set (pp_entries m). pe_url e \<noteq> url"
    and "trim url = url" and "url \<noteq> []"
  shows "snd (add_proxy (Failed f) url label m) = Inl Proxy_Write_Failed"
    and "snd (add_proxy wr url label (fst (add_proxy (Failed f) url label m))) = Inl (Duplicate_Url url)"
  using assms
  by (auto simp: add_proxy_def insert_proxy_def persist_then_def persist_proxies_def new_proxy_def list_ex_iff Let_def)

text \<open>A deletion whose write fails is undone by the next start, although the proxy is gone until then.\<close>

lemma failed_deletion_returns:
  assumes "pp_has_path m" and "pp_file m = Some (pp_entries m)" and "find_proxy i m = Some e"
  shows "find_proxy i (fst (delete_proxy (Failed (pp_file m)) i m)) = None"
    and "find_proxy i (proxy_pool_new True (pp_file (fst (delete_proxy (Failed (pp_file m)) i m)))) = Some e"
proof -
  have "length (filter (\<lambda>e. pe_id e \<noteq> i) (pp_entries m)) \<noteq> length (pp_entries m)"
    using find_Some_in [OF assms(3) [unfolded find_proxy_def]] length_filter_less [of e "pp_entries m" "\<lambda>e. pe_id e \<noteq> i"] by auto
  then have d: "fst (delete_proxy (Failed (pp_file m)) i m) =
      m\<lparr>pp_entries := filter (\<lambda>e. pe_id e \<noteq> i) (pp_entries m), pp_file := pp_file m\<rparr>"
    using assms(1) by (simp add: delete_proxy_def persist_proxies_def Let_def)
  show "find_proxy i (fst (delete_proxy (Failed (pp_file m)) i m)) = None"
    unfolding d using find_delete [of i i m] by (simp add: find_proxy_def)
  show "find_proxy i (proxy_pool_new True (pp_file (fst (delete_proxy (Failed (pp_file m)) i m)))) = Some e"
    unfolding d using assms by (simp add: proxy_pool_new_def find_proxy_def Let_def)
qed

end
