(* ===== verification/Token_Count.thy ===== *)
theory Token_Count imports Api_Types Image_Resize Numbers begin

section \<open>Counting tokens (src/src/token.rs)\<close>

text \<open>
  The local estimate of how many tokens a text, a block of content, a request and an answer have, and the
  choice between it and a remote service. Characters are counted in units of a quarter token; the
  factors are doubles, and so are the products. Sums of units stay far below \<open>2^53\<close>, where doubles are
  exact. The remote call is an argument: its reply, or nothing when it is not configured or fails.
\<close>

definition is_non_western_char :: "nat \<Rightarrow> bool" where
  "is_non_western_char c \<longleftrightarrow> \<not> (c \<le> 0x7F \<or> (0x80 \<le> c \<and> c \<le> 0xFF) \<or> (0x100 \<le> c \<and> c \<le> 0x24F) \<or>
     (0x1E00 \<le> c \<and> c \<le> 0x1EFF) \<or> (0x2C60 \<le> c \<and> c \<le> 0x2C7F) \<or> (0xA720 \<le> c \<and> c \<le> 0xA7FF) \<or>
     (0xAB30 \<le> c \<and> c \<le> 0xAB6F))"

definition char_units :: "string \<Rightarrow> nat" where
  "char_units s = sum_list (map (\<lambda>c. if is_non_western_char c then 4 else 1) (utf8_chars s))"

definition scaled_tokens :: "rat \<Rightarrow> rat" where
  "scaled_tokens t =
    (if t < 100 then f64 (t * f64 (15 / 10))
     else if t < 200 then f64 (t * f64 (13 / 10))
     else if t < 300 then f64 (t * f64 (125 / 100))
     else if t < 800 then f64 (t * f64 (12 / 10))
     else f64 (t * f64 1))"

definition tokens_of_units :: "nat \<Rightarrow> nat" where
  "tokens_of_units u = min (nat \<lfloor>scaled_tokens (of_nat u / 4)\<rfloor>) (2 ^ 64 - 1)"

definition count_tokens :: "string \<Rightarrow> nat" where
  "count_tokens s = tokens_of_units (char_units s)"

subsection \<open>Blocks of content\<close>

lemma map_of_size: "map_of kvs k = Some v \<Longrightarrow> size v < size (JObj kvs)"
proof (induction kvs)
  case (Cons kv kvs)
  then show ?case by (cases kv) (fastforce split: if_splits)
qed simp

lemma json_get_size: "json_get j k = Some v \<Longrightarrow> size v < size j"
  by (cases j) (auto dest: map_of_size)

definition str_tokens :: "json \<Rightarrow> string \<Rightarrow> nat" where
  "str_tokens block k =
    (case Option.bind (json_get block k) json_as_str of Some s \<Rightarrow> count_tokens s | None \<Rightarrow> 0)"

definition tool_use_tokens :: "serde \<Rightarrow> json \<Rightarrow> nat" where
  "tool_use_tokens sd block =
     str_tokens block ''name'' + (case json_get block ''input'' of Some i \<Rightarrow> count_tokens (to_str sd i) | None \<Rightarrow> 0)"

definition image_block_tokens :: "'i codecs \<Rightarrow> resize_config \<Rightarrow> json \<Rightarrow> nat" where
  "image_block_tokens cd cfg block =
    (let source = json_get block ''source'';
         media_type = Option.bind (Option.bind source (\<lambda>s. json_get s ''media_type'')) json_as_str;
         data = Option.bind (Option.bind source (\<lambda>s. json_get s ''data'')) json_as_str
     in estimate_image_tokens cd cfg (case media_type of Some s \<Rightarrow> s | None \<Rightarrow> []) (case data of Some s \<Rightarrow> s | None \<Rightarrow> []))"

function block_token_estimate :: "serde \<Rightarrow> 'i codecs \<Rightarrow> resize_config \<Rightarrow> json \<Rightarrow> nat"
  and value_token_estimate :: "serde \<Rightarrow> 'i codecs \<Rightarrow> resize_config \<Rightarrow> json \<Rightarrow> nat" where
  "block_token_estimate sd cd cfg block =
    (case Option.bind (json_get block ''type'') json_as_str of
       None \<Rightarrow> count_tokens (to_str sd block)
     | Some ty \<Rightarrow>
         if ty = ''text'' then str_tokens block ''text''
         else if ty = ''thinking'' then str_tokens block ''thinking''
         else if ty = ''redacted_thinking'' then 8
         else if ty = ''tool_use'' then tool_use_tokens sd block
         else if ty = ''tool_result'' then
           (case json_get block ''content'' of Some v \<Rightarrow> value_token_estimate sd cd cfg v | None \<Rightarrow> 0)
         else if ty = ''image'' then image_block_tokens cd cfg block
         else count_tokens (to_str sd block))"
| "value_token_estimate sd cd cfg v =
    (case v of
       JStr s \<Rightarrow> count_tokens s
     | JArr bs \<Rightarrow> sum_list (map (block_token_estimate sd cd cfg) bs)
     | _ \<Rightarrow> count_tokens (to_str sd v))"
  by pat_completeness auto
termination
  by (relation "measure (\<lambda>x. case x of Inl (_, _, _, j) \<Rightarrow> size j | Inr (_, _, _, j) \<Rightarrow> size j)")
     (auto dest: json_get_size simp: less_Suc_eq_le size_list_estimation')

declare block_token_estimate.simps [simp del] value_token_estimate.simps [simp del]

subsection \<open>Requests and answers\<close>

definition message_tokens :: "serde \<Rightarrow> 'i codecs \<Rightarrow> resize_config \<Rightarrow> chat_message \<Rightarrow> nat" where
  "message_tokens sd cd cfg m =
    (case cm_content m of
       JStr s \<Rightarrow> count_tokens s
     | JArr bs \<Rightarrow> sum_list (map (block_token_estimate sd cd cfg) bs)
     | _ \<Rightarrow> 0)"

definition tool_tokens :: "serde \<Rightarrow> tool \<Rightarrow> nat" where
  "tool_tokens sd t =
     count_tokens (tl_name t) + count_tokens (tl_description t) + count_tokens (to_str sd (JObj (tl_input_schema t)))"

definition count_all_tokens_local ::
  "serde \<Rightarrow> 'i codecs \<Rightarrow> resize_config \<Rightarrow> system_message list option \<Rightarrow> chat_message list \<Rightarrow> tool list option \<Rightarrow> nat" where
  "count_all_tokens_local sd cd cfg system messages tools =
     max (sum_list (map (\<lambda>s. count_tokens (sm_text s)) (case system of Some ss \<Rightarrow> ss | None \<Rightarrow> []))
        + sum_list (map (message_tokens sd cd cfg) messages)
        + sum_list (map (tool_tokens sd) (case tools of Some ts \<Rightarrow> ts | None \<Rightarrow> []))) 1"

text \<open>
  \<open>reply\<close>: the status and the number of a reply of the remote service that could be read in time. Its
  \<open>i32\<close> becomes a \<open>u64\<close>.
\<close>

definition count_all_tokens ::
  "serde \<Rightarrow> 'i codecs \<Rightarrow> resize_config \<Rightarrow> (nat \<times> int) option \<Rightarrow> system_message list option \<Rightarrow> chat_message list
     \<Rightarrow> tool list option \<Rightarrow> nat" where
  "count_all_tokens sd cd cfg reply system messages tools =
    (case reply of
       Some (status, n) \<Rightarrow>
         if 200 \<le> status \<and> status < 300 then nat (n mod 2 ^ 64) else count_all_tokens_local sd cd cfg system messages tools
     | None \<Rightarrow> count_all_tokens_local sd cd cfg system messages tools)"

definition wrap_i32 :: "int \<Rightarrow> int" where
  "wrap_i32 i = (i + 2 ^ 31) mod 2 ^ 32 - 2 ^ 31"

definition estimate_output_tokens :: "serde \<Rightarrow> 'i codecs \<Rightarrow> resize_config \<Rightarrow> json list \<Rightarrow> int" where
  "estimate_output_tokens sd cd cfg blocks =
     max (fold (\<lambda>b n. wrap_i32 (n + as_i32 (block_token_estimate sd cd cfg b))) blocks 0) 1"

subsection \<open>Bounds\<close>

lemma round_even_of_int: "round_even (of_int k) = k"
  by (simp add: round_even_def)

text \<open>Rounding is exact on numbers with at most 53 bits.\<close>

lemma fl_dyadic:
  assumes "n < 2 ^ 53" shows "f64 (of_nat n / 2 ^ k) = of_nat n / 2 ^ k"
proof (cases "n = 0")
  case False
  let ?r = "of_nat n / 2 ^ k :: rat" and ?e = "exponent (of_nat n / 2 ^ k)"
  let ?j = "52 - ?e - int k"
  have "(2::rat) powi ?e \<le> ?r" unfolding pow2_powi [symmetric] by (rule exponent_le) (use False in simp)
  also have "?r < 2 ^ 53 / 2 ^ k"
  proof (rule divide_strict_right_mono)
    show "of_nat n < (2::rat) ^ 53" using assms by (metis of_nat_less_iff of_nat_numeral of_nat_power)
  qed simp
  also have "(2 ^ 53 / 2 ^ k :: rat) = 2 powi (53 - int k)" by (simp add: power_int_diff)
  finally have "(2::rat) powi ?e < 2 powi (53 - int k)" .
  then have "?e < 53 - int k"
    using power_int_increasing [of "53 - int k" ?e "2::rat"] by force
  then have j: "0 \<le> ?j" by simp
  have "?r / pow2 (?e - 52) = of_nat n * 2 powi ?j"
    by (simp add: pow2_powi power_int_diff)
  then have u: "?r / pow2 (?e - 52) = of_int (int n * 2 ^ nat ?j)"
    using j by (simp add: power_int_def)
  have pos: "\<not> ?r \<le> 0" using False by (simp add: not_le)
  have "fl 53 ?r = of_int (round_even (?r / pow2 (?e - 52))) * pow2 (?e - 52)"
    unfolding fl_def if_not_P [OF pos] Let_def by simp
  also have "\<dots> = ?r / pow2 (?e - 52) * pow2 (?e - 52)" by (simp only: u round_even_of_int)
  finally show ?thesis by simp
qed (simp add: fl_def)

lemma eps: "pow2 (- 53) \<le> 1 / 100" by (simp add: pow2_def)

lemma factors:
  "f64 (3 / 2) = 3 / 2" "f64 (5 / 4) = 5 / 4" "f64 1 = 1"
  using fl_dyadic [of 3 1] fl_dyadic [of 5 2] fl_dyadic [of 1 0] by simp_all

lemma fl_between:
  assumes "0 \<le> r" shows "99 / 100 * r \<le> f64 r" and "f64 r \<le> 101 / 100 * r"
proof -
  have "r * pow2 (- int 53) \<le> r * (1 / 100)" using eps assms by (intro mult_left_mono) simp_all
  then have "\<bar>f64 r - r\<bar> \<le> r * (1 / 100)" using fl_error [OF assms, of 53] by linarith
  then show "99 / 100 * r \<le> f64 r" "f64 r \<le> 101 / 100 * r" by linarith+
qed

text \<open>A factor between 1.1 and 1.4 neither loses tokens nor adds more than a half.\<close>

lemma scaled_middle:
  assumes "0 \<le> t" and "12 / 10 \<le> c" and "c \<le> 13 / 10"
  shows "t \<le> f64 (t * f64 c) \<and> f64 (t * f64 c) \<le> t * (3 / 2)"
proof -
  have c: "118 / 100 \<le> f64 c" "f64 c \<le> 132 / 100" using fl_between [of c] assms by simp_all
  have "t * (118 / 100) \<le> t * f64 c" "t * f64 c \<le> t * (132 / 100)"
    by (rule mult_left_mono [OF c(1) assms(1)], rule mult_left_mono [OF c(2) assms(1)])
  moreover have "99 / 100 * (t * f64 c) \<le> f64 (t * f64 c)" "f64 (t * f64 c) \<le> 101 / 100 * (t * f64 c)"
    using fl_between [of "t * f64 c"] assms(1) by simp_all
  ultimately show ?thesis using assms(1) by simp
qed

lemma scaled_exact:
  assumes "0 \<le> t" and "f64 (t * (3 / 2)) = t * (3 / 2)" and "f64 (t * (5 / 4)) = t * (5 / 4)" and "f64 t = t"
  shows "t \<le> scaled_tokens t \<and> scaled_tokens t \<le> t * (3 / 2)"
  using assms scaled_middle [OF assms(1), of "13 / 10"] scaled_middle [OF assms(1), of "12 / 10"]
  by (auto simp: scaled_tokens_def factors)

lemma scaled_bounds:
  assumes "u < 2 ^ 50"
  shows "of_nat u / 4 \<le> scaled_tokens (of_nat u / 4) \<and> scaled_tokens (of_nat u / 4) \<le> of_nat u / 4 * (3 / 2)"
  by (rule scaled_exact)
     (use fl_dyadic [of "3 * u" 3] fl_dyadic [of "5 * u" 4] fl_dyadic [of u 2] assms in \<open>simp_all add: mult.commute\<close>)

text \<open>
  The estimate of a text is never below a quarter of its units, rounded down, and never above one and a
  half times that. A unit is a character of a western script; every other character is four.
\<close>

lemma floor_bounds:
  fixes s :: rat
  assumes "of_nat u / 4 \<le> s" and "s \<le> of_nat u / 4 * (3 / 2)"
  shows "int (u div 4) \<le> \<lfloor>s\<rfloor>" and "8 * \<lfloor>s\<rfloor> \<le> 3 * int u"
proof -
  have "\<lfloor>of_nat u / (4::rat)\<rfloor> \<le> \<lfloor>s\<rfloor>" using assms(1) by (rule floor_mono)
  then show "int (u div 4) \<le> \<lfloor>s\<rfloor>" using floor_divide_of_nat_eq [of u 4, where 'a = rat] by simp
  have "of_int (8 * \<lfloor>s\<rfloor>) = 8 * (of_int \<lfloor>s\<rfloor> :: rat)" "of_int (3 * int u) = 3 * (of_nat u :: rat)" by simp_all
  then have "of_int (8 * \<lfloor>s\<rfloor>) \<le> (of_int (3 * int u) :: rat)" using assms(2) of_int_floor_le [of s] by linarith
  then show "8 * \<lfloor>s\<rfloor> \<le> 3 * int u" by (simp only: of_int_le_iff)
qed

lemma tokens_bounds:
  assumes "u < 2 ^ 50"
  shows "u div 4 \<le> tokens_of_units u \<and> 8 * tokens_of_units u \<le> 3 * u"
proof -
  define n where "n = \<lfloor>scaled_tokens (of_nat u / 4)\<rfloor>"
  have n: "int (u div 4) \<le> n" "8 * n \<le> 3 * int u" unfolding n_def using floor_bounds scaled_bounds [OF assms] by blast+
  then have "8 * nat n \<le> 3 * u" by linarith
  then have "nat n \<le> 2 ^ 64 - 1" using assms by simp
  then have "tokens_of_units u = nat n" unfolding tokens_of_units_def n_def [symmetric] by (rule min_absorb1)
  with n show ?thesis by linarith
qed

lemma units_bounds: "length (utf8_chars s) \<le> char_units s \<and> char_units s \<le> 4 * length (utf8_chars s)"
proof -
  have "length cs \<le> sum_list (map (\<lambda>c. if is_non_western_char c then 4 else 1) cs) \<and>
      sum_list (map (\<lambda>c. if is_non_western_char c then 4 else 1) cs) \<le> 4 * length cs" for cs
    by (induction cs) auto
  then show ?thesis by (simp add: char_units_def)
qed

text \<open>A text is estimated at no less than a quarter of a token for each of its characters, rounded down, and at no more
  than one and a half tokens for each.\<close>

theorem token_estimate_bounds:
  assumes "length (utf8_chars s) < 2 ^ 48"
  shows "length (utf8_chars s) div 4 \<le> count_tokens s \<and> 2 * count_tokens s \<le> 3 * length (utf8_chars s)"
proof -
  have "char_units s < 2 ^ 50" using units_bounds [of s] assms by simp
  from tokens_bounds [OF this] units_bounds [of s] div_le_mono [of "length (utf8_chars s)" "char_units s" 4]
  show ?thesis by (simp add: count_tokens_def)
qed

theorem token_estimate_bounds_witness:
  "count_tokens ''abcdefgh'' \<le> 12"
  using token_estimate_bounds [of "''abcdefgh''"] by (simp add: utf8_chars.simps utf8_step.simps byte_of_def Let_def)

text \<open>The factors fall at thresholds, so a longer text can be estimated lower: 399 letters against 400.\<close>

lemma longer_text_fewer_tokens: "tokens_of_units 399 = 149" "tokens_of_units 400 < 149"
proof -
  have f: "f64 (399 / 4 * (3 / 2)) = 1197 / 8" using fl_dyadic [of 1197 3] by simp
  have "scaled_tokens (of_nat 399 / 4) = f64 (399 / 4 * f64 (3 / 2))" by (simp add: scaled_tokens_def)
  also have "\<dots> = 1197 / 8" unfolding factors(1) f ..
  finally have "\<lfloor>scaled_tokens (of_nat 399 / 4)\<rfloor> = \<lfloor>1197 / (8::rat)\<rfloor>" by (rule arg_cong)
  moreover have "\<lfloor>1197 / (8::rat)\<rfloor> = 149" by (simp add: floor_eq_iff)
  ultimately have "\<lfloor>scaled_tokens (of_nat 399 / 4)\<rfloor> = 149" by (rule trans)
  then show "tokens_of_units 399 = 149" unfolding tokens_of_units_def by simp
next
  have "f64 (100 * f64 (13 / 10)) \<le> 100 * (1338 / 1000)"
  proof -
    have "f64 (13 / 10) \<le> 101 / 100 * (13 / 10)" "0 \<le> f64 (13 / 10)" using fl_between [of "13 / 10"] by simp_all
    then show ?thesis using fl_between(2) [of "100 * f64 (13 / 10)"] by simp
  qed
  then show "tokens_of_units 400 < 149" by (simp add: tokens_of_units_def scaled_tokens_def floor_less_iff nat_less_iff min_less_iff_disj)
qed

text \<open>A request and an answer have at least one token; the remote service is not held to that.\<close>

lemma local_estimate_positive: "1 \<le> count_all_tokens_local sd cd cfg system messages tools"
  by (simp add: count_all_tokens_local_def)

lemma output_estimate_positive: "1 \<le> estimate_output_tokens sd cd cfg blocks"
  by (simp add: estimate_output_tokens_def)

lemma negative_remote_count:
  "count_all_tokens sd cd cfg (Some (200, -1)) system messages tools = 2 ^ 64 - 1"
  by (simp add: count_all_tokens_def)

end
