(* ===== verification/Web_Search.thy ===== *)
theory Web_Search imports Provider Sse_State Api_Types begin

section \<open>Searches (src/src/anthropic/websearch.rs)\<close>

text \<open>
  A search is a call of the upstream's tool service. This theory has the recognition of requests that
  are nothing but a search, the request and the reply of the tool service, the summary of the results
  for the model, and the stream a direct search is answered with. Reading and printing JSON, formatting
  a date, random ids and the clock are arguments.
\<close>

record mcp_error =
  me_code :: "int option"
  me_message :: "string option"

record mcp_content =
  mc_type :: string
  mc_text :: string

record mcp_response =
  mp_error :: "mcp_error option"
  mp_id :: string
  mp_result :: "mcp_content list option"

record search_result =
  wr_title :: string
  wr_url :: string
  wr_snippet :: "string option"
  wr_published_date :: "int option"

type_synonym search_results = "search_result list"

record web =
  wb_serde :: serde
  wb_read_response :: "string \<Rightarrow> string + mcp_response"      \<comment> \<open>serde's reader of the reply\<close>
  wb_read_results :: "string \<Rightarrow> search_results option"        \<comment> \<open>serde's reader of the results\<close>
  wb_format_date :: "int \<Rightarrow> string option"                     \<comment> \<open>chrono: milliseconds to a date\<close>

subsection \<open>Which requests search\<close>

definition has_web_search_tool :: "messages_request \<Rightarrow> bool" where
  "has_web_search_tool req \<longleftrightarrow>
     (case mr_tools req of Some [t] \<Rightarrow> tl_name t = ''web_search'' | _ \<Rightarrow> False)"

definition has_web_search_among_tools :: "messages_request \<Rightarrow> bool" where
  "has_web_search_among_tools req \<longleftrightarrow>
     (case mr_tools req of
        Some ts \<Rightarrow> 1 < length ts \<and> list_ex (\<lambda>t. tl_name t = ''web_search'') ts | None \<Rightarrow> False)"

definition DIRECT_WEB_SEARCH_PREFIX :: string where
  "DIRECT_WEB_SEARCH_PREFIX = ''Perform a web search for the query: ''"

definition json_str :: "json \<Rightarrow> string \<Rightarrow> string option" where
  "json_str j k = Option.bind (json_get j k) json_as_str"

definition text_blocks :: "json \<Rightarrow> string list" where
  "text_blocks content =
    (case content of
       JStr s \<Rightarrow> [s]
     | JArr bs \<Rightarrow> List.map_filter (\<lambda>b. if json_str b ''type'' = Some ''text'' then json_str b ''text'' else None) bs
     | _ \<Rightarrow> [])"

definition iter_user_text_blocks :: "messages_request \<Rightarrow> string list" where
  "iter_user_text_blocks req =
     concat (map (\<lambda>m. text_blocks (cm_content m)) (filter (\<lambda>m. cm_role m = ''user'') (mr_messages req)))"

definition direct_query :: "string \<Rightarrow> string option" where
  "direct_query s =
    (if starts_with s DIRECT_WEB_SEARCH_PREFIX
     then let q = trim (drop (length DIRECT_WEB_SEARCH_PREFIX) s) in if q = [] then None else Some q
     else None)"

definition extract_search_query :: "messages_request \<Rightarrow> string option" where
  "extract_search_query req =
    (case List.map_filter direct_query (iter_user_text_blocks req) of [] \<Rightarrow> None | q # _ \<Rightarrow> Some q)"

definition is_direct_web_search_request :: "messages_request \<Rightarrow> bool" where
  "is_direct_web_search_request req \<longleftrightarrow> extract_search_query req \<noteq> None"

subsection \<open>The tool service\<close>

text \<open>The random parts of the ids: 22 and 8 characters, the milliseconds, and a UUID without its dashes.\<close>

record random_ids =
  ri_22 :: string
  ri_millis :: nat
  ri_8 :: string
  ri_uuid :: string

definition create_mcp_request :: "random_ids \<Rightarrow> string \<Rightarrow> string \<times> json" where
  "create_mcp_request ri query =
    (''srvtoolu_'' @ take 32 (ri_uuid ri),
     JObj [(''id'', JStr (''web_search_tooluse_'' @ ri_22 ri @ ''_'' @ nat_to_string (ri_millis ri) @ ''_'' @ ri_8 ri)),
           (''jsonrpc'', JStr ''2.0''), (''method'', JStr ''tools/call''),
           (''params'', JObj [(''name'', JStr ''web_search''), (''arguments'', JObj [(''query'', JStr query)])])])"

definition parse_search_results :: "web \<Rightarrow> mcp_response \<Rightarrow> search_results option" where
  "parse_search_results wb r =
    (case mp_result r of
       Some (c # _) \<Rightarrow> if mc_type c \<noteq> ''text'' then None else wb_read_results wb (mc_text c)
     | _ \<Rightarrow> None)"

definition is_no_results_error :: "mcp_error \<Rightarrow> bool" where
  "is_no_results_error e \<longleftrightarrow>
     (case me_message e of Some m \<Rightarrow> contains (map ascii_lower m) ''no results'' | None \<Rightarrow> False)"

datatype search_failure = Call_Failed call_error | Unreadable_Reply string | Search_Error "int option" "string option"

text \<open>What \<open>call_mcp_api\<close> makes of the body of a successful reply.\<close>

definition read_mcp_reply :: "web \<Rightarrow> string \<Rightarrow> search_failure + mcp_response" where
  "read_mcp_reply wb body =
    (case wb_read_response wb body of
       Inl e \<Rightarrow> Inl (Unreadable_Reply e)
     | Inr r \<Rightarrow>
         (case mp_error r of
            None \<Rightarrow> Inr r
          | Some e \<Rightarrow>
              if is_no_results_error e then Inr (r\<lparr>mp_error := None, mp_result := None\<rparr>)
              else Inl (Search_Error (me_code e) (me_message e))))"

text \<open>\<open>None\<close>: the acquisition of a credential has used up its fuel.\<close>

definition call_mcp_api ::
  "web \<Rightarrow> surroundings \<Rightarrow> (nat \<Rightarrow> 'c hop) \<Rightarrow> json \<Rightarrow> 'c provider
     \<Rightarrow> ('c provider \<times> (search_failure + mcp_response)) option" where
  "call_mcp_api wb sr hops request pv =
    (case call_mcp_with_retry sr (to_str (wb_serde wb) request) hops pv of
       None \<Rightarrow> None
     | Some (pv, _, Inl e) \<Rightarrow> Some (pv, Inl (Call_Failed e))
     | Some (pv, _, Inr (response, _)) \<Rightarrow> Some (pv, read_mcp_reply wb (hr_body response)))"

subsection \<open>The summary\<close>

abbreviation nl :: string where "nl \<equiv> [CHR 0x0A]"

definition shorten_snippet :: "string \<Rightarrow> string" where
  "shorten_snippet s = (if 200 < length (utf8_chars s) then take_chars 200 s @ ''...'' else s)"

definition summary_entry :: "nat \<Rightarrow> search_result \<Rightarrow> string" where
  "summary_entry i r =
     nat_to_string (i + 1) @ ''. **'' @ wr_title r @ ''**'' @ nl
     @ (case wr_snippet r of Some s \<Rightarrow> ''   '' @ shorten_snippet s @ nl | None \<Rightarrow> [])
     @ ''   Source: '' @ wr_url r @ nl @ nl"

fun summary_entries :: "nat \<Rightarrow> search_results \<Rightarrow> string" where
  "summary_entries i [] = []"
| "summary_entries i (r # rs) = summary_entry i r @ summary_entries (i + 1) rs"

definition generate_search_summary :: "string \<Rightarrow> search_results option \<Rightarrow> string" where
  "generate_search_summary query results =
     ''Here are the search results for '' @ [CHR 0x22] @ query @ [CHR 0x22] @ '':'' @ nl @ nl
     @ (case results of Some rs \<Rightarrow> summary_entries 0 rs | None \<Rightarrow> ''No results found.'' @ nl)
     @ nl @ ''Please note that these are web search results and may not be fully accurate or up-to-date.''"

subsection \<open>The answer to a direct search\<close>

definition result_block :: "web \<Rightarrow> search_result \<Rightarrow> json" where
  "result_block wb r = JObj
     [(''type'', JStr ''web_search_result''), (''title'', JStr (wr_title r)), (''url'', JStr (wr_url r)),
      (''encrypted_content'', JStr (case wr_snippet r of Some s \<Rightarrow> s | None \<Rightarrow> [])),
      (''page_age'', case Option.bind (wr_published_date r) (wb_format_date wb) of Some d \<Rightarrow> JStr d | None \<Rightarrow> JNull)]"

definition build_result_block :: "web \<Rightarrow> search_results option \<Rightarrow> json list" where
  "build_result_block wb results = (case results of Some rs \<Rightarrow> map (result_block wb) rs | None \<Rightarrow> [])"

text \<open>\<open>chars().collect().chunks(n)\<close>\<close>

lemma take_chars_skip: "0 < n \<Longrightarrow> s \<noteq> [] \<Longrightarrow> take_chars n s \<noteq> []"
  by (cases n) (auto simp: utf8_step_width)

function char_chunks :: "nat \<Rightarrow> string \<Rightarrow> string list" where
  "char_chunks n s =
    (if s = [] \<or> n = 0 then [] else take_chars n s # char_chunks n (drop (length (take_chars n s)) s))"
  by pat_completeness auto
termination
  by (relation "measure (\<lambda>(n, s). length s)") (auto simp: take_chars_skip)

declare char_chunks.simps [simp del]

definition block_start :: "int \<Rightarrow> json_map \<Rightarrow> sse_event" where
  "block_start index content_block = sse_new ''content_block_start'' (block_start_data index content_block)"

definition block_delta :: "int \<Rightarrow> json_map \<Rightarrow> sse_event" where
  "block_delta index delta = sse_new ''content_block_delta'' (block_delta_data index delta)"

definition text_block_start :: "int \<Rightarrow> sse_event" where
  "text_block_start index = block_start index [(''type'', JStr ''text''), (''text'', JStr [])]"

definition text_delta :: "int \<Rightarrow> string \<Rightarrow> sse_event" where
  "text_delta index s = block_delta index [(''type'', JStr ''text_delta''), (''text'', JStr s)]"

definition message_start_data :: "string \<Rightarrow> string \<Rightarrow> (string \<times> json) list \<Rightarrow> int \<Rightarrow> int \<Rightarrow> int \<Rightarrow> json" where
  "message_start_data message_id model stop inp creation reads = JObj
     [(''type'', JStr ''message_start''),
      (''message'', JObj
        ([(''id'', JStr message_id), (''type'', JStr ''message''), (''role'', JStr ''assistant''),
          (''model'', JStr model), (''content'', JArr []), (''stop_reason'', JNull)] @ stop @
         [(''usage'', usage_json inp 0 creation reads)]))]"

definition message_delta_data :: "string \<Rightarrow> json_map \<Rightarrow> json" where
  "message_delta_data reason usage = JObj
     [(''type'', JStr ''message_delta''), (''delta'', JObj [(''stop_reason'', JStr reason)]), (''usage'', JObj usage)]"

definition message_stop :: sse_event where
  "message_stop = sse_new ''message_stop'' (JObj [(''type'', JStr ''message_stop'')])"

text \<open>\<open>(summary.len() as i32 + 3) / 4\<close>; a summary never has \<open>2^31\<close> bytes.\<close>

definition generate_websearch_events ::
  "web \<Rightarrow> string \<Rightarrow> string \<Rightarrow> string \<Rightarrow> string \<Rightarrow> search_results option \<Rightarrow> int \<Rightarrow> int \<Rightarrow> int \<Rightarrow> sse_event list" where
  "generate_websearch_events wb uuid model query tool_use_id results inp creation reads =
    (let summary = generate_search_summary query results
     in [sse_new ''message_start'' (message_start_data (''msg_'' @ take 24 uuid) model [] inp creation reads),
         text_block_start 0,
         text_delta 0 (''I'' @ [CHR 0x27] @ ''ll search for '' @ [CHR 0x22] @ query @ [CHR 0x22] @ ''.''),
         stop_event 0,
         block_start 1 [(''type'', JStr ''server_tool_use''), (''id'', JStr tool_use_id), (''name'', JStr ''web_search''),
           (''input'', JObj [(''query'', JStr query)])],
         stop_event 1,
         block_start 2 [(''type'', JStr ''web_search_tool_result''), (''content'', JArr (build_result_block wb results))],
         stop_event 2,
         text_block_start 3]
        @ map (text_delta 3) (char_chunks 100 summary)
        @ [stop_event 3,
           sse_new ''message_delta'' (message_delta_data ''end_turn''
             [(''output_tokens'', JInt ((int (length summary) + 3) div 4)), (''cache_creation_input_tokens'', JInt creation),
              (''cache_read_input_tokens'', JInt reads),
              (''server_tool_use'', JObj [(''web_search_requests'', JInt 1)])]),
           message_stop])"

datatype 'r http_reply = Json_Reply nat json | Error_Reply nat string string | Stream_Reply 'r

definition NO_SEARCH_QUERY :: string where
  "NO_SEARCH_QUERY =
    [CHR 0xE6, CHR 0x97, CHR 0xA0, CHR 0xE6, CHR 0xB3, CHR 0x95, CHR 0xE4, CHR 0xBB, CHR 0x8E, CHR 0xE6, CHR 0xB6, CHR 0x88,
     CHR 0xE6, CHR 0x81, CHR 0xAF, CHR 0xE4, CHR 0xB8, CHR 0xAD, CHR 0xE6, CHR 0x8F, CHR 0x90, CHR 0xE5, CHR 0x8F, CHR 0x96,
     CHR 0xE6, CHR 0x90, CHR 0x9C, CHR 0xE7, CHR 0xB4, CHR 0xA2, CHR 0xE6, CHR 0x9F, CHR 0xA5, CHR 0xE8, CHR 0xAF, CHR 0xA2]"

text \<open>A search that fails is answered like one that finds nothing.\<close>

definition handle_websearch_request ::
  "web \<Rightarrow> surroundings \<Rightarrow> (nat \<Rightarrow> 'c hop) \<Rightarrow> random_ids \<Rightarrow> string \<Rightarrow> messages_request \<Rightarrow> int \<times> int \<times> int \<Rightarrow> 'c provider
     \<Rightarrow> ('c provider \<times> sse_event list http_reply) option" where
  "handle_websearch_request wb sr hops ri uuid req usage pv =
    (case extract_search_query req of
       None \<Rightarrow> Some (pv, Error_Reply 400 ''invalid_request_error'' NO_SEARCH_QUERY)
     | Some query \<Rightarrow>
         (case create_mcp_request ri query of
            (tool_use_id, request) \<Rightarrow>
              (case call_mcp_api wb sr hops request pv of
                 None \<Rightarrow> None
               | Some (pv, r) \<Rightarrow>
                   let results = (case r of Inr response \<Rightarrow> parse_search_results wb response | Inl _ \<Rightarrow> None)
                   in case usage of (inp, creation, reads) \<Rightarrow>
                        Some (pv, Stream_Reply (generate_websearch_events wb uuid (mr_model req) query tool_use_id results
                          inp creation reads)))))"

end
