(* ===== verification/Security.thy ===== *)
theory Security imports Text begin

section \<open>Secrets in logs (src/src/security.rs)\<close>

text \<open>
  What is taken out of a text before it is logged or kept in a trace: whatever follows a marker of a secret
  up to a delimiter, the values of certain headers, the user of a proxy address. SHA-256 and random
  bytes are arguments.
\<close>

definition REDACTED :: string where "REDACTED = ''[REDACTED]''"

text \<open>The first \<open>n\<close> bytes of a digest in hexadecimal are the first \<open>2n\<close> characters of the whole.\<close>

definition key_fingerprint :: "(string \<Rightarrow> string) \<Rightarrow> string \<Rightarrow> string" where
  "key_fingerprint sha256_hex secret = take 12 (sha256_hex secret)"

definition is_sensitive_header :: "string \<Rightarrow> bool" where
  "is_sensitive_header name \<longleftrightarrow> map ascii_lower name \<in> set
     [''authorization'', ''proxy-authorization'', ''cookie'', ''set-cookie'', ''x-api-key'', ''x-amz-security-token'',
      ''x-aws-ec2-metadata-token'']"

text \<open>\<open>s.find(pred)\<close>: the offset of the first character with a property.\<close>

function find_char :: "(nat \<Rightarrow> bool) \<Rightarrow> string \<Rightarrow> nat option" where
  "find_char p s =
    (if s = [] then None
     else if p (case fst (utf8_step s) of Some cp \<Rightarrow> cp | None \<Rightarrow> 65533) then Some 0
     else map_option ((+) (snd (utf8_step s))) (find_char p (drop (snd (utf8_step s)) s)))"
  by pat_completeness auto
termination
  by (relation "measure (\<lambda>(p, s). length s)") (auto simp: utf8_step_width)

declare find_char.simps [simp del]

definition ends_secret :: "nat \<Rightarrow> bool" where
  "ends_secret c \<longleftrightarrow> is_whitespace c \<or> c \<in> {0x22, 0x27, 0x2C, 0x3B, 0x29, 0x5D}"

definition secret_end :: "string \<Rightarrow> nat" where
  "secret_end s = (case find_char ends_secret s of Some n \<Rightarrow> n | None \<Rightarrow> length s)"

function redact_after_marker :: "string \<Rightarrow> string \<Rightarrow> string" where
  "redact_after_marker rest marker =
    (if marker = [] then rest
     else
       (case find_sub rest marker of
          None \<Rightarrow> rest
        | Some pos \<Rightarrow>
            (let after = drop (pos + length marker) rest
             in take pos rest @ marker @ REDACTED @ redact_after_marker (drop (secret_end after) after) marker)))"
  by pat_completeness auto
termination
proof (relation "measure (\<lambda>(rest, marker). length rest)")
  fix rest marker :: string and pos after
  assume "marker \<noteq> []" "find_sub rest marker = Some pos" "after = drop (pos + length marker) rest"
  then show "((drop (secret_end after) after, marker), (rest, marker)) \<in> measure (\<lambda>(rest, marker). length rest)"
    using find_sub_Some [of rest marker pos] by (cases marker) auto
qed simp

declare redact_after_marker.simps [simp del]

definition MARKERS :: "string list" where
  "MARKERS = [''Bearer '', ''bearer '', ''sk-'', ''sk_'', ''csk_'', ''ksk_'', ''AKIA'', ''ASIA'']"

definition redact_text :: "string \<Rightarrow> string" where
  "redact_text input = fold (\<lambda>marker out. redact_after_marker out marker) MARKERS input"

definition redact_header_value :: "string \<Rightarrow> string \<Rightarrow> string" where
  "redact_header_value name v = (if is_sensitive_header name then REDACTED else redact_text v)"

text \<open>\<open>split_once\<close> and \<open>rsplit_once\<close>\<close>

definition split_once :: "string \<Rightarrow> string \<Rightarrow> (string \<times> string) option" where
  "split_once s sep =
    (case find_sub s sep of Some i \<Rightarrow> Some (take i s, drop (i + length sep) s) | None \<Rightarrow> None)"

definition rsplit_once_at :: "string \<Rightarrow> (string \<times> string) option" where
  "rsplit_once_at s =
    (if CHR ''@'' \<in> set s
     then let host = rev (takeWhile (\<lambda>c. c \<noteq> CHR ''@'') (rev s)) in Some (take (length s - length host - 1) s, host)
     else None)"

definition redact_proxy_url :: "string \<Rightarrow> string" where
  "redact_proxy_url url =
    (case split_once url ''://'' of
       None \<Rightarrow> redact_text url
     | Some (scheme, rest) \<Rightarrow>
         (case rsplit_once_at rest of
            None \<Rightarrow> redact_text url
          | Some (userinfo, host) \<Rightarrow>
              if CHR '':'' \<in> set userinfo then scheme @ ''://'' @ REDACTED @ ''@'' @ host else redact_text url))"

definition body_log_summary :: "string \<Rightarrow> string" where
  "body_log_summary body = ''[body redacted, '' @ nat_to_string (length body) @ '' bytes]''"

subsection \<open>What is left of a secret\<close>

text \<open>A text with one marker: what follows it up to the delimiter is gone.\<close>

lemma redact_none: "find_sub s marker = None \<Longrightarrow> redact_after_marker s marker = s"
  by (simp add: redact_after_marker.simps)

lemma redact_step:
  assumes "marker \<noteq> []" and "find_sub s marker = Some pos"
  shows "redact_after_marker s marker = take pos s @ marker @ REDACTED @
    redact_after_marker (drop (secret_end (drop (pos + length marker) s)) (drop (pos + length marker) s)) marker"
  using assms by (simp add: redact_after_marker.simps [of s] Let_def)

text \<open>What remains does not depend on the secret: two texts that differ in it alone are redacted to the same.\<close>

lemma secret_end_ascii:
  assumes "list_all (\<lambda>c. byte_of c < 128 \<and> \<not> ends_secret (byte_of c)) secret"
    and "rest = [] \<or> (\<exists>c r. rest = c # r \<and> byte_of c < 128 \<and> ends_secret (byte_of c))"
  shows "secret_end (secret @ rest) = length secret"
proof -
  have "find_char ends_secret (secret @ rest) = (if rest = [] then None else Some (length secret))"
    using assms(1)
  proof (induction secret)
    case Nil
    from assms(2) show ?case
      by (cases rest) (auto simp: find_char.simps utf8_step.simps Let_def)
  next
    case (Cons c secret)
    then show ?case by (subst find_char.simps) (simp add: utf8_step.simps Let_def)
  qed
  then show ?thesis by (simp add: secret_end_def)
qed

lemma redact_at:
  assumes "marker \<noteq> []" and "find_sub (pre @ marker @ secret @ rest) marker = Some (length pre)"
    and "list_all (\<lambda>c. byte_of c < 128 \<and> \<not> ends_secret (byte_of c)) secret"
    and "rest = [] \<or> (\<exists>c r. rest = c # r \<and> byte_of c < 128 \<and> ends_secret (byte_of c))"
  shows "redact_after_marker (pre @ marker @ secret @ rest) marker = pre @ marker @ REDACTED @ redact_after_marker rest marker"
  using redact_step [OF assms(1,2)] secret_end_ascii [OF assms(3,4)] by simp



lemma sensitive_header_hidden: "is_sensitive_header name \<Longrightarrow> redact_header_value name v = REDACTED"
  by (simp add: redact_header_value_def)

lemmas redact_eval = secret_end_def find_char.simps utf8_step.simps byte_of_def ends_secret_def is_whitespace_def
  Let_def REDACTED_def

text \<open>A second blank ends the secret before it begins.\<close>

lemma second_blank_leaks: "redact_text ''Bearer  secret'' = ''Bearer [REDACTED] secret''"
proof -
  have "find_sub ''Bearer  secret'' ''Bearer '' = Some 0" by simp
  from redact_step [OF _ this]
  have "redact_after_marker ''Bearer  secret'' ''Bearer '' = ''Bearer [REDACTED] secret''"
    by (simp add: redact_eval redact_none)
  then show ?thesis by (simp add: redact_text_def MARKERS_def redact_none)
qed

text \<open>A marker inside another one is redacted twice, which leaves a bracket behind.\<close>

lemma nested_marker: "redact_text ''csk_abc'' = ''csk_[REDACTED]]''"
proof -
  have "find_sub ''csk_abc'' ''sk_'' = Some 1" by simp
  from redact_step [OF _ this]
  have "redact_after_marker ''csk_abc'' ''sk_'' = ''csk_[REDACTED]''" by (simp add: redact_eval redact_none)
  moreover have "find_sub ''csk_[REDACTED]'' ''csk_'' = Some 0" by simp
  from redact_step [OF _ this]
  have "redact_after_marker ''csk_[REDACTED]'' ''csk_'' = ''csk_[REDACTED]]''" by (simp add: redact_eval redact_none)
  ultimately show ?thesis by (simp add: redact_text_def MARKERS_def redact_none)
qed

text \<open>A user without a password stays in the address of a proxy.\<close>

lemma proxy_user_kept: "redact_proxy_url ''http://token@host:1'' = ''http://token@host:1''"
  by (simp add: redact_proxy_url_def split_once_def rsplit_once_at_def redact_text_def MARKERS_def redact_none)

end
