(* ===== verification/Request_Books.thy ===== *)
theory Request_Books imports Web_Search Conversion Client_Keys Security Cache_Segments begin

section \<open>The books of a request (src/src/anthropic/handlers.rs)\<close>

text \<open>
  What a request leaves behind: the record of its use (\<open>UsageRecordHook\<close>: the log, the totals of the
  client's key), its trace (\<open>RequestTracer\<close>) and the prefixes it enters into the table of the cache; and
  how errors of the conversion and of the provider are answered. The log, the traces and the table may
  be switched off. The stamp of a record is an argument, durations are left out.
\<close>

record request_info =
  rq_key_id :: nat
  rq_model :: string
  rq_is_stream :: bool
  rq_stamp :: string
  rq_trace_id :: string

record usage_record =
  us_key_id :: nat
  us_credential_id :: u64
  us_model :: string
  us_input_tokens :: nat
  us_output_tokens :: nat
  us_cache_creation_tokens :: nat
  us_cache_read_tokens :: nat
  us_credits :: rat
  us_status :: string

record trace_record =
  tc_trace_id :: string
  tc_key_id :: nat
  tc_model :: string
  tc_is_stream :: bool
  tc_final_status :: string
  tc_final_credential_id :: u64
  tc_error_type :: "string option"
  tc_error_message :: "string option"
  tc_total_attempts :: nat
  tc_interrupted_after_bytes :: "nat option"
  tc_usage :: "nat \<times> nat \<times> nat \<times> nat"
  tc_attempts :: "trace_attempt list"

record books =
  bk_log :: "usage_record list option"
  bk_keys :: "key_manager option"
  bk_traces :: "trace_record list option"
  bk_attempts :: "trace_attempt list"
  bk_usage :: "(int \<times> int \<times> int \<times> int) option"
  bk_meter :: "cache_meter option"

definition usage_record_of ::
  "request_info \<Rightarrow> u64 \<Rightarrow> int \<Rightarrow> int \<Rightarrow> int \<Rightarrow> int \<Rightarrow> rat \<Rightarrow> string \<Rightarrow> usage_record" where
  "usage_record_of ri cid inp out creation reads creds status =
    \<lparr>us_key_id = rq_key_id ri, us_credential_id = cid, us_model = rq_model ri, us_input_tokens = nat (max inp 0),
     us_output_tokens = nat (max out 0), us_cache_creation_tokens = nat (max creation 0),
     us_cache_read_tokens = nat (max reads 0), us_credits = (if 0 < creds then creds else 0), us_status = status\<rparr>"

definition hook_record ::
  "request_info \<Rightarrow> u64 \<Rightarrow> int \<Rightarrow> int \<Rightarrow> int \<Rightarrow> int \<Rightarrow> rat \<Rightarrow> string \<Rightarrow> books \<Rightarrow> books" where
  "hook_record ri cid inp out creation reads creds status b =
    (let r = usage_record_of ri cid inp out creation reads creds status;
         b = b\<lparr>bk_log := map_option (\<lambda>l. l @ [r]) (bk_log b)\<rparr>
     in if status = ''success'' \<and> rq_key_id ri \<noteq> 0
        then b\<lparr>bk_keys := map_option (record_key_usage (rq_stamp ri) (rq_key_id ri) (of_nat (us_input_tokens r))
               (of_nat (us_output_tokens r)) (of_nat (us_cache_creation_tokens r)) (of_nat (us_cache_read_tokens r))
               (Some (us_credits r))) (bk_keys b)\<rparr>
        else b)"

definition set_usage :: "int \<Rightarrow> int \<Rightarrow> int \<Rightarrow> int \<Rightarrow> books \<Rightarrow> books" where
  "set_usage inp out creation reads b = b\<lparr>bk_usage := Some (inp, out, creation, reads)\<rparr>"

definition finalize_trace ::
  "request_info \<Rightarrow> string \<Rightarrow> string option \<Rightarrow> string option \<Rightarrow> nat option \<Rightarrow> books \<Rightarrow> books" where
  "finalize_trace ri final_status etype emsg bytes b =
    (case bk_traces b of
       None \<Rightarrow> b
     | Some ts \<Rightarrow>
         (case (case bk_usage b of Some u \<Rightarrow> u | None \<Rightarrow> (0, 0, 0, 0)) of
            (inp, out, creation, reads) \<Rightarrow>
              b\<lparr>bk_traces := Some (ts @
                  [\<lparr>tc_trace_id = rq_trace_id ri, tc_key_id = rq_key_id ri, tc_model = rq_model ri,
                    tc_is_stream = rq_is_stream ri, tc_final_status = final_status,
                    tc_final_credential_id = (if bk_attempts b = [] then 0 else ta_credential (last (bk_attempts b))),
                    tc_error_type = etype, tc_error_message = map_option redact_text emsg,
                    tc_total_attempts = length (bk_attempts b), tc_interrupted_after_bytes = bytes,
                    tc_usage = (nat (max inp 0), nat (max out 0), nat (max creation 0), nat (max reads 0)),
                    tc_attempts = bk_attempts b\<rparr>]),
                bk_attempts := []\<rparr>))"

text \<open>The provider reports every attempt to the trace.\<close>

definition on_attempts :: "effect list \<Rightarrow> books \<Rightarrow> books" where
  "on_attempts fx b =
     b\<lparr>bk_attempts := bk_attempts b @ List.map_filter (\<lambda>f. case f of Traced a \<Rightarrow> Some a | _ \<Rightarrow> None) fx\<rparr>"

definition outcome_text :: "trace_outcome \<Rightarrow> string" where
  "outcome_text oc =
    (case oc of
       Succeeded \<Rightarrow> ''success''
     | QuotaUsedUp \<Rightarrow> ''quota_exhausted''
     | AccountThrottled \<Rightarrow> ''account_throttled''
     | AuthFailed \<Rightarrow> ''auth_failed''
     | Transient \<Rightarrow> ''transient''
     | NetworkError \<Rightarrow> ''network_error''
     | BadRequest \<Rightarrow> ''bad_request''
     | UnknownOutcome \<Rightarrow> ''unknown'')"

definition last_attempt_outcome :: "books \<Rightarrow> string option" where
  "last_attempt_outcome b =
    (if bk_attempts b = [] then None
     else Some (let oc = ta_outcome (last (bk_attempts b)) in if oc = Succeeded then ''unknown'' else outcome_text oc))"

definition commit_plan :: "int \<Rightarrow> cache_plan \<Rightarrow> books \<Rightarrow> books" where
  "commit_plan now plan b = b\<lparr>bk_meter := map_option (commit_success now plan) (bk_meter b)\<rparr>"

subsection \<open>Errors\<close>

definition UNSUPPORTED_MODEL :: string where
  "UNSUPPORTED_MODEL =
    [CHR 0xE6, CHR 0xA8, CHR 0xA1, CHR 0xE5, CHR 0x9E, CHR 0x8B, CHR 0xE4, CHR 0xB8, CHR 0x8D, CHR 0xE6, CHR 0x94, CHR 0xAF,
     CHR 0xE6, CHR 0x8C, CHR 0x81] @ '': ''"

definition EMPTY_MESSAGES :: string where
  "EMPTY_MESSAGES =
    [CHR 0xE6, CHR 0xB6, CHR 0x88, CHR 0xE6, CHR 0x81, CHR 0xAF, CHR 0xE5, CHR 0x88, CHR 0x97, CHR 0xE8, CHR 0xA1, CHR 0xA8,
     CHR 0xE4, CHR 0xB8, CHR 0xBA, CHR 0xE7, CHR 0xA9, CHR 0xBA]"

definition conversion_error_response :: "conversion_error \<Rightarrow> string \<times> string" where
  "conversion_error_response e =
    (case e of
       UnsupportedModel m \<Rightarrow> (''invalid_request_error'', UNSUPPORTED_MODEL @ m)
     | EmptyMessages \<Rightarrow> (''invalid_request_error'', EMPTY_MESSAGES)
     | UnsupportedMapping message \<Rightarrow> (''unsupported_tool_mapping'', message)
     | InvalidImage message \<Rightarrow> (''invalid_request_error'', message))"

text \<open>\<open>err_str\<close> is the error as text, \<open>hint\<close> a fresh id.\<close>

definition provider_error_status_and_detail :: "serde \<Rightarrow> string \<Rightarrow> string \<Rightarrow> nat \<times> string \<times> string" where
  "provider_error_status_and_detail sd hint err_str =
    (if contains err_str ''CONTENT_LENGTH_EXCEEDS_THRESHOLD'' then
       (400, ''invalid_request_error'', ''Context window is full. Reduce conversation history, system prompt, or tools.'')
     else if contains err_str ''Input is too long'' then
       (400, ''invalid_request_error'', ''Input is too long. Reduce the size of your messages.'')
     else if is_client_validation_error sd err_str then
       (400, ''invalid_request_error'',
        ''Invalid message sequence: tool_use and tool_result blocks must be correctly paired and ordered.'')
     else (502, ''api_error'', ''Upstream request failed. trace_id='' @ hint))"

definition map_provider_error :: "serde \<Rightarrow> string \<Rightarrow> string \<Rightarrow> 'r http_reply" where
  "map_provider_error sd hint err_str =
    (case provider_error_status_and_detail sd hint err_str of (status, ty, msg) \<Rightarrow> Error_Reply status ty msg)"

definition create_error_sse :: "string \<Rightarrow> string \<Rightarrow> sse_event" where
  "create_error_sse etype message =
     sse_new ''error'' (JObj [(''type'', JStr ''error''),
       (''error'', JObj [(''type'', JStr etype), (''message'', JStr message)])])"

subsection \<open>What the operations leave alone\<close>

text \<open>How many records, and whether anything was entered: what the properties of a request speak of.\<close>

lemma hook_record_fields [simp]:
  "bk_traces (hook_record ri cid i ou cc cr x st b) = bk_traces b"
  "bk_attempts (hook_record ri cid i ou cc cr x st b) = bk_attempts b"
  "bk_usage (hook_record ri cid i ou cc cr x st b) = bk_usage b"
  "bk_meter (hook_record ri cid i ou cc cr x st b) = bk_meter b"
  "bk_log (hook_record ri cid i ou cc cr x st b) =
     map_option (\<lambda>l. l @ [usage_record_of ri cid i ou cc cr x st]) (bk_log b)"
  by (simp_all add: hook_record_def Let_def)

lemma set_usage_fields [simp]:
  "bk_log (set_usage i ou cc cr b) = bk_log b" "bk_traces (set_usage i ou cc cr b) = bk_traces b"
  "bk_keys (set_usage i ou cc cr b) = bk_keys b" "bk_meter (set_usage i ou cc cr b) = bk_meter b"
  "bk_attempts (set_usage i ou cc cr b) = bk_attempts b"
  by (simp_all add: set_usage_def)

lemma finalize_fields [simp]:
  "bk_log (finalize_trace ri st et em by b) = bk_log b" "bk_keys (finalize_trace ri st et em by b) = bk_keys b"
  "bk_meter (finalize_trace ri st et em by b) = bk_meter b"
  by (simp_all add: finalize_trace_def split: option.split prod.split)

lemma commit_plan_fields [simp]:
  "bk_log (commit_plan now plan b) = bk_log b" "bk_traces (commit_plan now plan b) = bk_traces b"
  "bk_keys (commit_plan now plan b) = bk_keys b" "bk_attempts (commit_plan now plan b) = bk_attempts b"
  "bk_meter (commit_plan now plan b) = map_option (commit_success now plan) (bk_meter b)"
  by (simp_all add: commit_plan_def)

text \<open>A finished trace: one more record, with the status and the attempts so far.\<close>

lemma finalize_adds:
  "bk_traces b = Some ts \<Longrightarrow> \<exists>t. bk_traces (finalize_trace ri st et em by b) = Some (ts @ [t]) \<and>
     tc_final_status t = st \<and> tc_attempts t = bk_attempts b \<and> tc_error_type t = et"
  by (auto simp: finalize_trace_def split: option.split prod.split)

text \<open>A usage is never negative in the books, whatever the estimate was.\<close>

lemma usage_record_tokens:
  "int (us_input_tokens (usage_record_of ri cid i ou cc cr x st)) = max i 0"
  "0 \<le> us_credits (usage_record_of ri cid i ou cc cr x st)"
  by (simp_all add: usage_record_of_def)

end
