(* ===== verification/Messages_Stream.thy ===== *)
theory Messages_Stream imports Request_Books Buffered_Stream Decoder begin

section \<open>Streaming an answer (src/src/anthropic/handlers.rs)\<close>

text \<open>
  The upstream's body arrives in chunks, in between a timer asks for pings; what goes down to the client
  are events and pings. \<open>sse_step\<close> is one turn of \<open>create_sse_stream\<close>, \<open>buffered_step\<close> one of
  \<open>create_buffered_sse_stream\<close>; an input is what \<open>select!\<close> hands out. The readers of JSON and the checksum
  are arguments, as is the time of the commit.
\<close>

datatype stream_input = Chunk "byte list" | Read_Error string | Body_End | Ping_Tick

datatype downstream = Event_Out sse_event | Ping_Out

record stream_setup =
  su_info :: request_info
  su_credential :: u64
  su_plan :: cache_plan
  su_now :: int
  su_serde :: serde
  su_read_payload :: "byte list \<Rightarrow> string + json"
  su_crc :: "byte list \<Rightarrow> u32"

definition frame_event :: "stream_setup \<Rightarrow> frame parse_result \<Rightarrow> event option" where
  "frame_event su r =
    (case r of
       Inl _ \<Rightarrow> None
     | Inr f \<Rightarrow> (case event_from_frame (su_read_payload su) f of Inr e \<Rightarrow> Some e | Inl _ \<Rightarrow> None))"

definition chunk_events :: "stream_setup \<Rightarrow> byte list \<Rightarrow> decoder \<Rightarrow> decoder \<times> event list" where
  "chunk_events su chunk d =
    (case on_chunk (su_crc su) d chunk of (d, items) \<Rightarrow> (d, List.map_filter (frame_event su) items))"

subsection \<open>The plain stream\<close>

record sse_stream =
  ss_context :: stream_context
  ss_decoder :: decoder
  ss_finished :: bool
  ss_sent_bytes :: nat
  ss_pending :: "sse_event list option"
  ss_books :: books

definition record_stream_usage :: "stream_setup \<Rightarrow> stream_context \<Rightarrow> string \<Rightarrow> books \<Rightarrow> books" where
  "record_stream_usage su c status b =
    (case resolved_usage c of
       (inp, creation, reads) \<Rightarrow>
         set_usage inp (output_tokens c) creation reads
           (hook_record (su_info su) (su_credential su) inp (output_tokens c) creation reads (credits c) status b))"

definition taken :: "sse_event list option \<Rightarrow> sse_event list" where
  "taken pending = (case pending of Some es \<Rightarrow> es | None \<Rightarrow> [])"

definition end_books :: "stream_setup \<Rightarrow> stream_context \<Rightarrow> books \<Rightarrow> books" where
  "end_books su c b =
    (case tool_json_error c of
       Some e \<Rightarrow>
         finalize_trace (su_info su) ''error'' (Some ''bad_request'') (Some (error_message e)) None
           (record_stream_usage su c ''error'' b)
     | None \<Rightarrow>
         finalize_trace (su_info su) ''success'' None None None
           (commit_plan (su_now su) (su_plan su) (record_stream_usage su c ''success'' b)))"

definition interrupted_books :: "stream_setup \<Rightarrow> stream_context \<Rightarrow> string \<Rightarrow> nat \<Rightarrow> books \<Rightarrow> books" where
  "interrupted_books su c err sent b =
     finalize_trace (su_info su) ''interrupted'' (Some ''stream_interrupted'') (Some err) (Some sent)
       (record_stream_usage su c ''error'' b)"

definition sse_step :: "stream_setup \<Rightarrow> sse_stream \<Rightarrow> stream_input \<Rightarrow> sse_stream \<times> downstream list" where
  "sse_step su s i =
    (if ss_finished s then (s, [])
     else
       (case i of
          Chunk chunk \<Rightarrow>
            (case chunk_events su chunk (ss_decoder s) of
               (d, es) \<Rightarrow>
                 (case run (\<lambda>c e. process_kiro_event (su_serde su) e c) (ss_context s) es of
                    (c, out) \<Rightarrow>
                      (s\<lparr>ss_context := c, ss_decoder := d, ss_sent_bytes := ss_sent_bytes s + length chunk, ss_pending := None\<rparr>,
                       map Event_Out (taken (ss_pending s) @ out))))
        | Read_Error err \<Rightarrow>
            (case generate_final_events (su_serde su) (ss_context s) of
               (c, out) \<Rightarrow>
                 (s\<lparr>ss_context := c, ss_finished := True, ss_pending := None,
                    ss_books := interrupted_books su c err (ss_sent_bytes s) (ss_books s)\<rparr>,
                  map Event_Out (taken (ss_pending s) @ out)))
        | Body_End \<Rightarrow>
            (case generate_final_events (su_serde su) (ss_context s) of
               (c, out) \<Rightarrow>
                 (s\<lparr>ss_context := c, ss_finished := True, ss_pending := None, ss_books := end_books su c (ss_books s)\<rparr>,
                  map Event_Out (taken (ss_pending s) @ out)))
        | Ping_Tick \<Rightarrow> (s, if ss_pending s = None then [Ping_Out] else [])))"

text \<open>The stream of one request: the first events are held back until the upstream sends something.\<close>

definition sse_stream_start :: "stream_setup \<Rightarrow> stream_context \<Rightarrow> books \<Rightarrow> sse_stream" where
  "sse_stream_start su c b =
    (case generate_initial_events (c\<lparr>cache_usage := pl_usage (su_plan su)\<rparr>) of
       (c, es) \<Rightarrow>
         \<lparr>ss_context = c, ss_decoder = decoder_new, ss_finished = False, ss_sent_bytes = 0, ss_pending = Some es, ss_books = b\<rparr>)"

subsection \<open>The buffered stream\<close>

record buffered_stream =
  bu_context :: buffered_context
  bu_decoder :: decoder
  bu_finished :: bool
  bu_first_chunk_seen :: bool
  bu_sent_bytes :: nat
  bu_books :: books

definition record_buffered_usage :: "stream_setup \<Rightarrow> buffered_context \<Rightarrow> string \<Rightarrow> books \<Rightarrow> books" where
  "record_buffered_usage su c status b =
    (case final_usage c of
       (inp, out, creation, reads, creds) \<Rightarrow>
         hook_record (su_info su) (su_credential su) inp out creation reads creds status b)"

definition set_buffered_usage :: "buffered_context \<Rightarrow> books \<Rightarrow> books" where
  "set_buffered_usage c b =
    (case final_usage c of (inp, out, creation, reads, creds) \<Rightarrow> set_usage inp out creation reads b)"

definition buffered_end_books :: "stream_setup \<Rightarrow> buffered_context \<Rightarrow> books \<Rightarrow> books" where
  "buffered_end_books su c b =
    (case tool_json_error (inner c) of
       Some e \<Rightarrow>
         finalize_trace (su_info su) ''error'' (Some ''bad_request'') (Some (error_message e)) None
           (set_buffered_usage c (record_buffered_usage su c ''error'' b))
     | None \<Rightarrow>
         finalize_trace (su_info su) ''success'' None None None
           (set_buffered_usage c (commit_plan (su_now su) (su_plan su) (record_buffered_usage su c ''success'' b))))"

definition buffered_step :: "stream_setup \<Rightarrow> buffered_stream \<Rightarrow> stream_input \<Rightarrow> buffered_stream \<times> downstream list" where
  "buffered_step su s i =
    (if bu_finished s then (s, [])
     else
       (case i of
          Chunk chunk \<Rightarrow>
            (case chunk_events su chunk (bu_decoder s) of
               (d, es) \<Rightarrow>
                 (s\<lparr>bu_context := fold (process_and_buffer (su_serde su)) es (bu_context s), bu_decoder := d,
                    bu_sent_bytes := bu_sent_bytes s + length chunk, bu_first_chunk_seen := True\<rparr>,
                  if \<not> bu_first_chunk_seen s then [Ping_Out] else []))
        | Read_Error err \<Rightarrow>
            (case finish_and_get_all_events (su_serde su) (bu_context s) of
               (c, out) \<Rightarrow>
                 (s\<lparr>bu_context := c, bu_finished := True,
                    bu_books := finalize_trace (su_info su) ''interrupted'' (Some ''stream_interrupted'') (Some err)
                      (Some (bu_sent_bytes s)) (set_buffered_usage c (record_buffered_usage su c ''error'' (bu_books s)))\<rparr>,
                  map Event_Out out))
        | Body_End \<Rightarrow>
            (case finish_and_get_all_events (su_serde su) (bu_context s) of
               (c, out) \<Rightarrow>
                 (s\<lparr>bu_context := c, bu_finished := True, bu_books := buffered_end_books su c (bu_books s)\<rparr>,
                  map Event_Out out))
        | Ping_Tick \<Rightarrow> (s, if bu_first_chunk_seen s then [Ping_Out] else [])))"

definition buffered_stream_start :: "stream_setup \<Rightarrow> stream_context \<Rightarrow> books \<Rightarrow> buffered_stream" where
  "buffered_stream_start su c b =
    \<lparr>bu_context = set_cache_usage (pl_usage (su_plan su)) (buffered_new c), bu_decoder = decoder_new, bu_finished = False,
     bu_first_chunk_seen = False, bu_sent_bytes = 0, bu_books = b\<rparr>"

subsection \<open>What the client sees\<close>

text \<open>The events without the pings; and what the upstream has said: the events of the chunks in order.\<close>

definition client_events :: "downstream list \<Rightarrow> sse_event list" where
  "client_events out = List.map_filter (\<lambda>x. case x of Event_Out e \<Rightarrow> Some e | Ping_Out \<Rightarrow> None) out"

fun chunks_of :: "stream_input list \<Rightarrow> byte list list" where
  "chunks_of [] = []"
| "chunks_of (Chunk c # is) = c # chunks_of is"
| "chunks_of (_ # is) = chunks_of is"

definition upstream_events :: "stream_setup \<Rightarrow> byte list list \<Rightarrow> event list" where
  "upstream_events su chunks = List.map_filter (frame_event su) (snd (run (on_chunk (su_crc su)) decoder_new chunks))"

lemma client_events_simps [simp]:
  "client_events [] = []" "client_events (a @ b) = client_events a @ client_events b"
  "client_events (map Event_Out es) = es" "client_events [Ping_Out] = []"
  by (induction es) (simp_all add: client_events_def List.map_filter_def)

lemma map_filter_append: "List.map_filter f (xs @ ys) = List.map_filter f xs @ List.map_filter f ys"
  by (simp add: List.map_filter_def)

text \<open>No input of the list ends the stream.\<close>

definition going_on :: "stream_input list \<Rightarrow> bool" where
  "going_on is \<longleftrightarrow> list_all (\<lambda>i. case i of Chunk _ \<Rightarrow> True | Ping_Tick \<Rightarrow> True | _ \<Rightarrow> False) is"

lemma going_on_simps [simp]:
  "going_on []" "going_on (Chunk c # is) = going_on is" "going_on (Ping_Tick # is) = going_on is"
  "\<not> going_on (Read_Error e # is)" "\<not> going_on (Body_End # is)"
  by (simp_all add: going_on_def)

text \<open>The state between the first input and the end, and what has gone down until then.\<close>

lemma run_parts:
  "fst (run step s (i # is)) = fst (run step (fst (step s i)) is)"
  "snd (run step s (i # is)) = snd (step s i) @ snd (run step (fst (step s i)) is)"
  "fst (run step s (is @ js)) = fst (run step (fst (run step s is)) js)"
  "snd (run step s (is @ js)) = snd (run step s is) @ snd (run step (fst (run step s is)) js)"
  by (simp_all add: run_append case_prod_unfold)

abbreviation processed :: "stream_setup \<Rightarrow> stream_context \<Rightarrow> event list \<Rightarrow> stream_context \<times> sse_event list" where
  "processed su c es \<equiv> run (\<lambda>c e. process_kiro_event (su_serde su) e c) c es"

abbreviation decoded :: "stream_setup \<Rightarrow> decoder \<Rightarrow> byte list list \<Rightarrow> decoder \<times> frame parse_result list" where
  "decoded su d chunks \<equiv> run (on_chunk (su_crc su)) d chunks"

definition decoded_events :: "stream_setup \<Rightarrow> decoder \<Rightarrow> byte list list \<Rightarrow> event list" where
  "decoded_events su d chunks = List.map_filter (frame_event su) (snd (decoded su d chunks))"

lemma decoded_events_simps [simp]:
  "decoded_events su d [] = []"
  "decoded_events su d (c # cs) =
     List.map_filter (frame_event su) (snd (on_chunk (su_crc su) d c)) @ decoded_events su (fst (on_chunk (su_crc su) d c)) cs"
  by (simp_all add: decoded_events_def map_filter_append case_prod_unfold)

lemma sse_step_chunk:
  assumes "\<not> ss_finished s"
  shows "sse_step su s (Chunk c) =
    (s\<lparr>ss_context := fst (processed su (ss_context s) (List.map_filter (frame_event su) (snd (on_chunk (su_crc su) (ss_decoder s) c)))),
       ss_decoder := fst (on_chunk (su_crc su) (ss_decoder s) c), ss_sent_bytes := ss_sent_bytes s + length c, ss_pending := None\<rparr>,
     map Event_Out (taken (ss_pending s) @
       snd (processed su (ss_context s) (List.map_filter (frame_event su) (snd (on_chunk (su_crc su) (ss_decoder s) c))))))"
  using assms by (simp add: sse_step_def chunk_events_def case_prod_unfold)

lemma sse_run:
  assumes "going_on is" and "\<not> ss_finished s"
  shows "\<exists>p. fst (run (sse_step su) s is) =
      s\<lparr>ss_context := fst (processed su (ss_context s) (decoded_events su (ss_decoder s) (chunks_of is))),
        ss_decoder := fst (decoded su (ss_decoder s) (chunks_of is)),
        ss_sent_bytes := ss_sent_bytes s + length (concat (chunks_of is)), ss_pending := p\<rparr> \<and>
    client_events (snd (run (sse_step su) s is)) @ taken p =
      taken (ss_pending s) @ snd (processed su (ss_context s) (decoded_events su (ss_decoder s) (chunks_of is)))"
  using assms
proof (induction "is" arbitrary: s)
  case (Cons i "is")
  show ?case
  proof (cases i)
    case (Chunk c)
    have "\<not> ss_finished (fst (sse_step su s (Chunk c)))" using Cons.prems(2) by (simp add: sse_step_chunk)
    from Cons.IH [OF _ this] Cons.prems(1) Chunk obtain p where
      "fst (run (sse_step su) (fst (sse_step su s (Chunk c))) is) = (fst (sse_step su s (Chunk c)))
        \<lparr>ss_context := fst (processed su (ss_context (fst (sse_step su s (Chunk c))))
            (decoded_events su (ss_decoder (fst (sse_step su s (Chunk c)))) (chunks_of is))),
          ss_decoder := fst (decoded su (ss_decoder (fst (sse_step su s (Chunk c)))) (chunks_of is)),
          ss_sent_bytes := ss_sent_bytes (fst (sse_step su s (Chunk c))) + length (concat (chunks_of is)), ss_pending := p\<rparr>"
      "client_events (snd (run (sse_step su) (fst (sse_step su s (Chunk c))) is)) @ taken p =
        taken (ss_pending (fst (sse_step su s (Chunk c)))) @ snd (processed su (ss_context (fst (sse_step su s (Chunk c))))
          (decoded_events su (ss_decoder (fst (sse_step su s (Chunk c)))) (chunks_of is)))"
      by auto
    then show ?thesis
      by (intro exI [of _ p]) (simp add: run_parts Chunk sse_step_chunk [OF Cons.prems(2)] taken_def del: run.simps)
  next
    case Ping_Tick
    have "sse_step su s Ping_Tick = (s, if ss_pending s = None then [Ping_Out] else [])"
      using Cons.prems(2) by (simp add: sse_step_def)
    with Cons.IH [of s] Cons.prems Ping_Tick show ?thesis by (auto simp: run_parts simp del: run.simps)
  qed (use Cons.prems in simp_all)
next
  case Nil
  then show ?case by (intro exI [of _ "ss_pending s"]) simp
qed

lemma record_stream_fields [simp]:
  "bk_traces (record_stream_usage su c st b) = bk_traces b" "bk_meter (record_stream_usage su c st b) = bk_meter b"
  "bk_attempts (record_stream_usage su c st b) = bk_attempts b"
  by (simp_all add: record_stream_usage_def split: prod.split)

text \<open>
  A request that ends is booked once: one record of its use, one trace. A record of an error leaves the
  totals of the client's key alone.\<close>

definition logged :: "string \<Rightarrow> books \<Rightarrow> books \<Rightarrow> bool" where
  "logged status b b1 \<longleftrightarrow>
     (\<forall>us. bk_log b = Some us \<longrightarrow> (\<exists>u. bk_log b1 = Some (us @ [u]) \<and> us_status u = status)) \<and>
     (status = ''error'' \<longrightarrow> bk_keys b1 = bk_keys b)"

definition traced :: "string \<Rightarrow> books \<Rightarrow> books \<Rightarrow> bool" where
  "traced status b b1 \<longleftrightarrow>
     (\<forall>ts. bk_traces b = Some ts \<longrightarrow> (\<exists>t. bk_traces b1 = Some (ts @ [t]) \<and> tc_final_status t = status))"

definition booked_once :: "string \<Rightarrow> string \<Rightarrow> books \<Rightarrow> books \<Rightarrow> bool" where
  "booked_once status trace_status b b1 \<longleftrightarrow> logged status b b1 \<and> traced trace_status b b1"

lemma logged_hook [simp]: "logged st b (hook_record ri cid i ou cc cr x st b)"
  by (auto simp: logged_def usage_record_of_def) (simp add: hook_record_def Let_def)

lemma logged_simps [simp]:
  "logged st b (set_usage i ou cc cr b1) = logged st b b1" "logged st b (commit_plan now plan b1) = logged st b b1"
  "logged st b (finalize_trace ri fs et em by b1) = logged st b b1"
  by (simp_all add: logged_def)

lemma booked_finalize:
  assumes "logged status b b1" and "bk_traces b1 = bk_traces b"
  shows "booked_once status st b (finalize_trace ri st et em by b1)"
proof -
  have "traced st b (finalize_trace ri st et em by b1)" unfolding traced_def
  proof (intro allI impI)
    fix ts
    assume "bk_traces b = Some ts"
    with finalize_adds [of b1 ts ri st et em "by"] assms(2)
    show "\<exists>t. bk_traces (finalize_trace ri st et em by b1) = Some (ts @ [t]) \<and> tc_final_status t = st" by auto
  qed
  with assms(1) show ?thesis by (simp add: booked_once_def)
qed

lemma logged_stream [simp]:
  "logged st b (record_stream_usage su c st b)" "logged st b (record_buffered_usage su bc st b)"
  "logged st b (set_buffered_usage bc b1) = logged st b b1"
  by (simp_all add: record_stream_usage_def record_buffered_usage_def set_buffered_usage_def split: prod.split)

lemma end_books_once:
  "booked_once (if tool_json_error c = None then ''success'' else ''error'')
     (if tool_json_error c = None then ''success'' else ''error'') b (end_books su c b)"
  by (auto simp: end_books_def intro!: booked_finalize split: option.split)

lemma end_books_meter:
  "bk_meter (end_books su c b) =
     map_option (if tool_json_error c = None then commit_success (su_now su) (su_plan su) else id) (bk_meter b)"
  by (simp add: end_books_def option.map_id split: option.split)

lemma sse_whole:
  assumes "going_on is"
  shows "client_events (snd (run (sse_step su) (sse_stream_start su c b) (is @ Body_End # later))) =
      snd (stream_events (su_serde su) (c\<lparr>cache_usage := pl_usage (su_plan su)\<rparr>) (upstream_events su (chunks_of is)))" (is ?events)
    and "ss_books (fst (run (sse_step su) (sse_stream_start su c b) (is @ Body_End # later))) =
      end_books su (fst (stream_events (su_serde su) (c\<lparr>cache_usage := pl_usage (su_plan su)\<rparr>) (upstream_events su (chunks_of is)))) b"
      (is ?books)
proof -
  let ?s = "sse_stream_start su c b" and ?c = "c\<lparr>cache_usage := pl_usage (su_plan su)\<rparr>"
  let ?i = "generate_initial_events ?c"
  have start: "\<not> ss_finished ?s" "ss_decoder ?s = decoder_new" "ss_context ?s = fst ?i" "ss_pending ?s = Some (snd ?i)"
      "ss_books ?s = b"
    by (simp_all add: sse_stream_start_def case_prod_unfold)
  have ev: "decoded_events su decoder_new (chunks_of is) = upstream_events su (chunks_of is)"
    by (simp add: decoded_events_def upstream_events_def)
  let ?p = "processed su (fst ?i) (upstream_events su (chunks_of is))"
  from sse_run [OF assms(1) start(1), of su] obtain p where
    st: "ss_context (fst (run (sse_step su) ?s is)) = fst ?p" "\<not> ss_finished (fst (run (sse_step su) ?s is))"
      "ss_books (fst (run (sse_step su) ?s is)) = b" "ss_pending (fst (run (sse_step su) ?s is)) = p"
    and out: "client_events (snd (run (sse_step su) ?s is)) @ taken p = snd ?i @ snd ?p"
    by (auto simp: start ev taken_def)
  let ?f = "generate_final_events (su_serde su) (fst ?p)"
  have full: "stream_events (su_serde su) ?c (upstream_events su (chunks_of is)) = (fst ?f, snd ?i @ snd ?p @ snd ?f)"
    by (simp add: stream_events_def and_then_def case_prod_unfold)
  have rest: "run (sse_step su) s later = (s, [])" if "ss_finished s" for s
    using that by (induction later arbitrary: s) (simp_all add: sse_step_def)
  let ?s1 = "fst (run (sse_step su) ?s is)"
  have fin: "run (sse_step su) ?s1 (Body_End # later) =
      (?s1\<lparr>ss_context := fst ?f, ss_finished := True, ss_pending := None, ss_books := end_books su (fst ?f) b\<rparr>,
       map Event_Out (taken p @ snd ?f))"
    using st by (simp add: sse_step_def case_prod_unfold rest)
  have events: "client_events (snd (run (sse_step su) ?s (is @ Body_End # later))) = snd ?i @ snd ?p @ snd ?f"
    unfolding run_parts fin using out by simp
  have books: "ss_books (fst (run (sse_step su) ?s (is @ Body_End # later))) = end_books su (fst ?f) b"
    unfolding run_parts fin by simp
  show ?events ?books using events books by (simp_all add: full)
qed

text \<open>C22: What a client reads of a streamed answer, pings aside, is exactly the stream of the events that the upstream's
  bytes decode to, however the bytes are cut into chunks and whenever a ping falls due; nothing follows the end. And the
  request is booked exactly once: one record of its use and one trace, as a success, with the prefixes entered, unless a tool's
  input was broken.\<close>

theorem client_reads_stream:
  assumes "going_on is"
  shows "let r = run (sse_step su) (sse_stream_start su c b) (is @ Body_End # later);
             full = stream_events (su_serde su) (c\<lparr>cache_usage := pl_usage (su_plan su)\<rparr>) (upstream_events su (chunks_of is));
             ok = (tool_json_error (fst full) = None); status = (if ok then ''success'' else ''error'')
         in client_events (snd r) = snd full \<and> booked_once status status b (ss_books (fst r)) \<and>
            bk_meter (ss_books (fst r)) = map_option (if ok then commit_success (su_now su) (su_plan su) else id) (bk_meter b)"
  unfolding Let_def sse_whole [OF assms] end_books_meter using end_books_once by blast

text \<open>A body that breaks off gives the client the same events as one that ends: the answer looks complete.\<close>

lemma interrupted_looks_complete:
  "client_events (snd (run (sse_step su) s (is @ [Read_Error err]))) =
     client_events (snd (run (sse_step su) s (is @ [Body_End])))"
  by (simp add: run_parts sse_step_def case_prod_unfold del: run.simps(2))

text \<open>The books know better.\<close>

lemma interrupted_books_once: "booked_once ''error'' ''interrupted'' b (interrupted_books su c err sent b)"
  by (auto simp: interrupted_books_def intro!: booked_finalize)

lemma interrupted_not_committed: "bk_meter (interrupted_books su c err sent b) = bk_meter b"
  by (simp add: interrupted_books_def)

text \<open>A client that goes away before the end leaves no record of its use at all, whatever it has read.\<close>

lemma cancelled_stream_unbooked:
  assumes "going_on is"
  shows "ss_books (fst (run (sse_step su) (sse_stream_start su c b) is)) = b"
proof -
  have "\<not> ss_finished (sse_stream_start su c b)" "ss_books (sse_stream_start su c b) = b"
    by (simp_all add: sse_stream_start_def split: prod.split)
  with sse_run [OF assms, of "sse_stream_start su c b" su] show ?thesis by auto
qed

subsection \<open>The whole way from the bytes to the client\<close>

lemma upstream_events_messages:
  assumes "list_all frame_ok ms" and "concat chunks = enc (su_crc su) ms"
    and "fits (su_crc su) DEFAULT_MAX_BUFFER_SIZE ms chunks"
  shows "upstream_events su chunks = List.map_filter (frame_event su) (map (Inr \<circ> frame_of) ms)"
proof -
  have "snd (run (on_chunk (su_crc su)) decoder_new chunks) = map (Inr \<circ> frame_of) ms"
  proof (rule run_stream)
    show "complete (su_crc su) ms (length (dec_buffer decoder_new)) = []"
      using length_encode_frame by (cases ms) (auto simp: decoder_new_def frame_consts)
  qed (use assms in \<open>simp_all add: decoder_new_def\<close>)
  then show ?thesis by (simp add: upstream_events_def)
qed

text \<open>C2: A streamed answer, from the bytes of the upstream to the events of the client: when the bytes are those of well-formed
  messages, then however they are cut into chunks, and however long the answer is, the client reads exactly the stream of the
  events of these messages, in order, and what it reads follows the protocol and is complete.\<close>

theorem streamed_answer:
  assumes "going_on is" and "list_all frame_ok ms" and "concat (chunks_of is) = enc (su_crc su) ms"
    and "fits (su_crc su) DEFAULT_MAX_BUFFER_SIZE ms (chunks_of is)"
    and "c = new_with_thinking ri rs mid mdl tokens thinking names"
  shows "let out = client_events (snd (run (sse_step su) (sse_stream_start su c b) (is @ [Body_End]))) in
    out = snd (stream_events (su_serde su) (c\<lparr>cache_usage := pl_usage (su_plan su)\<rparr>)
                (List.map_filter (frame_event su) (map (Inr \<circ> frame_of) ms))) \<and>
    (\<exists>p. accepts protocol_step protocol_start out = Some p \<and> pr_open p = {} \<and> pr_started p \<and> pr_ended p)"
proof -
  have c: "c\<lparr>cache_usage := pl_usage (su_plan su)\<rparr> =
      new_with_thinking ri rs mid mdl tokens thinking names\<lparr>cache_usage := pl_usage (su_plan su)\<rparr>" using assms(5) by simp
  show ?thesis
    unfolding Let_def sse_whole(1) [OF assms(1)] upstream_events_messages [OF assms(2-4)]
    using stream_accepted [OF c] by blast
qed

subsection \<open>The buffered stream\<close>

lemma buffered_step_chunk:
  assumes "\<not> bu_finished s"
  shows "buffered_step su s (Chunk c) =
    (s\<lparr>bu_context := fold (process_and_buffer (su_serde su))
         (List.map_filter (frame_event su) (snd (on_chunk (su_crc su) (bu_decoder s) c))) (bu_context s),
       bu_decoder := fst (on_chunk (su_crc su) (bu_decoder s) c), bu_sent_bytes := bu_sent_bytes s + length c,
       bu_first_chunk_seen := True\<rparr>, if \<not> bu_first_chunk_seen s then [Ping_Out] else [])"
  using assms by (simp add: buffered_step_def chunk_events_def case_prod_unfold)

lemma buffered_run:
  assumes "going_on is" and "\<not> bu_finished s"
  shows "\<exists>n seen. fst (run (buffered_step su) s is) =
      s\<lparr>bu_context := fold (process_and_buffer (su_serde su)) (decoded_events su (bu_decoder s) (chunks_of is)) (bu_context s),
        bu_decoder := fst (decoded su (bu_decoder s) (chunks_of is)), bu_sent_bytes := n, bu_first_chunk_seen := seen\<rparr> \<and>
    set (snd (run (buffered_step su) s is)) \<subseteq> {Ping_Out}"
  using assms
proof (induction "is" arbitrary: s)
  case (Cons i "is")
  show ?case
  proof (cases i)
    case (Chunk c)
    have "\<not> bu_finished (fst (buffered_step su s (Chunk c)))" using Cons.prems(2) by (simp add: buffered_step_chunk)
    from Cons.IH [OF _ this] Cons.prems(1) Chunk show ?thesis
      by (auto simp: run_parts buffered_step_chunk [OF Cons.prems(2)] simp del: run.simps)
  next
    case Ping_Tick
    have "buffered_step su s Ping_Tick = (s, if bu_first_chunk_seen s then [Ping_Out] else [])"
      using Cons.prems(2) by (simp add: buffered_step_def)
    with Cons.IH [of s] Cons.prems Ping_Tick show ?thesis by (auto simp: run_parts simp del: run.simps)
  qed (use Cons.prems in simp_all)
next
  case Nil
  then show ?case by (intro exI [of _ "bu_sent_bytes s"] exI [of _ "bu_first_chunk_seen s"]) simp
qed

text \<open>C23: The buffered stream sends the client nothing but pings until the upstream has ended, and then, with the usage of
  the first event corrected, the very events the plain stream would have sent; it is booked once as well.\<close>

theorem buffered_client_reads:
  assumes "going_on is"
  shows "let r = run (buffered_step su) (buffered_stream_start su c b) (is @ [Body_End]);
             c1 = c\<lparr>cache_usage := pl_usage (su_plan su)\<rparr>; es = upstream_events su (chunks_of is)
         in set (snd (run (buffered_step su) (buffered_stream_start su c b) is)) \<subseteq> {Ping_Out} \<and>
            (\<exists>u. client_events (snd r) = map (correct_usage u) (snd (stream_events (su_serde su) c1 es)) \<and>
               u = resolved_usage (fst (processed su (fst (generate_initial_events c1)) es))) \<and>
            (\<exists>status \<in> {''success'', ''error''}. booked_once status status b (bu_books (fst r)))"
proof -
  let ?s = "buffered_stream_start su c b" and ?c = "c\<lparr>cache_usage := pl_usage (su_plan su)\<rparr>"
  let ?es = "upstream_events su (chunks_of is)"
  have start: "\<not> bu_finished ?s" "bu_decoder ?s = decoder_new" "bu_context ?s = buffered_new ?c" "bu_books ?s = b"
    by (simp_all add: buffered_stream_start_def set_cache_usage_def buffered_new_def)
  have ev: "decoded_events su decoder_new (chunks_of is) = ?es" by (simp add: decoded_events_def upstream_events_def)
  from buffered_run [OF assms start(1), of su] obtain n seen where
    st: "fst (run (buffered_step su) ?s is) = ?s\<lparr>bu_context := fold (process_and_buffer (su_serde su)) ?es (buffered_new ?c),
        bu_decoder := fst (decoded su decoder_new (chunks_of is)), bu_sent_bytes := n, bu_first_chunk_seen := seen\<rparr>"
    and pings: "set (snd (run (buffered_step su) ?s is)) \<subseteq> {Ping_Out}"
    unfolding start ev by blast
  have none: "client_events out = []" if "set out \<subseteq> {Ping_Out}" for out
    using that by (induction out) (auto simp: client_events_def List.map_filter_def)
  let ?f = "buffered_events (su_serde su) ?c ?es"
  have step: "buffered_step su (fst (run (buffered_step su) ?s is)) Body_End =
      (fst (run (buffered_step su) ?s is)\<lparr>bu_context := fst ?f, bu_finished := True,
         bu_books := buffered_end_books su (fst ?f) b\<rparr>, map Event_Out (snd ?f))"
    using start by (simp add: st buffered_step_def buffered_events_def case_prod_unfold)
  have out: "client_events (snd (run (buffered_step su) ?s (is @ [Body_End]))) = snd ?f"
    by (simp add: run_parts step none [OF pings] del: run.simps(2))
  have books: "bu_books (fst (run (buffered_step su) ?s (is @ [Body_End]))) = buffered_end_books su (fst ?f) b"
    by (simp add: run_parts step del: run.simps(2))
  have traces: "bk_traces (record_buffered_usage su c st b) = bk_traces b" for c st
    by (simp add: record_buffered_usage_def split: prod.split)
  have set: "bk_log (set_buffered_usage c b) = bk_log b" "bk_traces (set_buffered_usage c b) = bk_traces b" for c b
    by (simp_all add: set_buffered_usage_def split: prod.split)
  have once: "\<exists>status \<in> {''success'', ''error''}. booked_once status status b (buffered_end_books su c b)" for c
    by (cases "tool_json_error (inner c)")
       (auto simp: buffered_end_books_def traces set intro!: booked_finalize)
  show ?thesis
    unfolding Let_def out books
    using pings once buffered_stream [of "su_serde su" ?c ?es] by blast
qed

subsection \<open>A small stream\<close>

definition sample_info :: request_info where
  "sample_info = \<lparr>rq_key_id = 0, rq_model = ''m'', rq_is_stream = True, rq_stamp = ''t'', rq_trace_id = ''id''\<rparr>"

definition sample_setup :: stream_setup where
  "sample_setup = \<lparr>su_info = sample_info, su_credential = 1, su_plan = \<lparr>pl_usage = cache_usage_default, pl_commit = None\<rparr>,
     su_now = 0, su_serde = sample_serde, su_read_payload = (\<lambda>_. Inl ''EOF''), su_crc = (\<lambda>_. 0)\<rparr>"

definition sample_books :: books where
  "sample_books = \<lparr>bk_log = Some [], bk_keys = None, bk_traces = Some [], bk_attempts = [], bk_usage = None, bk_meter = None\<rparr>"

definition sample_inputs :: "stream_input list" where
  "sample_inputs = [Ping_Tick, Chunk (hd sample_chunks), Ping_Tick, Chunk (sample_chunks ! 1)]"

lemma sample_inputs_going: "going_on sample_inputs" "chunks_of sample_inputs = sample_chunks"
  by (simp_all add: sample_inputs_def sample_chunks_def)

theorem client_reads_stream_witness:
  "client_events (snd (run (sse_step sample_setup) (sse_stream_start sample_setup (sample_context False) sample_books)
     (sample_inputs @ Body_End # []))) =
   snd (stream_events sample_serde ((sample_context False)\<lparr>cache_usage := cache_usage_default\<rparr>)
     (upstream_events sample_setup sample_chunks))"
  using client_reads_stream [OF sample_inputs_going(1), of sample_setup "sample_context False" sample_books "[]"]
  unfolding Let_def sample_inputs_going(2) by (simp add: sample_setup_def)

theorem streamed_answer_witness:
  "\<exists>p. accepts protocol_step protocol_start (client_events (snd (run (sse_step sample_setup)
     (sse_stream_start sample_setup (sample_context True) sample_books) (sample_inputs @ [Body_End])))) = Some p \<and> pr_ended p"
proof -
  have l: "length (encode_frame (\<lambda>_. 0) sample_message) = 26"
    by (simp add: length_encode_frame sample_message_def encode_headers_def encode_header_def frame_consts)
  have "concat (chunks_of sample_inputs) = enc (su_crc sample_setup) [sample_message]"
    "fits (su_crc sample_setup) DEFAULT_MAX_BUFFER_SIZE [sample_message] (chunks_of sample_inputs)"
    unfolding sample_inputs_going(2)
    by (simp_all add: sample_setup_def sample_chunks_def enc_def fits_def l DEFAULT_MAX_BUFFER_SIZE_def)
  moreover have "list_all frame_ok [sample_message]" by (simp add: sample_ok)
  ultimately show ?thesis
    using streamed_answer [OF sample_inputs_going(1) _ _ _ sample_context_def [of True],
      of "[sample_message]" sample_setup sample_books]
    unfolding Let_def by blast
qed

theorem buffered_client_reads_witness:
  "set (snd (run (buffered_step sample_setup) (buffered_stream_start sample_setup (sample_context False) sample_books)
     sample_inputs)) \<subseteq> {Ping_Out}"
  using buffered_client_reads [OF sample_inputs_going(1), of sample_setup "sample_context False" sample_books]
  unfolding Let_def by blast

end
