(* ===== verification/Whole_Answer.thy ===== *)
theory Whole_Answer imports Messages_Stream Stream_Text Token_Count begin

section \<open>Answering a request (src/src/anthropic/handlers.rs)\<close>

text \<open>
  A request is sent with the provider and answered in one of three ways: with the plain stream, with the
  buffered stream, or whole, when the client does not want a stream. \<open>None\<close> stands for an acquisition
  of a credential that does not end. How an error of the provider reads is an argument (\<open>describe\<close>),
  as are the bytes of the body or the error that broke it off.
\<close>

subsection \<open>The whole answer\<close>

record answer =
  an_text :: string
  an_reasoning :: string
  an_redacted :: string
  an_tool_uses :: "json list"
  an_has_tool_use :: bool
  an_stop_reason :: string
  an_context_tokens :: "int option"
  an_credits :: rat
  an_buffers :: tool_buffers

definition answer_start :: "(string list \<Rightarrow> string \<Rightarrow> nat) \<Rightarrow> answer" where
  "answer_start rank =
    \<lparr>an_text = [], an_reasoning = [], an_redacted = [], an_tool_uses = [], an_has_tool_use = False,
     an_stop_reason = ''end_turn'', an_context_tokens = None, an_credits = 0, an_buffers = hm_empty rank\<rparr>"

definition tool_use_json :: "completed_tool_use \<Rightarrow> json" where
  "tool_use_json t =
     JObj [(''type'', JStr ''tool_use''), (''id'', JStr (ct_id t)), (''name'', JStr (ct_name t)), (''input'', ct_input t)]"

definition context_tokens :: "string \<Rightarrow> rat \<Rightarrow> int" where
  "context_tokens mdl percentage = saturate_i32 (truncate_rat (percentage * of_int (get_context_window_size mdl) / 100))"

text \<open>One event: the answer so far, or the error of a tool call with the answer up to it.\<close>

fun answer_event :: "serde \<Rightarrow> name_map \<Rightarrow> string \<Rightarrow> event \<Rightarrow> answer \<Rightarrow> (tool_json_error \<times> answer) + answer" where
  "answer_event sd names mdl (AssistantResponse s) a = Inr (a\<lparr>an_text := an_text a @ s\<rparr>)"
| "answer_event sd names mdl (Code s) a = Inr (a\<lparr>an_text := an_text a @ s\<rparr>)"
| "answer_event sd names mdl (ReasoningContent r) a =
     Inr (if reasoning_text r \<noteq> [] then a\<lparr>an_reasoning := an_reasoning a @ reasoning_text r\<rparr>
          else case redacted_content r of Some d \<Rightarrow> a\<lparr>an_redacted := an_redacted a @ d\<rparr> | None \<Rightarrow> a)"
| "answer_event sd names mdl (ToolUse e) a =
     (let a = a\<lparr>an_has_tool_use := True\<rparr>
      in case accumulator_push sd e names (an_buffers a) of
           (buffers, Inr (Some t)) \<Rightarrow>
             Inr (a\<lparr>an_buffers := buffers, an_tool_uses := an_tool_uses a @ [tool_use_json t]\<rparr>)
         | (buffers, Inr None) \<Rightarrow> Inr (a\<lparr>an_buffers := buffers\<rparr>)
         | (buffers, Inl err) \<Rightarrow> Inl (err, a\<lparr>an_buffers := buffers\<rparr>))"
| "answer_event sd names mdl (ContextUsage percentage) a =
     Inr (let a = a\<lparr>an_context_tokens := Some (context_tokens mdl percentage)\<rparr>
          in if 100 \<le> percentage then a\<lparr>an_stop_reason := ''model_context_window_exceeded''\<rparr> else a)"
| "answer_event sd names mdl (Metering usage) a = Inr (a\<lparr>an_credits := an_credits a + usage\<rparr>)"
| "answer_event sd names mdl (ExceptionEvent t msg) a =
     Inr (if t = ''ContentLengthExceededException'' then a\<lparr>an_stop_reason := ''max_tokens''\<rparr> else a)"
| "answer_event sd names mdl (ErrorEvent code msg) a = Inr a"
| "answer_event sd names mdl UnknownEvent a = Inr a"

text \<open>All events, and the calls that wait for their input at the end.\<close>

definition collect_answer ::
  "serde \<Rightarrow> name_map \<Rightarrow> string \<Rightarrow> event list \<Rightarrow> answer \<Rightarrow> (tool_json_error \<times> answer) + answer" where
  "collect_answer sd names mdl es a =
    (case each (answer_event sd names mdl) es a of
       Inl e \<Rightarrow> Inl e
     | Inr a \<Rightarrow>
         (case accumulator_finish names (an_buffers a) of
            (buffers, Inr pending) \<Rightarrow>
              Inr (a\<lparr>an_buffers := buffers, an_tool_uses := an_tool_uses a @ map tool_use_json pending\<rparr>)
          | (buffers, Inl err) \<Rightarrow> Inl (err, a\<lparr>an_buffers := buffers\<rparr>)))"

definition thinking_json :: "string \<Rightarrow> json" where
  "thinking_json s =
     JObj [(''type'', JStr ''thinking''), (''thinking'', JStr s), (''signature'', JStr THINKING_SIGNATURE_PLACEHOLDER)]"

definition redacted_json :: "string \<Rightarrow> json" where
  "redacted_json s = JObj [(''type'', JStr ''redacted_thinking''), (''data'', JStr s)]"

definition text_json :: "string \<Rightarrow> json" where
  "text_json s = JObj [(''type'', JStr ''text''), (''text'', JStr s)]"

definition unless_empty :: "(string \<Rightarrow> json) \<Rightarrow> string \<Rightarrow> json list" where
  "unless_empty f s = (if s = [] then [] else [f s])"

definition answer_content :: "bool \<Rightarrow> answer \<Rightarrow> json list" where
  "answer_content thinking_on a =
    (let txt = strip_tool_use_xml_leaks (an_text a)
     in (if thinking_on then
           (case (if an_reasoning a \<noteq> [] then (Some (an_reasoning a), txt) else extract_thinking_from_complete_text txt) of
              (thinking, remaining) \<Rightarrow>
                (case thinking of Some s \<Rightarrow> [thinking_json s] | None \<Rightarrow> [])
                @ unless_empty redacted_json (an_redacted a) @ unless_empty text_json remaining)
         else unless_empty text_json txt)
        @ an_tool_uses a)"

definition final_stop_reason :: "answer \<Rightarrow> string" where
  "final_stop_reason a =
    (if an_has_tool_use a \<and> an_stop_reason a = ''end_turn'' then ''tool_use'' else an_stop_reason a)"

definition resolve_usage_input_tokens :: "int \<Rightarrow> int option \<Rightarrow> int" where
  "resolve_usage_input_tokens fallback context = (case context of Some n \<Rightarrow> n | None \<Rightarrow> fallback)"

definition message_json :: "string \<Rightarrow> string \<Rightarrow> json list \<Rightarrow> string \<Rightarrow> int \<Rightarrow> int \<Rightarrow> int \<Rightarrow> int \<Rightarrow> json" where
  "message_json uuid mdl blocks reason inp out creation reads = JObj
     [(''id'', JStr (''msg_'' @ uuid)), (''type'', JStr ''message''), (''role'', JStr ''assistant''),
      (''content'', JArr blocks), (''model'', JStr mdl), (''stop_reason'', JStr reason), (''stop_sequence'', JNull),
      (''usage'', usage_json inp out creation reads)]"

text \<open>What a request for a whole answer is made with; \<open>rank\<close> orders the iteration over the calls.\<close>

record 'i whole_setup =
  wh_setup :: stream_setup
  wh_codecs :: "'i codecs"
  wh_images :: resize_config
  wh_model :: string
  wh_input_tokens :: int
  wh_thinking :: bool
  wh_names :: name_map
  wh_uuid :: string
  wh_rank :: "string list \<Rightarrow> string \<Rightarrow> nat"

definition failed_books :: "'i whole_setup \<Rightarrow> tool_json_error \<Rightarrow> answer \<Rightarrow> books \<Rightarrow> books" where
  "failed_books ws e a b =
    (let su = wh_setup ws in
     case split_against_total (pl_usage (su_plan su))
            (resolve_usage_input_tokens (wh_input_tokens ws) (an_context_tokens a)) of
       (inp, creation, reads) \<Rightarrow>
         finalize_trace (su_info su) ''error'' (Some ''bad_request'') (Some (error_message e)) None
           (set_usage inp 0 creation reads
             (hook_record (su_info su) (su_credential su) inp 0 creation reads (an_credits a) ''error'' b)))"

definition finished_answer :: "'i whole_setup \<Rightarrow> answer \<Rightarrow> books \<Rightarrow> books \<times> 'r http_reply" where
  "finished_answer ws a b =
    (let su = wh_setup ws;
         blocks = answer_content (wh_thinking ws) a;
         out = estimate_output_tokens (su_serde su) (wh_codecs ws) (wh_images ws) blocks
     in case split_against_total (pl_usage (su_plan su))
               (resolve_usage_input_tokens (wh_input_tokens ws) (an_context_tokens a)) of
          (inp, creation, reads) \<Rightarrow>
            (finalize_trace (su_info su) ''success'' None None None
               (set_usage inp out creation reads
                 (commit_plan (su_now su) (su_plan su)
                   (hook_record (su_info su) (su_credential su) inp out creation reads (an_credits a) ''success'' b))),
             Json_Reply 200 (message_json (wh_uuid ws) (wh_model ws) blocks (final_stop_reason a) inp out creation reads)))"

text \<open>The body is fed to the decoder at once, and everything in it decoded.\<close>

definition answer_from_body :: "'i whole_setup \<Rightarrow> byte list \<Rightarrow> books \<Rightarrow> books \<times> 'r http_reply" where
  "answer_from_body ws body b =
    (let su = wh_setup ws in
     case collect_answer (su_serde su) (wh_names ws) (wh_model ws) (snd (chunk_events su body decoder_new))
            (answer_start (wh_rank ws)) of
       Inl (e, a) \<Rightarrow> (failed_books ws e a b, Error_Reply 502 (error_type e) (error_message e))
     | Inr a \<Rightarrow> finished_answer ws a b)"

definition READ_FAILED :: string where
  "READ_FAILED =
    [CHR 0xE8, CHR 0xAF, CHR 0xBB, CHR 0xE5, CHR 0x8F, CHR 0x96, CHR 0xE5, CHR 0x93, CHR 0x8D, CHR 0xE5, CHR 0xBA, CHR 0x94,
     CHR 0xE5, CHR 0xA4, CHR 0xB1, CHR 0xE8, CHR 0xB4, CHR 0xA5] @ '': ''"

text \<open>Books of a request whose call of the upstream has failed with the error of this text.\<close>

definition call_failed_books :: "request_info \<Rightarrow> int \<Rightarrow> string \<Rightarrow> books \<Rightarrow> books" where
  "call_failed_books ri tokens err b =
     (let b = hook_record ri 0 tokens 0 0 0 0 ''error'' b
      in finalize_trace ri ''error'' (last_attempt_outcome b) (Some err) None b)"

definition handle_non_stream_request ::
  "'i whole_setup \<Rightarrow> surroundings \<Rightarrow> (nat \<Rightarrow> 'c hop) \<Rightarrow> (call_error \<Rightarrow> string) \<Rightarrow> string
     \<Rightarrow> (http_response \<Rightarrow> string + byte list) \<Rightarrow> string \<Rightarrow> 'c provider \<Rightarrow> books
     \<Rightarrow> ('c provider \<times> books \<times> 'r http_reply) option" where
  "handle_non_stream_request ws sr hops describe hint body_of request_body pv b =
    (let su = wh_setup ws in
     case call_api_with_retry sr request_body hops pv of
       None \<Rightarrow> None
     | Some (pv, fx, Inl e) \<Rightarrow>
         Some (pv, call_failed_books (su_info su) (wh_input_tokens ws) (describe e) (on_attempts fx b),
               map_provider_error (su_serde su) hint (describe e))
     | Some (pv, fx, Inr (response, credential_id)) \<Rightarrow>
         let ws = ws\<lparr>wh_setup := su\<lparr>su_credential := credential_id\<rparr>\<rparr>; b = on_attempts fx b
         in (case body_of response of
               Inl err \<Rightarrow>
                 Some (pv,
                   finalize_trace (su_info su) ''interrupted'' (Some ''stream_interrupted'') (Some err) None
                     (hook_record (su_info su) credential_id (wh_input_tokens ws) 0 0 0 0 ''error'' b),
                   Error_Reply 502 ''api_error'' (READ_FAILED @ err))
             | Inr body \<Rightarrow> (case answer_from_body ws body b of (b, reply) \<Rightarrow> Some (pv, b, reply))))"

subsection \<open>The streams\<close>

text \<open>
  The answer has started with status 200 before the upstream is called: a call that fails is one error
  event. Otherwise the stream runs from its start with the credential of the call.
\<close>

datatype 's deferred_stream = Failed_Start books sse_event | Started stream_setup 's

definition deferred ::
  "(stream_setup \<Rightarrow> books \<Rightarrow> 's) \<Rightarrow> stream_setup \<Rightarrow> int \<Rightarrow> surroundings \<Rightarrow> (nat \<Rightarrow> 'c hop) \<Rightarrow> (call_error \<Rightarrow> string)
     \<Rightarrow> string \<Rightarrow> string \<Rightarrow> 'c provider \<Rightarrow> books \<Rightarrow> ('c provider \<times> http_response option \<times> 's deferred_stream) option" where
  "deferred start su tokens sr hops describe hint request_body pv b =
    (case call_api_with_retry sr request_body hops pv of
       None \<Rightarrow> None
     | Some (pv, fx, Inl e) \<Rightarrow>
         (case provider_error_status_and_detail (su_serde su) hint (describe e) of
            (_, ty, msg) \<Rightarrow>
              Some (pv, None, Failed_Start (call_failed_books (su_info su) tokens (describe e) (on_attempts fx b))
                (create_error_sse ty msg)))
     | Some (pv, fx, Inr (response, credential_id)) \<Rightarrow>
         let su = su\<lparr>su_credential := credential_id\<rparr>
         in Some (pv, Some response, Started su (start su (on_attempts fx b))))"

definition create_deferred_sse_stream ::
  "stream_context \<Rightarrow> stream_setup \<Rightarrow> int \<Rightarrow> surroundings \<Rightarrow> (nat \<Rightarrow> 'c hop) \<Rightarrow> (call_error \<Rightarrow> string)
     \<Rightarrow> string \<Rightarrow> string \<Rightarrow> 'c provider \<Rightarrow> books \<Rightarrow> ('c provider \<times> http_response option \<times> sse_stream deferred_stream) option" where
  "create_deferred_sse_stream c = deferred (\<lambda>su. sse_stream_start su c)"

definition create_deferred_buffered_sse_stream ::
  "stream_context \<Rightarrow> stream_setup \<Rightarrow> int \<Rightarrow> surroundings \<Rightarrow> (nat \<Rightarrow> 'c hop) \<Rightarrow> (call_error \<Rightarrow> string)
     \<Rightarrow> string \<Rightarrow> string \<Rightarrow> 'c provider \<Rightarrow> books \<Rightarrow> ('c provider \<times> http_response option \<times> buffered_stream deferred_stream) option" where
  "create_deferred_buffered_sse_stream c = deferred (\<lambda>su. buffered_stream_start su c)"

subsection \<open>The books\<close>

lemma failed_books_once: "booked_once ''error'' ''error'' b (failed_books ws e a b)"
  by (auto simp: failed_books_def Let_def intro!: booked_finalize split: prod.split)

lemma finished_books_once: "booked_once ''success'' ''success'' b (fst (finished_answer ws a b))"
  by (auto simp: finished_answer_def Let_def intro!: booked_finalize split: prod.split)

lemma call_failed_once: "booked_once ''error'' ''error'' b (call_failed_books ri n err b)"
  by (auto simp: call_failed_books_def Let_def intro!: booked_finalize)

lemma on_attempts_fields [simp]:
  "bk_log (on_attempts fx b) = bk_log b" "bk_traces (on_attempts fx b) = bk_traces b"
  "bk_keys (on_attempts fx b) = bk_keys b" "bk_meter (on_attempts fx b) = bk_meter b"
  by (simp_all add: on_attempts_def)

lemma booked_after_attempts: "booked_once st tst (on_attempts fx b) b1 = booked_once st tst b b1"
  by (simp add: booked_once_def logged_def traced_def)

subsection \<open>A stream and a whole answer\<close>

text \<open>What of the state of the stream neither blocks nor text have a part in.\<close>

definition ledger ::
  "stream_context \<Rightarrow> (tool_buffers \<times> name_map \<times> string \<times> int option \<times> rat \<times> cache_usage \<times> int \<times> tool_json_error option)
     \<times> string option \<times> bool \<times> bool"
where
  "ledger c = ((tool_json_accumulator c, tool_name_map c, model c, context_input_tokens c, credits c, cache_usage c,
     input_tokens c, tool_json_error c), stop_reason (state_manager c), has_tool_use (state_manager c), thinking_enabled c)"

lemma manager_blocks [simp]:
  "stop_reason (fst (handle_message_start d m)) = stop_reason m"
  "has_tool_use (fst (handle_message_start d m)) = has_tool_use m"
  "stop_reason (fst (handle_content_block_start i t d m)) = stop_reason m"
  "has_tool_use (fst (handle_content_block_start i t d m)) = (t = ''tool_use'' \<or> has_tool_use m)"
  "stop_reason (fst (handle_content_block_stop i m)) = stop_reason m"
  "has_tool_use (fst (handle_content_block_stop i m)) = has_tool_use m"
  by (auto simp: handle_message_start_def handle_content_block_start_def handle_content_block_stop_def stop_where_def
      split: option.split)

lemma ledger_blocks [simp]:
  "ledger (fst (take_block_index c)) = ledger c"
  "t \<noteq> ''tool_use'' \<or> has_tool_use (state_manager c) \<Longrightarrow> ledger (fst (start_block i t d c)) = ledger c"
  "ledger (fst (stop_block i c)) = ledger c" "ledger (fst (nothing c)) = ledger c" "ledger (fst (thinking_delta s c)) = ledger c"
  "ledger (fst (on_manager (handle_message_start j) c)) = ledger c"
  by (auto simp: take_block_index_def next_block_index_def start_block_def stop_block_def nothing_def thinking_delta_def
      on_manager_def ledger_def case_prod_unfold)

lemma ledger_update [simp]:
  "ledger (c\<lparr>text_block_index := a1\<rparr>) = ledger c" "ledger (c\<lparr>thinking_block_index := a1\<rparr>) = ledger c"
  "ledger (c\<lparr>in_thinking_block := b1\<rparr>) = ledger c" "ledger (c\<lparr>thinking_extracted := b1\<rparr>) = ledger c"
  "ledger (c\<lparr>strip_thinking_leading_newline := b1\<rparr>) = ledger c" "ledger (c\<lparr>thinking_buffer := s1\<rparr>) = ledger c"
  "ledger (c\<lparr>strip_text_after_thinking_boundary := b1\<rparr>) = ledger c" "ledger (c\<lparr>reasoning_block_open := b1\<rparr>) = ledger c"
  "ledger (c\<lparr>output_tokens := n1\<rparr>) = ledger c"
  "ledger (c\<lparr>tool_block_indices := h1\<rparr>) = ledger c" "ledger (c\<lparr>tool_use_xml_filter := f1\<rparr>) = ledger c"
  by (simp_all add: ledger_def)

lemma ledger_and_then: "ledger (fst (and_then f g c)) = ledger (fst (g (fst (f c))))"
  by (simp add: and_then_def case_prod_unfold)

lemma ledger_text [simp]: "ledger (fst (create_text_delta_events s c)) = ledger c"
  by (simp add: create_text_delta_events_def Let_def case_prod_unfold split: option.split)

lemma ledger_end_thinking [simp]: "ledger (fst (end_thinking_block c)) = ledger c"
  by (simp add: end_thinking_block_def case_prod_unfold split: option.split)

lemma ledger_close [simp]:
  "ledger (fst (close_text_if_open c)) = ledger c" "ledger (fst (close_reasoning_if_open c)) = ledger c"
  by (simp_all add: close_text_if_open_def close_reasoning_if_open_def case_prod_unfold split: option.split)

lemma ledger_initial [simp]: "ledger (fst (generate_initial_events c)) = ledger c"
  by (simp add: generate_initial_events_def case_prod_unfold)

lemma ledger_strip [simp]:
  "ledger (strip_leading_newline c) = ledger c" "ledger (fst (text_after_boundary c)) = ledger c"
  by (simp_all add: strip_leading_newline_def text_after_boundary_def Let_def)

lemma ledger_seek [simp]: "ledger (fst (fst (seek_thinking c))) = ledger c"
  by (auto simp: seek_thinking_def Let_def ledger_and_then case_prod_unfold split: option.split)

lemma ledger_inside [simp]: "ledger (fst (fst (inside_thinking c))) = ledger c"
proof -
  obtain d where d: "strip_leading_newline c = d" "ledger d = ledger c" by simp
  show ?thesis unfolding inside_thinking_def d(1) Let_def
    by (auto simp: ledger_and_then d(2) split: option.split)
qed

lemma ledger_after [simp]: "ledger (fst (fst (after_thinking c))) = ledger c"
  by (simp add: after_thinking_def Let_def case_prod_unfold)

lemma ledger_content_loop [simp]: "ledger (fst (content_loop c)) = ledger c"
proof (induction c rule: content_loop.induct)
  case (1 c)
  have "ledger (fst (fst (content_step c))) = ledger c" by (simp add: content_step_def)
  with 1 show ?case by (subst content_loop.simps) (simp add: case_prod_unfold)
qed

lemma ledger_assistant [simp]: "ledger (fst (process_assistant_response s c)) = ledger c"
  by (simp add: process_assistant_response_def process_content_with_thinking_def Let_def case_prod_unfold)

lemma ledger_reasoning [simp]: "ledger (fst (process_reasoning_content r c)) = ledger c"
  by (simp add: process_reasoning_content_def open_reasoning_def reasoning_delta_def redacted_block_def ledger_and_then
      case_prod_unfold split: option.split)

lemma ledger_eqD:
  assumes "ledger c = ledger d"
  shows "tool_json_accumulator c = tool_json_accumulator d" "tool_name_map c = tool_name_map d" "model c = model d"
    "context_input_tokens c = context_input_tokens d" "credits c = credits d" "cache_usage c = cache_usage d"
    "input_tokens c = input_tokens d" "tool_json_error c = tool_json_error d"
    "stop_reason (state_manager c) = stop_reason (state_manager d)"
    "has_tool_use (state_manager c) = has_tool_use (state_manager d)" "thinking_enabled c = thinking_enabled d"
  using assms by (simp_all add: ledger_def)

lemma ledger_emit [simp]:
  assumes "has_tool_use (state_manager c)"
  shows "ledger (fst (emit_completed_tool_use sd t c)) = ledger c"
proof -
  have "has_tool_use (state_manager (fst (take_block_index c)))"
    using ledger_eqD(10) [OF ledger_blocks(1) [of c]] assms by simp
  then show ?thesis
    using assms by (simp add: emit_completed_tool_use_def ledger_and_then case_prod_unfold split: option.split)
qed

lemma ledger_flush_before_tool [simp]: "ledger (fst (flush_before_tool c)) = ledger c"
  by (simp add: flush_before_tool_def flush_thinking_end_def Let_def ledger_and_then case_prod_unfold split: option.split)


text \<open>A state of the stream, without thinking, and an answer so far that agree.\<close>

definition mirrors ::
  "(string list \<Rightarrow> string \<Rightarrow> nat) \<Rightarrow> name_map \<Rightarrow> string \<Rightarrow> cache_usage \<Rightarrow> int \<Rightarrow> stream_context \<Rightarrow> answer \<Rightarrow> bool" where
  "mirrors rank names mdl u n c a \<longleftrightarrow>
     ledger c = ((an_buffers a, names, mdl, an_context_tokens a, an_credits a, u, n, None),
       if an_stop_reason a = ''end_turn'' then None else Some (an_stop_reason a), an_has_tool_use a, False) \<and>
     (\<not> an_has_tool_use a \<longrightarrow> an_buffers a = hm_empty rank)"

lemma ledger_tool_use:
  "ledger (fst (process_tool_use sd e c)) =
    (case accumulator_push sd e (tool_name_map c) (tool_json_accumulator c) of
       (buffers, r) \<Rightarrow>
         (case ledger c of ((_, names, mdl, ctx, creds, u, n, err), stop, _, th) \<Rightarrow>
            (case r of
               Inl e \<Rightarrow> ((buffers, names, mdl, ctx, creds, u, n, Some e), Some ''error'', True, th)
             | Inr _ \<Rightarrow> ((buffers, names, mdl, ctx, creds, u, n, err), stop, True, th))))"
proof -
  let ?c = "c\<lparr>state_manager := set_has_tool_use True (state_manager c)\<rparr>"
  obtain d es where d: "flush_before_tool ?c = (d, es)" by fastforce
  have "ledger d = ledger ?c" using ledger_flush_before_tool [of ?c] by (simp add: d)
  note l = ledger_eqD [OF this, simplified]
  have h: "has_tool_use (state_manager d)" using l(10) by (simp add: set_has_tool_use_def)
  show ?thesis
    unfolding process_tool_use_def and_then_def d
    using h by (simp add: case_prod_unfold Let_def l(1,2) split: sum.split option.split)
      (simp add: ledger_def l set_stop_reason_def set_has_tool_use_def)
qed

lemma ledger_tool_event:
  assumes "ledger c = ((buffers, names, mdl, ctx, creds, u, n, err), stop, has, th)"
    and "accumulator_push sd t names buffers = (buffers1, r)"
  shows "ledger (fst (process_kiro_event sd (ToolUse t) c)) =
    (case r of
       Inl e \<Rightarrow> ((buffers1, names, mdl, ctx, creds, u, n, Some e), Some ''error'', True, th)
     | Inr _ \<Rightarrow> ((buffers1, names, mdl, ctx, creds, u, n, err), stop, True, th))"
proof -
  let ?c = "fst (close_reasoning_if_open c)"
  have l: "ledger ?c = ((buffers, names, mdl, ctx, creds, u, n, err), stop, has, th)" using assms(1) by simp
  then have "tool_json_accumulator ?c = buffers" "tool_name_map ?c = names" by (simp_all add: ledger_def)
  then show ?thesis by (simp add: ledger_and_then ledger_tool_use assms)
qed

lemma mirrors_event:
  assumes "mirrors rank names mdl u n c a" and "answer_event sd names mdl e a = Inr a1"
  shows "mirrors rank names mdl u n (fst (process_kiro_event sd e c)) a1"
proof (cases e)
  case (ToolUse t)
  obtain buffers r where p: "accumulator_push sd t names (an_buffers a) = (buffers, r)" by fastforce
  note l = ledger_tool_event [OF conjunct1 [OF assms(1) [unfolded mirrors_def]] p]
  show ?thesis
  proof (cases r)
    case (Inl err)
    then show ?thesis using assms(2) ToolUse p by simp
  next
    case (Inr x)
    then show ?thesis using assms(2) ToolUse p l by (cases x) (auto simp: mirrors_def simp del: process_kiro_event.simps)
  qed
next
  case (ContextUsage p)
  with assms show ?thesis
    by (cases "100 \<le> p")
       (auto simp: mirrors_def ledger_def process_context_usage_def context_tokens_def Let_def set_stop_reason_def)
next
  case (Metering u)
  with assms show ?thesis by (auto simp: mirrors_def ledger_def)
next
  case (ExceptionEvent t m)
  with assms show ?thesis
    by (cases "t = ''ContentLengthExceededException''") (auto simp: mirrors_def ledger_def set_stop_reason_def)
qed (use assms in \<open>auto simp: mirrors_def ledger_and_then split: if_splits option.splits\<close>)

lemma error_stays:
  assumes "tool_json_error c \<noteq> None"
  shows "tool_json_error (fst (process_kiro_event sd e c)) \<noteq> None"
proof (cases e)
  case (ToolUse t)
  obtain buffers names mdl ctx creds u n err stop has th
    where l: "ledger c = ((buffers, names, mdl, ctx, creds, u, n, err), stop, has, th)" and err: "err = tool_json_error c"
    by (simp add: ledger_def)
  obtain b1 r where "accumulator_push sd t names buffers = (b1, r)" by fastforce
  from ledger_tool_event [OF l this] assms err ToolUse show ?thesis
    by (cases r) (auto simp: ledger_def simp del: process_kiro_event.simps)
next
  case (ContextUsage p)
  with assms show ?thesis by (simp add: process_context_usage_def Let_def)
next
  case (AssistantResponse s)
  with assms ledger_eqD(8) [OF ledger_and_then [of close_reasoning_if_open "process_assistant_response s" c, simplified]]
  show ?thesis by simp
next
  case (Code s)
  with assms ledger_eqD(8) [OF ledger_and_then [of close_reasoning_if_open "process_assistant_response s" c, simplified]]
  show ?thesis by simp
next
  case (ReasoningContent r)
  with assms ledger_eqD(8) [OF ledger_reasoning [of r c]] show ?thesis by simp
qed (use assms in auto)

lemma error_seen:
  assumes "mirrors rank names mdl u n c a" and "answer_event sd names mdl e a = Inl x"
  shows "tool_json_error (fst (process_kiro_event sd e c)) \<noteq> None"
proof -
  from assms(2) obtain t where e: "e = ToolUse t" by (cases e) auto
  obtain b1 r where p: "accumulator_push sd t names (an_buffers a) = (b1, r)" by fastforce
  from assms(2) e p obtain err where r: "r = Inl err" by (auto simp: Let_def split: sum.splits option.splits)
  from ledger_tool_event [OF conjunct1 [OF assms(1) [unfolded mirrors_def]] p]
  show ?thesis by (simp add: e r ledger_def del: process_kiro_event.simps)
qed

lemma run_errors: "tool_json_error c \<noteq> None \<Longrightarrow> tool_json_error (fst (run (\<lambda>c e. process_kiro_event sd e c) c es)) \<noteq> None"
  by (induction es arbitrary: c) (use error_stays in \<open>auto simp: case_prod_unfold simp del: process_kiro_event.simps\<close>)

lemma run_mirrors:
  assumes "mirrors rank names mdl u n c a"
  shows "case each (answer_event sd names mdl) es a of
      Inl _ \<Rightarrow> tool_json_error (fst (run (\<lambda>c e. process_kiro_event sd e c) c es)) \<noteq> None
    | Inr a1 \<Rightarrow> mirrors rank names mdl u n (fst (run (\<lambda>c e. process_kiro_event sd e c) c es)) a1"
  using assms
proof (induction es arbitrary: c a)
  case (Cons e es)
  show ?case
  proof (cases "answer_event sd names mdl e a")
    case (Inl x)
    with run_errors [OF error_seen [OF Cons.prems Inl]] show ?thesis
      by (simp add: case_prod_unfold del: process_kiro_event.simps)
  next
    case (Inr a1)
    with Cons.IH [OF mirrors_event [OF Cons.prems Inr]] show ?thesis
      by (auto simp: case_prod_unfold simp del: process_kiro_event.simps split: sum.splits)
  qed
qed simp

lemma answer_text:
  "each (answer_event sd names mdl) es a = Inr a1 \<Longrightarrow> an_text a1 = an_text a @ concat (concat (map event_texts es))"
proof (induction es arbitrary: a)
  case (Cons e es)
  then show ?case
    by (cases e) (auto simp: Let_def split: sum.splits option.splits if_splits prod.splits)
qed simp

subsection \<open>The end of both\<close>

lemma ledger_emit_all:
  "has_tool_use (state_manager c) \<Longrightarrow> ledger (fst (emit_all sd ts c)) = ledger c"
proof (induction ts arbitrary: c)
  case (Cons t ts)
  from Cons.prems have "ledger (fst (emit_completed_tool_use sd t c)) = ledger c" by simp
  with Cons.IH [of "fst (emit_completed_tool_use sd t c)"] Cons.prems ledger_eqD(10) [OF this] show ?case
    by (simp add: ledger_and_then)
qed simp

lemma finish_empty: "accumulator_finish names (hm_empty rank) = (hm_empty rank, Inr [])"
  by (simp add: accumulator_finish_def hm_iter_def hm_empty_def)

lemma ledger_finish_filter [simp]: "ledger (fst (finish_filter c)) = ledger c"
  by (simp add: finish_filter_def process_content_with_thinking_def Let_def case_prod_unfold)

lemma ledger_manager_final [simp]: "ledger (fst (manager_final c)) = ledger c"
  by (simp add: manager_final_def on_manager_def ledger_def sse_generate_final_events_def stop_where_def case_prod_unfold)

lemma ledger_finish_stream:
  assumes "\<not> thinking_enabled c"
  shows "ledger (fst (finish_stream c)) = ledger c"
proof -
  have "\<not> thinking_enabled (fst (close_reasoning_if_open c))" using ledger_eqD(11) [OF ledger_close(2)] assms by simp
  then show ?thesis
    by (cases "tool_json_error c")
       (simp_all add: finish_stream_def ledger_and_then flush_thinking_buffer_def thinking_only_def and_then_def case_prod_unfold)
qed

text \<open>The states at the end of a stream and of a whole answer.\<close>

lemma start_mirrors:
  assumes "c = new_with_thinking ri rs mid mdl tokens False names\<lparr>cache_usage := u\<rparr>"
  shows "mirrors rs names mdl u tokens (fst (generate_initial_events c)) (answer_start rs)"
  unfolding mirrors_def ledger_initial
  by (simp add: assms answer_start_def ledger_def new_with_thinking_def sse_manager_new_def)

lemma final_ledger:
  assumes "\<not> thinking_enabled (fst (finish_tools sd c))"
  shows "ledger (fst (generate_final_events sd c)) = ledger (fst (finish_tools sd c))"
proof -
  have "\<not> thinking_enabled (fst (finish_filter (fst (finish_tools sd c))))"
    using ledger_eqD(11) [OF ledger_finish_filter] assms by simp
  from ledger_finish_stream [OF this] show ?thesis by (simp add: generate_final_events_def ledger_and_then)
qed

lemma finish_mirrors:
  assumes "mirrors rank names mdl u n c a" and "accumulator_finish names (an_buffers a) = (buffers, r)"
  shows "case r of
      Inl _ \<Rightarrow> tool_json_error (fst (generate_final_events sd c)) \<noteq> None
    | Inr pending \<Rightarrow>
        ledger (fst (generate_final_events sd c)) = ledger (c\<lparr>tool_json_accumulator := buffers\<rparr>)"
proof -
  from assms(1) have f: "tool_json_error c = None" "tool_name_map c = names" "tool_json_accumulator c = an_buffers a"
    "has_tool_use (state_manager c) = an_has_tool_use a" "\<not> thinking_enabled c"
    by (simp_all add: mirrors_def ledger_def)
  let ?t = "fst (finish_tools sd c)"
  show ?thesis
  proof (cases r)
    case (Inl x)
    then have t: "tool_json_error ?t \<noteq> None" "\<not> thinking_enabled ?t" using f assms(2) by (simp_all add: finish_tools_def Let_def)
    from ledger_eqD(8) [OF final_ledger [OF t(2)]] t(1) Inl show ?thesis by simp
  next
    case (Inr pending)
    have l: "ledger ?t = ledger (c\<lparr>tool_json_accumulator := buffers\<rparr>)"
    proof (cases "an_has_tool_use a")
      case True
      then show ?thesis using f assms(2) Inr by (simp add: finish_tools_def Let_def ledger_emit_all)
    next
      case False
      with assms Inr have "pending = []" by (simp add: finish_empty mirrors_def)
      then show ?thesis using f assms(2) Inr by (simp add: finish_tools_def Let_def)
    qed
    have "\<not> thinking_enabled ?t" using ledger_eqD(11) [OF l] f(5) by simp
    from final_ledger [OF this] l Inr show ?thesis by simp
  qed
qed

lemma final_error:
  assumes "tool_json_error c \<noteq> None" and "\<not> thinking_enabled c"
  shows "tool_json_error (fst (generate_final_events sd c)) \<noteq> None"
proof -
  have "finish_tools sd c = (c, [])" using assms(1) by (simp add: finish_tools_def del: not_None_eq)
  with final_ledger [of sd c] assms(2) have "ledger (fst (generate_final_events sd c)) = ledger c" by simp
  from ledger_eqD(8) [OF this] assms(1) show ?thesis by simp
qed

lemma run_thinking: "thinking_enabled (fst (run (\<lambda>c e. process_kiro_event sd e c) c es)) = thinking_enabled c"
proof (induction es arbitrary: c)
  case (Cons e es)
  have "thinking_enabled (fst (process_kiro_event sd e c)) = thinking_enabled c"
  proof (cases e)
    case (ToolUse t)
    obtain buffers names mdl ctx creds u n err stop has where
      l: "ledger c = ((buffers, names, mdl, ctx, creds, u, n, err), stop, has, thinking_enabled c)" by (simp add: ledger_def)
    obtain b1 r where "accumulator_push sd t names buffers = (b1, r)" by fastforce
    from ledger_tool_event [OF l this] ToolUse show ?thesis
      by (cases r) (simp_all add: ledger_def del: process_kiro_event.simps)
  next
    case (ContextUsage p)
    then show ?thesis by (simp add: process_context_usage_def Let_def)
  qed (use ledger_eqD(11) [OF ledger_reasoning] ledger_eqD(11) [OF ledger_assistant] ledger_eqD(11) [OF ledger_close(2)]
       in \<open>simp_all add: and_then_def case_prod_unfold\<close>)
  with Cons show ?case by (simp add: case_prod_unfold del: process_kiro_event.simps)
qed simp



subsection \<open>A long answer\<close>

text \<open>
  The whole body is fed at once: a body that is longer than the decoder's buffer is refused as a whole, and
  the client is told of a successful answer without content; a stream of the same bytes is not cut.\<close>

lemma long_answer_empty:
  assumes "DEFAULT_MAX_BUFFER_SIZE < length body"
  shows "answer_from_body ws body b = finished_answer ws (answer_start (wh_rank ws)) b"
proof -
  have f: "feed decoder_new body = (decoder_new, Inl (BufferOverflow (length body) DEFAULT_MAX_BUFFER_SIZE))"
    using assms by (simp add: feed_def decoder_new_def Let_def)
  have "iter_next crc decoder_new = (decoder_new, None)" for crc
    by (simp add: iter_next_def decode_def decoder_new_def)
  then have "snd (chunk_events su body decoder_new) = []" for su
    by (simp add: chunk_events_def on_chunk_def f decode_all_stop List.map_filter_def frame_event_def)
  then show ?thesis
    by (simp add: answer_from_body_def collect_answer_def answer_start_def finish_empty Let_def)
qed

end
