(* ===== verification/Search_Loop.thy ===== *)
theory Search_Loop imports Whole_Answer Provider_Calls Conversion_Properties begin

section \<open>The loop of searches (src/src/anthropic/websearch_loop.rs)\<close>

text \<open>
  A client that offers a search tool beside others gets its searches done here: an answer of the upstream
  that asks for nothing but searches is followed by these searches, by their results fed back, and by
  another round, five times at most. Everything else goes to the client, which sees the searches as
  blocks of their own. What the world does in a round, the calls of the upstream and of the tool service,
  the body, the random ids, is an argument of every round (\<open>round_world\<close>).
\<close>

definition MAX_WEB_SEARCH_ROUNDS :: nat where "MAX_WEB_SEARCH_ROUNDS = 5"

subsection \<open>When the stream starts\<close>

text \<open>What has gone to the client's channel, what the handler has been told, and whether it has been told.\<close>

datatype 'r startup = Begun | Refused_Start "'r http_reply"

record 'r marker =
  mk_sent :: "downstream list"
  mk_startup :: "'r startup option"
  mk_started :: bool

definition marker_new :: "'r marker" where
  "marker_new = \<lparr>mk_sent = [], mk_startup = None, mk_started = False\<rparr>"

definition mark_first_upstream_chunk :: "'r marker \<Rightarrow> 'r marker" where
  "mark_first_upstream_chunk m =
    (if mk_started m then m
     else m\<lparr>mk_started := True, mk_sent := mk_sent m @ [Ping_Out], mk_startup := Some Begun\<rparr>)"

definition mark_started_before_final_flush :: "'r marker \<Rightarrow> 'r marker" where
  "mark_started_before_final_flush m =
    (if mk_started m then m else m\<lparr>mk_started := True, mk_startup := Some Begun\<rparr>)"

definition fail_before_start :: "'r http_reply \<Rightarrow> 'r marker \<Rightarrow> 'r marker \<times> bool" where
  "fail_before_start response m =
    (if mk_started m then (m, False) else (m\<lparr>mk_started := True, mk_startup := Some (Refused_Start response)\<rparr>, True))"

subsection \<open>One round of the upstream\<close>

record round =
  rd_text :: string
  rd_reasoning :: string
  rd_redacted :: string
  rd_tool_uses :: "completed_tool_use list"
  rd_context_tokens :: "int option"
  rd_credits :: rat
  rd_stop_override :: "string option"
  rd_stream_error :: bool
  rd_tool_error :: "string option"
  rd_buffers :: tool_buffers

definition round_start :: "(string list \<Rightarrow> string \<Rightarrow> nat) \<Rightarrow> round" where
  "round_start rank =
    \<lparr>rd_text = [], rd_reasoning = [], rd_redacted = [], rd_tool_uses = [], rd_context_tokens = None, rd_credits = 0,
     rd_stop_override = None, rd_stream_error = False, rd_tool_error = None, rd_buffers = hm_empty rank\<rparr>"

fun round_event :: "serde \<Rightarrow> name_map \<Rightarrow> string \<Rightarrow> event \<Rightarrow> round \<Rightarrow> round" where
  "round_event sd names mdl (AssistantResponse s) r = r\<lparr>rd_text := rd_text r @ s\<rparr>"
| "round_event sd names mdl (Code s) r = r\<lparr>rd_text := rd_text r @ s\<rparr>"
| "round_event sd names mdl (ReasoningContent rc) r =
     (if reasoning_text rc \<noteq> [] then r\<lparr>rd_reasoning := rd_reasoning r @ reasoning_text rc\<rparr>
      else case redacted_content rc of Some d \<Rightarrow> r\<lparr>rd_redacted := rd_redacted r @ d\<rparr> | None \<Rightarrow> r)"
| "round_event sd names mdl (ToolUse e) r =
     (case accumulator_push sd e names (rd_buffers r) of
        (buffers, Inr (Some t)) \<Rightarrow> r\<lparr>rd_buffers := buffers, rd_tool_uses := rd_tool_uses r @ [t]\<rparr>
      | (buffers, Inr None) \<Rightarrow> r\<lparr>rd_buffers := buffers\<rparr>
      | (buffers, Inl err) \<Rightarrow> r\<lparr>rd_buffers := buffers, rd_tool_error := Some (error_message err)\<rparr>)"
| "round_event sd names mdl (ContextUsage percentage) r =
     (let r = r\<lparr>rd_context_tokens := Some (context_tokens mdl percentage)\<rparr>
      in if 100 \<le> percentage then r\<lparr>rd_stop_override := Some ''model_context_window_exceeded''\<rparr> else r)"
| "round_event sd names mdl (Metering usage) r = r\<lparr>rd_credits := rd_credits r + usage\<rparr>"
| "round_event sd names mdl (ExceptionEvent t msg) r =
     (if t = ''ContentLengthExceededException'' then r\<lparr>rd_stop_override := Some ''max_tokens''\<rparr> else r)"
| "round_event sd names mdl (ErrorEvent code msg) r = r"
| "round_event sd names mdl UnknownEvent r = r"

definition from_tool_accumulator_finish :: "name_map \<Rightarrow> round \<Rightarrow> round" where
  "from_tool_accumulator_finish names r =
    (let r = r\<lparr>rd_text := strip_tool_use_xml_leaks (rd_text r)\<rparr>
     in if rd_tool_error r = None then
          (case accumulator_finish names (rd_buffers r) of
             (_, Inr pending) \<Rightarrow> r\<lparr>rd_tool_uses := rd_tool_uses r @ pending\<rparr>
           | (_, Inl e) \<Rightarrow> r\<lparr>rd_tool_error := Some (error_message e)\<rparr>)
        else r)"

text \<open>The chunks of the body, and whether reading it has ended with an error.\<close>

definition decode_round ::
  "stream_setup \<Rightarrow> (string list \<Rightarrow> string \<Rightarrow> nat) \<Rightarrow> string \<Rightarrow> name_map \<Rightarrow> byte list list \<times> bool \<Rightarrow> 'r marker option
     \<Rightarrow> round \<times> 'r marker option" where
  "decode_round su rank mdl names body marker =
    (case body of
       (chunks, broken) \<Rightarrow>
         (from_tool_accumulator_finish names
            ((fold (round_event (su_serde su) names mdl) (upstream_events su chunks) (round_start rank))
               \<lparr>rd_stream_error := broken\<rparr>),
          if chunks = [] then marker else map_option mark_first_upstream_chunk marker))"

text \<open>What a loop is run with, and what the world does in a round of it.\<close>

record 'i loop_setup =
  lp_setup :: stream_setup
  lp_conversion :: "'i conversion"
  lp_web :: web
  lp_surroundings :: surroundings
  lp_print :: "conversation_state \<Rightarrow> additional_fields option \<Rightarrow> string + string"
  lp_describe :: "call_error \<Rightarrow> string"
  lp_describe_search :: "search_failure \<Rightarrow> string"
  lp_rank :: "string list \<Rightarrow> string \<Rightarrow> nat"

record 'c round_world =
  rw_cwd :: "string option"
  rw_conversation_id :: string
  rw_continuation_id :: string
  rw_join_error :: string
  rw_hops :: "nat \<Rightarrow> 'c hop"
  rw_body :: "http_response \<Rightarrow> byte list list \<times> bool"
  rw_searches :: "nat \<Rightarrow> nat \<Rightarrow> 'c hop"
  rw_ids :: "nat \<Rightarrow> random_ids"
  rw_shown_ids :: "nat \<Rightarrow> random_ids"
  rw_hint :: string

definition convert_request_with_mode_blocking ::
  "'i conversion \<Rightarrow> 'c round_world \<Rightarrow> messages_request \<Rightarrow> conversion_error + conversion_result" where
  "convert_request_with_mode_blocking cv w req =
    (case convert_request_with_mode cv (rw_cwd w) (rw_conversation_id w) (rw_continuation_id w) req of
       Converted r \<Rightarrow> Inr r
     | Refused e \<Rightarrow> Inl e
     | Aborted_conversion \<Rightarrow> Inl (InvalidImage (''image/request conversion task failed: '' @ rw_join_error w)))"

definition loop_conversion_error :: "conversion_error \<Rightarrow> string \<times> string" where
  "loop_conversion_error e =
    (case e of
       UnsupportedModel m \<Rightarrow> (''invalid_request_error'', ''unsupported model: '' @ m)
     | EmptyMessages \<Rightarrow> (''invalid_request_error'', ''message list is empty'')
     | UnsupportedMapping message \<Rightarrow> (''unsupported_tool_mapping'', message)
     | InvalidImage message \<Rightarrow> (''invalid_request_error'', message))"

definition STREAM_CUT :: string where
  "STREAM_CUT = ''Upstream response stream ended unexpectedly during the web_search loop.''"

text \<open>A record of an error without a token of output, and the trace with it.\<close>

definition error_books ::
  "request_info \<Rightarrow> u64 \<Rightarrow> int \<Rightarrow> rat \<Rightarrow> string \<Rightarrow> (books \<Rightarrow> string option) \<Rightarrow> string \<Rightarrow> books \<Rightarrow> books" where
  "error_books ri cid tokens creds final_status etype msg b =
    (let b = hook_record ri cid tokens 0 0 0 creds ''error'' b
     in finalize_trace ri final_status (etype b) (Some msg) None b)"

record ('c, 'r) loop_state =
  ls_provider :: "'c provider"
  ls_books :: books
  ls_marker :: "'r marker option"

definition with_books :: "(books \<Rightarrow> books) \<Rightarrow> ('c, 'r) loop_state \<Rightarrow> ('c, 'r) loop_state" where
  "with_books f s = s\<lparr>ls_books := f (ls_books s)\<rparr>"

definition run_round ::
  "'i loop_setup \<Rightarrow> 'c round_world \<Rightarrow> messages_request \<Rightarrow> int \<Rightarrow> ('c, 'r) loop_state
     \<Rightarrow> (('c, 'r) loop_state \<times> ('r http_reply + round \<times> u64)) option" where
  "run_round lp w payload tokens s =
    (let su = lp_setup lp; ri = su_info su in
     case convert_request_with_mode_blocking (lp_conversion lp) w payload of
       Inl e \<Rightarrow>
         (case loop_conversion_error e of
            (et, msg) \<Rightarrow>
              Some (with_books (error_books ri 0 0 0 ''error'' (\<lambda>_. Some ''bad_request'') msg) s, Inl (Error_Reply 400 et msg)))
     | Inr conversion \<Rightarrow>
     case lp_print lp (cr_conversation_state conversion) (cr_additional_fields conversion) of
       Inl e \<Rightarrow>
         let msg = ''failed to serialize request: '' @ e
         in Some (with_books (error_books ri 0 0 0 ''error'' (\<lambda>_. Some ''unknown'') msg) s,
                  Inl (Error_Reply 500 ''internal_error'' msg))
     | Inr request_body \<Rightarrow>
     case call_api_with_retry (lp_surroundings lp) request_body (rw_hops w) (ls_provider s) of
       None \<Rightarrow> None
     | Some (pv, fx, Inl e) \<Rightarrow>
         Some (s\<lparr>ls_provider := pv,
                 ls_books := error_books ri 0 tokens 0 ''error'' last_attempt_outcome (lp_describe lp e)
                   (on_attempts fx (ls_books s))\<rparr>,
               Inl (map_provider_error (su_serde su) (rw_hint w) (lp_describe lp e)))
     | Some (pv, fx, Inr (response, credential_id)) \<Rightarrow>
         (case decode_round su (lp_rank lp) (mr_model payload) (cr_tool_name_map conversion) (rw_body w response) (ls_marker s) of
            (r, marker) \<Rightarrow>
              let s = s\<lparr>ls_provider := pv, ls_books := on_attempts fx (ls_books s), ls_marker := marker\<rparr>
              in (case rd_tool_error r of
                    Some message \<Rightarrow>
                      Some (with_books (error_books ri 0 tokens 0 ''error'' last_attempt_outcome message) s,
                            Inl (Error_Reply 502 ''upstream_tool_json_error'' message))
                  | None \<Rightarrow>
                      if rd_stream_error r then
                        Some (with_books (error_books ri 0 tokens 0 ''interrupted'' (\<lambda>_. Some ''stream_interrupted'') STREAM_CUT) s,
                              Inl (Error_Reply 502 ''upstream_error'' STREAM_CUT))
                      else Some (s, Inr (r, credential_id)))))"

subsection \<open>Searching\<close>

definition query_of :: "completed_tool_use \<Rightarrow> string" where
  "query_of t = (case json_str (ct_input t) ''query'' of Some q \<Rightarrow> q | None \<Rightarrow> [])"

definition should_search_round :: "nat \<Rightarrow> completed_tool_use list \<Rightarrow> bool" where
  "should_search_round round_idx ts \<longleftrightarrow>
     ts \<noteq> [] \<and> list_all (\<lambda>t. ct_name t = ''web_search'') ts \<and> round_idx < MAX_WEB_SEARCH_ROUNDS"

text \<open>The searches of a round, one after the other; the first that fails ends them.\<close>

fun search_all ::
  "'i loop_setup \<Rightarrow> 'c round_world \<Rightarrow> nat \<Rightarrow> completed_tool_use list \<Rightarrow> 'c provider
     \<Rightarrow> ('c provider \<times> (search_failure + search_results option list)) option" where
  "search_all lp w i [] pv = Some (pv, Inr [])"
| "search_all lp w i (t # ts) pv =
     (case call_mcp_api (lp_web lp) (lp_surroundings lp) (rw_searches w i) (snd (create_mcp_request (rw_ids w i) (query_of t))) pv of
        None \<Rightarrow> None
      | Some (pv, Inl e) \<Rightarrow> Some (pv, Inl e)
      | Some (pv, Inr response) \<Rightarrow>
          (case search_all lp w (Suc i) ts pv of
             None \<Rightarrow> None
           | Some (pv, Inl e) \<Rightarrow> Some (pv, Inl e)
           | Some (pv, Inr rs) \<Rightarrow> Some (pv, Inr (parse_search_results (lp_web lp) response # rs))))"

definition thinking_blocks :: "bool \<Rightarrow> round \<Rightarrow> json list" where
  "thinking_blocks thinking r =
    (if thinking then unless_empty thinking_json (rd_reasoning r) @ unless_empty redacted_json (rd_redacted r) else [])"

definition round_blocks :: "bool \<Rightarrow> round \<Rightarrow> json list" where
  "round_blocks thinking r =
     thinking_blocks thinking r @ unless_empty text_json (rd_text r) @ map tool_use_json (rd_tool_uses r)"

definition tool_result_json :: "string \<Rightarrow> string \<Rightarrow> json" where
  "tool_result_json i summary =
     JObj [(''type'', JStr ''tool_result''), (''tool_use_id'', JStr i), (''content'', JStr summary)]"

definition shown_search :: "web \<Rightarrow> random_ids \<Rightarrow> string \<Rightarrow> search_results option \<Rightarrow> json list" where
  "shown_search wb ri query results =
    [JObj [(''type'', JStr ''server_tool_use''), (''id'', JStr (fst (create_mcp_request ri query))),
           (''name'', JStr ''web_search''), (''input'', JObj [(''query'', JStr query)])],
     JObj [(''type'', JStr ''web_search_tool_result''), (''content'', JArr (build_result_block wb results))]]"

fun shown_searches :: "web \<Rightarrow> (nat \<Rightarrow> random_ids) \<Rightarrow> nat \<Rightarrow> (completed_tool_use \<times> search_results option) list \<Rightarrow> json list" where
  "shown_searches wb ids i [] = []"
| "shown_searches wb ids i ((t, results) # rest) =
     shown_search wb (ids i) (query_of t) results @ shown_searches wb ids (Suc i) rest"

definition append_search_round ::
  "'i loop_setup \<Rightarrow> 'c round_world \<Rightarrow> bool \<Rightarrow> round \<Rightarrow> search_results option list \<Rightarrow> messages_request \<Rightarrow> json list
     \<Rightarrow> messages_request \<times> json list" where
  "append_search_round lp w thinking r searched payload presentation =
    (let pairs = zip (rd_tool_uses r) searched
     in (payload\<lparr>mr_messages := mr_messages payload
           @ [\<lparr>cm_role = ''assistant'', cm_content = JArr (round_blocks thinking r)\<rparr>,
              \<lparr>cm_role = ''user'', cm_content = JArr (map (\<lambda>(t, results).
                 tool_result_json (ct_id t) (generate_search_summary (query_of t) results)) pairs)\<rparr>]\<rparr>,
         presentation @ shown_searches (lp_web lp) (rw_shown_ids w) 0 pairs))"

subsection \<open>The loop\<close>

record search_success =
  wx_model :: string
  wx_content :: "json list"
  wx_stop_reason :: string
  wx_input_tokens :: int
  wx_output_tokens :: int
  wx_cache_creation_tokens :: int
  wx_cache_read_tokens :: int

definition loop_stop_reason :: "round \<Rightarrow> string" where
  "loop_stop_reason r =
    (case rd_stop_override r of
       Some reason \<Rightarrow> reason | None \<Rightarrow> if rd_tool_uses r = [] then ''end_turn'' else ''tool_use'')"

definition finish_loop ::
  "'i loop_setup \<Rightarrow> messages_request \<Rightarrow> json list \<Rightarrow> round \<Rightarrow> u64 \<Rightarrow> int \<Rightarrow> rat \<Rightarrow> books \<Rightarrow> books \<times> search_success" where
  "finish_loop lp payload blocks r credential_id total_input creds b =
    (let su = lp_setup lp; cv = lp_conversion lp; ri = su_info su;
         out = estimate_output_tokens (su_serde su) (cv_codecs cv) (cv_images cv) blocks
     in case split_against_total (pl_usage (su_plan su)) total_input of
          (inp, creation, reads) \<Rightarrow>
            (finalize_trace ri ''success'' None None None
               (set_usage inp out creation reads
                 (commit_plan (su_now su) (su_plan su)
                   (hook_record ri credential_id inp out creation reads creds ''success'' b))),
             \<lparr>wx_model = mr_model payload, wx_content = blocks, wx_stop_reason = loop_stop_reason r, wx_input_tokens = inp,
              wx_output_tokens = out, wx_cache_creation_tokens = creation, wx_cache_read_tokens = reads\<rparr>))"

text \<open>
  \<open>left\<close> rounds are left, \<open>idx\<close> is the number of the next one; the last arguments are what the loop
  carries: the searches shown so far, the credential, the last known context, the credits.
\<close>

fun search_rounds ::
  "'i loop_setup \<Rightarrow> (nat \<Rightarrow> 'c round_world) \<Rightarrow> bool \<Rightarrow> int \<Rightarrow> nat \<Rightarrow> nat \<Rightarrow> messages_request \<Rightarrow> json list \<Rightarrow> u64 \<Rightarrow> int option
     \<Rightarrow> rat \<Rightarrow> ('c, 'r) loop_state \<Rightarrow> (('c, 'r) loop_state \<times> ('r http_reply + search_success)) option" where
  "search_rounds lp ws thinking tokens 0 idx payload presentation cid ctx creds s =
     (let msg = ''web_search loop exited unexpectedly''
      in Some (with_books (error_books (su_info (lp_setup lp)) cid tokens creds ''error'' (\<lambda>_. Some ''unknown'') msg) s,
               Inl (Error_Reply 500 ''internal_error'' msg)))"
| "search_rounds lp ws thinking tokens (Suc left) idx payload presentation cid ctx creds s =
     (case run_round lp (ws idx) payload tokens s of
        None \<Rightarrow> None
      | Some (s, Inl resp) \<Rightarrow> Some (s, Inl resp)
      | Some (s, Inr (r, cid)) \<Rightarrow>
          let ctx = (case rd_context_tokens r of Some n \<Rightarrow> Some n | None \<Rightarrow> ctx); creds = creds + rd_credits r
          in if should_search_round idx (rd_tool_uses r) then
               (case search_all lp (ws idx) 0 (rd_tool_uses r) (ls_provider s) of
                  None \<Rightarrow> None
                | Some (pv, Inl e) \<Rightarrow>
                    let msg = lp_describe_search lp e
                    in Some (with_books (error_books (su_info (lp_setup lp)) cid tokens creds ''error'' last_attempt_outcome msg)
                               (s\<lparr>ls_provider := pv\<rparr>),
                             Inl (map_provider_error (su_serde (lp_setup lp)) (rw_hint (ws idx)) msg))
                | Some (pv, Inr searched) \<Rightarrow>
                    (case append_search_round lp (ws idx) thinking r searched payload presentation of
                       (payload, presentation) \<Rightarrow>
                         search_rounds lp ws thinking tokens left (Suc idx) payload presentation cid ctx creds
                           (s\<lparr>ls_provider := pv\<rparr>)))
             else
               (case finish_loop lp payload (presentation @ round_blocks thinking r) r cid
                       (case ctx of Some n \<Rightarrow> n | None \<Rightarrow> tokens) creds (ls_books s) of
                  (b, success) \<Rightarrow> Some (s\<lparr>ls_books := b\<rparr>, Inr success)))"

text \<open>\<open>remote\<close>: the reply of the remote token counter.\<close>

definition run_web_search_loop_inner ::
  "'i loop_setup \<Rightarrow> (nat \<Rightarrow> 'c round_world) \<Rightarrow> (nat \<times> int) option \<Rightarrow> messages_request \<Rightarrow> ('c, 'r) loop_state
     \<Rightarrow> (('c, 'r) loop_state \<times> ('r http_reply + search_success)) option" where
  "run_web_search_loop_inner lp ws remote payload s =
    (let cv = lp_conversion lp;
         tokens = as_i32 (count_all_tokens (su_serde (lp_setup lp)) (cv_codecs cv) (cv_images cv) remote (mr_system payload)
           (mr_messages payload) (mr_tools payload));
         thinking = (case mr_thinking payload of Some t \<Rightarrow> thinking_is_enabled t | None \<Rightarrow> False)
     in search_rounds lp ws thinking tokens (Suc MAX_WEB_SEARCH_ROUNDS) 0 payload [] 0 None 0 s)"

subsection \<open>The answer\<close>

definition render_json :: "string \<Rightarrow> search_success \<Rightarrow> 'r http_reply" where
  "render_json uuid x =
     Json_Reply 200 (message_json uuid (wx_model x) (wx_content x) (wx_stop_reason x) (wx_input_tokens x)
       (wx_output_tokens x) (wx_cache_creation_tokens x) (wx_cache_read_tokens x))"

definition str_field :: "json \<Rightarrow> string \<Rightarrow> string" where
  "str_field j k = (case json_str j k of Some s \<Rightarrow> s | None \<Rightarrow> [])"

definition block_events :: "serde \<Rightarrow> int \<Rightarrow> json \<Rightarrow> sse_event list" where
  "block_events sd i block =
    (let ty = str_field block ''type'' in
     if ty = ''thinking'' then
       [block_start i [(''type'', JStr ''thinking''), (''thinking'', JStr [])]]
       @ (let thinking = str_field block ''thinking''
          in if thinking = [] then []
             else [block_delta i [(''type'', JStr ''thinking_delta''), (''thinking'', JStr thinking)]])
       @ [block_delta i [(''type'', JStr ''signature_delta''), (''signature'', JStr THINKING_SIGNATURE_PLACEHOLDER)], stop_event i]
     else if ty = ''redacted_thinking'' then
       [block_start i [(''type'', JStr ''redacted_thinking''), (''data'', JStr (str_field block ''data''))], stop_event i]
     else if ty = ''text'' then
       [text_block_start i, text_delta i (str_field block ''text''), stop_event i]
     else if ty = ''tool_use'' then
       (let input = (case json_get block ''input'' of Some j \<Rightarrow> j | None \<Rightarrow> JObj [])
        in [block_start i [(''type'', JStr ''tool_use''), (''id'', JStr (str_field block ''id'')),
              (''name'', JStr (str_field block ''name'')), (''input'', JObj [])],
            block_delta i [(''type'', JStr ''input_json_delta''), (''partial_json'', JStr (to_str sd input))], stop_event i])
     else if ty = ''server_tool_use'' \<or> ty = ''web_search_tool_result'' then
       [sse_new ''content_block_start'' (JObj [(''type'', JStr ''content_block_start''), (''index'', JInt i),
          (''content_block'', block)]), stop_event i]
     else [])"

fun blocks_events :: "serde \<Rightarrow> int \<Rightarrow> json list \<Rightarrow> sse_event list" where
  "blocks_events sd i [] = []"
| "blocks_events sd i (b # bs) = block_events sd i b @ blocks_events sd (i + 1) bs"

definition build_sse_events :: "serde \<Rightarrow> string \<Rightarrow> search_success \<Rightarrow> sse_event list" where
  "build_sse_events sd uuid x =
     [sse_new ''message_start'' (message_start_data (''msg_'' @ take 24 uuid) (wx_model x) [(''stop_sequence'', JNull)]
        (wx_input_tokens x) (wx_cache_creation_tokens x) (wx_cache_read_tokens x))]
     @ blocks_events sd 0 (wx_content x)
     @ [sse_new ''message_delta'' (message_delta_data (wx_stop_reason x)
          [(''output_tokens'', JInt (wx_output_tokens x)), (''cache_creation_input_tokens'', JInt (wx_cache_creation_tokens x)),
           (''cache_read_input_tokens'', JInt (wx_cache_read_tokens x))]),
        message_stop]"

text \<open>The spawned task fills the channel; the handler waits until the marker has told it what to answer.\<close>

definition fill_channel ::
  "serde \<Rightarrow> string \<Rightarrow> ('r http_reply + search_success) \<Rightarrow> 'r marker \<Rightarrow> 'r marker" where
  "fill_channel sd uuid r m =
    (case r of
       Inr x \<Rightarrow>
         let m = mark_started_before_final_flush m
         in m\<lparr>mk_sent := mk_sent m @ map Event_Out (build_sse_events sd uuid x)\<rparr>
     | Inl resp \<Rightarrow>
         (case fail_before_start resp m of
            (m, failed) \<Rightarrow>
              if failed then m
              else m\<lparr>mk_sent := mk_sent m @
                     [Event_Out (create_error_sse ''api_error'' ''web_search loop failed after the upstream stream had started'')]\<rparr>))"

definition deferred_reply :: "downstream list marker \<Rightarrow> downstream list http_reply" where
  "deferred_reply m =
    (case mk_startup m of
       Some Begun \<Rightarrow> Stream_Reply (mk_sent m)
     | Some (Refused_Start resp) \<Rightarrow> resp
     | None \<Rightarrow> Error_Reply 502 ''upstream_error'' ''web_search loop ended before the response stream could start'')"

definition run_web_search_loop ::
  "'i loop_setup \<Rightarrow> (nat \<Rightarrow> 'c round_world) \<Rightarrow> (nat \<times> int) option \<Rightarrow> string \<Rightarrow> bool \<Rightarrow> messages_request \<Rightarrow> 'c provider \<Rightarrow> books
     \<Rightarrow> ('c provider \<times> books \<times> downstream list http_reply) option" where
  "run_web_search_loop lp ws remote uuid stream_client payload pv b =
    (if stream_client then
       (case run_web_search_loop_inner lp ws remote payload
               \<lparr>ls_provider = pv, ls_books = b, ls_marker = Some marker_new\<rparr> of
          None \<Rightarrow> None
        | Some (s, r) \<Rightarrow>
            Some (ls_provider s, ls_books s,
              deferred_reply (case ls_marker s of
                Some m \<Rightarrow> fill_channel (su_serde (lp_setup lp)) uuid r m
              | None \<Rightarrow> marker_new)))
     else
       (case run_web_search_loop_inner lp ws remote payload \<lparr>ls_provider = pv, ls_books = b, ls_marker = None\<rparr> of
          None \<Rightarrow> None
        | Some (s, Inr x) \<Rightarrow> Some (ls_provider s, ls_books s, render_json uuid x)
        | Some (s, Inl resp) \<Rightarrow> Some (ls_provider s, ls_books s, resp)))"

subsection \<open>The events of an answer\<close>

text \<open>Between messages and blocks: the message has started, nothing is open, and the indices below \<open>i\<close> may be used.\<close>

definition between :: "int \<Rightarrow> protocol \<Rightarrow> bool" where
  "between i p \<longleftrightarrow> pr_started p \<and> pr_open p = {} \<and> \<not> pr_delta_sent p \<and> \<not> pr_ended p \<and> pr_seen p \<subseteq> {j. j < i}"

lemma view_blocks [simp]:
  "sse_view (block_start i ((''type'', JStr t) # cb)) = VBlockStart i t"
  "sse_view (block_delta i ((''type'', JStr t) # d)) = VBlockDelta i t"
  "sse_view (text_block_start i) = VBlockStart i ''text''" "sse_view (text_delta i s) = VBlockDelta i ''text_delta''"
  "sse_view message_stop = VMessageStop"
  by (simp_all add: block_start_def block_delta_def text_block_start_def text_delta_def text_delta_data_def message_stop_def)

lemma view_given_block:
  "json_str b ''type'' = Some t \<Longrightarrow>
   sse_view (sse_new ''content_block_start'' (JObj [(''type'', JStr ''content_block_start''), (''index'', JInt i),
     (''content_block'', b)])) = VBlockStart i t"
  by (simp add: sse_view_def sse_new_def get_index_def get_type_of_def json_str_def)

lemma delta_types [simp]:
  "delta_block_type ''text_delta'' = ''text''" "delta_block_type ''thinking_delta'' = ''thinking''"
  "delta_block_type ''signature_delta'' = ''thinking''" "delta_block_type ''input_json_delta'' = ''tool_use''"
  by (simp_all add: delta_block_type_def)

lemma protocol_block:
  assumes "between i p" and that: "sse_view e = VBlockStart i t"
    "list_all (\<lambda>d. \<exists>dt. sse_view d = VBlockDelta i dt \<and> delta_block_type dt = t) ds"
  shows "accepts protocol_step p (e # ds @ [stop_event i]) = Some (p\<lparr>pr_seen := insert i (pr_seen p)\<rparr>)"
proof -
  let ?q = "p\<lparr>pr_seen := insert i (pr_seen p), pr_open := {(i, t)}\<rparr>"
  from assms have p: "pr_started p" "pr_open p = {}" "\<not> pr_delta_sent p" "\<not> pr_ended p" "i \<notin> pr_seen p"
    by (auto simp: between_def)
  have deltas: "accepts protocol_step ?q ds = Some ?q" using that(2)
  proof (induction ds)
    case (Cons d ds)
    from Cons.prems obtain dt where "sse_view d = VBlockDelta i dt" "delta_block_type dt = t" by auto
    with Cons p show ?case by (simp add: protocol_step_def)
  qed simp
  have "?q\<lparr>pr_open := {}\<rparr> = p\<lparr>pr_seen := insert i (pr_seen p)\<rparr>" using p(2) by (cases p) simp
  moreover have "Set.filter (\<lambda>e. fst e \<noteq> i) {(i, t)} = {}" by auto
  moreover have "sse_view (stop_event i) = VBlockStop i" by simp
  ultimately show ?thesis
    using p that(1) deltas by (simp add: protocol_step_def accepts_append)
qed

lemma block_accepted:
  assumes "between i p"
  shows "\<exists>q. accepts protocol_step p (block_events sd i b) = Some q \<and> between (i + 1) q"
proof -
  have next_between: "between (i + 1) p" "between (i + 1) (p\<lparr>pr_seen := insert i (pr_seen p)\<rparr>)"
    using assms by (auto simp: between_def)
  note pb = protocol_block [OF assms]
  let ?ty = "str_field b ''type''"
  consider "?ty = ''thinking''" | "?ty = ''redacted_thinking''" | "?ty = ''text''" | "?ty = ''tool_use''"
    | "?ty = ''server_tool_use'' \<or> ?ty = ''web_search_tool_result''"
    | "?ty \<notin> {''thinking'', ''redacted_thinking'', ''text'', ''tool_use'', ''server_tool_use'', ''web_search_tool_result''}"
    by blast
  then show ?thesis
  proof cases
    case 1
    let ?s = "block_start i [(''type'', JStr ''thinking''), (''thinking'', JStr [])]"
    let ?d = "(if str_field b ''thinking'' = [] then []
        else [block_delta i [(''type'', JStr ''thinking_delta''), (''thinking'', JStr (str_field b ''thinking''))]])
      @ [block_delta i [(''type'', JStr ''signature_delta''), (''signature'', JStr THINKING_SIGNATURE_PLACEHOLDER)]]"
    have "block_events sd i b = ?s # ?d @ [stop_event i]" using 1 by (simp add: block_events_def Let_def)
    moreover have "accepts protocol_step p (?s # ?d @ [stop_event i]) = Some (p\<lparr>pr_seen := insert i (pr_seen p)\<rparr>)"
      by (rule pb [of _ "''thinking''"]) simp_all
    ultimately show ?thesis using next_between by simp
  next
    case 2
    with pb [of "block_start i [(''type'', JStr ''redacted_thinking''), (''data'', JStr (str_field b ''data''))]" _ "[]"] next_between
    show ?thesis by (simp add: block_events_def)
  next
    case 3
    with pb [of "text_block_start i" "''text''" "[text_delta i (str_field b ''text'')]"] next_between
    show ?thesis by (simp add: block_events_def)
  next
    case 4
    let ?j = "case json_get b ''input'' of Some j \<Rightarrow> j | None \<Rightarrow> JObj []"
    from 4 pb [of "block_start i [(''type'', JStr ''tool_use''), (''id'', JStr (str_field b ''id'')),
              (''name'', JStr (str_field b ''name'')), (''input'', JObj [])]" "''tool_use''"
            "[block_delta i [(''type'', JStr ''input_json_delta''), (''partial_json'', JStr (to_str sd ?j))]]"] next_between
    show ?thesis by (simp add: block_events_def Let_def)
  next
    case 5
    then have "json_str b ''type'' = Some ?ty" by (auto simp: str_field_def split: option.splits)
    with 5 pb [OF view_given_block, of b _ "[]"] next_between show ?thesis by (auto simp: block_events_def)
  next
    case 6
    then show ?thesis using next_between by (simp add: block_events_def Let_def)
  qed
qed

lemma blocks_accepted:
  "between i p \<Longrightarrow> \<exists>q j. accepts protocol_step p (blocks_events sd i bs) = Some q \<and> between j q"
proof (induction bs arbitrary: i p)
  case (Cons b bs)
  from block_accepted [OF Cons.prems] obtain q where q: "accepts protocol_step p (block_events sd i b) = Some q" "between (i + 1) q"
    by blast
  from Cons.IH [OF q(2)] q(1) show ?case by (simp add: accepts_append)
qed auto

lemma answer_events_accepted:
  "\<exists>p. accepts protocol_step protocol_start (build_sse_events sd uuid x) = Some p \<and> pr_open p = {} \<and> pr_ended p"
proof -
  let ?p = "protocol_start\<lparr>pr_started := True\<rparr>"
  have "between 0 ?p" by (simp add: between_def protocol_start_def)
  from blocks_accepted [OF this] obtain q j
    where q: "accepts protocol_step ?p (blocks_events sd 0 (wx_content x)) = Some q" "between j q" by blast
  have m: "protocol_step protocol_start (sse_new ''message_start'' d) = Some ?p" for d
    by (simp add: protocol_step_def protocol_start_def)
  from q(2) show ?thesis
    unfolding build_sse_events_def
    by (simp add: accepts_append m q(1)) (simp add: between_def protocol_step_def)
qed

subsection \<open>The loop and the books\<close>

lemma error_books_once: "booked_once ''error'' st b (error_books ri cid n creds st et msg b)"
  by (auto simp: error_books_def Let_def intro!: booked_finalize)

lemma error_books_some [simp]: "\<exists>st. booked_once ''error'' st b (error_books ri cid n creds fs et msg b)"
  by (rule exI) (rule error_books_once)

lemma error_books_meter [simp]: "bk_meter (error_books ri cid n creds st et msg b) = bk_meter b"
  by (simp add: error_books_def Let_def)

text \<open>An error answer, booked as one, with the table of the cache as it was.\<close>

definition refused :: "books \<Rightarrow> books \<Rightarrow> 'r http_reply \<Rightarrow> bool" where
  "refused b b1 resp \<longleftrightarrow>
     (\<exists>st ty msg. resp = Error_Reply st ty msg \<and> 400 \<le> st) \<and> (\<exists>st. booked_once ''error'' st b b1) \<and> bk_meter b1 = bk_meter b"

lemma refused_error_books: "400 \<le> st \<Longrightarrow> refused b (error_books ri cid n creds fs et msg b) (Error_Reply st ty m)"
  by (simp add: refused_def)

lemma provider_error_refused:
  "refused b (error_books ri cid n creds fs et msg b) (map_provider_error sd hint err)"
  by (simp add: refused_def map_provider_error_def provider_error_status_and_detail_def)

text \<open>The books of a request on its way: only attempts have been added.\<close>

definition same_books :: "books \<Rightarrow> books \<Rightarrow> bool" where
  "same_books b b1 \<longleftrightarrow> bk_log b1 = bk_log b \<and> bk_traces b1 = bk_traces b \<and> bk_meter b1 = bk_meter b \<and> bk_keys b1 = bk_keys b"

lemma same_books_simps [simp]: "same_books b b" "same_books b (on_attempts fx b1) = same_books b b1"
  by (simp_all add: same_books_def)

lemma booked_same: "same_books b b1 \<Longrightarrow> booked_once st tst b1 b2 \<Longrightarrow> booked_once st tst b b2"
  by (simp add: same_books_def booked_once_def logged_def traced_def)

lemma refused_same:
  assumes "same_books b b1" and "refused b1 b2 r"
  shows "refused b b2 r"
proof -
  from assms(2) obtain st where "booked_once ''error'' st b1 b2" by (auto simp: refused_def)
  then have "booked_once ''error'' st b b2" by (rule booked_same [OF assms(1)])
  with assms show ?thesis by (auto simp: refused_def same_books_def)
qed

text \<open>The marker of a running loop: nothing has happened, or the first byte of the upstream has been seen.\<close>

definition marker_begun :: "'r marker" where
  "marker_begun = \<lparr>mk_sent = [Ping_Out], mk_startup = Some Begun, mk_started = True\<rparr>"

definition marker_ok :: "'r marker option \<Rightarrow> 'r marker option \<Rightarrow> bool" where
  "marker_ok m m1 \<longleftrightarrow>
     (case m of None \<Rightarrow> m1 = None
      | Some k \<Rightarrow> k = marker_new \<or> k = marker_begun \<longrightarrow> m1 = Some marker_new \<or> m1 = Some marker_begun)"

lemma marker_ok_refl [simp]: "marker_ok m m"
  by (simp add: marker_ok_def split: option.split)

lemma marker_ok_trans: "marker_ok m m1 \<Longrightarrow> marker_ok m1 m2 \<Longrightarrow> marker_ok m m2"
  by (auto simp: marker_ok_def split: option.splits)

lemma decode_round_marker: "marker_ok m (snd (decode_round su rank mdl names body m))"
  by (auto simp: decode_round_def marker_ok_def mark_first_upstream_chunk_def marker_new_def marker_begun_def
      split: prod.split option.split)

lemma with_books_fields [simp]:
  "ls_books (with_books f s) = f (ls_books s)" "ls_marker (with_books f s) = ls_marker s"
  "ls_provider (with_books f s) = ls_provider s"
  by (simp_all add: with_books_def)

lemma run_round_booked:
  assumes "run_round lp w payload tokens s = Some (s1, r)"
  shows "marker_ok (ls_marker s) (ls_marker s1) \<and>
    (case r of Inl resp \<Rightarrow> refused (ls_books s) (ls_books s1) resp | Inr _ \<Rightarrow> same_books (ls_books s) (ls_books s1))"
proof -
  let ?su = "lp_setup lp"
  note [simp] = refused_error_books provider_error_refused
  have at: "refused b (error_books ri cid n creds fs et msg (on_attempts fx b)) resp"
    if "refused (on_attempts fx b) (error_books ri cid n creds fs et msg (on_attempts fx b)) resp"
    for b ri cid n creds fs et msg fx and resp :: "'b http_reply"
    using refused_same [of b "on_attempts fx b"] that by simp
  show ?thesis
  proof (cases "convert_request_with_mode_blocking (lp_conversion lp) w payload")
    case (Inl e)
    with assms show ?thesis by (auto simp: run_round_def Let_def loop_conversion_error_def split: conversion_error.splits)
  next
    case (Inr conversion)
    show ?thesis
    proof (cases "lp_print lp (cr_conversation_state conversion) (cr_additional_fields conversion)")
      case (Inl e)
      with assms Inr show ?thesis by (auto simp: run_round_def Let_def)
    next
      case body: (Inr request_body)
      show ?thesis
      proof (cases "call_api_with_retry (lp_surroundings lp) request_body (rw_hops w) (ls_provider s)")
        case None
        with assms Inr body show ?thesis by (simp add: run_round_def Let_def)
      next
        case (Some call)
        obtain pv fx x where call: "call = (pv, fx, x)" by (cases call)
        show ?thesis
        proof (cases x)
          case (Inl e)
          with assms Inr body Some call at show ?thesis by (auto simp: run_round_def Let_def)
        next
          case got: (Inr y)
          obtain response cid where y: "y = (response, cid)" by fastforce
          obtain rd m where d: "decode_round ?su (lp_rank lp) (mr_model payload) (cr_tool_name_map conversion)
              (rw_body w response) (ls_marker s) = (rd, m)" by fastforce
          have "marker_ok (ls_marker s) m" using decode_round_marker [of "ls_marker s"] d by (metis snd_conv)
          with assms Inr body Some call got y d at show ?thesis
            by (auto simp: run_round_def Let_def split: option.splits if_splits)
        qed
      qed
    qed
  qed
qed

definition concluded :: "'i loop_setup \<Rightarrow> books \<Rightarrow> books \<Rightarrow> bool" where
  "concluded lp b b1 \<longleftrightarrow> booked_once ''success'' ''success'' b b1 \<and>
     bk_meter b1 = map_option (commit_success (su_now (lp_setup lp)) (su_plan (lp_setup lp))) (bk_meter b)"

lemma concluded_same: "same_books b b1 \<Longrightarrow> concluded lp b1 b2 \<Longrightarrow> concluded lp b b2"
  by (simp add: concluded_def same_books_def booked_once_def logged_def traced_def)

lemma finish_loop_concluded:
  assumes "same_books b0 b"
  shows "concluded lp b0 (fst (finish_loop lp payload blocks r cid n creds b))"
proof -
  have "booked_once ''success'' ''success'' b (fst (finish_loop lp payload blocks r cid n creds b))"
    by (auto simp: finish_loop_def Let_def intro!: booked_finalize split: prod.split)
  with booked_same [OF assms] assms show ?thesis
    by (simp add: concluded_def finish_loop_def same_books_def Let_def split: prod.split)
qed

lemma search_rounds_booked:
  assumes "search_rounds lp ws thinking tokens left idx payload presentation cid ctx creds s = Some (s1, r)"
  shows "marker_ok (ls_marker s) (ls_marker s1) \<and>
    (case r of Inl resp \<Rightarrow> refused (ls_books s) (ls_books s1) resp | Inr _ \<Rightarrow> concluded lp (ls_books s) (ls_books s1))"
  using assms
proof (induction left arbitrary: idx payload presentation cid ctx creds s)
  case 0
  then show ?case by (auto simp: Let_def refused_error_books)
next
  case (Suc left)
  show ?case
  proof (cases "run_round lp (ws idx) payload tokens s")
    case None
    with Suc.prems show ?thesis by simp
  next
    case (Some a)
    obtain s2 x where a: "a = (s2, x)" by fastforce
    note round = run_round_booked [OF Some [unfolded a]]
    show ?thesis
    proof (cases x)
      case (Inl resp)
      with Suc.prems Some a have "s2 = s1" "r = Inl resp" by simp_all
      with round Inl show ?thesis by simp
    next
      case (Inr y)
      obtain rd cid2 where y: "y = (rd, cid2)" by fastforce
      from round Inr have m: "marker_ok (ls_marker s) (ls_marker s2)" and b: "same_books (ls_books s) (ls_books s2)" by simp_all
      let ?ctx = "case rd_context_tokens rd of Some n \<Rightarrow> Some n | None \<Rightarrow> ctx"
      show ?thesis
      proof (cases "should_search_round idx (rd_tool_uses rd)")
        case False
        obtain b2 success where f: "finish_loop lp payload (presentation @ round_blocks thinking rd) rd cid2
            (case ?ctx of Some n \<Rightarrow> n | None \<Rightarrow> tokens) (creds + rd_credits rd) (ls_books s2) = (b2, success)" by fastforce
        have "concluded lp (ls_books s) b2" using finish_loop_concluded [OF b] f by (metis fst_conv)
        with False Suc.prems Some a Inr y m f show ?thesis by (auto simp: Let_def)
      next
        case True
        show ?thesis
        proof (cases "search_all lp (ws idx) 0 (rd_tool_uses rd) (ls_provider s2)")
          case None
          with True Suc.prems Some a Inr y show ?thesis by (simp add: Let_def)
        next
          case searched: (Some z)
          obtain pv w where z: "z = (pv, w)" by fastforce
          show ?thesis
          proof (cases w)
            case (Inl e)
            with True Suc.prems Some a \<open>x = Inr y\<close> y searched z m refused_same [OF b provider_error_refused] show ?thesis
              by (auto simp: Let_def)
          next
            case found: (Inr results)
            obtain payload2 shown where ap: "append_search_round lp (ws idx) thinking rd results payload presentation = (payload2, shown)"
              by fastforce
            from True Suc.prems Some a \<open>x = Inr y\<close> y searched z found ap
            have "search_rounds lp ws thinking tokens left (Suc idx) payload2 shown cid2 ?ctx (creds + rd_credits rd)
                (s2\<lparr>ls_provider := pv\<rparr>) = Some (s1, r)" by (simp add: Let_def)
            from Suc.IH [OF this] m refused_same [OF b] concluded_same [OF b] show ?thesis
              by (cases r) (auto intro: marker_ok_trans)
          qed
        qed
      qed
    qed
  qed
qed

subsection \<open>What a client gets\<close>

text \<open>An error, a message, or a stream that started with the upstream's first byte.\<close>

definition good_stream :: "sse_event list \<Rightarrow> bool" where
  "good_stream es \<longleftrightarrow>
     (\<exists>p. accepts protocol_step protocol_start es = Some p \<and> pr_open p = {} \<and> pr_ended p)"

lemma filled_channel:
  assumes "marker_ok (Some marker_new) (Some m)" and "\<And>resp. r = Inl resp \<Longrightarrow> \<exists>st ty msg. resp = Error_Reply st ty msg \<and> 400 \<le> st"
  shows "case deferred_reply (fill_channel sd uuid r m) of
      Error_Reply st ty msg \<Rightarrow> (\<exists>x. r = Inl x) \<and> 400 \<le> st
    | Json_Reply st j \<Rightarrow> False
    | Stream_Reply out \<Rightarrow>
        (case r of
           Inr _ \<Rightarrow> good_stream (client_events out)
         | Inl _ \<Rightarrow> \<exists>ty msg. client_events out = [create_error_sse ty msg])"
proof -
  have p: "client_events (Ping_Out # out) = client_events out" for out
    by (simp add: client_events_def List.map_filter_def)
  from assms(1) have "m = marker_new \<or> m = marker_begun" by (auto simp: marker_ok_def)
  then show ?thesis
  proof
    assume "m = marker_new"
    then show ?thesis using assms(2) answer_events_accepted
      by (cases r) (auto simp: fill_channel_def deferred_reply_def fail_before_start_def marker_new_def good_stream_def
          mark_started_before_final_flush_def)
  next
    assume "m = marker_begun"
    then show ?thesis using answer_events_accepted p [of "map Event_Out es" for es]
        p [of "[Event_Out e]" for e] client_events_simps(3) [of "[e]" for e]
      by (cases r) (auto simp: fill_channel_def deferred_reply_def fail_before_start_def marker_begun_def good_stream_def
          mark_started_before_final_flush_def)
  qed
qed

lemma loop_answered:
  assumes "run_web_search_loop lp ws remote uuid stream_client payload pv b = Some (pv1, b1, reply)"
  shows "case reply of
      Error_Reply st ty msg \<Rightarrow>
        400 \<le> st \<and> (\<exists>tst. booked_once ''error'' tst b b1) \<and> bk_meter b1 = bk_meter b
    | Json_Reply st j \<Rightarrow> st = 200 \<and> \<not> stream_client \<and> concluded lp b b1
    | Stream_Reply out \<Rightarrow>
        stream_client \<and>
        (good_stream (client_events out) \<and> concluded lp b b1 \<or>
         (\<exists>ty msg. client_events out = [create_error_sse ty msg]) \<and>
         (\<exists>tst. booked_once ''error'' tst b b1) \<and> bk_meter b1 = bk_meter b)"
proof (cases stream_client)
  case True
  let ?s = "\<lparr>ls_provider = pv, ls_books = b, ls_marker = Some marker_new\<rparr>"
  from assms True obtain s r where inner: "run_web_search_loop_inner lp ws remote payload ?s = Some (s, r)"
    and out: "b1 = ls_books s" "reply = deferred_reply (case ls_marker s of
        Some m \<Rightarrow> fill_channel (su_serde (lp_setup lp)) uuid r m | None \<Rightarrow> marker_new)"
    by (auto simp: run_web_search_loop_def split: option.splits)
  from search_rounds_booked [OF inner [unfolded run_web_search_loop_inner_def Let_def]]
  have ok: "marker_ok (Some marker_new) (ls_marker s)"
    and outcome: "case r of Inl resp \<Rightarrow> refused b (ls_books s) resp | Inr _ \<Rightarrow> concluded lp b (ls_books s)"
    by (cases r; simp)+
  from ok obtain m where m: "ls_marker s = Some m" by (auto simp: marker_ok_def)
  have "\<exists>st ty msg. resp = Error_Reply st ty msg \<and> 400 \<le> st" if "r = Inl resp" for resp
    using outcome that by (simp add: refused_def)
  from filled_channel [where r = r, OF ok [unfolded m] this, where sd = "su_serde (lp_setup lp)" and uuid = uuid] outcome
  show ?thesis unfolding out m
    by (cases r) (auto simp: refused_def True split: http_reply.splits)
next
  case False
  let ?s = "\<lparr>ls_provider = pv, ls_books = b, ls_marker = None\<rparr>"
  from assms False obtain s r where inner: "run_web_search_loop_inner lp ws remote payload ?s = Some (s, r)"
    and out: "b1 = ls_books s" "reply = (case r of Inr x \<Rightarrow> render_json uuid x | Inl resp \<Rightarrow> resp)"
    by (auto simp: run_web_search_loop_def split: option.splits sum.splits)
  from search_rounds_booked [OF inner [unfolded run_web_search_loop_inner_def Let_def]]
  have outcome: "case r of Inl resp \<Rightarrow> refused b (ls_books s) resp | Inr _ \<Rightarrow> concluded lp b (ls_books s)"
    by (cases r; simp)
  then show ?thesis unfolding out
    by (cases r) (auto simp: refused_def render_json_def False)
qed

text \<open>C14: Whatever a request with searches runs into, it is booked once, and the client is told the truth about it: a
  success is booked as one, enters its prefixes into the table of the cache, and reaches the client as
  a JSON message or as a stream that obeys the protocol of the messages API with every block closed and
  the message ended; a failure is booked as one, leaves the table alone, and is an HTTP error, or, when
  the stream has already begun with the upstream's first byte, an error event and nothing else.\<close>

theorem searches_answered:
  assumes "run_web_search_loop lp ws remote uuid stream_client payload pv b = Some (pv1, b1, reply)"
  shows "case reply of
      Error_Reply st ty msg \<Rightarrow>
        400 \<le> st \<and> (\<exists>tst. booked_once ''error'' tst b b1) \<and> bk_meter b1 = bk_meter b
    | Json_Reply st j \<Rightarrow> st = 200 \<and> \<not> stream_client \<and> concluded lp b b1
    | Stream_Reply out \<Rightarrow>
        stream_client \<and>
        (good_stream (client_events out) \<and> concluded lp b b1 \<or>
         (\<exists>ty msg. client_events out = [create_error_sse ty msg]) \<and>
         (\<exists>tst. booked_once ''error'' tst b b1) \<and> bk_meter b1 = bk_meter b)"
  using assms by (rule loop_answered)

subsection \<open>The number of rounds\<close>

lemma rounds_enough:
  fixes s :: "('c, 'r) loop_state"
  assumes "idx \<le> MAX_WEB_SEARCH_ROUNDS" and "MAX_WEB_SEARCH_ROUNDS < idx + left"
  shows "search_rounds lp ws thinking tokens (left + extra) idx payload presentation cid ctx creds s =
    search_rounds lp ws thinking tokens left idx payload presentation cid ctx creds s"
  using assms
proof (induction left arbitrary: idx payload presentation cid ctx creds s)
  case (Suc left)
  show ?case
  proof (cases "idx < MAX_WEB_SEARCH_ROUNDS")
    case True
    with Suc.prems(2) have same: "(search_rounds lp ws thinking tokens (left + extra) (Suc idx)
          :: messages_request \<Rightarrow> json list \<Rightarrow> u64 \<Rightarrow> int option \<Rightarrow> rat \<Rightarrow> ('c, 'r) loop_state \<Rightarrow> _)
        = search_rounds lp ws thinking tokens left (Suc idx)" by (intro ext Suc.IH) simp_all
    show ?thesis unfolding add_Suc search_rounds.simps same ..
  next
    case False
    then have stop: "should_search_round idx = (\<lambda>_. False)" by (auto simp: should_search_round_def)
    show ?thesis unfolding add_Suc search_rounds.simps stop if_False ..
  qed
qed simp

text \<open>Five rounds of searches, and the loop ends: the sixth answer of the upstream goes to the client whatever it asks
  for, so the code behind the loop is never reached, and more rounds would not change anything. A loop
  whose calls return therefore returns itself, with an answer of the upstream or the error of a call.\<close>

theorem searches_bounded:
  "search_rounds lp ws thinking tokens (Suc MAX_WEB_SEARCH_ROUNDS + extra) 0 payload [] 0 None 0 s =
   search_rounds lp ws thinking tokens (Suc MAX_WEB_SEARCH_ROUNDS) 0 payload [] 0 None 0 s"
  by (rule rounds_enough) simp_all

subsection \<open>What is fed back\<close>


subsection \<open>A small loop\<close>

lemma sample_call:
  "\<exists>pv fx. call_api_with_retry sample_surroundings [] (\<lambda>_. sample_hop 200) sample_provider = Some (pv, fx, Inr (sample_reply 200, 2))"
proof -
  have m: "extract_model_from_request (sr_serde sample_surroundings) [] = None"
    by (simp add: extract_model_from_request_def sample_surroundings_def)
  define p where "p = preset Fast"
  have pool: "mg_retry_mode sample_pool = Fast" "mg_retry_policy sample_pool = None" "total_count sample_pool = 2"
    by (simp_all add: sample_pool_def initial_manager_def sample_config_def total_count_def)
  have "effective Fast None = Inr p" unfolding p_def by code_simp
  then have e: "effective_retry_policy sample_provider = Inr (Fast, p)"
    by (simp add: effective_retry_policy_def get_retry_policy_def pool)
  define n where "n = unat (max_retries (of_nat (total_count (pv_manager sample_provider))) p)"
  have "0 < n"
    by (simp add: n_def p_def max_retries_def unat_min MAX_TOTAL_RETRIES_def pool)
  then obtain k where k: "n = Suc k" by (cases n) auto
  obtain pv fx where "api_attempt sample_surroundings None [] (sample_hop 200) p 0 n sample_provider {}
     = Some (pv, {}, fx, Return (Inr (sample_reply 200, 2)))" using sample_attempt [of p 0 n] by blast
  moreover have "unat (max_retries (of_nat (total_count sample_pool)) p) = Suc k" using k by (simp add: n_def)
  ultimately show ?thesis by (simp add: call_api_with_retry_def m call_with_def e k)
qed

definition sample_loop :: "(nat \<times> nat) loop_setup" where
  "sample_loop = \<lparr>lp_setup = sample_setup, lp_conversion = sample_conversion,
     lp_web = \<lparr>wb_serde = sample_serde, wb_read_response = (\<lambda>_. Inl []), wb_read_results = (\<lambda>_. None), wb_format_date = (\<lambda>_. None)\<rparr>,
     lp_surroundings = sample_surroundings, lp_print = (\<lambda>_ _. Inr []), lp_describe = (\<lambda>_. []),
     lp_describe_search = (\<lambda>_. []), lp_rank = (\<lambda>_ _. 0)\<rparr>"

definition sample_world :: "unit round_world" where
  "sample_world = \<lparr>rw_cwd = None, rw_conversation_id = [], rw_continuation_id = [], rw_join_error = [],
     rw_hops = (\<lambda>_. sample_hop 200), rw_body = (\<lambda>_. ([], False)), rw_searches = (\<lambda>_ _. sample_hop 200),
     rw_ids = (\<lambda>_. \<lparr>ri_22 = [], ri_millis = 0, ri_8 = [], ri_uuid = []\<rparr>),
     rw_shown_ids = (\<lambda>_. \<lparr>ri_22 = [], ri_millis = 0, ri_8 = [], ri_uuid = []\<rparr>), rw_hint = []\<rparr>"

lemma sample_round:
  fixes s :: "(unit, 'r) loop_state"
  assumes "ls_provider s = sample_provider"
  shows "\<exists>s1 r cid. run_round sample_loop sample_world sample_conversation n s = Some (s1, Inr (r, cid)) \<and>
    rd_tool_uses r = [] \<and> ls_marker s1 = ls_marker s"
proof -
  obtain cr where cr: "convert_request_with_mode sample_conversion None [] [] sample_conversation = Converted cr"
    using sample_converted by blast
  obtain pv fx where call: "call_api_with_retry sample_surroundings [] (\<lambda>_. sample_hop 200) sample_provider
      = Some (pv, fx, Inr (sample_reply 200, 2))" using sample_call by blast
  show ?thesis
    by (simp add: run_round_def convert_request_with_mode_blocking_def sample_loop_def sample_world_def cr call assms
        decode_round_def upstream_events_def List.map_filter_def round_start_def from_tool_accumulator_finish_def
        finish_empty Let_def)
qed

theorem searches_answered_witness:
  "\<exists>pv b out. run_web_search_loop sample_loop (\<lambda>_. sample_world) None ''u'' True sample_conversation sample_provider sample_books
     = Some (pv, b, Stream_Reply out) \<and> good_stream (client_events out) \<and> concluded sample_loop sample_books b"
proof -
  let ?s = "\<lparr>ls_provider = sample_provider, ls_books = sample_books, ls_marker = Some marker_new\<rparr>
    :: (unit, downstream list) loop_state"
  obtain n th where inner: "run_web_search_loop_inner sample_loop (\<lambda>_. sample_world) None sample_conversation ?s =
      search_rounds sample_loop (\<lambda>_. sample_world) th n (Suc MAX_WEB_SEARCH_ROUNDS) 0 sample_conversation [] 0 None 0 ?s"
    by (simp add: run_web_search_loop_inner_def Let_def)
  from sample_round [of ?s n] obtain s1 r cid where r: "run_round sample_loop sample_world sample_conversation n ?s =
      Some (s1, Inr (r, cid))" "rd_tool_uses r = []" "ls_marker s1 = Some marker_new" by auto
  obtain b x where f: "finish_loop sample_loop sample_conversation (round_blocks th r) r cid
      (case rd_context_tokens r of None \<Rightarrow> n | Some n \<Rightarrow> n) (rd_credits r) (ls_books s1) = (b, x)" by fastforce
  with r have x: "run_web_search_loop_inner sample_loop (\<lambda>_. sample_world) None sample_conversation ?s =
      Some (s1\<lparr>ls_books := b\<rparr>, Inr x)"
    unfolding inner by (cases "rd_context_tokens r") (simp_all add: should_search_round_def Let_def)
  then have run: "run_web_search_loop sample_loop (\<lambda>_. sample_world) None ''u'' True sample_conversation sample_provider sample_books
      = Some (ls_provider s1, b, Stream_Reply (mk_sent (fill_channel (su_serde (lp_setup sample_loop)) ''u'' (Inr x) marker_new)))"
    using r(3) by (simp add: run_web_search_loop_def fill_channel_def deferred_reply_def mark_started_before_final_flush_def
        marker_new_def)
  let ?out = "mk_sent (fill_channel (su_serde (lp_setup sample_loop)) ''u'' (Inr x) (marker_new :: downstream list marker))"
  have "client_events ?out = build_sse_events (su_serde (lp_setup sample_loop)) ''u'' x"
    by (simp add: fill_channel_def mark_started_before_final_flush_def marker_new_def)
  then have "client_events ?out \<noteq> [e]" for e by (simp add: build_sse_events_def)
  with searches_answered [OF run] run show ?thesis by auto
qed


end
