(* ===== verification/Messages_Api.thy ===== *)
theory Messages_Api imports Search_Loop begin

section \<open>The requests for messages (src/src/anthropic/handlers.rs)\<close>

text \<open>
  From a request to one of its answers: the images are counted, the thinking that the model's name asks
  for and the name of the search tool are written into the request, its tokens are counted and its
  prefixes looked up; then it is a direct search, a request with searches, or a conversation that is
  answered with a stream or whole. \<open>post_messages\<close> and \<open>post_messages_cc\<close> differ in the kind of stream.
\<close>

subsection \<open>The request\<close>

definition normalize_tool :: "tool \<Rightarrow> tool" where
  "normalize_tool t =
    (if tl_name t = ''WebSearch''
     then t\<lparr>tl_name := ''web_search'',
            tl_type := (case tl_type t of None \<Rightarrow> Some ''web_search_20250305'' | Some ty \<Rightarrow> Some ty)\<rparr>
     else t)"

definition normalize_choice :: "json \<Rightarrow> json" where
  "normalize_choice choice =
    (case choice of
       JObj m \<Rightarrow> if json_str choice ''name'' = Some ''WebSearch'' then JObj (map_insert ''name'' (JStr ''web_search'') m) else choice
     | _ \<Rightarrow> choice)"

definition normalize_web_search_tool :: "messages_request \<Rightarrow> messages_request" where
  "normalize_web_search_tool req =
     req\<lparr>mr_tools := map_option (map normalize_tool) (mr_tools req),
         mr_tool_choice := map_option normalize_choice (mr_tool_choice req)\<rparr>"

fun parse_effort :: "string list \<Rightarrow> string \<Rightarrow> string option" where
  "parse_effort [] model_lower = None"
| "parse_effort (e # es) model_lower =
     (if contains model_lower (''thinking-'' @ e) \<or> contains model_lower (''thinking_'' @ e) then Some e
      else parse_effort es model_lower)"

definition parse_thinking_effort_from_model_name :: "string \<Rightarrow> string option" where
  "parse_thinking_effort_from_model_name = parse_effort [''max'', ''xhigh'', ''high'', ''medium'', ''low'']"

definition is_native_output_config_model :: "string \<Rightarrow> bool" where
  "is_native_output_config_model m \<longleftrightarrow>
     contains m ''opus'' \<and> (contains m ''4-6'' \<or> contains m ''4.6'' \<or> contains m ''4-7'' \<or> contains m ''4.7''
       \<or> contains m ''4-8'' \<or> contains m ''4.8'')
     \<or> contains m ''sonnet'' \<and> (contains m ''4-6'' \<or> contains m ''4.6'')"

definition override_thinking_from_model_name :: "(string \<Rightarrow> string) \<Rightarrow> messages_request \<Rightarrow> messages_request" where
  "override_thinking_from_model_name lower req =
    (let m = lower (mr_model req) in
     if \<not> contains m ''thinking'' then
       (case mr_thinking req of
          Some t \<Rightarrow>
            if th_type t = ''adaptive'' \<and> mr_output_config req = None
            then req\<lparr>mr_output_config := Some \<lparr>oc_effort = normalize_thinking_effort []\<rparr>\<rparr> else req
        | None \<Rightarrow> req)
     else
       let native = is_native_output_config_model m;
           req = req\<lparr>mr_thinking := Some \<lparr>th_type = (if native then ''adaptive'' else ''enabled''), th_budget_tokens = 20000\<rparr>\<rparr>
       in if native then
            req\<lparr>mr_output_config := Some \<lparr>oc_effort =
              (case parse_thinking_effort_from_model_name m of
                 Some e \<Rightarrow> e
               | None \<Rightarrow>
                   (case mr_output_config req of
                      Some config \<Rightarrow> normalize_thinking_effort (oc_effort config)
                    | None \<Rightarrow> normalize_thinking_effort []))\<rparr>\<rparr>
          else req)"

subsection \<open>The images\<close>

record image_budget =
  ib_count :: nat
  ib_total :: nat
  ib_largest :: nat

definition count_image_source :: "json option \<Rightarrow> image_budget \<Rightarrow> image_budget" where
  "count_image_source source ib =
    (case source of
       None \<Rightarrow> ib
     | Some src \<Rightarrow>
         if json_str src ''type'' \<noteq> Some ''base64'' then ib
         else
           let n = (case json_str src ''data'' of Some s \<Rightarrow> length s | None \<Rightarrow> 0)
           in \<lparr>ib_count = ib_count ib + 1, ib_total = ib_total ib + n, ib_largest = max (ib_largest ib) n\<rparr>)"

text \<open>Results of tools hold blocks, and images, of their own.\<close>

function count_images_in_blocks :: "json list \<Rightarrow> image_budget \<Rightarrow> image_budget" where
  "count_images_in_blocks [] ib = ib"
| "count_images_in_blocks (item # rest) ib =
     count_images_in_blocks rest
       (if json_str item ''type'' = Some ''image'' then count_image_source (json_get item ''source'') ib
        else if json_str item ''type'' = Some ''tool_result'' then
          (case json_get item ''content'' of Some (JArr bs) \<Rightarrow> count_images_in_blocks bs ib | _ \<Rightarrow> ib)
        else ib)"
  by pat_completeness auto
termination
  by (relation "measure (\<lambda>(bs, ib). size_list size bs)") (auto dest: json_get_size)

definition count_image_budget :: "messages_request \<Rightarrow> image_budget" where
  "count_image_budget req =
     fold (\<lambda>m ib. case cm_content m of JArr bs \<Rightarrow> count_images_in_blocks bs ib | _ \<Rightarrow> ib) (mr_messages req)
       \<lparr>ib_count = 0, ib_total = 0, ib_largest = 0\<rparr>"

definition error_hook :: "request_info \<Rightarrow> books \<Rightarrow> books" where
  "error_hook ri = hook_record ri 0 0 0 0 0 0 ''error''"

definition validate_image_budget_or_response ::
  "request_image_limits \<Rightarrow> image_budget \<Rightarrow> request_info \<Rightarrow> books \<Rightarrow> (books \<times> 'r http_reply) option" where
  "validate_image_budget_or_response limits ib ri b =
    (case validate_image_limits limits (ib_count ib) (ib_total ib) of
       Inr _ \<Rightarrow> None
     | Inl e \<Rightarrow> Some (error_hook ri b, Error_Reply 400 ''invalid_request_error'' (resize_error_text e)))"

subsection \<open>The ways to an answer\<close>

record 'i api =
  ap_loop :: "'i loop_setup"
  ap_metering :: "'i metering"
  ap_limits :: request_image_limits
  ap_extract_thinking :: bool

record 'c request_world =
  qw_rounds :: "nat \<Rightarrow> 'c round_world"
  qw_remote :: "(nat \<times> int) option"
  qw_plan_time :: int
  qw_uuid :: string
  qw_ranks :: "int list \<Rightarrow> int \<Rightarrow> nat"
  qw_whole_body :: "http_response \<Rightarrow> string + byte list"

datatype served =
    Replied books "downstream list http_reply"
  | Streaming "http_response option" "sse_stream deferred_stream"
  | Buffering "http_response option" "buffered_stream deferred_stream"

definition reply_ok :: "'r http_reply \<Rightarrow> bool" where
  "reply_ok r =
    (case r of Error_Reply st _ _ \<Rightarrow> 200 \<le> st \<and> st < 300 | Json_Reply st _ \<Rightarrow> 200 \<le> st \<and> st < 300 | Stream_Reply _ \<Rightarrow> True)"

definition downstream_reply :: "sse_event list http_reply \<Rightarrow> downstream list http_reply" where
  "downstream_reply r =
    (case r of Error_Reply st ty msg \<Rightarrow> Error_Reply st ty msg | Json_Reply st j \<Rightarrow> Json_Reply st j
     | Stream_Reply es \<Rightarrow> Stream_Reply (map Event_Out es))"

text \<open>A request that is nothing but a search.\<close>

definition direct_search ::
  "'i api \<Rightarrow> 'c request_world \<Rightarrow> stream_setup \<Rightarrow> messages_request \<Rightarrow> int \<Rightarrow> 'c provider \<Rightarrow> books
     \<Rightarrow> ('c provider \<times> served) option" where
  "direct_search ap w su req total_input_tokens pv b =
    (let lp = ap_loop ap; ri = su_info su; w0 = qw_rounds w 0 in
     case split_against_total (pl_usage (su_plan su)) total_input_tokens of
       (inp, creation, reads) \<Rightarrow>
         (case handle_websearch_request (lp_web lp) (lp_surroundings lp) (rw_searches w0 0) (rw_ids w0 0) (qw_uuid w) req
                 (inp, creation, reads) pv of
            None \<Rightarrow> None
          | Some (pv, resp) \<Rightarrow>
              let status = (if reply_ok resp then ''success'' else ''error'');
                  b = (if status = ''success'' then commit_plan (su_now su) (su_plan su) b else b);
                  b = finalize_trace ri status None None None (set_usage inp 0 creation reads b)
              in Some (pv, Replied (hook_record ri 0 inp 0 creation reads 0 status b) (downstream_reply resp))))"

definition PROVIDER_MISSING :: "downstream list http_reply" where
  "PROVIDER_MISSING = Error_Reply 503 ''service_unavailable'' ''Kiro API provider not configured''"

definition SERIALIZE_FAILED :: string where
  "SERIALIZE_FAILED =
    [CHR 0xE5, CHR 0xBA, CHR 0x8F, CHR 0xE5, CHR 0x88, CHR 0x97, CHR 0xE5, CHR 0x8C, CHR 0x96, CHR 0xE8, CHR 0xAF, CHR 0xB7,
     CHR 0xE6, CHR 0xB1, CHR 0x82, CHR 0xE5, CHR 0xA4, CHR 0xB1, CHR 0xE8, CHR 0xB4, CHR 0xA5] @ '': ''"

text \<open>A conversation: converted, printed, sent; \<open>buffered\<close> says which kind of stream.\<close>

definition converse ::
  "'i api \<Rightarrow> 'c request_world \<Rightarrow> bool \<Rightarrow> stream_setup \<Rightarrow> messages_request \<Rightarrow> int \<Rightarrow> 'c provider \<Rightarrow> books
     \<Rightarrow> ('c provider \<times> served) option" where
  "converse ap w buffered su req total_input_tokens pv b =
    (let lp = ap_loop ap; ri = su_info su; w0 = qw_rounds w 0 in
     case convert_request_with_mode_blocking (lp_conversion lp) w0 req of
       Inl e \<Rightarrow> (case conversion_error_response e of (ty, msg) \<Rightarrow> Some (pv, Replied (error_hook ri b) (Error_Reply 400 ty msg)))
     | Inr conversion \<Rightarrow>
     case lp_print lp (cr_conversation_state conversion) (cr_additional_fields conversion) of
       Inl e \<Rightarrow> Some (pv, Replied (error_hook ri b) (Error_Reply 500 ''internal_error'' (SERIALIZE_FAILED @ e)))
     | Inr request_body \<Rightarrow>
         let thinking = (case mr_thinking req of Some t \<Rightarrow> thinking_is_enabled t | None \<Rightarrow> False);
             names = cr_tool_name_map conversion;
             c = new_with_thinking (qw_ranks w) (lp_rank lp) (qw_uuid w) (mr_model req) total_input_tokens thinking names
         in if mr_stream req then
              (if buffered then
                 map_option (\<lambda>(pv, response, s). (pv, Buffering response s))
                   (create_deferred_buffered_sse_stream c su total_input_tokens (lp_surroundings lp) (rw_hops w0)
                      (lp_describe lp) (rw_hint w0) request_body pv b)
               else
                 map_option (\<lambda>(pv, response, s). (pv, Streaming response s))
                   (create_deferred_sse_stream c su total_input_tokens (lp_surroundings lp) (rw_hops w0)
                      (lp_describe lp) (rw_hint w0) request_body pv b))
            else
              map_option (\<lambda>(pv, b, reply). (pv, Replied b reply))
                (handle_non_stream_request
                   \<lparr>wh_setup = su, wh_codecs = cv_codecs (lp_conversion lp), wh_images = cv_images (lp_conversion lp),
                    wh_model = mr_model req, wh_input_tokens = total_input_tokens,
                    wh_thinking = (ap_extract_thinking ap \<and> thinking), wh_names = names, wh_uuid = qw_uuid w, wh_rank = lp_rank lp\<rparr>
                   (lp_surroundings lp) (rw_hops w0) (lp_describe lp) (rw_hint w0) (qw_whole_body w) request_body pv b))"

text \<open>Behind the checks: the request as it is answered, its tokens and its plan for the cache.\<close>

definition answer_request ::
  "'i api \<Rightarrow> 'c request_world \<Rightarrow> bool \<Rightarrow> messages_request \<Rightarrow> 'c provider \<Rightarrow> books \<Rightarrow> ('c provider \<times> served) option" where
  "answer_request ap w buffered payload pv b =
    (let lp = ap_loop ap; cv = lp_conversion lp; su = lp_setup lp;
         req = normalize_web_search_tool (override_thinking_from_model_name (cv_lower cv) payload);
         tokens = as_i32 (count_all_tokens (su_serde su) (cv_codecs cv) (cv_images cv) (qw_remote w) (mr_system req)
           (mr_messages req) (mr_tools req));
         (meter, plan) =
           (case bk_meter b of
              Some m \<Rightarrow> (case compute_cache_usage (ap_metering ap) (qw_plan_time w) req (rq_key_id (su_info su)) m of
                           (m, p) \<Rightarrow> (Some m, p))
            | None \<Rightarrow> (None, \<lparr>pl_usage = cache_usage_default, pl_commit = None\<rparr>));
         b = b\<lparr>bk_meter := meter\<rparr>; su = su\<lparr>su_plan := plan\<rparr>
     in if has_web_search_tool req \<and> is_direct_web_search_request req then direct_search ap w su req tokens pv b
        else if has_web_search_tool req \<or> has_web_search_among_tools req then
          map_option (\<lambda>(pv, b, reply). (pv, Replied b reply))
            (run_web_search_loop (lp\<lparr>lp_setup := su\<rparr>) (qw_rounds w) (qw_remote w) (qw_uuid w) (mr_stream req) req pv b)
        else converse ap w buffered su req tokens pv b)"

definition checked_request ::
  "'i api \<Rightarrow> 'c request_world \<Rightarrow> bool \<Rightarrow> messages_request \<Rightarrow> 'c provider option \<Rightarrow> books
     \<Rightarrow> ('c provider option \<times> served) option" where
  "checked_request ap w buffered payload configured b =
    (let ri = su_info (lp_setup (ap_loop ap)) in
     case validate_image_budget_or_response (ap_limits ap) (count_image_budget payload) ri b of
       Some (b, resp) \<Rightarrow> Some (configured, Replied b resp)
     | None \<Rightarrow>
         (case configured of
            None \<Rightarrow> Some (None, Replied (error_hook ri b) PROVIDER_MISSING)
          | Some pv \<Rightarrow> map_option (\<lambda>(pv, s). (Some pv, s)) (answer_request ap w buffered payload pv b)))"

definition post_messages ::
  "'i api \<Rightarrow> 'c request_world \<Rightarrow> messages_request \<Rightarrow> 'c provider option \<Rightarrow> books \<Rightarrow> ('c provider option \<times> served) option" where
  "post_messages ap w = checked_request ap w False"

definition post_messages_cc ::
  "'i api \<Rightarrow> 'c request_world \<Rightarrow> messages_request \<Rightarrow> 'c provider option \<Rightarrow> books \<Rightarrow> ('c provider option \<times> served) option" where
  "post_messages_cc ap w = checked_request ap w True"

definition count_tokens_reply ::
  "serde \<Rightarrow> 'i codecs \<Rightarrow> resize_config \<Rightarrow> (nat \<times> int) option \<Rightarrow> system_message list option \<Rightarrow> chat_message list
     \<Rightarrow> tool list option \<Rightarrow> 'r http_reply" where
  "count_tokens_reply sd cd cfg remote system messages tools =
     Json_Reply 200 (JObj [(''input_tokens'', JInt (max (as_i32 (count_all_tokens sd cd cfg remote system messages tools)) 1))])"

subsection \<open>Names\<close>

lemma effort_range: "parse_effort es m = Some e \<Longrightarrow> e \<in> set es"
  by (induction es) (auto split: if_splits)

text \<open>A model name that asks for thinking gets it whatever the request says: thinking is switched on with its budget, and
  a model with a native setting gets the adaptive kind and an effort that the upstream knows, the one in
  the name before the one in the request; and with an adaptive request there is always an effort.\<close>

theorem thinking_of_name:
  "let req1 = override_thinking_from_model_name lower req; m = lower (mr_model req);
       efforts = {''low'', ''medium'', ''high'', ''xhigh'', ''max''}
   in (if contains m ''thinking'' then
         \<exists>t. mr_thinking req1 = Some t \<and> thinking_is_enabled t \<and> th_budget_tokens t = 20000 \<and>
           (is_native_output_config_model m \<longrightarrow>
              th_type t = ''adaptive'' \<and>
              (\<exists>e \<in> efforts. mr_output_config req1 = Some \<lparr>oc_effort = e\<rparr> \<and>
                 (\<forall>e1. parse_thinking_effort_from_model_name m = Some e1 \<longrightarrow> e = e1)))
       else mr_thinking req1 = mr_thinking req) \<and>
      (\<forall>t. mr_thinking req1 = Some t \<and> th_type t = ''adaptive'' \<longrightarrow> mr_output_config req1 \<noteq> None) \<and>
      mr_model req1 = mr_model req \<and> mr_messages req1 = mr_messages req \<and> mr_tools req1 = mr_tools req"
proof -
  have e: "e \<in> {''low'', ''medium'', ''high'', ''xhigh'', ''max''}" if "parse_thinking_effort_from_model_name m = Some e" for e m
    using effort_range [OF that [unfolded parse_thinking_effort_from_model_name_def]] by auto
  show ?thesis
    using e normalize_thinking_effort_range
    by (auto simp: override_thinking_from_model_name_def Let_def thinking_is_enabled_def split: option.splits)
qed

theorem thinking_of_name_witness:
  "\<exists>t. mr_thinking (override_thinking_from_model_name id (sample_conversation\<lparr>mr_model := ''opus-4-6-thinking-high''\<rparr>)) = Some t \<and>
     th_type t = ''adaptive'' \<and> th_budget_tokens t = 20000"
proof -
  have "contains ''opus-4-6-thinking-high'' ''thinking''" "is_native_output_config_model ''opus-4-6-thinking-high''" by code_simp+
  then show ?thesis
    using thinking_of_name [of id "sample_conversation\<lparr>mr_model := ''opus-4-6-thinking-high''\<rparr>"] by (auto simp: Let_def)
qed

text \<open>
  The search tool is recognised under both names, and normalising twice changes nothing.\<close>

lemma normalize_tool_again: "normalize_tool (normalize_tool t) = normalize_tool t"
  by (simp add: normalize_tool_def)

lemma search_recognised:
  "has_web_search_tool (normalize_web_search_tool req) \<longleftrightarrow>
     (\<exists>t. mr_tools req = Some [t] \<and> tl_name t \<in> {''WebSearch'', ''web_search''})"
proof -
  have n: "tl_name (normalize_tool t) = ''web_search'' \<longleftrightarrow> tl_name t \<in> {''WebSearch'', ''web_search''}" for t
    by (simp add: normalize_tool_def)
  show ?thesis
    by (auto simp: has_web_search_tool_def normalize_web_search_tool_def n split: option.split list.split)
qed

subsection \<open>The images of a request\<close>

lemma count_images_bounds:
  "ib_largest ib \<le> ib_total ib \<Longrightarrow> ib_largest (count_images_in_blocks bs ib) \<le> ib_total (count_images_in_blocks bs ib) \<and>
     ib_total ib \<le> ib_total (count_images_in_blocks bs ib) \<and> ib_count ib \<le> ib_count (count_images_in_blocks bs ib)"
proof (induction bs ib rule: count_images_in_blocks.induct)
  case (2 item rest ib)
  let ?ib = "if json_str item ''type'' = Some ''image'' then count_image_source (json_get item ''source'') ib
     else if json_str item ''type'' = Some ''tool_result'' then
       (case json_get item ''content'' of Some (JArr bs) \<Rightarrow> count_images_in_blocks bs ib | _ \<Rightarrow> ib)
     else ib"
  have source: "ib_largest (count_image_source src ib) \<le> ib_total (count_image_source src ib) \<and>
      ib_total ib \<le> ib_total (count_image_source src ib) \<and> ib_count ib \<le> ib_count (count_image_source src ib)" for src
    using 2(3) by (auto simp: count_image_source_def Let_def split: option.split)
  obtain j where j: "j = ?ib" by blast
  have "ib_largest j \<le> ib_total j \<and> ib_total ib \<le> ib_total j \<and> ib_count ib \<le> ib_count j"
    unfolding j using source 2(1,3) by (auto split: option.splits json.splits)
  moreover have "count_images_in_blocks (item # rest) ib = count_images_in_blocks rest j"
    unfolding j by (rule count_images_in_blocks.simps(2))
  ultimately show ?case using 2(2) [folded j] by auto
qed simp

subsection \<open>Every request is in the books\<close>

text \<open>What an answer says, and what the log says of it.\<close>

definition accounted :: "books \<Rightarrow> books \<Rightarrow> 'r http_reply \<Rightarrow> bool" where
  "accounted b b1 reply \<longleftrightarrow>
    (case reply of
       Error_Reply code _ _ \<Rightarrow> 400 \<le> code \<and> logged ''error'' b b1
     | Json_Reply code _ \<Rightarrow> code = 200 \<and> logged ''success'' b b1
     | Stream_Reply _ \<Rightarrow> logged ''success'' b b1 \<or> logged ''error'' b b1)"

lemma accounted_simps [simp]:
  "accounted b b1 (map_provider_error sd hint err) \<longleftrightarrow> logged ''error'' b b1"
  "accounted b b1 (Error_Reply code ty msg) \<longleftrightarrow> 400 \<le> code \<and> logged ''error'' b b1"
  by (simp_all add: accounted_def map_provider_error_def provider_error_status_and_detail_def)

lemma logged_answers [simp]:
  "logged ''error'' b (call_failed_books ri n err b)" "logged ''error'' b (failed_books ws e a b)"
  "logged ''error'' b (error_hook ri b)"
    apply (rule conjunct1 [OF call_failed_once [unfolded booked_once_def]])
   apply (rule conjunct1 [OF failed_books_once [unfolded booked_once_def]])
  by (simp add: error_hook_def)

lemma logged_attempts [simp]: "logged st (on_attempts fx b) b1 = logged st b b1"
  by (simp add: logged_def)

lemma logged_after_attempts [simp]:
  "logged ''error'' b (call_failed_books ri n err (on_attempts fx b))"
  "logged ''error'' b (failed_books ws e a (on_attempts fx b))"
  "logged st b (hook_record ri cid i ou cc cr x st (on_attempts fx b))"
  using logged_answers(1) [of "on_attempts fx b"] logged_answers(2) [of "on_attempts fx b"]
    logged_hook [of st "on_attempts fx b"] by (simp_all del: logged_answers logged_hook)

lemma body_accounted:
  "accounted b (fst (answer_from_body ws body b)) (snd (answer_from_body ws body b))"
  using finished_books_once [of b ws]
  by (auto simp: answer_from_body_def Let_def finished_answer_def accounted_def booked_once_def error_type_def
      split: sum.split prod.split)

lemma accounted_attempts [simp]: "accounted (on_attempts fx b) b1 r = accounted b b1 r"
  by (simp add: accounted_def split: http_reply.split)

lemma whole_accounted:
  fixes reply :: "'r http_reply"
  assumes "handle_non_stream_request ws sr hops describe hint body_of request_body pv b = Some (pv1, b1, reply)"
  shows "accounted b b1 reply"
proof -
  obtain pv2 fx r where call: "call_api_with_retry sr request_body hops pv = Some (pv2, fx, r)"
    using assms by (auto simp: handle_non_stream_request_def Let_def split: option.splits)
  show ?thesis
  proof (cases r)
    case (Inl e)
    with assms call show ?thesis by (auto simp: handle_non_stream_request_def Let_def)
  next
    case (Inr x)
    obtain response cid where x: "x = (response, cid)" by fastforce
    let ?ws = "ws\<lparr>wh_setup := (wh_setup ws)\<lparr>su_credential := cid\<rparr>\<rparr>"
    show ?thesis
    proof (cases "body_of response")
      case (Inl err)
      with assms call Inr x show ?thesis by (auto simp: handle_non_stream_request_def Let_def)
    next
      case body: (Inr body)
      with assms call Inr x have "answer_from_body ?ws body (on_attempts fx b) = (b1, reply)"
        by (auto simp: handle_non_stream_request_def Let_def split: prod.splits)
      moreover let ?answer = "answer_from_body ?ws body (on_attempts fx b) :: books \<times> 'r http_reply"
      have "accounted (on_attempts fx b) (fst ?answer) (snd ?answer)" by (rule body_accounted)
      ultimately show ?thesis by simp
    qed
  qed
qed

text \<open>An answer to a request: it is in the books, or it is a stream that will be.\<close>

definition served_well :: "books \<Rightarrow> served \<Rightarrow> bool" where
  "served_well b s \<longleftrightarrow>
    (case s of
       Replied b1 reply \<Rightarrow> accounted b b1 reply
     | Streaming _ (Failed_Start b1 e) \<Rightarrow> booked_once ''error'' ''error'' b b1
     | Streaming _ (Started su st) \<Rightarrow> bk_log (ss_books st) = bk_log b \<and> bk_traces (ss_books st) = bk_traces b \<and> \<not> ss_finished st
     | Buffering _ (Failed_Start b1 e) \<Rightarrow> booked_once ''error'' ''error'' b b1
     | Buffering _ (Started su st) \<Rightarrow> bk_log (bu_books st) = bk_log b \<and> bk_traces (bu_books st) = bk_traces b \<and> \<not> bu_finished st)"

lemma call_failed_after_attempts: "booked_once ''error'' ''error'' b (call_failed_books ri n err (on_attempts fx b))"
  using call_failed_once [of "on_attempts fx b"] by (simp add: booked_after_attempts)

lemma deferred_stream_well:
  assumes "create_deferred_sse_stream c su n sr hops describe hint body pv b = Some (pv1, response, s)"
  shows "served_well b (Streaming response s)"
  using assms call_failed_after_attempts
  by (auto simp: create_deferred_sse_stream_def deferred_def served_well_def Let_def sse_stream_start_def
      split: option.splits sum.splits prod.splits)

lemma deferred_buffered_well:
  assumes "create_deferred_buffered_sse_stream c su n sr hops describe hint body pv b = Some (pv1, response, s)"
  shows "served_well b (Buffering response s)"
  using assms call_failed_after_attempts
  by (auto simp: create_deferred_buffered_sse_stream_def deferred_def served_well_def Let_def buffered_stream_start_def
      split: option.splits sum.splits prod.splits)

lemma converse_well:
  assumes "converse ap w buffered su req n pv b = Some (pv1, s)"
  shows "served_well b s"
proof (cases "convert_request_with_mode_blocking (lp_conversion (ap_loop ap)) (qw_rounds w 0) req")
  case (Inl e)
  with assms show ?thesis by (auto simp: converse_def Let_def served_well_def split: prod.splits)
next
  case (Inr conversion)
  show ?thesis
  proof (cases "lp_print (ap_loop ap) (cr_conversation_state conversion) (cr_additional_fields conversion)")
    case (Inl e)
    with assms Inr show ?thesis by (auto simp: converse_def Let_def served_well_def)
  next
    case body: (Inr request_body)
    from assms Inr body show ?thesis
      by (auto simp: converse_def Let_def served_well_def [of b "Replied b1 r" for b1 r] deferred_stream_well
          deferred_buffered_well whole_accounted split: if_splits)
  qed
qed

lemma logged_hook_later:
  "bk_log b1 = bk_log b \<Longrightarrow> bk_keys b1 = bk_keys b \<Longrightarrow> logged st b (hook_record ri cid i ou cc cr x st b1)"
  using logged_hook [of st b1 ri cid i ou cc cr x] by (simp add: logged_def del: logged_hook)

lemma direct_search_well:
  assumes "direct_search ap w su req n pv b = Some (pv1, s)" and "is_direct_web_search_request req"
  shows "served_well b s"
  using assms
  by (auto simp: direct_search_def Let_def handle_websearch_request_def is_direct_web_search_request_def served_well_def
      accounted_def reply_ok_def downstream_reply_def case_prod_unfold logged_hook_later split: option.splits)

lemma searches_well:
  assumes "run_web_search_loop lp ws remote uuid stream_client payload pv b = Some (pv1, b1, reply)"
  shows "accounted b b1 reply"
  using loop_answered [OF assms]
  by (auto simp: accounted_def booked_once_def concluded_def split: http_reply.splits)

lemma answer_request_well:
  assumes "answer_request ap w buffered payload pv b = Some (pv1, s)"
  shows "served_well b s"
proof -
  have acc: "accounted (b\<lparr>bk_meter := m\<rparr>) b1 r = accounted b b1 r" for m b1 and r :: "'z http_reply"
    by (simp add: accounted_def logged_def split: http_reply.split)
  have same: "served_well (b\<lparr>bk_meter := m\<rparr>) s = served_well b s" for m
    by (simp add: served_well_def accounted_def booked_once_def logged_def traced_def
        split: served.split http_reply.split deferred_stream.split)
  show ?thesis
    using assms unfolding answer_request_def Let_def case_prod_unfold
    by (auto simp: served_well_def [of _ "Replied b1 r" for b1 r] same acc
        dest!: direct_search_well converse_well searches_well split: if_splits)
qed


definition sample_api :: "(nat \<times> nat) api" where
  "sample_api = \<lparr>ap_loop = sample_loop,
     ap_metering = \<lparr>mx_sha256 = (\<lambda>_. []), mx_serde = sample_serde, mx_codecs = sample_codecs, mx_images = sample_resize_config\<rparr>,
     ap_limits = \<lparr>il_max_count = 32, il_max_total_base64_bytes = 1000\<rparr>, ap_extract_thinking = True\<rparr>"

definition sample_request_world :: "unit request_world" where
  "sample_request_world = \<lparr>qw_rounds = (\<lambda>_. sample_world), qw_remote = None, qw_plan_time = 0, qw_uuid = ''u'',
     qw_ranks = (\<lambda>_ _. 0), qw_whole_body = (\<lambda>_. Inr [])\<rparr>"


end
